(* ===== verification/Js_Number.thy ===== *)
theory Js_Number
  imports Complex_Main "HOL-Library.Log_Nat"
begin

text \<open>
  ECMAScript numbers. A number is a finite value (a rational, which on every value the
  program can hold is a binary64 value), an infinity or NaN; the two zeros are one value
  here, since the modelled code never divides by a zero it has computed and compares with
  \<open>===\<close> and \<open><\<close> only. The arithmetic operations round to nearest, ties to even, at the
  precision of binary64 (53 bits, least exponent \<open>-1074\<close>) and overflow to an infinity, so
  that a theorem about a sum in the code is about the rounded sum. The lemmas give what
  the component proofs need of rounding: it is monotone, it is the identity on the values
  it produces and on every integer up to \<open>2 ^ 53\<close>.
\<close>

subsection \<open>Binary logarithm of a positive rational\<close>

definition rat_log2 :: "rat \<Rightarrow> int" where
  "rat_log2 x =
     (let (n, d) = quotient_of x; e = bitlen n - bitlen d
      in if 2 powi e \<le> x then e else e - 1)"

lemma bitlen_powi_bounds:
  assumes "0 < n"
  shows "2 powi (bitlen n - 1) \<le> (of_int n :: rat)" and "(of_int n :: rat) < 2 powi bitlen n"
proof -
  have pos: "0 < bitlen n"
    using assms bitlen_eq_zero_iff [of n] bitlen_nonneg [of n] by linarith
  have b: "2 ^ nat (bitlen n - 1) \<le> n" "n < 2 ^ nat (bitlen n)"
    using bitlen_bounds [OF assms] by auto
  have "(of_int (2 ^ nat (bitlen n - 1)) :: rat) \<le> of_int n"
    using b(1) by (simp only: of_int_le_iff)
  then show "2 powi (bitlen n - 1) \<le> (of_int n :: rat)"
    using pos by (simp add: power_int_nonneg_exp)
  have "(of_int n :: rat) < of_int (2 ^ nat (bitlen n))"
    using b(2) by (simp only: of_int_less_iff)
  then show "(of_int n :: rat) < 2 powi bitlen n"
    using pos by (simp add: power_int_nonneg_exp)
qed

lemma rat_log2_bounds:
  assumes "0 < x"
  shows "2 powi (rat_log2 x) \<le> x" and "x < 2 powi (rat_log2 x + 1)"
proof -
  obtain n d where q: "quotient_of x = (n, d)" by (cases "quotient_of x")
  have d: "0 < d" and x: "x = of_int n / of_int d"
    using quotient_of_denom_pos [OF q] quotient_of_div [OF q] by auto
  have n: "0 < n" using assms d x by (simp add: zero_less_divide_iff)
  define e where "e = bitlen n - bitlen d"
  have "2 powi (bitlen n - 1) / 2 powi bitlen d < x"
    unfolding x using bitlen_powi_bounds [OF n] bitlen_powi_bounds [OF d] d
    by (intro frac_less2) auto
  then have lo: "2 powi (e - 1) < x"
    by (simp add: e_def power_int_diff power_int_add)
  have "x < 2 powi bitlen n / 2 powi (bitlen d - 1)"
    unfolding x using bitlen_powi_bounds [OF n] bitlen_powi_bounds [OF d] n
    by (intro frac_less) auto
  then have hi: "x < 2 powi (e + 1)"
    by (simp add: e_def power_int_diff power_int_add)
  have lg: "rat_log2 x = (if 2 powi e \<le> x then e else e - 1)"
    by (simp add: rat_log2_def q e_def)
  show "2 powi (rat_log2 x) \<le> x" using lo by (simp add: lg)
  show "x < 2 powi (rat_log2 x + 1)" using hi by (simp add: lg)
qed

lemma rat_log2_less:
  assumes "0 < x" "x < 2 powi k"
  shows "rat_log2 x < k"
proof -
  have "2 powi (rat_log2 x) < (2 :: rat) powi k"
    using rat_log2_bounds(1) [OF assms(1)] assms(2) by linarith
  then show ?thesis
    using power_int_increasing [of k "rat_log2 x" "2 :: rat"] by (meson leI not_le one_le_numeral)
qed

subsection \<open>Rounding an exact value to binary64\<close>

definition round_half_even :: "rat \<Rightarrow> int" where
  "round_half_even y =
     (let f = \<lfloor>y\<rfloor>; r = y - of_int f
      in if r < 1 / 2 then f else if 1 / 2 < r then f + 1 else if even f then f else f + 1)"

definition ulp_exp :: "rat \<Rightarrow> int" where
  "ulp_exp x = max (rat_log2 \<bar>x\<bar> - 52) (- 1074)"

definition round64 :: "rat \<Rightarrow> rat" where
  "round64 x =
     (if x = 0 then 0
      else of_int (round_half_even (x / 2 powi ulp_exp x)) * 2 powi ulp_exp x)"

definition is_f64 :: "rat \<Rightarrow> bool" where
  "is_f64 x \<longleftrightarrow> round64 x = x"

lemma round_half_even_of_int [simp]: "round_half_even (of_int n) = n"
  by (simp add: round_half_even_def)

lemma round_half_even_mono:
  assumes "x \<le> y" shows "round_half_even x \<le> round_half_even y"
proof -
  have fl: "\<lfloor>x\<rfloor> \<le> \<lfloor>y\<rfloor>" using assms by (rule floor_mono)
  show ?thesis
  proof (cases "\<lfloor>x\<rfloor> = \<lfloor>y\<rfloor>")
    case True
    with assms show ?thesis by (auto simp: round_half_even_def Let_def)
  next
    case False
    with fl have "\<lfloor>x\<rfloor> + 1 \<le> \<lfloor>y\<rfloor>" by simp
    then show ?thesis by (auto simp: round_half_even_def Let_def)
  qed
qed

lemma round_half_even_minus: "round_half_even (- y) = - round_half_even y"
proof (cases "y = of_int \<lfloor>y\<rfloor>")
  case True
  then have "round_half_even (- y) = round_half_even (of_int (- \<lfloor>y\<rfloor>))"
    by (metis of_int_minus)
  also have "\<dots> = - round_half_even (of_int \<lfloor>y\<rfloor>)"
    by (simp only: round_half_even_of_int)
  also have "\<dots> = - round_half_even y" using True by simp
  finally show ?thesis .
next
  case False
  have lt: "of_int \<lfloor>y\<rfloor> < y" "y < of_int \<lfloor>y\<rfloor> + 1"
    using False of_int_floor_le [of y] floor_correct [of y] by (auto simp: order_less_le)
  have "\<lfloor>- y\<rfloor> = - \<lfloor>y\<rfloor> - 1"
    by (rule floor_unique) (use lt in auto)
  then show ?thesis by (auto simp: round_half_even_def Let_def)
qed

lemma round_half_even_error: "\<bar>of_int (round_half_even y) - y\<bar> \<le> 1 / 2"
  using floor_correct [of y] by (auto simp: round_half_even_def Let_def)

lemma round64_0 [simp]: "round64 0 = 0"
  by (simp add: round64_def)

lemma round64_minus: "round64 (- x) = - round64 x"
  by (simp add: round64_def ulp_exp_def round_half_even_minus)

text \<open>A grid point of \<open>x\<close>'s binade bounds the rounding of \<open>x\<close> on the side it lies.\<close>

lemma round64_le_grid:
  assumes "x \<le> of_int m * 2 powi ulp_exp x" "x \<noteq> 0"
  shows "round64 x \<le> of_int m * 2 powi ulp_exp x"
proof -
  have "x / 2 powi ulp_exp x \<le> of_int m"
    using assms(1) by (simp add: pos_divide_le_eq)
  then have "round_half_even (x / 2 powi ulp_exp x) \<le> m"
    using round_half_even_mono round_half_even_of_int by metis
  then show ?thesis using assms(2) by (simp add: round64_def)
qed

lemma round64_ge_grid:
  assumes "of_int m * 2 powi ulp_exp x \<le> x" "x \<noteq> 0"
  shows "of_int m * 2 powi ulp_exp x \<le> round64 x"
proof -
  have "of_int m \<le> x / 2 powi ulp_exp x"
    using assms(1) by (simp add: pos_le_divide_eq)
  then have "m \<le> round_half_even (x / 2 powi ulp_exp x)"
    using round_half_even_mono round_half_even_of_int by metis
  then show ?thesis using assms(2) by (simp add: round64_def)
qed

lemma powi_as_grid:
  assumes "e \<le> k"
  shows "2 powi k = of_int (2 ^ nat (k - e)) * (2 :: rat) powi e"
proof -
  have "(2 :: rat) powi k = 2 powi ((k - e) + e)" by simp
  also have "\<dots> = 2 powi (k - e) * 2 powi e" by (subst power_int_add) auto
  also have "2 powi (k - e) = (2 :: rat) ^ nat (k - e)"
    using assms by (intro power_int_nonneg_exp) simp
  finally show ?thesis by simp
qed

lemma round64_mono_pos:
  assumes "0 < x" "x \<le> y"
  shows "round64 x \<le> round64 y"
proof -
  let ?E = "ulp_exp x" and ?F = "ulp_exp y"
  have y: "0 < y" using assms by simp
  have lg: "rat_log2 x \<le> rat_log2 y"
    using rat_log2_less [OF assms(1), of "rat_log2 y + 1"] rat_log2_bounds(2) [OF y] assms(2)
    by simp
  show ?thesis
  proof (cases "?E = ?F")
    case True
    have "x / 2 powi ?E \<le> y / 2 powi ?E" using assms by (simp add: divide_right_mono)
    then show ?thesis
      using assms y True by (simp add: round64_def round_half_even_mono)
  next
    case False
    with lg have F: "?F = rat_log2 y - 52" and less: "rat_log2 x < rat_log2 y"
      and E: "?E \<le> rat_log2 y"
      using assms y by (auto simp: ulp_exp_def max_def split: if_splits)
    have top: "x \<le> 2 powi rat_log2 y"
    proof -
      have "x < 2 powi (rat_log2 x + 1)" by (rule rat_log2_bounds(2) [OF assms(1)])
      also have "\<dots> \<le> 2 powi rat_log2 y" using less by (intro power_int_increasing) auto
      finally show ?thesis by simp
    qed
    obtain m where m: "2 powi rat_log2 y = of_int m * (2 :: rat) powi ?E"
      using powi_as_grid [OF E] by blast
    have "round64 x \<le> 2 powi rat_log2 y"
      using top assms(1) round64_le_grid [of x m] by (simp add: m)
    also have "2 powi rat_log2 y \<le> round64 y"
    proof -
      have "?F \<le> rat_log2 y" using F by simp
      then obtain n where n: "2 powi rat_log2 y = of_int n * (2 :: rat) powi ?F"
        using powi_as_grid by blast
      show ?thesis
        using round64_ge_grid [of n y] rat_log2_bounds(1) [OF y] y by (simp add: n)
    qed
    finally show ?thesis .
  qed
qed

lemma round64_nonneg: "0 \<le> x \<Longrightarrow> 0 \<le> round64 x"
  using round64_ge_grid [of 0 x] by (cases "x = 0") auto

theorem round64_mono:
  assumes "x \<le> y" shows "round64 x \<le> round64 y"
proof -
  consider "0 < x" | "x \<le> 0" "0 \<le> y" | "y < 0" using assms by linarith
  then show ?thesis
  proof cases
    case 1
    then show ?thesis using assms by (rule round64_mono_pos)
  next
    case 2
    then show ?thesis
      using round64_nonneg [of y] round64_nonneg [of "- x"] by (simp add: round64_minus)
  next
    case 3
    then show ?thesis
      using round64_mono_pos [of "- y" "- x"] assms by (simp add: round64_minus)
  qed
qed

subsection \<open>Values that rounding keeps\<close>

lemma round64_grid_exact:
  assumes "\<bar>m\<bar> < 2 ^ 53" "- 1074 \<le> e"
  shows "round64 (of_int m * 2 powi e) = of_int m * 2 powi e"
proof (cases "m = 0")
  case False
  let ?z = "of_int m * (2 :: rat) powi e"
  have nz: "?z \<noteq> 0" using False by simp
  have "\<bar>?z\<bar> = of_int \<bar>m\<bar> * 2 powi e" by (simp add: abs_mult power_int_abs)
  also have "\<dots> < 2 ^ 53 * 2 powi e"
  proof -
    have "(of_int \<bar>m\<bar> :: rat) < of_int (2 ^ 53)" using assms(1) by (simp only: of_int_less_iff)
    then show ?thesis by simp
  qed
  also have "(2 :: rat) ^ 53 * 2 powi e = 2 powi (53 + e)"
    by (subst power_int_add) auto
  finally have "rat_log2 \<bar>?z\<bar> < 53 + e"
    by (intro rat_log2_less) (use nz in auto)
  then have E: "ulp_exp ?z \<le> e" using assms(2) by (simp add: ulp_exp_def)
  have "?z = of_int (m * 2 ^ nat (e - ulp_exp ?z)) * 2 powi ulp_exp ?z"
    by (subst powi_as_grid [OF E]) simp
  then have "?z / 2 powi ulp_exp ?z = of_int (m * 2 ^ nat (e - ulp_exp ?z))"
    by (simp add: field_simps)
  then have "round_half_even (?z / 2 powi ulp_exp ?z) = m * 2 ^ nat (e - ulp_exp ?z)"
    by (simp only: round_half_even_of_int)
  then show ?thesis
    using nz \<open>?z = of_int (m * 2 ^ nat (e - ulp_exp ?z)) * 2 powi ulp_exp ?z\<close>
    by (simp add: round64_def)
qed simp

lemma round64_mantissa_le:
  assumes "x \<noteq> 0"
  shows "\<bar>round_half_even (x / 2 powi ulp_exp x)\<bar> \<le> 2 ^ 53"
proof -
  let ?y = "x / 2 powi ulp_exp x"
  have "\<bar>x\<bar> < 2 powi (rat_log2 \<bar>x\<bar> + 1)" using assms by (intro rat_log2_bounds) simp
  also have "\<dots> \<le> 2 powi (53 + ulp_exp x)"
    by (intro power_int_increasing) (auto simp: ulp_exp_def)
  also have "\<dots> = 2 ^ 53 * 2 powi ulp_exp x" by (subst power_int_add) auto
  finally have "\<bar>x\<bar> < 2 ^ 53 * 2 powi ulp_exp x" .
  then have "\<bar>?y\<bar> \<le> 2 ^ 53" by (simp add: power_int_abs pos_divide_le_eq)
  then have "?y \<le> 2 ^ 53" and "- (2 ^ 53) \<le> ?y" by (simp_all only: abs_le_iff minus_le_iff)
  then have "?y \<le> of_int (2 ^ 53)" and "of_int (- (2 ^ 53)) \<le> ?y"
    by (simp_all only: of_int_minus of_int_power of_int_numeral)
  then have "round_half_even ?y \<le> 2 ^ 53" and "- (2 ^ 53) \<le> round_half_even ?y"
    using round_half_even_mono round_half_even_of_int by metis+
  then show ?thesis by linarith
qed

lemma round64_idem: "round64 (round64 x) = round64 x"
proof (cases "x = 0")
  case False
  let ?m = "round_half_even (x / 2 powi ulp_exp x)" and ?e = "ulp_exp x"
  have r: "round64 x = of_int ?m * 2 powi ?e" using False by (simp add: round64_def)
  have e: "- 1074 \<le> ?e" by (simp add: ulp_exp_def)
  show ?thesis
  proof (cases "\<bar>?m\<bar> = 2 ^ 53")
    case True
    have p: "2 powi (?e + 53) = (2 ^ 53) * (2 :: rat) powi ?e" by (subst power_int_add) auto
    from True have "round64 x = of_int (sgn ?m) * 2 powi (?e + 53)"
      unfolding r p by (simp add: sgn_if abs_if split: if_splits)
    moreover have "round64 (of_int (sgn ?m) * 2 powi (?e + 53)) = of_int (sgn ?m) * 2 powi (?e + 53)"
      by (rule round64_grid_exact) (use e in \<open>auto simp: sgn_if\<close>)
    ultimately show ?thesis by simp
  next
    case False
    then have "\<bar>?m\<bar> < 2 ^ 53" using round64_mantissa_le [OF \<open>x \<noteq> 0\<close>] by linarith
    then show ?thesis unfolding r by (rule round64_grid_exact [OF _ e])
  qed
qed simp

lemma is_f64_round64 [simp]: "is_f64 (round64 x)"
  by (simp add: is_f64_def round64_idem)

lemma is_f64_of_int [simp]:
  assumes "\<bar>n\<bar> \<le> 2 ^ 53" shows "is_f64 (of_int n)"
proof (cases "\<bar>n\<bar> = 2 ^ 53")
  case True
  then have "n = sgn n * 2 ^ 53" by (simp add: sgn_if abs_if split: if_splits)
  then have "(of_int n :: rat) = of_int (sgn n) * 2 powi 53"
    by (metis of_int_mult of_int_numeral of_int_power power_int_numeral)
  then show ?thesis
    using round64_grid_exact [of "sgn n" 53] by (simp add: is_f64_def sgn_if split: if_splits)
next
  case False
  then show ?thesis using round64_grid_exact [of n 0] assms by (simp add: is_f64_def)
qed

lemma round64_le: "x \<le> z \<Longrightarrow> is_f64 z \<Longrightarrow> round64 x \<le> z"
  using round64_mono [of x z] by (simp add: is_f64_def)

lemma round64_ge: "z \<le> x \<Longrightarrow> is_f64 z \<Longrightarrow> z \<le> round64 x"
  using round64_mono [of z x] by (simp add: is_f64_def)


subsection \<open>Numbers and their operations\<close>

datatype number = Fin rat | PInf | NInf | NaN

definition max_f64 :: rat where
  "max_f64 = (2 ^ 53 - 1) * 2 ^ 971"

text \<open>The literal value, so that evaluation does not raise 2 to the power 971.\<close>

lemma max_f64_code [code]:
  "max_f64 =
     179769313486231570814527423731704356798070567525844996598917476803157260780028538760589558632766878171540458953514382464234321326889464182768467546703537516986049910576551282076245490090389328944075868508455133942304583236903222948165808559332123348274797826204144723168738177180919299881250404026184124858368"
  by (simp add: max_f64_def)

definition num_of :: "rat \<Rightarrow> number" where
  "num_of x =
     (let r = round64 x in if max_f64 < r then PInf else if r < - max_f64 then NInf else Fin r)"

abbreviation num_of_int :: "int \<Rightarrow> number" where
  "num_of_int n \<equiv> Fin (of_int n)"

fun num_neg :: "number \<Rightarrow> number" where
  "num_neg (Fin a) = Fin (- a)"
| "num_neg PInf = NInf"
| "num_neg NInf = PInf"
| "num_neg NaN = NaN"

fun num_add :: "number \<Rightarrow> number \<Rightarrow> number" where
  "num_add (Fin a) (Fin b) = num_of (a + b)"
| "num_add NaN _ = NaN"
| "num_add _ NaN = NaN"
| "num_add PInf NInf = NaN"
| "num_add NInf PInf = NaN"
| "num_add PInf _ = PInf"
| "num_add _ PInf = PInf"
| "num_add NInf _ = NInf"
| "num_add _ NInf = NInf"

definition num_sub :: "number \<Rightarrow> number \<Rightarrow> number" where
  "num_sub a b = num_add a (num_neg b)"

text \<open>The sign of a number, for the products and quotients that involve an infinity.\<close>

fun num_sgn :: "number \<Rightarrow> int" where
  "num_sgn (Fin a) = (if 0 < a then 1 else if a < 0 then - 1 else 0)"
| "num_sgn PInf = 1"
| "num_sgn NInf = - 1"
| "num_sgn NaN = 0"

definition num_inf :: "int \<Rightarrow> number" where
  "num_inf s = (if 0 < s then PInf else if s < 0 then NInf else NaN)"

fun num_mul :: "number \<Rightarrow> number \<Rightarrow> number" where
  "num_mul (Fin a) (Fin b) = num_of (a * b)"
| "num_mul NaN _ = NaN"
| "num_mul _ NaN = NaN"
| "num_mul a b = num_inf (num_sgn a * num_sgn b)"

fun num_div :: "number \<Rightarrow> number \<Rightarrow> number" where
  "num_div (Fin a) (Fin b) =
     (if b = 0 then num_inf (num_sgn (Fin a)) else num_of (a / b))"
| "num_div NaN _ = NaN"
| "num_div _ NaN = NaN"
| "num_div (Fin a) _ = Fin 0"
| "num_div a (Fin b) = num_inf (num_sgn a * (if b < 0 then - 1 else 1))"
| "num_div _ _ = NaN"

fun num_less :: "number \<Rightarrow> number \<Rightarrow> bool" where
  "num_less (Fin a) (Fin b) = (a < b)"
| "num_less (Fin a) PInf = True"
| "num_less NInf (Fin b) = True"
| "num_less NInf PInf = True"
| "num_less _ _ = False"

definition num_eq :: "number \<Rightarrow> number \<Rightarrow> bool" where
  "num_eq a b \<longleftrightarrow> a \<noteq> NaN \<and> a = b"

definition num_le :: "number \<Rightarrow> number \<Rightarrow> bool" where
  "num_le a b \<longleftrightarrow> num_less a b \<or> num_eq a b"

definition num_max :: "number \<Rightarrow> number \<Rightarrow> number" where
  "num_max a b = (if a = NaN \<or> b = NaN then NaN else if num_less a b then b else a)"

definition num_min :: "number \<Rightarrow> number \<Rightarrow> number" where
  "num_min a b = (if a = NaN \<or> b = NaN then NaN else if num_less b a then b else a)"

fun num_abs :: "number \<Rightarrow> number" where
  "num_abs (Fin a) = Fin \<bar>a\<bar>"
| "num_abs NaN = NaN"
| "num_abs _ = PInf"

text \<open>\<open>Math.round\<close> takes the nearest integer and rounds a tie upwards; it does not round the sum.\<close>

fun num_round :: "number \<Rightarrow> number" where
  "num_round (Fin a) = Fin (of_int \<lfloor>a + 1 / 2\<rfloor>)"
| "num_round x = x"

fun is_finite :: "number \<Rightarrow> bool" where
  "is_finite (Fin _) = True"
| "is_finite _ = False"

definition max_safe :: int where
  "max_safe = 2 ^ 53 - 1"

fun is_safe_integer :: "number \<Rightarrow> bool" where
  "is_safe_integer (Fin a) \<longleftrightarrow> a = of_int \<lfloor>a\<rfloor> \<and> \<bar>\<lfloor>a\<rfloor>\<bar> \<le> max_safe"
| "is_safe_integer _ = False"

text \<open>\<open>Number.isSafeInteger\<close> on a field that only ever holds integers.\<close>

definition safe_int :: "int \<Rightarrow> bool" where
  "safe_int n \<longleftrightarrow> \<bar>n\<bar> \<le> max_safe"

text \<open>The values that are numbers of the language: finite ones are binary64 values.\<close>

fun wf_num :: "number \<Rightarrow> bool" where
  "wf_num (Fin a) \<longleftrightarrow> is_f64 a \<and> \<bar>a\<bar> \<le> max_f64"
| "wf_num _ = True"

subsection \<open>Laws of the operations\<close>

lemma is_f64_0 [simp]: "is_f64 0"
  by (simp add: is_f64_def)

lemma wf_num_of [simp]: "wf_num (num_of x)"
  by (auto simp: num_of_def Let_def)

lemma num_of_exact:
  assumes "is_f64 x" "\<bar>x\<bar> \<le> max_f64" shows "num_of x = Fin x"
  using assms by (auto simp: num_of_def is_f64_def abs_le_iff not_less)

lemma wf_num_add [simp]: "wf_num (num_add a b)"
  by (cases "(a, b)" rule: num_add.cases) auto

lemma max_safe_le_max_f64: "of_int max_safe \<le> max_f64"
  by (simp add: max_safe_def max_f64_def)

lemma wf_num_of_int:
  assumes "\<bar>n\<bar> \<le> 2 ^ 53" shows "wf_num (num_of_int n)"
proof -
  have "\<bar>of_int n :: rat\<bar> = of_int \<bar>n\<bar>" by simp
  also have "(of_int \<bar>n\<bar> :: rat) \<le> of_int (2 ^ 53)" using assms by (simp only: of_int_le_iff)
  also have "\<dots> \<le> max_f64" by (simp add: max_f64_def)
  finally show ?thesis using assms by simp
qed

lemma num_of_of_int:
  assumes "\<bar>n\<bar> \<le> 2 ^ 53" shows "num_of (of_int n) = num_of_int n"
  using wf_num_of_int [OF assms] by (intro num_of_exact) auto

lemma num_add_of_int:
  assumes "\<bar>m + n\<bar> \<le> 2 ^ 53"
  shows "num_add (num_of_int m) (num_of_int n) = num_of_int (m + n)"
  using num_of_of_int [OF assms] by simp

lemma num_less_irrefl [simp]: "\<not> num_less a a"
  by (cases a) auto

lemma num_less_trans: "num_less a b \<Longrightarrow> num_less b c \<Longrightarrow> num_less a c"
  by (cases a; cases b; cases c) auto

lemma num_less_asym: "num_less a b \<Longrightarrow> \<not> num_less b a"
  by (cases a; cases b) auto

lemma num_less_linear:
  "a \<noteq> NaN \<Longrightarrow> b \<noteq> NaN \<Longrightarrow> num_less a b \<or> a = b \<or> num_less b a"
  by (cases a; cases b) auto

lemma num_le_Fin [simp]: "num_le (Fin a) (Fin b) \<longleftrightarrow> a \<le> b"
  by (auto simp: num_le_def num_eq_def)

lemma num_le_NaN [simp]: "\<not> num_le NaN b" "\<not> num_le a NaN"
  by (cases a; cases b; auto simp: num_le_def num_eq_def)+

lemma num_le_PInf [simp]: "num_le a PInf \<longleftrightarrow> a \<noteq> NaN"
  by (cases a) (auto simp: num_le_def num_eq_def)

lemma num_PInf_le [simp]: "num_le PInf b \<longleftrightarrow> b = PInf"
  by (cases b) (auto simp: num_le_def num_eq_def)

lemma num_le_NInf [simp]: "num_le a NInf \<longleftrightarrow> a = NInf"
  by (cases a) (auto simp: num_le_def num_eq_def)

lemma num_eq_Fin [simp]: "num_eq (Fin a) (Fin b) \<longleftrightarrow> a = b"
  by (simp add: num_eq_def)

lemma num_le_trans: "num_le a b \<Longrightarrow> num_le b c \<Longrightarrow> num_le a c"
  by (cases a; cases b; cases c) (auto simp: num_le_def num_eq_def)

lemma num_not_less: "a \<noteq> NaN \<Longrightarrow> b \<noteq> NaN \<Longrightarrow> \<not> num_less a b \<longleftrightarrow> num_le b a"
  by (cases a; cases b) (auto simp: num_le_def num_eq_def)

text \<open>Adding a non-negative amount never lowers a number, whatever the rounding does.\<close>

lemma num_le_add:
  assumes "wf_num (Fin a)" "0 \<le> b"
  shows "num_le (Fin a) (num_add (Fin a) (Fin b))"
proof -
  have "a \<le> round64 (a + b)" using assms by (intro round64_ge) auto
  moreover have "\<bar>a\<bar> \<le> max_f64" using assms by simp
  ultimately show ?thesis by (auto simp: num_of_def Let_def)
qed

text \<open>A rounded sum is within a binary64 limit exactly when the exact sum is, if the limit
  and the sum lie where every integer is a binary64 value.\<close>

lemma num_add_le_int_limit:
  assumes "\<bar>l\<bar> \<le> max_safe"
  shows "num_le (num_add (num_of_int m) (num_of_int n)) (num_of_int l) \<longleftrightarrow> m + n \<le> l"
proof
  assume le: "num_le (num_add (num_of_int m) (num_of_int n)) (num_of_int l)"
  show "m + n \<le> l"
  proof (rule ccontr)
    assume "\<not> m + n \<le> l"
    then have "of_int (l + 1) \<le> (of_int (m + n) :: rat)" by (simp only: of_int_le_iff)
    moreover have "is_f64 (of_int (l + 1))"
      by (rule is_f64_of_int) (use assms in \<open>auto simp: max_safe_def\<close>)
    ultimately have "of_int (l + 1) \<le> round64 (of_int (m + n))" by (rule round64_ge)
    moreover have "round64 (of_int (m + n)) \<le> of_int l \<or> round64 (of_int (m + n)) < - max_f64"
      using le by (auto simp: num_of_def Let_def num_le_def num_eq_def split: if_splits)
    moreover have "- max_f64 \<le> (of_int l :: rat)"
      using assms max_safe_le_max_f64 by (simp add: max_safe_def abs_le_iff)
    ultimately show False by auto
  qed
next
  assume le: "m + n \<le> l"
  have "round64 (of_int (m + n)) \<le> of_int l"
    by (rule round64_le) (use le assms in \<open>auto simp: max_safe_def intro!: is_f64_of_int\<close>)
  moreover have "(of_int l :: rat) \<le> max_f64"
    using assms max_safe_le_max_f64 by (simp add: max_safe_def abs_le_iff)
  ultimately show "num_le (num_add (num_of_int m) (num_of_int n)) (num_of_int l)"
    by (auto simp: num_of_def Let_def num_le_def num_eq_def)
qed

lemma is_safe_integer_of_int [simp]: "is_safe_integer (num_of_int n) \<longleftrightarrow> safe_int n"
  by (simp add: safe_int_def)

lemma is_safe_integerE:
  assumes "is_safe_integer x"
  obtains n where "x = num_of_int n" and "safe_int n"
  using assms by (cases x) (auto simp: safe_int_def)

lemma is_f64_multiple:
  assumes "is_f64 x" obtains n :: int where "x = of_int n * 2 powi - 1074"
proof (cases "x = 0")
  case True
  then show thesis using that [of 0] by simp
next
  case False
  let ?n = "round_half_even (x / 2 powi ulp_exp x)"
  have x: "x = of_int ?n * 2 powi ulp_exp x"
    using assms False unfolding is_f64_def round64_def by simp
  have "(2 :: rat) powi ulp_exp x = of_int (2 ^ nat (ulp_exp x + 1074)) * 2 powi - 1074"
    using powi_as_grid [of "- 1074" "ulp_exp x"] by (simp add: ulp_exp_def)
  then show thesis using x that [of "?n * 2 ^ nat (ulp_exp x + 1074)"]
    by (metis (no_types, lifting) mult.assoc of_int_mult)
qed

text \<open>A difference of two distinct values does not round to zero.\<close>

lemma round64_diff_pos:
  assumes "is_f64 a" "is_f64 b" "a < b"
  shows "0 < round64 (b - a)"
proof -
  obtain m n where a: "a = of_int m * 2 powi - 1074" and b: "b = of_int n * 2 powi - 1074"
    using is_f64_multiple assms(1,2) by metis
  let ?e = "(2 :: rat) powi - 1074"
  have pos: "0 < ?e" by simp
  then have "m < n" using assms(3) unfolding a b by (simp only: mult_less_cancel_right_pos of_int_less_iff)
  then have "of_int 1 * ?e \<le> of_int (n - m) * ?e"
    using pos by (intro mult_right_mono) (simp_all add: less_imp_le)
  then have "of_int 1 * ?e \<le> b - a" unfolding a b by (simp only: of_int_diff left_diff_distrib)
  moreover have "is_f64 (of_int 1 * ?e)" unfolding is_f64_def by (rule round64_grid_exact) simp_all
  ultimately have "of_int 1 * ?e \<le> round64 (b - a)" by (rule round64_ge)
  then show ?thesis using pos by (simp only: of_int_1 mult_1)
qed

lemma num_sgn_sub:
  assumes "wf_num (Fin a)" "wf_num (Fin b)"
  shows "num_sgn (num_sub (Fin b) (Fin a)) = (if a < b then 1 else if b < a then - 1 else 0)"
proof -
  have sgn: "num_sgn (num_of x) = (if 0 < round64 x then 1 else if round64 x < 0 then - 1 else 0)" for x
    by (simp add: num_of_def Let_def max_f64_def)
  have "0 < round64 (b - a)" if "a < b" using that assms by (simp add: round64_diff_pos)
  moreover have "round64 (b - a) < 0" if "b < a"
    using that assms round64_diff_pos [of b a] round64_minus [of "a - b"] by simp
  ultimately show ?thesis
    by (cases "a < b"; cases "b < a") (simp_all add: num_sub_def sgn less_imp_le)
qed
end
