(* ===== verification/Prelude.thy ===== *)
theory Prelude
  imports Js_Number "HOL-Library.AList" "HOL-Library.Multiset" "HOL-Library.Char_ord"
    "HOL-Library.List_Lexorder"
begin

text \<open>
  What the component theories share. Every function of the code that can throw returns a
  \<open>result\<close>: \<open>Inl\<close> the error object it throws, \<open>Inr\<close> its value. \<open>guards\<close> is a run of
  \<open>if (condition) throw error\<close> statements, \<open>and_then\<close> the sequencing of two statements,
  \<open>check_all\<close> and \<open>fold_result\<close> the loops whose body may throw. A JavaScript \<open>Map\<close> or
  object whose order of insertion is observable is an association list (\<open>map_of\<close> reads
  it, \<open>AList.update\<close> is \<open>set\<close>); the record \<open>host\<close> holds the functions the program calls
  in its platform and whose code is not in the repository.
\<close>

named_theorems guard_simps

subsection \<open>Thrown errors\<close>

datatype error_code =
    BUDGET_EXHAUSTED | CLOUD_REQUIRED | CONFIG_INVALID | EVIDENCE_INVALID
  | FULL_EVAL_FORBIDDEN | HARNESS_INVALID | INTEGRITY_VIOLATION | INVALID_TRANSITION
  | PROTOCOL_MISMATCH | STORE_CORRUPT | USER_INPUT_REQUIRED

datatype error =
    Error string
  | DarkFactoryError error_code string
  | SelectionError string
  | CampaignTransitionError string
  | CampaignIntegrityError string
  | CampaignConflictError string string
  | CampaignAlreadyInitializedError
  | CampaignNotInitializedError
  | SchemaValidationError string
  | UnsafeEvidenceError string
  | OneUseLedgerError string
  | LocalPanelPolicyError string
  | CanonicalJsonError string
  | AutonomousOptimizationLoopError string

type_synonym 'a result = "error + 'a"

subsection \<open>Sequencing of statements that may throw\<close>

definition and_then :: "'e + 'a \<Rightarrow> ('a \<Rightarrow> 'e + 'b) \<Rightarrow> 'e + 'b" where
  "and_then r f = (case r of Inl e \<Rightarrow> Inl e | Inr a \<Rightarrow> f a)"

lemma and_then_simps [simp]:
  "and_then (Inl e) f = Inl e" "and_then (Inr a) f = f a"
  by (simp_all add: and_then_def)

lemma and_then_Inr [simp]: "and_then r f = Inr b \<longleftrightarrow> (\<exists>a. r = Inr a \<and> f a = Inr b)"
  by (cases r) auto

lemma and_then_cong [fundef_cong]:
  "r = r' \<Longrightarrow> (\<And>a. r' = Inr a \<Longrightarrow> f a = g a) \<Longrightarrow> and_then r f = and_then r' g"
  by (cases r') auto

lemma ex_unit [simp]: "(\<exists>u :: unit. P u) \<longleftrightarrow> P ()"
  by (metis unit.exhaust)

fun guards :: "(bool \<times> 'e) list \<Rightarrow> 'e + unit" where
  "guards [] = Inr ()"
| "guards ((violated, e) # cs) = (if violated then Inl e else guards cs)"

lemma guards_ok [guard_simps]: "guards cs = Inr u \<longleftrightarrow> (\<forall>c \<in> set cs. \<not> fst c)"
  by (induction cs rule: guards.induct) auto

lemma guards_append: "guards (cs @ ds) = and_then (guards cs) (\<lambda>_. guards ds)"
  by (induction cs rule: guards.induct) auto

text \<open>Proofs read a run of guards through \<open>guards_ok\<close>; it is not unfolded by default.\<close>

declare guards.simps [simp del]

fun check_all :: "('a \<Rightarrow> 'e + unit) \<Rightarrow> 'a list \<Rightarrow> 'e + unit" where
  "check_all f [] = Inr ()"
| "check_all f (x # xs) = and_then (f x) (\<lambda>_. check_all f xs)"

lemma check_all_ok [guard_simps]: "check_all f xs = Inr u \<longleftrightarrow> (\<forall>x \<in> set xs. f x = Inr ())"
  by (induction xs) auto

fun fold_result :: "('s \<Rightarrow> 'a \<Rightarrow> 'e + 's) \<Rightarrow> 's \<Rightarrow> 'a list \<Rightarrow> 'e + 's" where
  "fold_result f s [] = Inr s"
| "fold_result f s (x # xs) = and_then (f s x) (\<lambda>s'. fold_result f s' xs)"

lemma fold_result_append:
  "fold_result f s (xs @ ys) = and_then (fold_result f s xs) (\<lambda>s'. fold_result f s' ys)"
  by (induction xs arbitrary: s) (auto simp: and_then_def split: sum.splits)

lemma fold_result_invariant:
  assumes "fold_result f s xs = Inr t" "I s"
    and "\<And>s x s'. x \<in> set xs \<Longrightarrow> I s \<Longrightarrow> f s x = Inr s' \<Longrightarrow> I s'"
  shows "I t"
  using assms(1,2,3)
proof (induction xs arbitrary: s)
  case (Cons x xs)
  then obtain s' where s': "f s x = Inr s'" "fold_result f s' xs = Inr t" by auto
  have "I s'" using Cons.prems(2) s'(1) by (rule Cons.prems(3) [rotated]) simp
  moreover have "I u'" if "y \<in> set xs" "I u" "f u y = Inr u'" for u y u'
    using that by (intro Cons.prems(3) [of y u u']) auto
  ultimately show ?case using s'(2) by (intro Cons.IH)
qed simp

lemma fold_result_each:
  "fold_result f s xs = Inr t \<Longrightarrow> x \<in> set xs \<Longrightarrow> \<exists>u v. f u x = Inr v"
  by (induction xs arbitrary: s) auto

fun map_result :: "('a \<Rightarrow> 'e + 'b) \<Rightarrow> 'a list \<Rightarrow> 'e + 'b list" where
  "map_result f [] = Inr []"
| "map_result f (x # xs) = and_then (f x) (\<lambda>y. and_then (map_result f xs) (\<lambda>ys. Inr (y # ys)))"

lemma map_result_cong [fundef_cong]:
  "xs = ys \<Longrightarrow> (\<And>x. x \<in> set ys \<Longrightarrow> f x = g x) \<Longrightarrow> map_result f xs = map_result g ys"
  by (induction xs arbitrary: ys) auto

lemma map_result_list_all2:
  "map_result f xs = Inr ys \<longleftrightarrow> list_all2 (\<lambda>x y. f x = Inr y) xs ys"
  by (induction xs arbitrary: ys) (auto simp: list_all2_Cons1)

subsection \<open>Sizes of sets, maps in insertion order\<close>

text \<open>\<open>new Set(xs).size\<close> is \<open>card (set xs)\<close>; equal to the length, it says the entries differ.\<close>

lemma card_set_eq_length [simp]: "card (set xs) = length xs \<longleftrightarrow> distinct xs"
  by (metis card_distinct distinct_card)

lemma length_eq_card_set [simp]: "length xs = card (set xs) \<longleftrightarrow> distinct xs"
  by (metis card_distinct distinct_card)

lemma distinct_map_update: "distinct (map fst xs) \<Longrightarrow> distinct (map fst (AList.update k v xs))"
  by (rule distinct_update)

lemma map_of_update [simp]: "map_of (AList.update k v xs) = (map_of xs)(k \<mapsto> v)"
  by (rule update_conv')

lemma set_update_subset: "set (AList.update k v xs) \<subseteq> insert (k, v) (set xs)"
  by (induction xs) auto

text \<open>\<open>[...new Set(xs)]\<close>: the entries in the order of their first occurrence.\<close>

definition new_set :: "'a list \<Rightarrow> 'a list" where
  "new_set xs = rev (remdups (rev xs))"

lemma set_new_set [simp]: "set (new_set xs) = set xs"
  by (simp add: new_set_def)

lemma distinct_new_set [simp]: "distinct (new_set xs)"
  by (simp add: new_set_def)

text \<open>
  \<open>Object.entries\<close>: the own members, those whose name is an array index first and in
  ascending order, the others in the order they were added.
\<close>

definition array_index :: "string \<Rightarrow> nat option" where
  "array_index k =
     (let n = foldl (\<lambda>n c. 10 * n + (of_char c - 48)) 0 k
      in if k \<noteq> [] \<and> list_all (\<lambda>c. c \<in> set ''0123456789'') k \<and> (k = ''0'' \<or> hd k \<noteq> CHR ''0'') \<and>
            n < 4294967295
         then Some n else None)"

definition object_entries :: "(string \<times> 'a) list \<Rightarrow> (string \<times> 'a) list" where
  "object_entries xs =
     sort_key (\<lambda>(k, _). the (array_index k)) (filter (\<lambda>(k, _). array_index k \<noteq> None) xs) @
     filter (\<lambda>(k, _). array_index k = None) xs"

lemma set_object_entries [simp]: "set (object_entries xs) = set xs"
  by (auto simp: object_entries_def)

text \<open>
  The members every object inherits from \<open>Object.prototype\<close>; reading one that an object does
  not have itself gives a function or an object. Names in the first list are made of letters.
\<close>

definition OBJECT_PROTOTYPE :: "string list" where
  "OBJECT_PROTOTYPE = [''constructor'', ''hasOwnProperty'', ''isPrototypeOf'',
     ''propertyIsEnumerable'', ''toLocaleString'', ''toString'', ''valueOf'']"

definition INHERITED_MEMBERS :: "string list" where
  "INHERITED_MEMBERS = OBJECT_PROTOTYPE @ [''__proto__'', ''__defineGetter__'', ''__defineSetter__'',
     ''__lookupGetter__'', ''__lookupSetter__'']"

lemma find_SomeD: "List.find P xs = Some x \<Longrightarrow> x \<in> set xs \<and> P x"
  by (induction xs) (auto split: if_splits)

subsection \<open>Character classes of the regular expressions\<close>

definition lower_hex :: "char \<Rightarrow> bool" where
  "lower_hex c \<longleftrightarrow> c \<in> set ''0123456789abcdef''"

definition digit :: "char \<Rightarrow> bool" where
  "digit c \<longleftrightarrow> c \<in> set ''0123456789''"

definition lower_alnum :: "char \<Rightarrow> bool" where
  "lower_alnum c \<longleftrightarrow> c \<in> set ''0123456789abcdefghijklmnopqrstuvwxyz''"

definition alnum :: "char \<Rightarrow> bool" where
  "alnum c \<longleftrightarrow>
     c \<in> set ''0123456789abcdefghijklmnopqrstuvwxyzABCDEFGHIJKLMNOPQRSTUVWXYZ''"

text \<open>\<open>/^[a-f0-9]{64}$/u\<close> and the two forms of a Git object id in the code.\<close>

definition is_sha256 :: "string \<Rightarrow> bool" where
  "is_sha256 s \<longleftrightarrow> length s = 64 \<and> list_all lower_hex s"

definition is_git_oid :: "string \<Rightarrow> bool" where
  "is_git_oid s \<longleftrightarrow> (length s = 40 \<or> length s = 64) \<and> list_all lower_hex s"

text \<open>\<open>/^[A-Za-z0-9][A-Za-z0-9._:-]{0,n}$/u\<close>\<close>

definition is_token :: "nat \<Rightarrow> string \<Rightarrow> bool" where
  "is_token n s =
     (case s of [] \<Rightarrow> False
      | c # cs \<Rightarrow> alnum c \<and> length cs \<le> n \<and> list_all (\<lambda>d. alnum d \<or> d \<in> set ''._:-'') cs)"

lemma is_token_Nil [simp]: "\<not> is_token n []"
  by (simp add: is_token_def)

lemma not_is_sha256_Nil [simp]: "\<not> is_sha256 []"
  by (simp add: is_sha256_def)

subsection \<open>Decimal numerals\<close>

text \<open>\<open>String(n)\<close> of a non-negative integer, \<open>padStart(3, "0")\<close>, and \<open>parseInt(s, 10)\<close> of digits.\<close>

definition digit_char :: "nat \<Rightarrow> char" where
  "digit_char d = ''0123456789'' ! d"

fun decimal :: "nat \<Rightarrow> string" where
  "decimal n = (if n < 10 then [digit_char n] else decimal (n div 10) @ [digit_char (n mod 10)])"

declare decimal.simps [simp del]

definition pad_start :: "nat \<Rightarrow> char \<Rightarrow> string \<Rightarrow> string" where
  "pad_start n c s = replicate (n - length s) c @ s"

definition digit_value :: "char \<Rightarrow> nat" where
  "digit_value c = of_char c - 48"

definition parse_decimal :: "string \<Rightarrow> nat" where
  "parse_decimal s = foldl (\<lambda>n c. 10 * n + digit_value c) 0 s"

lemma less_10_cases:
  "(n :: nat) < 10 \<Longrightarrow>
     n = 0 \<or> n = 1 \<or> n = 2 \<or> n = 3 \<or> n = 4 \<or> n = 5 \<or> n = 6 \<or> n = 7 \<or> n = 8 \<or> n = 9"
  by arith

lemma digit_char_digit: "n < 10 \<Longrightarrow> digit (digit_char n)"
  by (drule less_10_cases, elim disjE) (simp_all add: digit_char_def digit_def)

lemma digit_value_char: "n < 10 \<Longrightarrow> digit_value (digit_char n) = n"
  by (drule less_10_cases, elim disjE) (simp_all add: digit_char_def digit_value_def of_char_def)

lemma decimal_digits: "list_all digit (decimal n)"
proof (induction n rule: decimal.induct)
  case (1 n)
  then show ?case
    by (subst decimal.simps) (auto simp: digit_char_digit)
qed

lemma decimal_nonempty [simp]: "decimal n \<noteq> []"
  by (subst decimal.simps) auto

lemma parse_decimal_append:
  "parse_decimal (xs @ [c]) = 10 * parse_decimal xs + digit_value c"
  by (simp add: parse_decimal_def)

lemma parse_decimal_decimal [simp]: "parse_decimal (decimal n) = n"
proof (induction n rule: decimal.induct)
  case (1 n)
  show ?case
  proof (cases "n < 10")
    case True
    then show ?thesis by (subst decimal.simps) (simp add: parse_decimal_def digit_value_char)
  next
    case False
    with 1 show ?thesis
      by (subst decimal.simps) (simp add: parse_decimal_append digit_value_char)
  qed
qed

lemma parse_decimal_zeros: "parse_decimal (replicate k CHR ''0'' @ s) = parse_decimal s"
  by (induction k) (simp_all add: parse_decimal_def digit_value_def of_char_def)

subsection \<open>The platform\<close>

text \<open>
  The platform functions the modelled code calls and whose code is outside the repository:
  the SHA-256 of \<open>node:crypto\<close> as lowercase hex, \<open>Date.parse\<close> (\<open>None\<close> where it returns
  NaN), \<open>new Date(t).toISOString()\<close>, \<open>String.prototype.localeCompare\<close>, and the decimal
  form \<open>JSON.stringify\<close> gives a number that is not a safe integer.
\<close>

record host =
  sha256 :: "string \<Rightarrow> string"
  date_parse :: "string \<Rightarrow> int option"
  to_iso_string :: "int \<Rightarrow> string"
  locale_compare :: "string \<Rightarrow> string \<Rightarrow> int"
  number_string :: "rat \<Rightarrow> string"

text \<open>A canonical UTC timestamp parses, and prints back as itself.\<close>

definition canonical_time :: "host \<Rightarrow> string \<Rightarrow> int option" where
  "canonical_time h s =
     (case date_parse h s of
        None \<Rightarrow> None
      | Some t \<Rightarrow> if to_iso_string h t = s then Some t else None)"

text \<open>A platform with a constant hash and years for times, on which examples are evaluated.\<close>

definition simple_host :: host where
  "simple_host = \<lparr>sha256 = (\<lambda>s. replicate 64 CHR ''0''), date_parse = (\<lambda>s. Some (int (parse_decimal s))),
     to_iso_string = (\<lambda>t. decimal (nat t)), locale_compare = (\<lambda>a b. 0), number_string = (\<lambda>a. [])\<rparr>"

text \<open>A digest of one repeated character; kept folded in the proofs.\<close>

definition sixty_four :: "char \<Rightarrow> string" where
  "sixty_four c = replicate 64 c"

lemma sixty_four_sha [simp]: "is_sha256 (sixty_four c) \<longleftrightarrow> lower_hex c"
  by (simp add: sixty_four_def is_sha256_def list_all_iff del: replicate.simps)

lemma hex_examples [simp]:
  "lower_hex CHR ''0''" "lower_hex CHR ''a''" "lower_hex CHR ''b''" "lower_hex CHR ''c''"
  "lower_hex CHR ''d''" "lower_hex CHR ''e''"
  by (simp_all add: lower_hex_def)

lemma sixty_four_eq [simp]: "sixty_four c = sixty_four d \<longleftrightarrow> c = d"
  by (simp add: sixty_four_def del: replicate.simps)

lemma example_checks:
  "is_sha256 (sixty_four CHR ''c'')" "is_sha256 (sixty_four CHR ''0'')"
  "is_sha256 (sixty_four CHR ''d'')" "is_sha256 (sixty_four CHR ''e'')"
  by (simp_all add: lower_hex_def)

lemma example_digits:
  "digit_value CHR ''0'' = 0" "digit_value CHR ''2'' = 2" "digit_value CHR ''6'' = 6"
  "digit_value CHR ''7'' = 7" "digit_value CHR ''8'' = 8"
  by (simp_all add: digit_value_def of_char_def)

lemma example_years:
  "decimal 2026 = ''2026''" "decimal 2027 = ''2027''" "decimal 2028 = ''2028''"
  by (simp_all add: decimal.simps digit_char_def)

lemma example_times:
  "canonical_time simple_host ''2026'' = Some 2026" "canonical_time simple_host ''2027'' = Some 2027"
  "canonical_time simple_host ''2028'' = Some 2028"
  by (simp_all add: canonical_time_def simple_host_def parse_decimal_def example_digits example_years)

end
