(* ===== verification/Machines.thy ===== *)
theory Machines
  imports Prelude
begin

text \<open>
  Two interfaces the components share. \<open>guarded_machine\<close> is a component whose state is
  replaced by operations that either throw, and then leave the state alone, or return the
  next state; its law is that an operation keeps the component's invariant, and what
  follows once and for all is that every history of operations does. \<open>monotone_machine\<close>
  adds an order that every operation respects (a budget is only spent, a ledger only
  grows). \<open>comparator\<close> is the contract of a comparison function passed to
  \<open>Array.prototype.sort\<close> on the entries it is used for, \<open>strict_comparator\<close> of one that
  separates distinct entries.
\<close>

subsection \<open>Histories of operations\<close>

definition attempt :: "('op \<Rightarrow> 's \<Rightarrow> 'e + 's) \<Rightarrow> 'op \<Rightarrow> 's \<Rightarrow> 's" where
  "attempt step op s = (case step op s of Inl _ \<Rightarrow> s | Inr s' \<Rightarrow> s')"

fun run_ops :: "('op \<Rightarrow> 's \<Rightarrow> 'e + 's) \<Rightarrow> 's \<Rightarrow> 'op list \<Rightarrow> 's" where
  "run_ops step s [] = s"
| "run_ops step s (op # ops) = run_ops step (attempt step op s) ops"

lemma run_ops_append: "run_ops step s (xs @ ys) = run_ops step (run_ops step s xs) ys"
  by (induction xs arbitrary: s) auto

locale guarded_machine =
  fixes step :: "'op \<Rightarrow> 's \<Rightarrow> 'e + 's"
    and inv :: "'s \<Rightarrow> bool"
  assumes step_inv: "inv s \<Longrightarrow> step op s = Inr s' \<Longrightarrow> inv s'"
begin

lemma attempt_inv: "inv s \<Longrightarrow> inv (attempt step op s)"
  by (auto simp: attempt_def split: sum.splits intro: step_inv)

lemma history_inv: "inv s \<Longrightarrow> inv (run_ops step s ops)"
  by (induction ops arbitrary: s) (auto intro: attempt_inv)

end

locale monotone_machine = guarded_machine +
  fixes le :: "'s \<Rightarrow> 's \<Rightarrow> bool"
  assumes le_refl: "le s s"
    and le_trans: "le s t \<Longrightarrow> le t u \<Longrightarrow> le s u"
    and step_le: "inv s \<Longrightarrow> step op s = Inr s' \<Longrightarrow> le s s'"
begin

lemma attempt_le: "inv s \<Longrightarrow> le s (attempt step op s)"
  by (auto simp: attempt_def split: sum.splits intro: step_le le_refl)

lemma history_le: "inv s \<Longrightarrow> le s (run_ops step s ops)"
proof (induction ops arbitrary: s)
  case Nil
  show ?case by (simp add: le_refl)
next
  case (Cons op ops)
  have "le s (attempt step op s)" using Cons.prems by (rule attempt_le)
  moreover have "le (attempt step op s) (run_ops step (attempt step op s) ops)"
    by (intro Cons.IH attempt_inv Cons.prems)
  ultimately show ?case by (auto intro: le_trans)
qed

lemma history_prefix_le: "inv s \<Longrightarrow> le (run_ops step s xs) (run_ops step s (xs @ ys))"
  by (simp add: run_ops_append history_le history_inv)

end

subsection \<open>Sorting with a comparison function\<close>

text \<open>The stable sort: an entry moves past those the comparison puts strictly before it.\<close>

fun insert_by :: "('a \<Rightarrow> 'a \<Rightarrow> int) \<Rightarrow> 'a \<Rightarrow> 'a list \<Rightarrow> 'a list" where
  "insert_by cmp x [] = [x]"
| "insert_by cmp x (y # ys) = (if cmp x y \<le> 0 then x # y # ys else y # insert_by cmp x ys)"

definition sort_by :: "('a \<Rightarrow> 'a \<Rightarrow> int) \<Rightarrow> 'a list \<Rightarrow> 'a list" where
  "sort_by cmp xs = foldr (insert_by cmp) xs []"

lemma sort_by_simps [simp]:
  "sort_by cmp [] = []" "sort_by cmp (x # xs) = insert_by cmp x (sort_by cmp xs)"
  by (simp_all add: sort_by_def)

lemma mset_insert_by [simp]: "mset (insert_by cmp x ys) = add_mset x (mset ys)"
  by (induction ys) auto

lemma mset_sort_by [simp]: "mset (sort_by cmp xs) = mset xs"
  by (induction xs) auto

lemma set_sort_by [simp]: "set (sort_by cmp xs) = set xs"
  by (metis mset_sort_by set_mset_mset)

lemma length_sort_by [simp]: "length (sort_by cmp xs) = length xs"
  by (metis mset_sort_by size_mset)

lemma distinct_sort_by [simp]: "distinct (sort_by cmp xs) = distinct xs"
  by (metis mset_sort_by mset_eq_imp_distinct_iff)

locale comparator =
  fixes cmp :: "'a \<Rightarrow> 'a \<Rightarrow> int"
    and carrier :: "'a set"
  assumes cmp_sgn: "a \<in> carrier \<Longrightarrow> b \<in> carrier \<Longrightarrow> sgn (cmp a b) = - sgn (cmp b a)"
    and cmp_trans: "a \<in> carrier \<Longrightarrow> b \<in> carrier \<Longrightarrow> c \<in> carrier \<Longrightarrow>
      cmp a b \<le> 0 \<Longrightarrow> cmp b c \<le> 0 \<Longrightarrow> cmp a c \<le> 0"
begin

lemma cmp_total: "a \<in> carrier \<Longrightarrow> b \<in> carrier \<Longrightarrow> cmp a b \<le> 0 \<or> cmp b a \<le> 0"
  using cmp_sgn [of a b] by (auto simp: sgn_if split: if_splits)

lemma sorted_insert_by:
  "set (x # ys) \<subseteq> carrier \<Longrightarrow> sorted_wrt (\<lambda>a b. cmp a b \<le> 0) ys \<Longrightarrow>
   sorted_wrt (\<lambda>a b. cmp a b \<le> 0) (insert_by cmp x ys)"
proof (induction ys)
  case (Cons y ys)
  have set_ins: "set (insert_by cmp x ys) = insert x (set ys)"
    by (metis mset_insert_by set_mset_add_mset_insert set_mset_mset)
  show ?case
  proof (cases "cmp x y \<le> 0")
    case True
    moreover have "cmp x z \<le> 0" if "z \<in> set ys" for z
      using that Cons.prems True by (intro cmp_trans [of x y z]) auto
    ultimately show ?thesis using Cons.prems by auto
  next
    case False
    then have "cmp y x \<le> 0" using cmp_total [of x y] Cons.prems by auto
    with Cons False show ?thesis by (auto simp: set_ins)
  qed
qed simp

lemma sorted_sort_by: "set xs \<subseteq> carrier \<Longrightarrow> sorted_wrt (\<lambda>a b. cmp a b \<le> 0) (sort_by cmp xs)"
  by (induction xs) (auto intro!: sorted_insert_by)

text \<open>What a prefix of the sorted entries leaves out does not come before any of the prefix.\<close>

lemma prefix_first:
  assumes "set xs \<subseteq> carrier" "a \<in> set (take n (sort_by cmp xs))" "b \<in> set (drop n (sort_by cmp xs))"
  shows "cmp a b \<le> 0"
proof -
  have "sorted_wrt (\<lambda>a b. cmp a b \<le> 0) (take n (sort_by cmp xs) @ drop n (sort_by cmp xs))"
    using sorted_sort_by [OF assms(1)] by simp
  then show ?thesis using assms by (simp only: sorted_wrt_append)
qed

lemma cmp_swap: "a \<in> carrier \<Longrightarrow> b \<in> carrier \<Longrightarrow> cmp b a \<le> 0 \<longleftrightarrow> 0 \<le> cmp a b"
  using cmp_sgn [of a b] by (auto simp: sgn_if split: if_splits)

text \<open>A comparison that falls back to a second one on ties.\<close>

lemma tie_break:
  assumes "comparator cmp' carrier"
  shows "comparator (\<lambda>a b. if cmp a b \<noteq> 0 then cmp a b else cmp' a b) carrier"
proof
  fix a b
  assume ab: "a \<in> carrier" "b \<in> carrier"
  show "sgn (if cmp a b \<noteq> 0 then cmp a b else cmp' a b) = - sgn (if cmp b a \<noteq> 0 then cmp b a else cmp' b a)"
    using cmp_sgn [OF ab] comparator.cmp_sgn [OF assms ab] by (auto simp: sgn_0_0)
next
  fix a b c
  assume abc: "a \<in> carrier" "b \<in> carrier" "c \<in> carrier"
    and ab: "(if cmp a b \<noteq> 0 then cmp a b else cmp' a b) \<le> 0"
    and bc: "(if cmp b c \<noteq> 0 then cmp b c else cmp' b c) \<le> 0"
  have le: "cmp a b \<le> 0" "cmp b c \<le> 0" using ab bc by (simp_all split: if_splits)
  then have ac: "cmp a c \<le> 0" by (rule cmp_trans [OF abc])
  show "(if cmp a c \<noteq> 0 then cmp a c else cmp' a c) \<le> 0"
  proof (cases "cmp a c = 0")
    case True
    then have "cmp c a \<le> 0" using cmp_swap abc by simp
    then have "cmp b a \<le> 0" "cmp c b \<le> 0"
      using le abc cmp_trans [of b c a] cmp_trans [of c a b] by blast+
    then have "cmp a b = 0" "cmp b c = 0" using le abc cmp_swap by (meson order_antisym)+
    then show ?thesis using True ab bc comparator.cmp_trans [OF assms abc] by simp
  qed (simp add: ac)
qed

end

locale strict_comparator = comparator +
  assumes cmp_eq: "a \<in> carrier \<Longrightarrow> b \<in> carrier \<Longrightarrow> cmp a b = 0 \<Longrightarrow> a = b"
begin

lemma cmp_antisym:
  "a \<in> carrier \<Longrightarrow> b \<in> carrier \<Longrightarrow> cmp a b \<le> 0 \<Longrightarrow> cmp b a \<le> 0 \<Longrightarrow> a = b"
  using cmp_sgn [of a b] by (auto simp: sgn_if split: if_splits intro: cmp_eq)

lemma sorted_unique:
  "set xs \<subseteq> carrier \<Longrightarrow> sorted_wrt (\<lambda>a b. cmp a b \<le> 0) xs \<Longrightarrow> sorted_wrt (\<lambda>a b. cmp a b \<le> 0) ys \<Longrightarrow>
   mset xs = mset ys \<Longrightarrow> xs = ys"
proof (induction xs arbitrary: ys)
  case (Cons x xs)
  then obtain y zs where ys: "ys = y # zs" by (cases ys) auto
  have "x \<in> set ys" and y: "y \<in> set (x # xs)"
    using Cons.prems(4) ys by (metis list.set_intros(1) mset_eq_setD)+
  then have "x = y \<or> cmp y x \<le> 0 \<and> cmp x y \<le> 0" using Cons.prems(2,3) ys by auto
  then have "x = y" using Cons.prems(1) y cmp_antisym [of x y] by auto
  with Cons ys show ?case by auto
qed simp

text \<open>The result of the sort does not depend on the order of the input.\<close>

lemma sort_by_perm:
  "set xs \<subseteq> carrier \<Longrightarrow> mset xs = mset ys \<Longrightarrow> sort_by cmp xs = sort_by cmp ys"
  by (rule sorted_unique) (auto simp: sorted_sort_by dest: mset_eq_setD intro!: sorted_sort_by)

end

lemma int_key_comparator: "comparator (\<lambda>a b. f a - f b :: int) carrier"
  by unfold_locales (auto simp: sgn_if)

lemma comparator_subset: "comparator cmp A \<Longrightarrow> B \<subseteq> A \<Longrightarrow> comparator cmp B"
  unfolding comparator_def by blast

lemma comparator_image:
  "comparator cmp A \<Longrightarrow> f ` B \<subseteq> A \<Longrightarrow> comparator (\<lambda>l r. cmp (f l) (f r)) B"
  unfolding comparator_def image_subset_iff by blast

end
