(* ===== verification/Lifecycle.thy ===== *)
theory Lifecycle
  imports Machines
begin

text \<open>
  The experiment state machine, the champion pointers, the experiment directory names and
  the repair-attempt ledger of \<open>src/core/lifecycle.ts\<close>, with the enumerations of
  \<open>src/domain/models.ts\<close> they range over. \<open>experiment_run\<close> is the step relation of the
  transition tables; the lemmas give its rank (every experiment ends in at most eight
  transitions), the exact paths to a promotion, and that the pointers
  only move forward.
\<close>

subsection \<open>States and transition tables\<close>

datatype experiment_state =
    Planned | Candidate_ready | Gates_passed | Repair_evaluating | Challenger
  | Validation_evaluating | Analyzed | Promoted | Rejected | Inconclusive
  | Shadow_evaluating | Certified | Not_certified | Sealed

datatype experiment_kind = Baseline | Optimization | Shadow

fun OPTIMIZATION_TRANSITIONS :: "experiment_state \<Rightarrow> experiment_state list" where
  "OPTIMIZATION_TRANSITIONS Planned = [Candidate_ready]"
| "OPTIMIZATION_TRANSITIONS Candidate_ready = [Gates_passed, Rejected]"
| "OPTIMIZATION_TRANSITIONS Gates_passed = [Repair_evaluating, Validation_evaluating]"
| "OPTIMIZATION_TRANSITIONS Repair_evaluating = [Challenger, Rejected, Inconclusive]"
| "OPTIMIZATION_TRANSITIONS Challenger = [Validation_evaluating]"
| "OPTIMIZATION_TRANSITIONS Validation_evaluating = [Analyzed, Inconclusive]"
| "OPTIMIZATION_TRANSITIONS Analyzed = [Promoted, Rejected, Inconclusive]"
| "OPTIMIZATION_TRANSITIONS Promoted = [Sealed]"
| "OPTIMIZATION_TRANSITIONS Rejected = [Sealed]"
| "OPTIMIZATION_TRANSITIONS Inconclusive = [Sealed]"
| "OPTIMIZATION_TRANSITIONS Shadow_evaluating = []"
| "OPTIMIZATION_TRANSITIONS Certified = []"
| "OPTIMIZATION_TRANSITIONS Not_certified = []"
| "OPTIMIZATION_TRANSITIONS Sealed = []"

text \<open>The other two tables spread the first and override some of its rows.\<close>

fun SHADOW_TRANSITIONS :: "experiment_state \<Rightarrow> experiment_state list" where
  "SHADOW_TRANSITIONS Planned = [Shadow_evaluating]"
| "SHADOW_TRANSITIONS Shadow_evaluating = [Certified, Not_certified, Inconclusive]"
| "SHADOW_TRANSITIONS Certified = [Sealed]"
| "SHADOW_TRANSITIONS Not_certified = [Sealed]"
| "SHADOW_TRANSITIONS s = OPTIMIZATION_TRANSITIONS s"

fun BASELINE_TRANSITIONS :: "experiment_state \<Rightarrow> experiment_state list" where
  "BASELINE_TRANSITIONS Planned = [Gates_passed]"
| "BASELINE_TRANSITIONS Gates_passed = [Analyzed]"
| "BASELINE_TRANSITIONS Analyzed = [Sealed]"
| "BASELINE_TRANSITIONS s = OPTIMIZATION_TRANSITIONS s"

fun allowedTransitions :: "experiment_kind \<Rightarrow> experiment_state \<Rightarrow> experiment_state list" where
  "allowedTransitions Shadow s = SHADOW_TRANSITIONS s"
| "allowedTransitions Baseline s = BASELINE_TRANSITIONS s"
| "allowedTransitions Optimization s = OPTIMIZATION_TRANSITIONS s"

definition transitionExperiment ::
    "experiment_kind \<Rightarrow> experiment_state \<Rightarrow> experiment_state \<Rightarrow> experiment_state result" where
  "transitionExperiment kind current nxt =
     (if nxt \<notin> set (allowedTransitions kind current)
      then Inl (DarkFactoryError INVALID_TRANSITION ''Cannot transition experiment'')
      else Inr nxt)"

lemma transitionExperiment_ok [guard_simps]:
  "transitionExperiment k s t = Inr u \<longleftrightarrow> t \<in> set (allowedTransitions k s) \<and> u = t"
  by (auto simp: transitionExperiment_def)

text \<open>A run from \<open>planned\<close>: the states an experiment of one kind has passed, newest first.\<close>

inductive experiment_run :: "experiment_kind \<Rightarrow> experiment_state list \<Rightarrow> bool" for kind where
  start: "experiment_run kind [Planned]"
| step: "experiment_run kind (s # ss) \<Longrightarrow> transitionExperiment kind s t = Inr t \<Longrightarrow>
    experiment_run kind (t # s # ss)"

inductive_cases experiment_run_NilE: "experiment_run kind []"
inductive_cases experiment_run_ConsE: "experiment_run kind (t # ss)"

lemma experiment_run_nonempty: "experiment_run k ss \<Longrightarrow> ss \<noteq> []"
  by (auto elim: experiment_run_NilE)

text \<open>Every transition lowers this rank, in each of the three tables.\<close>

fun state_rank :: "experiment_state \<Rightarrow> nat" where
  "state_rank Planned = 8"
| "state_rank Candidate_ready = 7"
| "state_rank Gates_passed = 6"
| "state_rank Repair_evaluating = 5"
| "state_rank Shadow_evaluating = 5"
| "state_rank Challenger = 4"
| "state_rank Validation_evaluating = 3"
| "state_rank Analyzed = 2"
| "state_rank Promoted = 1"
| "state_rank Rejected = 1"
| "state_rank Inconclusive = 1"
| "state_rank Certified = 1"
| "state_rank Not_certified = 1"
| "state_rank Sealed = 0"

lemma transition_lowers_rank:
  "transitionExperiment k s t = Inr u \<Longrightarrow> state_rank t < state_rank s"
  by (cases k; cases s) (auto simp: guard_simps)

lemma run_bounded: "experiment_run k (s # ss) \<Longrightarrow> length ss + state_rank s \<le> 8"
proof (induction "s # ss" arbitrary: s ss rule: experiment_run.induct)
  case (step s ss t)
  then show ?case using transition_lowers_rank [of k s t t] by simp
qed simp

text \<open>The states each kind of experiment can be in.\<close>

fun states_of_kind :: "experiment_kind \<Rightarrow> experiment_state set" where
  "states_of_kind Optimization =
     {Planned, Candidate_ready, Gates_passed, Repair_evaluating, Challenger,
      Validation_evaluating, Analyzed, Promoted, Rejected, Inconclusive, Sealed}"
| "states_of_kind Shadow =
     {Planned, Shadow_evaluating, Certified, Not_certified, Inconclusive, Sealed}"
| "states_of_kind Baseline = {Planned, Gates_passed, Analyzed, Sealed}"

lemma transition_states:
  "s \<in> states_of_kind k \<Longrightarrow> transitionExperiment k s t = Inr u \<Longrightarrow> t \<in> states_of_kind k"
  by (cases k; cases s) (auto simp: guard_simps)

lemma run_states: "experiment_run k ss \<Longrightarrow> set ss \<subseteq> states_of_kind k"
proof (induction rule: experiment_run.induct)
  case start
  show ?case by (cases k) auto
next
  case (step s ss t)
  then show ?case by (auto intro: transition_states)
qed

lemma run_progress:
  assumes "experiment_run k (s # ss)" "s \<noteq> Sealed"
  obtains t where "transitionExperiment k s t = Inr t"
proof -
  have "s \<in> states_of_kind k" using run_states [OF assms(1)] by simp
  then have "allowedTransitions k s \<noteq> []" using assms(2) by (cases k; cases s) auto
  then obtain t where "t \<in> set (allowedTransitions k s)" by (cases "allowedTransitions k s") auto
  then show thesis by (intro that [of t]) (simp add: guard_simps)
qed

subsection \<open>Champion pointers\<close>

record champion_pointers =
  baselineCommit :: string
  activeExperiment :: int
  activeCommit :: string
  certifiedExperiment :: "int option"
  certifiedCommit :: "string option"
  updatedAt :: string
  sourceSealHash :: string

record pointer_transition =
  experimentNumber :: int
  pt_commit :: string
  pt_state :: experiment_state
  sealedAt :: string
  sealHash :: string

text \<open>\<open>/^[a-f0-9]{40,64}$/u\<close>: any length from 40 to 64.\<close>

definition assertSha :: "string \<Rightarrow> unit result" where
  "assertSha value =
     (if 40 \<le> length value \<and> length value \<le> 64 \<and> list_all lower_hex value then Inr ()
      else Inl (DarkFactoryError EVIDENCE_INVALID ''Champion commit is not a Git object id''))"

definition updateChampionPointers ::
    "champion_pointers \<Rightarrow> pointer_transition \<Rightarrow> champion_pointers result" where
  "updateChampionPointers current transition =
     and_then (assertSha (pt_commit transition)) (\<lambda>_.
       if pt_state transition = Promoted then
         (if experimentNumber transition \<le> activeExperiment current
          then Inl (DarkFactoryError INVALID_TRANSITION
            ''Active champion experiments must increase monotonically'')
          else Inr (current\<lparr>activeExperiment := experimentNumber transition,
            activeCommit := pt_commit transition, updatedAt := sealedAt transition,
            sourceSealHash := sealHash transition\<rparr>))
       else if pt_state transition = Certified then
         (if pt_commit transition \<noteq> activeCommit current \<or>
             experimentNumber transition \<noteq> activeExperiment current
          then Inl (DarkFactoryError INVALID_TRANSITION
            ''Only the current active champion can become certified'')
          else Inr (current\<lparr>certifiedExperiment := Some (experimentNumber transition),
            certifiedCommit := Some (pt_commit transition), updatedAt := sealedAt transition,
            sourceSealHash := sealHash transition\<rparr>))
       else Inl (DarkFactoryError INVALID_TRANSITION
         ''Rejected, inconclusive, and non-certified states cannot move champion pointers''))"

text \<open>
  The invariant of the pointers: both certified fields are present together, and the
  certified champion is an active champion of now or before.
\<close>

definition pointers_inv :: "champion_pointers \<Rightarrow> bool" where
  "pointers_inv p \<longleftrightarrow>
     (certifiedExperiment p = None \<longleftrightarrow> certifiedCommit p = None) \<and>
     (\<forall>n. certifiedExperiment p = Some n \<longrightarrow> n \<le> activeExperiment p) \<and>
     (certifiedExperiment p = Some (activeExperiment p) \<longrightarrow>
        certifiedCommit p = Some (activeCommit p))"

definition certified_number :: "champion_pointers \<Rightarrow> int" where
  "certified_number p = (case certifiedExperiment p of None \<Rightarrow> - 1 | Some n \<Rightarrow> n)"

definition pointers_le :: "champion_pointers \<Rightarrow> champion_pointers \<Rightarrow> bool" where
  "pointers_le p q \<longleftrightarrow>
     baselineCommit p = baselineCommit q \<and> activeExperiment p \<le> activeExperiment q \<and>
     (activeExperiment p = activeExperiment q \<longrightarrow> activeCommit p = activeCommit q) \<and>
     (certifiedExperiment p \<noteq> None \<longrightarrow>
        certifiedExperiment q \<noteq> None \<and> certified_number p \<le> certified_number q)"

lemma update_pointers_cases:
  assumes "updateChampionPointers p t = Inr q"
  obtains "pt_state t = Promoted" "activeExperiment p < experimentNumber t"
      "q = p\<lparr>activeExperiment := experimentNumber t, activeCommit := pt_commit t,
             updatedAt := sealedAt t, sourceSealHash := sealHash t\<rparr>"
    | "pt_state t = Certified" "pt_commit t = activeCommit p"
      "experimentNumber t = activeExperiment p"
      "q = p\<lparr>certifiedExperiment := Some (experimentNumber t), certifiedCommit := Some (pt_commit t),
             updatedAt := sealedAt t, sourceSealHash := sealHash t\<rparr>"
  using assms by (auto simp: updateChampionPointers_def split: if_splits)

interpretation pointers: monotone_machine "\<lambda>t p. updateChampionPointers p t" pointers_inv pointers_le
proof unfold_locales
  fix p t q
  assume inv: "pointers_inv p" and ok: "updateChampionPointers p t = Inr q"
  from ok show "pointers_inv q"
  proof (cases rule: update_pointers_cases)
    case 1
    with inv show ?thesis by (fastforce simp: pointers_inv_def)
  next
    case 2
    with inv show ?thesis by (simp add: pointers_inv_def)
  qed
  from ok show "pointers_le p q"
  proof (cases rule: update_pointers_cases)
    case 1
    then show ?thesis by (simp add: pointers_le_def certified_number_def)
  next
    case 2
    with inv show ?thesis
      by (simp add: pointers_inv_def pointers_le_def certified_number_def split: option.split)
  qed
qed (auto simp: pointers_le_def)

subsection \<open>Experiment directory names\<close>

text \<open>The name the journal gives an experiment's directory.\<close>

definition experimentName :: "nat \<Rightarrow> string \<Rightarrow> string" where
  "experimentName number slug = pad_start 3 CHR ''0'' (decimal number) @ ''-'' @ slug"

text \<open>\<open>[a-z0-9]+(?:-[a-z0-9]+)*\<close>: no empty part between hyphens.\<close>

fun slug_from :: "bool \<Rightarrow> string \<Rightarrow> bool" where
  "slug_from part [] = part"
| "slug_from part (c # cs) =
     (if lower_alnum c then slug_from True cs else c = CHR ''-'' \<and> part \<and> slug_from False cs)"

definition is_slug :: "string \<Rightarrow> bool" where
  "is_slug s \<longleftrightarrow> slug_from False s"

definition parseExperimentDirectory :: "string \<Rightarrow> (nat \<times> string) option" where
  "parseExperimentDirectory name =
     (let digits = takeWhile digit name; rest = dropWhile digit name
      in if 3 \<le> length digits \<and> rest \<noteq> [] \<and> hd rest = CHR ''-'' \<and> is_slug (tl rest)
         then (let number = parse_decimal digits
               in if int number \<le> max_safe then Some (number, tl rest) else None)
         else None)"

definition nextExperimentNumber :: "string list \<Rightarrow> nat" where
  "nextExperimentNumber directoryNames =
     (let numbers = map fst (List.map_filter parseExperimentDirectory directoryNames)
      in if numbers = [] then 0 else Max (set numbers) + 1)"

lemma decimal_digit_prefix:
  "list_all digit s \<Longrightarrow> takeWhile digit (s @ ''-'' @ t) = s \<and> dropWhile digit (s @ ''-'' @ t) = ''-'' @ t"
  by (induction s) (auto simp: digit_def)

lemma pad_start_digits: "list_all digit s \<Longrightarrow> list_all digit (pad_start n CHR ''0'' s)"
proof -
  have "digit CHR ''0''" by (simp add: digit_def)
  then show "list_all digit s \<Longrightarrow> list_all digit (pad_start n CHR ''0'' s)"
    by (auto simp: pad_start_def list_all_iff)
qed

lemma parse_experimentName:
  assumes "is_slug slug" "int n \<le> max_safe"
  shows "parseExperimentDirectory (experimentName n slug) = Some (n, slug)"
proof -
  let ?d = "pad_start 3 CHR ''0'' (decimal n)"
  have d: "list_all digit ?d" by (intro pad_start_digits decimal_digits)
  have "takeWhile digit (experimentName n slug) = ?d"
    and "dropWhile digit (experimentName n slug) = ''-'' @ slug"
    using decimal_digit_prefix [OF d, of slug] by (simp_all add: experimentName_def)
  moreover have "3 \<le> length ?d" by (simp add: pad_start_def)
  moreover have "parse_decimal ?d = n" by (simp add: pad_start_def parse_decimal_zeros)
  ultimately show ?thesis using assms by (simp add: parseExperimentDirectory_def Let_def)
qed

lemma nextExperimentNumber_greater:
  assumes "name \<in> set names" "parseExperimentDirectory name = Some (n, slug)"
  shows "n < nextExperimentNumber names"
proof -
  let ?ns = "map fst (List.map_filter parseExperimentDirectory names)"
  have "n \<in> set ?ns"
    using assms by (force simp: List.map_filter_def image_iff)
  then have "n \<le> Max (set ?ns)" and "?ns \<noteq> []" by auto
  then show ?thesis by (simp add: nextExperimentNumber_def Let_def)
qed

subsection \<open>The repair-attempt ledger\<close>

text \<open>A map from panel attestation hashes to sets of candidate commits, both in insertion order.\<close>

type_synonym repair_ledger = "(string \<times> string list) list"

definition ledger_commits :: "repair_ledger \<Rightarrow> string \<Rightarrow> string list" where
  "ledger_commits l panel = (case map_of l panel of None \<Rightarrow> [] | Some commits \<Rightarrow> commits)"

definition recordRepair :: "string \<times> string \<Rightarrow> repair_ledger \<Rightarrow> repair_ledger result" where
  "recordRepair = (\<lambda>(panel, commit) l.
     and_then (assertSha commit) (\<lambda>_.
       let commits = ledger_commits l panel
       in if commit \<notin> set commits \<and> 2 \<le> length commits
          then Inl (DarkFactoryError INVALID_TRANSITION
            ''A discovery panel cannot support more than two candidate commits'')
          else Inr (AList.update panel
            (if commit \<in> set commits then commits else commits @ [commit]) l)))"

definition repairCount :: "repair_ledger \<Rightarrow> string \<Rightarrow> nat" where
  "repairCount l panel = length (ledger_commits l panel)"

definition repairSnapshot :: "host \<Rightarrow> repair_ledger \<Rightarrow> (string \<times> string list) list" where
  "repairSnapshot h l =
     map (\<lambda>(panel, commits). (panel, sort commits))
       (sort_by (\<lambda>a b. locale_compare h (fst a) (fst b)) l)"

definition panel_commits_ok :: "string list \<Rightarrow> bool" where
  "panel_commits_ok commits \<longleftrightarrow>
     distinct commits \<and> length commits \<le> 2 \<and> (\<forall>c \<in> set commits. assertSha c = Inr ())"

definition repair_ledger_inv :: "repair_ledger \<Rightarrow> bool" where
  "repair_ledger_inv l \<longleftrightarrow>
     distinct (map fst l) \<and> (\<forall>entry \<in> set l. panel_commits_ok (snd entry))"

definition repair_ledger_le :: "repair_ledger \<Rightarrow> repair_ledger \<Rightarrow> bool" where
  "repair_ledger_le l m \<longleftrightarrow> (\<forall>panel. set (ledger_commits l panel) \<subseteq> set (ledger_commits m panel))"

lemma ledger_commits_inv:
  assumes "repair_ledger_inv l"
  shows "panel_commits_ok (ledger_commits l p)"
proof (cases "map_of l p")
  case None
  then show ?thesis by (simp add: ledger_commits_def panel_commits_ok_def)
next
  case (Some cs)
  then have "(p, cs) \<in> set l" by (rule map_of_SomeD)
  with assms Some show ?thesis by (force simp: repair_ledger_inv_def ledger_commits_def)
qed

lemma recordRepair_ok:
  assumes "recordRepair (p, c) l = Inr m"
  shows "assertSha c = Inr ()"
    and "m = AList.update p (if c \<in> set (ledger_commits l p) then ledger_commits l p
               else ledger_commits l p @ [c]) l"
    and "c \<in> set (ledger_commits l p) \<or> length (ledger_commits l p) < 2"
  using assms by (auto simp: recordRepair_def Let_def split: if_splits)

interpretation repair: monotone_machine recordRepair repair_ledger_inv repair_ledger_le
proof unfold_locales
  fix l m :: repair_ledger and op
  assume inv: "repair_ledger_inv l" and ok: "recordRepair op l = Inr m"
  obtain p c where op: "op = (p, c)" by (cases op)
  note r = recordRepair_ok [OF ok [unfolded op]]
  let ?new = "if c \<in> set (ledger_commits l p) then ledger_commits l p else ledger_commits l p @ [c]"
  have new: "panel_commits_ok ?new"
    using ledger_commits_inv [OF inv, of p] r(1,3) by (auto simp: panel_commits_ok_def)
  have "set m \<subseteq> insert (p, ?new) (set l)" unfolding r(2) by (rule set_update_subset)
  then have "\<forall>entry \<in> set m. panel_commits_ok (snd entry)"
    using inv new unfolding repair_ledger_inv_def by auto
  then show "repair_ledger_inv m"
    using inv unfolding repair_ledger_inv_def r(2) by (simp add: distinct_update)
  show "repair_ledger_le l m"
    unfolding repair_ledger_le_def r(2) by (auto simp: ledger_commits_def)
qed (auto simp: repair_ledger_le_def)

text \<open>Recording a commit the panel already holds succeeds and leaves the panel as it is.\<close>

lemma repair_again:
  assumes "repair_ledger_inv l" "c \<in> set (ledger_commits l p)"
  shows "recordRepair (p, c) l = Inr (AList.update p (ledger_commits l p) l) \<and>
    repairCount (AList.update p (ledger_commits l p) l) p = repairCount l p"
proof
  have "assertSha c = Inr ()"
    using ledger_commits_inv [OF assms(1), of p] assms(2) by (simp add: panel_commits_ok_def)
  then show "recordRepair (p, c) l = Inr (AList.update p (ledger_commits l p) l)"
    using assms(2) by (simp add: recordRepair_def)
qed (simp add: repairCount_def ledger_commits_def)

subsection \<open>Properties\<close>

text \<open>The ways through the table, newest state first; a candidate may skip the repair screen.\<close>

definition promotion_paths :: "experiment_state list set" where
  "promotion_paths =
     {[Analyzed, Validation_evaluating, Challenger, Repair_evaluating, Gates_passed, Candidate_ready, Planned],
      [Analyzed, Validation_evaluating, Gates_passed, Candidate_ready, Planned]}"

fun optimization_history :: "experiment_state \<Rightarrow> experiment_state list set" where
  "optimization_history Planned = {[]}"
| "optimization_history Candidate_ready = {[Planned]}"
| "optimization_history Gates_passed = {[Candidate_ready, Planned]}"
| "optimization_history Repair_evaluating = {[Gates_passed, Candidate_ready, Planned]}"
| "optimization_history Challenger = {[Repair_evaluating, Gates_passed, Candidate_ready, Planned]}"
| "optimization_history Validation_evaluating =
     {[Challenger, Repair_evaluating, Gates_passed, Candidate_ready, Planned], [Gates_passed, Candidate_ready, Planned]}"
| "optimization_history Analyzed =
     {[Validation_evaluating, Challenger, Repair_evaluating, Gates_passed, Candidate_ready, Planned],
      [Validation_evaluating, Gates_passed, Candidate_ready, Planned]}"
| "optimization_history Promoted = promotion_paths"
| "optimization_history _ = UNIV"

lemma optimization_run_history:
  "experiment_run Optimization (s # ss) \<Longrightarrow> ss \<in> optimization_history s"
proof (induction "s # ss" arbitrary: s ss rule: experiment_run.induct)
  case (step s ss t)
  then show ?case by (cases s) (auto simp: guard_simps promotion_paths_def)
qed simp

lemma promotion_path_run:
  "ss \<in> promotion_paths \<Longrightarrow> experiment_run Optimization (Promoted # ss)"
  unfolding promotion_paths_def by (auto intro!: experiment_run.intros simp: guard_simps)

lemma promoted_run:
  "experiment_run Optimization
     (Promoted # [Analyzed, Validation_evaluating, Challenger, Repair_evaluating, Gates_passed,
        Candidate_ready, Planned])"
  by (rule promotion_path_run) (simp add: promotion_paths_def)

text \<open>
  C1. Exactly two histories lead an optimization experiment to a promotion, and both are runs: planned, candidate
  ready, gates passed, then either directly or through the repair screen and out of it as a
  challenger into the fresh validation, and from there through the analysis. No stage can be skipped,
  repeated or taken in another order.
\<close>

theorem promotion_requires_validation:
  "experiment_run Optimization (Promoted # ss) \<longleftrightarrow>
     ss = [Analyzed, Validation_evaluating, Gates_passed, Candidate_ready, Planned] \<or>
     ss = [Analyzed, Validation_evaluating, Challenger, Repair_evaluating, Gates_passed, Candidate_ready, Planned]"
  using optimization_run_history [of Promoted ss] promotion_path_run [of ss] by (auto simp: promotion_paths_def)

text \<open>
  C34. No experiment of any kind can be stuck before it is sealed or go on for ever: whatever
  its run so far, at most eight transitions in all, it can be extended to a sealed run, and
  a sealed experiment makes no further transition.
\<close>

theorem every_run_can_be_sealed:
  assumes "experiment_run k (s # ss)"
  shows "length ss \<le> 8 \<and> (\<exists>ts. experiment_run k (ts @ s # ss) \<and> hd (ts @ s # ss) = Sealed \<and>
           length (ts @ s # ss) \<le> 9) \<and> allowedTransitions k Sealed = []"
proof -
  have "\<exists>ts. experiment_run k (ts @ s # ss) \<and> hd (ts @ s # ss) = Sealed"
    using assms
  proof (induction "state_rank s" arbitrary: s ss rule: less_induct)
    case less
    show ?case
    proof (cases "s = Sealed")
      case True
      then show ?thesis using less.prems by (intro exI [of _ "[]"]) simp
    next
      case False
      with less.prems obtain t where t: "transitionExperiment k s t = Inr t"
        by (metis run_progress transitionExperiment_ok)
      then have "experiment_run k (t # s # ss)" using less.prems by (intro experiment_run.step)
      with less.hyps [OF transition_lowers_rank [OF t]] obtain ts
        where "experiment_run k (ts @ t # s # ss)" "hd (ts @ t # s # ss) = Sealed" by blast
      then show ?thesis by (intro exI [of _ "ts @ [t]"]) simp
    qed
  qed
  then obtain ts where ts: "experiment_run k (ts @ s # ss)" "hd (ts @ s # ss) = Sealed" by blast
  have "length us \<le> 9" if "experiment_run k us" for us
    using that run_bounded [of k "hd us" "tl us"] experiment_run_nonempty [OF that] by (cases us) auto
  then have "length (ts @ s # ss) \<le> 9" using ts(1) by blast
  moreover have "allowedTransitions k Sealed = []" by (cases k) simp_all
  moreover have "length ss \<le> 8" using run_bounded [OF assms] by simp
  ultimately show ?thesis using ts by blast
qed

theorem every_run_can_be_sealed_witness:
  "\<exists>ts. experiment_run Shadow (ts @ [Planned]) \<and> hd (ts @ [Planned]) = Sealed \<and>
     length (ts @ [Planned]) \<le> 9"
  using every_run_can_be_sealed [OF experiment_run.start [of Shadow]] by blast

text \<open>
  The kinds of experiment cannot borrow each other's outcomes: only an optimization run
  reaches \<open>promoted\<close> or any repair or validation state, only a shadow run reaches
  \<open>certified\<close>, and a baseline run is never evaluated.
\<close>

theorem outcomes_follow_kind:
  assumes "experiment_run k ss"
  shows "(set ss \<inter> {Promoted, Rejected, Candidate_ready, Repair_evaluating, Challenger,
             Validation_evaluating} \<noteq> {} \<longrightarrow> k = Optimization) \<and>
         (set ss \<inter> {Certified, Not_certified, Shadow_evaluating} \<noteq> {} \<longrightarrow> k = Shadow)"
proof -
  have "set ss \<subseteq> states_of_kind k" using assms by (rule run_states)
  then show ?thesis by (cases k; simp; blast)
qed

theorem outcomes_follow_kind_witness:
  "set [Promoted, Analyzed, Validation_evaluating, Challenger, Repair_evaluating, Gates_passed,
     Candidate_ready, Planned] \<inter> {Certified, Not_certified, Shadow_evaluating} = {}"
  using outcomes_follow_kind [OF promoted_run] by blast

text \<open>
  Over any history of pointer updates, refused ones included, the baseline never
  changes, the active champion's number never decreases and its commit changes only with
  it, and a certified champion is never cleared, never ahead of the active one and never
  replaced by an older one.
\<close>

theorem champion_pointers_forward:
  assumes "pointers_inv p"
  shows "let q = run_ops (\<lambda>t p. updateChampionPointers p t) p ts
         in pointers_inv q \<and> pointers_le p q"
  using pointers.history_inv [OF assms] pointers.history_le [OF assms] by (simp add: Let_def)

definition pointers_example :: champion_pointers where
  "pointers_example = \<lparr>baselineCommit = replicate 40 CHR ''a'', activeExperiment = 0,
     activeCommit = replicate 40 CHR ''a'', certifiedExperiment = None, certifiedCommit = None,
     updatedAt = ''2026-01-01T00:00:00.000Z'', sourceSealHash = replicate 64 CHR ''0''\<rparr>"

theorem champion_pointers_forward_witness:
  "pointers_inv pointers_example \<and>
   pointers_le pointers_example
     (run_ops (\<lambda>t p. updateChampionPointers p t) pointers_example
        [\<lparr>experimentNumber = 3, pt_commit = replicate 40 CHR ''b'', pt_state = Promoted,
          sealedAt = ''2026-01-02T00:00:00.000Z'', sealHash = replicate 64 CHR ''1''\<rparr>])"
proof -
  have inv: "pointers_inv pointers_example" by (simp add: pointers_inv_def pointers_example_def)
  show ?thesis using inv champion_pointers_forward [OF inv] by (simp only: Let_def)
qed

text \<open>
  The directory name the journal writes for an experiment number and slug parses back
  to exactly that pair, and the next number allocated from any directory listing that
  holds it is larger.
\<close>

theorem experiment_name_roundtrip:
  assumes "is_slug slug" "int n \<le> max_safe"
  shows "parseExperimentDirectory (experimentName n slug) = Some (n, slug) \<and>
    (\<forall>names. experimentName n slug \<in> set names \<longrightarrow> n < nextExperimentNumber names)"
  using parse_experimentName [OF assms] nextExperimentNumber_greater by blast

theorem experiment_name_roundtrip_witness:
  "parseExperimentDirectory (experimentName 7 ''retry-loop-2'') = Some (7, ''retry-loop-2'')"
proof -
  have h: "is_slug ''retry-loop-2''" "int 7 \<le> max_safe"
    by (simp_all add: is_slug_def lower_alnum_def max_safe_def)
  show ?thesis using experiment_name_roundtrip [OF h] by blast
qed

text \<open>
  Over any history of recorded repair attempts, a discovery panel supports at most two
  distinct candidate commits, no recorded commit is forgotten, and re-recording a commit
  a full panel already holds is accepted without effect on the count.
\<close>

theorem repair_panel_two_commits:
  assumes "repair_ledger_inv l"
  shows "let m = run_ops recordRepair l ops
         in repairCount m panel \<le> 2 \<and> distinct (ledger_commits m panel) \<and>
            repair_ledger_le l m \<and>
            (\<forall>c \<in> set (ledger_commits m panel).
               \<exists>m'. recordRepair (panel, c) m = Inr m' \<and> repairCount m' panel = repairCount m panel)"
proof -
  let ?m = "run_ops recordRepair l ops"
  have inv: "repair_ledger_inv ?m" by (rule repair.history_inv [OF assms])
  have "\<exists>m'. recordRepair (panel, c) ?m = Inr m' \<and> repairCount m' panel = repairCount ?m panel"
    if "c \<in> set (ledger_commits ?m panel)" for c
    using repair_again [OF inv that] by blast
  then show ?thesis
    using ledger_commits_inv [OF inv, of panel] repair.history_le [OF assms]
    by (simp add: Let_def repairCount_def panel_commits_ok_def)
qed

theorem repair_panel_two_commits_witness:
  "repairCount (run_ops recordRepair []
     [(''panel'', replicate 40 CHR ''a''), (''panel'', replicate 40 CHR ''b''),
      (''panel'', replicate 40 CHR ''c'')]) ''panel'' \<le> 2"
proof -
  have h: "repair_ledger_inv []" by (simp add: repair_ledger_inv_def)
  show ?thesis using repair_panel_two_commits [OF h] by (simp only: Let_def)
qed

end
