(* ===== verification/Budget.thy ===== *)
theory Budget
  imports Machines
begin

text \<open>
  Campaign budgets: \<open>src/core/budget.ts\<close> over the budget records of
  \<open>src/domain/models.ts\<close>. All seven dimensions are numbers of the language, sums are
  rounded sums, and the checks are made in the code's order. The budget is a
  \<open>monotone_machine\<close>: a spend that succeeds leaves a snapshot that validates again, with
  the same limits and no smaller usage.
\<close>

subsection \<open>Records\<close>

record budget_limits =
  maximumUsd :: number
  maximumTokens :: number
  maximumWallTimeMs :: number
  maximumAttempts :: number
  maximumPrivacyReleases :: number
  maximumPromotionLooks :: number
  maximumOnlineError :: number

record budget_usage =
  spentUsd :: number
  tokens :: number
  wallTimeMs :: number
  attempts :: number
  privacyReleases :: number
  promotionLooks :: number
  onlineErrorSpent :: number

record budget_snapshot =
  limits :: budget_limits
  usage :: budget_usage

record budget_check =
  allowed :: bool
  exhausted :: "string list"
  projected :: budget_usage

text \<open>A delta is a partial usage object: its own entries, in order.\<close>

type_synonym budget_delta = "(string \<times> number) list"

definition USAGE_FIELDS :: "string list" where
  "USAGE_FIELDS = [''spentUsd'', ''tokens'', ''wallTimeMs'', ''attempts'', ''privacyReleases'',
     ''promotionLooks'', ''onlineErrorSpent'']"

definition COUNT_FIELDS :: "string list" where
  "COUNT_FIELDS = [''tokens'', ''wallTimeMs'', ''attempts'', ''privacyReleases'', ''promotionLooks'']"

text \<open>\<open>Object.entries\<close> of the two records, and the limit of each usage field.\<close>

definition limit_entries :: "budget_limits \<Rightarrow> (string \<times> number) list" where
  "limit_entries l =
     [(''maximumUsd'', maximumUsd l), (''maximumTokens'', maximumTokens l),
      (''maximumWallTimeMs'', maximumWallTimeMs l), (''maximumAttempts'', maximumAttempts l),
      (''maximumPrivacyReleases'', maximumPrivacyReleases l),
      (''maximumPromotionLooks'', maximumPromotionLooks l),
      (''maximumOnlineError'', maximumOnlineError l)]"

definition usage_entries :: "budget_usage \<Rightarrow> (string \<times> number) list" where
  "usage_entries u =
     [(''spentUsd'', spentUsd u), (''tokens'', tokens u), (''wallTimeMs'', wallTimeMs u),
      (''attempts'', attempts u), (''privacyReleases'', privacyReleases u),
      (''promotionLooks'', promotionLooks u), (''onlineErrorSpent'', onlineErrorSpent u)]"

definition usage_limit_pairs :: "budget_limits \<Rightarrow> budget_usage \<Rightarrow> (string \<times> number \<times> number) list" where
  "usage_limit_pairs l u =
     [(''spentUsd'', spentUsd u, maximumUsd l), (''tokens'', tokens u, maximumTokens l),
      (''wallTimeMs'', wallTimeMs u, maximumWallTimeMs l), (''attempts'', attempts u, maximumAttempts l),
      (''privacyReleases'', privacyReleases u, maximumPrivacyReleases l),
      (''promotionLooks'', promotionLooks u, maximumPromotionLooks l),
      (''onlineErrorSpent'', onlineErrorSpent u, maximumOnlineError l)]"

subsection \<open>Operations\<close>

definition nonNegativeFinite :: "string \<Rightarrow> number \<Rightarrow> unit result" where
  "nonNegativeFinite name value =
     (if \<not> is_finite value \<or> num_less value (Fin 0)
      then Inl (DarkFactoryError CONFIG_INVALID (name @ '' must be finite and non-negative''))
      else Inr ())"

definition validateBudgetSnapshot :: "budget_snapshot \<Rightarrow> unit result" where
  "validateBudgetSnapshot s =
     and_then (check_all (\<lambda>(f, v). nonNegativeFinite (''limits.'' @ f) v) (limit_entries (limits s)))
     (\<lambda>_. and_then (check_all (\<lambda>(f, v). nonNegativeFinite (''usage.'' @ f) v) (usage_entries (usage s)))
     (\<lambda>_. guards
       [(num_less (Fin 1) (maximumOnlineError (limits s)) \<or>
           num_less (Fin 1) (onlineErrorSpent (usage s)),
         DarkFactoryError CONFIG_INVALID ''Online error accounting must remain within [0, 1]''),
        (list_ex (\<lambda>v. \<not> is_safe_integer v)
           [maximumTokens (limits s), maximumWallTimeMs (limits s), maximumAttempts (limits s),
            maximumPrivacyReleases (limits s), maximumPromotionLooks (limits s),
            tokens (usage s), wallTimeMs (usage s), attempts (usage s),
            privacyReleases (usage s), promotionLooks (usage s)],
         DarkFactoryError CONFIG_INVALID ''Count budget dimensions must be safe integers''),
        (list_ex (\<lambda>(_, u, l). num_less l u) (usage_limit_pairs (limits s) (usage s)),
         DarkFactoryError BUDGET_EXHAUSTED ''Budget usage exceeds its sealed limits'')]))"

definition delta_value :: "budget_delta \<Rightarrow> string \<Rightarrow> number" where
  "delta_value delta field = (case map_of delta field of None \<Rightarrow> Fin 0 | Some v \<Rightarrow> v)"

definition projectUsage :: "budget_usage \<Rightarrow> budget_delta \<Rightarrow> budget_usage" where
  "projectUsage u d =
     \<lparr>spentUsd = num_add (spentUsd u) (delta_value d ''spentUsd''),
      tokens = num_add (tokens u) (delta_value d ''tokens''),
      wallTimeMs = num_add (wallTimeMs u) (delta_value d ''wallTimeMs''),
      attempts = num_add (attempts u) (delta_value d ''attempts''),
      privacyReleases = num_add (privacyReleases u) (delta_value d ''privacyReleases''),
      promotionLooks = num_add (promotionLooks u) (delta_value d ''promotionLooks''),
      onlineErrorSpent = num_add (onlineErrorSpent u) (delta_value d ''onlineErrorSpent'')\<rparr>"

definition checkDelta :: "string \<times> number \<Rightarrow> unit result" where
  "checkDelta = (\<lambda>(field, value).
     if field \<notin> set USAGE_FIELDS
     then Inl (DarkFactoryError CONFIG_INVALID (''Unknown budget delta field '' @ field))
     else and_then (nonNegativeFinite (''delta.'' @ field) value) (\<lambda>_.
       if field \<in> set COUNT_FIELDS \<and> \<not> is_safe_integer value
       then Inl (DarkFactoryError CONFIG_INVALID (''delta.'' @ field @ '' must be a safe integer''))
       else Inr ()))"

definition checkBudget :: "budget_snapshot \<Rightarrow> budget_delta \<Rightarrow> budget_check result" where
  "checkBudget s delta =
     and_then (validateBudgetSnapshot s) (\<lambda>_.
     and_then (check_all checkDelta delta) (\<lambda>_.
       let proj = projectUsage (usage s) delta;
           over = map fst (filter (\<lambda>(_, u, l). num_less l u) (usage_limit_pairs (limits s) proj))
       in Inr \<lparr>allowed = (over = []), exhausted = over, projected = proj\<rparr>))"

definition spendBudget :: "budget_snapshot \<Rightarrow> budget_delta \<Rightarrow> budget_snapshot result" where
  "spendBudget s delta =
     and_then (checkBudget s delta) (\<lambda>result.
       if \<not> allowed result
       then Inl (DarkFactoryError BUDGET_EXHAUSTED ''The sealed campaign budget would be exceeded'')
       else Inr \<lparr>limits = limits s, usage = projected result\<rparr>)"

definition remainingBudget :: "budget_snapshot \<Rightarrow> budget_usage result" where
  "remainingBudget s =
     and_then (validateBudgetSnapshot s) (\<lambda>_.
       let l = limits s; u = usage s; left = (\<lambda>a b. num_max (Fin 0) (num_sub a b))
       in Inr \<lparr>spentUsd = left (maximumUsd l) (spentUsd u),
         tokens = left (maximumTokens l) (tokens u),
         wallTimeMs = left (maximumWallTimeMs l) (wallTimeMs u),
         attempts = left (maximumAttempts l) (attempts u),
         privacyReleases = left (maximumPrivacyReleases l) (privacyReleases u),
         promotionLooks = left (maximumPromotionLooks l) (promotionLooks u),
         onlineErrorSpent = left (maximumOnlineError l) (onlineErrorSpent u)\<rparr>)"

subsection \<open>One dimension\<close>

text \<open>
  A dimension in order: usage and limit are finite values of the language with
  \<open>0 \<le> usage \<le> limit\<close>, and both are safe integers where the dimension counts.
\<close>

definition dim_ok :: "bool \<Rightarrow> number \<Rightarrow> number \<Rightarrow> bool" where
  "dim_ok counts u l \<longleftrightarrow>
     is_finite u \<and> is_finite l \<and> wf_num u \<and> num_le (Fin 0) u \<and> num_le u l \<and>
     (counts \<longrightarrow> is_safe_integer u \<and> is_safe_integer l)"

lemma dim_okE:
  assumes "dim_ok counts u l"
  obtains a c where "u = Fin a" "l = Fin c" "0 \<le> a" "a \<le> c" "wf_num (Fin a)"
    "counts \<longrightarrow> is_safe_integer (Fin a) \<and> is_safe_integer (Fin c)"
  using assms by (cases u; cases l) (auto simp: dim_ok_def)

definition amount_ok :: "bool \<Rightarrow> number \<Rightarrow> bool" where
  "amount_ok counts d \<longleftrightarrow>
     is_finite d \<and> num_le (Fin 0) d \<and> (counts \<longrightarrow> is_safe_integer d)"

lemma amount_okE:
  assumes "amount_ok counts d"
  obtains b where "d = Fin b" "0 \<le> b" "counts \<longrightarrow> is_safe_integer (Fin b)"
  using assms by (cases d) (auto simp: amount_ok_def)

lemma safe_limit:
  assumes "is_safe_integer (Fin c)" obtains l where "c = of_int l" "\<bar>l\<bar> \<le> max_safe"
  using assms by (auto simp: )

lemma num_not_less_finite: "\<not> num_less (Fin c) (num_add (Fin a) (Fin b)) \<longleftrightarrow>
    num_le (num_add (Fin a) (Fin b)) (Fin c)"
  by (intro num_not_less) (auto simp: num_of_def Let_def)

lemma dim_spend:
  assumes "dim_ok counts u l" "amount_ok counts d" "\<not> num_less l (num_add u d)"
  shows "dim_ok counts (num_add u d) l" and "num_le u (num_add u d)"
proof -
  obtain a c where u: "u = Fin a" "l = Fin c" "0 \<le> a" "a \<le> c" "wf_num (Fin a)"
    and safe: "counts \<longrightarrow> is_safe_integer (Fin a) \<and> is_safe_integer (Fin c)"
    using assms(1) by (rule dim_okE)
  obtain b where d: "d = Fin b" "0 \<le> b" and safe_d: "counts \<longrightarrow> is_safe_integer (Fin b)"
    using assms(2) by (rule amount_okE)
  show le: "num_le u (num_add u d)" using num_le_add [OF u(5) d(2)] u d by simp
  have lim: "num_le (num_add u d) l"
    using assms(3) num_not_less_finite [of c a b] by (simp add: u d)
  from le lim obtain r where r: "num_add u d = Fin r" "a \<le> r" "r \<le> c"
    by (cases "num_add u d") (auto simp: u num_le_def num_eq_def)
  have "is_safe_integer (Fin r)" if c: counts
  proof -
    obtain m n k where mn: "a = of_int m" "b = of_int n" "c = of_int k" "\<bar>k\<bar> \<le> max_safe"
      using c safe safe_d by auto
    then have "m + n \<le> k" "0 \<le> m" "0 \<le> n"
      using lim num_add_le_int_limit [OF mn(4), of m n] u d by simp_all
    moreover from this have "num_add u d = num_of_int (m + n)"
      unfolding u(1) d(1) mn(1,2) by (intro num_add_of_int) (use mn(4) in \<open>simp add: max_safe_def\<close>)
    ultimately show ?thesis using r(1) mn(4) by simp
  qed
  then show "dim_ok counts (num_add u d) l"
    using safe u r wf_num_add [of u d] by (simp add: dim_ok_def)
qed

text \<open>In a counting dimension the rounded sum is the exact one.\<close>

lemma dim_spend_exact:
  assumes "dim_ok True (num_of_int m) (num_of_int k)" "amount_ok True (num_of_int n)"
  shows "num_less (num_of_int k) (num_add (num_of_int m) (num_of_int n)) \<longleftrightarrow> k < m + n"
    and "m + n \<le> k \<Longrightarrow> num_add (num_of_int m) (num_of_int n) = num_of_int (m + n)"
proof -
  have k: "\<bar>k\<bar> \<le> max_safe" and nn: "0 \<le> m" "0 \<le> n"
    using assms by (auto simp: dim_ok_def amount_ok_def)
  show "num_less (num_of_int k) (num_add (num_of_int m) (num_of_int n)) \<longleftrightarrow> k < m + n"
    using num_add_le_int_limit [OF k, of m n] num_not_less_finite [of "of_int k" "of_int m" "of_int n"]
    by linarith
  assume "m + n \<le> k"
  then show "num_add (num_of_int m) (num_of_int n) = num_of_int (m + n)"
    using k nn by (intro num_add_of_int) (simp add: max_safe_def)
qed

subsection \<open>Snapshots\<close>

text \<open>The invariant of a budget: it validates, and its usage holds values of the language.\<close>

definition budget_inv :: "budget_snapshot \<Rightarrow> bool" where
  "budget_inv s \<longleftrightarrow>
     validateBudgetSnapshot s = Inr () \<and> (\<forall>(f, v) \<in> set (usage_entries (usage s)). wf_num v)"

definition usage_le :: "budget_usage \<Rightarrow> budget_usage \<Rightarrow> bool" where
  "usage_le u v \<longleftrightarrow> list_all2 (\<lambda>(_, a) (_, b). num_le a b) (usage_entries u) (usage_entries v)"

lemma nonNegativeFinite_ok [guard_simps]:
  "nonNegativeFinite f v = Inr () \<longleftrightarrow> is_finite v \<and> num_le (Fin 0) v"
  by (cases v) (auto simp: nonNegativeFinite_def num_le_def num_eq_def)

lemma dim_ok_checks:
  "dim_ok counts u l \<longleftrightarrow>
     (is_finite l \<and> num_le (Fin 0) l) \<and> (is_finite u \<and> num_le (Fin 0) u) \<and>
     (counts \<longrightarrow> is_safe_integer l \<and> is_safe_integer u) \<and> \<not> num_less l u \<and> wf_num u"
  by (cases u; cases l) (auto simp: dim_ok_def)

lemma online_within_one:
  "\<not> (num_less (Fin 1) l \<or> num_less (Fin 1) u) \<and> \<not> num_less l u \<and> is_finite l \<and> is_finite u \<longleftrightarrow>
     num_le l (Fin 1) \<and> \<not> num_less l u \<and> is_finite l \<and> is_finite u"
  by (cases u; cases l) auto

lemma budget_inv_dims:
  "budget_inv s \<longleftrightarrow>
     dim_ok False (spentUsd (usage s)) (maximumUsd (limits s)) \<and>
     dim_ok True (tokens (usage s)) (maximumTokens (limits s)) \<and>
     dim_ok True (wallTimeMs (usage s)) (maximumWallTimeMs (limits s)) \<and>
     dim_ok True (attempts (usage s)) (maximumAttempts (limits s)) \<and>
     dim_ok True (privacyReleases (usage s)) (maximumPrivacyReleases (limits s)) \<and>
     dim_ok True (promotionLooks (usage s)) (maximumPromotionLooks (limits s)) \<and>
     dim_ok False (onlineErrorSpent (usage s)) (maximumOnlineError (limits s)) \<and>
     num_le (maximumOnlineError (limits s)) (Fin 1)"
proof -
  have checks: "budget_inv s \<longleftrightarrow>
    (\<forall>(f, v) \<in> set (limit_entries (limits s)). is_finite v \<and> num_le (Fin 0) v) \<and>
    (\<forall>(f, v) \<in> set (usage_entries (usage s)). is_finite v \<and> num_le (Fin 0) v) \<and>
    \<not> (num_less (Fin 1) (maximumOnlineError (limits s)) \<or>
        num_less (Fin 1) (onlineErrorSpent (usage s))) \<and>
    list_all is_safe_integer [maximumTokens (limits s), maximumWallTimeMs (limits s),
       maximumAttempts (limits s), maximumPrivacyReleases (limits s),
       maximumPromotionLooks (limits s), tokens (usage s), wallTimeMs (usage s),
       attempts (usage s), privacyReleases (usage s), promotionLooks (usage s)] \<and>
    (\<forall>(_, u, l) \<in> set (usage_limit_pairs (limits s) (usage s)). \<not> num_less l u) \<and>
    (\<forall>(f, v) \<in> set (usage_entries (usage s)). wf_num v)"
    by (simp add: budget_inv_def validateBudgetSnapshot_def guard_simps case_prod_beta
        list_ex_iff) blast
  show ?thesis
    unfolding checks dim_ok_checks limit_entries_def usage_entries_def usage_limit_pairs_def
    using online_within_one [of "maximumOnlineError (limits s)" "onlineErrorSpent (usage s)"]
    by (simp only: list.set ball_simps prod.case list.pred_inject HOL.simp_thms) blast
qed

lemmas budget_records = limit_entries_def usage_entries_def usage_limit_pairs_def

lemma checkDelta_ok [guard_simps]:
  "checkDelta (f, v) = Inr () \<longleftrightarrow> f \<in> set USAGE_FIELDS \<and> amount_ok (f \<in> set COUNT_FIELDS) v"
  by (auto simp: checkDelta_def guard_simps amount_ok_def)

lemma delta_value_ok:
  assumes "check_all checkDelta d = Inr ()"
  shows "amount_ok (f \<in> set COUNT_FIELDS) (delta_value d f)"
proof (cases "map_of d f")
  case None
  then show ?thesis by (simp add: delta_value_def amount_ok_def max_safe_def)
next
  case (Some v)
  then have "(f, v) \<in> set d" by (rule map_of_SomeD)
  with assms have "checkDelta (f, v) = Inr ()" by (auto simp: guard_simps)
  with Some show ?thesis by (simp add: checkDelta_ok delta_value_def)
qed

lemma amounts_ok:
  assumes "check_all checkDelta d = Inr ()"
  shows "amount_ok False (delta_value d ''spentUsd'')" "amount_ok True (delta_value d ''tokens'')"
    "amount_ok True (delta_value d ''wallTimeMs'')" "amount_ok True (delta_value d ''attempts'')"
    "amount_ok True (delta_value d ''privacyReleases'')"
    "amount_ok True (delta_value d ''promotionLooks'')"
    "amount_ok False (delta_value d ''onlineErrorSpent'')"
  using delta_value_ok [OF assms, of "''spentUsd''"] delta_value_ok [OF assms, of "''tokens''"]
    delta_value_ok [OF assms, of "''wallTimeMs''"] delta_value_ok [OF assms, of "''attempts''"]
    delta_value_ok [OF assms, of "''privacyReleases''"]
    delta_value_ok [OF assms, of "''promotionLooks''"]
    delta_value_ok [OF assms, of "''onlineErrorSpent''"]
  by (simp_all add: COUNT_FIELDS_def)

lemma spendBudget_ok:
  "spendBudget s d = Inr t \<longleftrightarrow>
     validateBudgetSnapshot s = Inr () \<and> check_all checkDelta d = Inr () \<and>
     (\<forall>(_, u, l) \<in> set (usage_limit_pairs (limits s) (projectUsage (usage s) d)). \<not> num_less l u) \<and>
     t = \<lparr>limits = limits s, usage = projectUsage (usage s) d\<rparr>"
  by (auto simp: spendBudget_def checkBudget_def Let_def filter_empty_conv)

lemma spend_step:
  assumes inv: "budget_inv s" and ok: "spendBudget s d = Inr t"
  shows "budget_inv t" and "usage_le (usage s) (usage t)"
proof -
  from ok have d: "check_all checkDelta d = Inr ()"
    and fits: "\<forall>(_, u, l) \<in> set (usage_limit_pairs (limits s) (projectUsage (usage s) d)). \<not> num_less l u"
    and t: "t = \<lparr>limits = limits s, usage = projectUsage (usage s) d\<rparr>"
    by (simp_all add: spendBudget_ok)
  note dims = inv [unfolded budget_inv_dims] and amounts = amounts_ok [OF d]
  show "budget_inv t"
    using dims fits amounts unfolding budget_inv_dims t
    by (simp add: usage_limit_pairs_def projectUsage_def dim_spend)
  show "usage_le (usage s) (usage t)"
    using dims fits amounts unfolding t
    by (simp add: usage_limit_pairs_def projectUsage_def usage_le_def usage_entries_def)
      (blast intro: dim_spend(2))
qed

lemma usage_le_refl: "budget_inv s \<Longrightarrow> usage_le (usage s) (usage s)"
  unfolding budget_inv_dims usage_le_def usage_entries_def
  by (simp add: dim_ok_def num_le_def num_eq_def) (metis is_finite.simps(4))

lemma usage_le_trans: "usage_le u v \<Longrightarrow> usage_le v w \<Longrightarrow> usage_le u w"
  unfolding usage_le_def usage_entries_def by (simp, blast intro: num_le_trans)

definition budget_order :: "budget_snapshot \<Rightarrow> budget_snapshot \<Rightarrow> bool" where
  "budget_order s t \<longleftrightarrow>
     limits s = limits t \<and> (budget_inv s \<longrightarrow> budget_inv t \<and> usage_le (usage s) (usage t))"

interpretation budget: monotone_machine "\<lambda>d s. spendBudget s d" budget_inv budget_order
proof unfold_locales
  fix s d t
  assume "budget_inv s" "spendBudget s d = Inr t"
  then show "budget_inv t" and "budget_order s t"
    using spend_step [of s d t] by (auto simp: budget_order_def spendBudget_ok)
qed (auto simp: budget_order_def intro: usage_le_refl usage_le_trans)

subsection \<open>Exact accounting in the counted dimensions\<close>

fun int_part :: "number \<Rightarrow> int" where
  "int_part (Fin a) = \<lfloor>a\<rfloor>"
| "int_part _ = 0"

text \<open>Usage, limit and requested amount of each counted dimension, as integers.\<close>

definition counted_rows :: "budget_snapshot \<Rightarrow> budget_delta \<Rightarrow> (int \<times> int \<times> int) list" where
  "counted_rows s d =
     [(int_part (tokens (usage s)), int_part (maximumTokens (limits s)), int_part (delta_value d ''tokens'')),
      (int_part (wallTimeMs (usage s)), int_part (maximumWallTimeMs (limits s)), int_part (delta_value d ''wallTimeMs'')),
      (int_part (attempts (usage s)), int_part (maximumAttempts (limits s)), int_part (delta_value d ''attempts'')),
      (int_part (privacyReleases (usage s)), int_part (maximumPrivacyReleases (limits s)), int_part (delta_value d ''privacyReleases'')),
      (int_part (promotionLooks (usage s)), int_part (maximumPromotionLooks (limits s)), int_part (delta_value d ''promotionLooks''))]"

lemma counted_dim:
  assumes "dim_ok True u l" "amount_ok True d"
  shows "num_less l (num_add u d) \<longleftrightarrow> int_part l < int_part u + int_part d"
    and "int_part u + int_part d \<le> int_part l \<Longrightarrow> int_part (num_add u d) = int_part u + int_part d"
proof -
  obtain m k where mk: "u = num_of_int m" "l = num_of_int k"
    using assms(1) by (auto simp: dim_ok_def elim!: is_safe_integerE)
  obtain n where n: "d = num_of_int n"
    using assms(2) by (auto simp: amount_ok_def elim!: is_safe_integerE)
  note exact = dim_spend_exact [OF assms [unfolded mk n]]
  show "num_less l (num_add u d) \<longleftrightarrow> int_part l < int_part u + int_part d"
    using exact(1) by (simp only: mk n int_part.simps floor_of_int)
  assume "int_part u + int_part d \<le> int_part l"
  then have "m + n \<le> k" by (simp only: mk n int_part.simps floor_of_int)
  then show "int_part (num_add u d) = int_part u + int_part d"
    by (simp only: mk n exact(2) int_part.simps floor_of_int)
qed

lemma num_max_sub_nonneg:
  assumes "dim_ok True u l"
  shows "num_max (Fin 0) (num_sub l u) = num_of_int (int_part l - int_part u)"
    and "0 \<le> int_part l - int_part u"
proof -
  obtain m k where mk: "u = num_of_int m" "l = num_of_int k"
    using assms by (auto simp: dim_ok_def elim!: is_safe_integerE)
  have b: "0 \<le> m" "m \<le> k" "\<bar>k\<bar> \<le> max_safe"
    using assms by (auto simp: dim_ok_def mk)
  have "\<bar>k + - m\<bar> \<le> 2 ^ 53" using b by (simp add: max_safe_def)
  then have "num_sub l u = num_of_int (k - m)"
    using num_add_of_int [of k "- m"] by (simp add: num_sub_def mk)
  then show "num_max (Fin 0) (num_sub l u) = num_of_int (int_part l - int_part u)"
    using b by (auto simp: num_max_def mk)
  show "0 \<le> int_part l - int_part u" using b by (simp add: mk)
qed

lemma num_add_zero:
  assumes "dim_ok counts u l" shows "\<not> num_less l (num_add u (Fin 0))"
proof -
  obtain a c where "u = Fin a" "l = Fin c" "a \<le> c" "wf_num (Fin a)"
    using assms by (rule dim_okE)
  then show ?thesis using num_of_exact [of a] by simp
qed

lemma num_less_dims:
  assumes "budget_inv s" "check_all checkDelta d = Inr ()"
  shows "(\<forall>(_, u, l) \<in> set (usage_limit_pairs (limits s) (projectUsage (usage s) d)). \<not> num_less l u) \<longleftrightarrow>
    list_all (\<lambda>(u, l, a). u + a \<le> l) (counted_rows s d) \<and>
    \<not> num_less (maximumUsd (limits s)) (num_add (spentUsd (usage s)) (delta_value d ''spentUsd'')) \<and>
    \<not> num_less (maximumOnlineError (limits s))
        (num_add (onlineErrorSpent (usage s)) (delta_value d ''onlineErrorSpent''))"
  using assms(1) amounts_ok [OF assms(2)] unfolding budget_inv_dims
  by (simp add: usage_limit_pairs_def projectUsage_def counted_rows_def counted_dim not_less)
    blast

text \<open>A spend of attempts alone is limited by the attempts alone.\<close>

lemma spend_attempts:
  assumes "budget_inv s" "0 \<le> n" "safe_int n"
  shows "(\<exists>t. spendBudget s [(''attempts'', num_of_int n)] = Inr t) =
    (n \<le> int_part (maximumAttempts (limits s)) - int_part (attempts (usage s)))"
proof -
  let ?d = "[(''attempts'', num_of_int n)]"
  have d: "check_all checkDelta ?d = Inr ()"
    using assms(2,3) by (simp add: checkDelta_ok amount_ok_def USAGE_FIELDS_def COUNT_FIELDS_def safe_int_def)
  have "(\<exists>t. spendBudget s ?d = Inr t) \<longleftrightarrow>
    (\<forall>(_, u, l) \<in> set (usage_limit_pairs (limits s) (projectUsage (usage s) ?d)). \<not> num_less l u)"
    using assms(1) d by (simp add: spendBudget_ok budget_inv_def)
  also have "\<dots> \<longleftrightarrow> list_all (\<lambda>(u, l, a). u + a \<le> l) (counted_rows s ?d)"
    using assms(1) num_add_zero unfolding num_less_dims [OF assms(1) d] budget_inv_dims
    by (simp add: delta_value_def) blast
  also have "\<dots> \<longleftrightarrow> n \<le> int_part (maximumAttempts (limits s)) - int_part (attempts (usage s))"
    using assms(1) num_max_sub_nonneg(2) unfolding budget_inv_dims
    by (simp add: counted_rows_def delta_value_def) (smt (verit))
  finally show ?thesis .
qed

subsection \<open>Properties\<close>

text \<open>
  C31. Whatever sequence of spends a campaign attempts, refused ones included, its budget
  stays valid (every usage finite, non-negative and within its sealed limit, counted
  dimensions safe integers, online error within one), its limits never change and no
  usage ever decreases.
\<close>

theorem budget_never_overspent:
  assumes "budget_inv s"
  shows "let t = run_ops (\<lambda>d s. spendBudget s d) s ds
         in validateBudgetSnapshot t = Inr () \<and> limits t = limits s \<and>
            usage_le (usage s) (usage t) \<and>
            (\<forall>(_, u, l) \<in> set (usage_limit_pairs (limits t) (usage t)). num_le u l)"
proof -
  let ?t = "run_ops (\<lambda>d s. spendBudget s d) s ds"
  have inv: "budget_inv ?t" and le: "budget_order s ?t"
    by (rule budget.history_inv [OF assms], rule budget.history_le [OF assms])
  have "\<forall>(_, u, l) \<in> set (usage_limit_pairs (limits ?t) (usage ?t)). num_le u l"
    using inv unfolding budget_inv_dims by (simp add: usage_limit_pairs_def dim_ok_def)
  with inv le assms show ?thesis
    unfolding Let_def budget_order_def by (auto simp: budget_inv_def)
qed

definition budget_example :: budget_snapshot where
  "budget_example =
     \<lparr>limits = \<lparr>maximumUsd = Fin 100, maximumTokens = Fin 1000, maximumWallTimeMs = Fin 5000,
        maximumAttempts = Fin 10, maximumPrivacyReleases = Fin 2, maximumPromotionLooks = Fin 3,
        maximumOnlineError = Fin (1 / 2)\<rparr>,
      usage = \<lparr>spentUsd = Fin (1 / 2), tokens = Fin 100, wallTimeMs = Fin 0, attempts = Fin 4,
        privacyReleases = Fin 0, promotionLooks = Fin 1, onlineErrorSpent = Fin 0\<rparr>\<rparr>"

lemma budget_example_inv: "budget_inv budget_example"
proof -
  have "validateBudgetSnapshot budget_example = Inr ()"
    and "\<forall>(f, v) \<in> set (usage_entries (usage budget_example)). wf_num v"
    by code_simp+
  then show ?thesis by (simp add: budget_inv_def)
qed

theorem budget_never_overspent_witness:
  "validateBudgetSnapshot (run_ops (\<lambda>d s. spendBudget s d) budget_example
     [[(''attempts'', Fin 6), (''spentUsd'', Fin (5 / 2))], [(''attempts'', Fin 1)]]) = Inr ()"
  using budget_never_overspent [OF budget_example_inv] by (simp only: Let_def)

text \<open>
  Counted dimensions are accounted exactly, in spite of the rounding of number
  addition: a spend of accepted amounts succeeds exactly when, in integer arithmetic, no
  counted usage would pass its limit and neither of the two real-valued dimensions would
  pass its own; it then adds exactly the amounts, and it is otherwise refused with
  \<open>BUDGET_EXHAUSTED\<close>.
\<close>

theorem spend_counts_exact:
  assumes "budget_inv s" "check_all checkDelta d = Inr ()"
  shows "case spendBudget s d of
      Inl e \<Rightarrow> (\<exists>m. e = DarkFactoryError BUDGET_EXHAUSTED m) \<and>
        (list_ex (\<lambda>(u, l, a). l < u + a) (counted_rows s d) \<or>
         num_less (maximumUsd (limits s)) (num_add (spentUsd (usage s)) (delta_value d ''spentUsd'')) \<or>
         num_less (maximumOnlineError (limits s))
           (num_add (onlineErrorSpent (usage s)) (delta_value d ''onlineErrorSpent'')))
    | Inr t \<Rightarrow> list_all (\<lambda>(u, l, a). u + a \<le> l) (counted_rows s d) \<and>
        map fst (counted_rows t []) = map (\<lambda>(u, l, a). u + a) (counted_rows s d)"
proof (cases "spendBudget s d")
  case (Inl e)
  have valid: "validateBudgetSnapshot s = Inr ()" using assms(1) by (simp add: budget_inv_def)
  with Inl assms(2) have "e = DarkFactoryError BUDGET_EXHAUSTED
      ''The sealed campaign budget would be exceeded''"
    by (auto simp: spendBudget_def checkBudget_def Let_def split: if_splits)
  moreover have "\<not> (\<forall>(_, u, l) \<in> set (usage_limit_pairs (limits s) (projectUsage (usage s) d)).
      \<not> num_less l u)"
    using Inl valid assms(2) spendBudget_ok [of s d] by fastforce
  ultimately show ?thesis
    unfolding num_less_dims [OF assms] using Inl by (auto simp: list_all_iff list_ex_iff not_le)
next
  case (Inr t)
  then have t: "t = \<lparr>limits = limits s, usage = projectUsage (usage s) d\<rparr>"
    and fits: "list_all (\<lambda>(u, l, a). u + a \<le> l) (counted_rows s d)"
    using num_less_dims [OF assms] by (simp_all add: spendBudget_ok)
  have "map fst (counted_rows t []) = map (\<lambda>(u, l, a). u + a) (counted_rows s d)"
    using fits assms(1) amounts_ok [OF assms(2)] unfolding budget_inv_dims
    by (simp add: counted_rows_def t projectUsage_def) (blast intro: counted_dim(2))
  with fits Inr show ?thesis by simp
qed

theorem spend_counts_exact_witness:
  "\<exists>m. spendBudget budget_example [(''attempts'', Fin 7)] = Inl (DarkFactoryError BUDGET_EXHAUSTED m)"
proof -
  have d: "check_all checkDelta [(''attempts'', Fin 7)] = Inr ()" by code_simp
  have over: "\<not> list_all (\<lambda>(u, l, a). u + a \<le> l) (counted_rows budget_example [(''attempts'', Fin 7)])"
    by code_simp
  show ?thesis
    using spend_counts_exact [OF budget_example_inv d] over by (auto split: sum.splits)
qed

text \<open>
  What remains of a valid budget is what the limits leave: in every counted dimension
  usage and remainder add up exactly to the limit, and a number of attempts can be spent
  exactly when it is at most the remaining attempts.
\<close>

theorem remaining_budget_exact:
  assumes "budget_inv s"
  shows "\<exists>r. remainingBudget s = Inr r \<and>
    map (\<lambda>(u, l, _). l - u) (counted_rows s []) =
      map int_part [tokens r, wallTimeMs r, attempts r, privacyReleases r, promotionLooks r] \<and>
    list_all (\<lambda>v. num_le (Fin 0) v \<and> is_safe_integer v)
      [tokens r, wallTimeMs r, attempts r, privacyReleases r, promotionLooks r] \<and>
    (\<forall>n. 0 \<le> n \<longrightarrow> safe_int n \<longrightarrow>
       (\<exists>t. spendBudget s [(''attempts'', num_of_int n)] = Inr t) = (n \<le> int_part (attempts r)))"
proof -
  have valid: "validateBudgetSnapshot s = Inr ()" using assms by (simp add: budget_inv_def)
  have safe: "is_safe_integer (num_of_int (int_part l - int_part u))" if "dim_ok True u l" for u l
  proof -
    have "0 \<le> int_part u \<and> \<bar>int_part l\<bar> \<le> max_safe"
      using that by (auto simp: dim_ok_def elim!: is_safe_integerE) (simp_all add: safe_int_def)
    then have "\<bar>int_part l - int_part u\<bar> \<le> max_safe"
      using num_max_sub_nonneg(2) [OF that] by linarith
    then show ?thesis by (simp only: is_safe_integer_of_int safe_int_def)
  qed
  show ?thesis
    using assms valid safe num_max_sub_nonneg spend_attempts [OF assms] unfolding budget_inv_dims
    by (simp add: remainingBudget_def Let_def counted_rows_def)
qed

theorem remaining_budget_exact_witness:
  "\<exists>r. remainingBudget budget_example = Inr r \<and> int_part (attempts r) = 6"
proof -
  have "map (\<lambda>(u, l, _). l - u) (counted_rows budget_example []) = [900, 5000, 6, 2, 2]"
    by code_simp
  then show ?thesis using remaining_budget_exact [OF budget_example_inv] by auto
qed

end
