(* ===== verification/Compliance.thy ===== *)
theory Compliance
  imports Prelude
begin

text \<open>
  The compliance manifest of a run: \<open>src/core/compliance.ts\<close> with its types in
  \<open>src/domain/models.ts\<close>. A field whose type in the manifest is the literal \<open>false\<close> but
  which the code still checks at run time is a boolean here.
\<close>

datatype run_mode = Research | Submission

datatype leaderboard_eligibility = Unverified | Cleared | Strict_score_only

record compliance_channels =
  diagnosticBriefs :: bool
  repairFeedback :: bool
  optimizerMcp :: bool
  adaptiveTaskSelection :: bool
  officialEvaluation :: bool

record compliance_manifest =
  mode :: run_mode
  leaderboardEligibility :: leaderboard_eligibility
  optimizerHasBenchmarkCredentials :: bool
  localRawEvidenceAllowed :: bool
  channels :: compliance_channels

definition expectedChannels :: "run_mode \<Rightarrow> compliance_channels" where
  "expectedChannels m =
     (if m = Research
      then \<lparr>diagnosticBriefs = True, repairFeedback = True, optimizerMcp = True,
            adaptiveTaskSelection = True, officialEvaluation = False\<rparr>
      else \<lparr>diagnosticBriefs = False, repairFeedback = False, optimizerMcp = False,
            adaptiveTaskSelection = False, officialEvaluation = True\<rparr>)"

definition sameChannels :: "compliance_channels \<Rightarrow> compliance_channels \<Rightarrow> bool" where
  "sameChannels left right \<longleftrightarrow>
     diagnosticBriefs left = diagnosticBriefs right \<and>
     repairFeedback left = repairFeedback right \<and>
     optimizerMcp left = optimizerMcp right \<and>
     adaptiveTaskSelection left = adaptiveTaskSelection right \<and>
     officialEvaluation left = officialEvaluation right"

definition isSubmissionEligibilityAllowed :: "leaderboard_eligibility \<Rightarrow> bool" where
  "isSubmissionEligibilityAllowed e \<longleftrightarrow> e = Cleared \<or> e = Strict_score_only"

definition assertComplianceManifest :: "compliance_manifest \<Rightarrow> unit result" where
  "assertComplianceManifest m = guards
     [(\<not> sameChannels (channels m) (expectedChannels (mode m)),
       DarkFactoryError CONFIG_INVALID ''Compliance channels do not match the immutable run mode''),
      (optimizerHasBenchmarkCredentials m \<noteq> False,
       DarkFactoryError CONFIG_INVALID ''The optimizer may never possess benchmark credentials''),
      (localRawEvidenceAllowed m \<noteq> False,
       DarkFactoryError CONFIG_INVALID ''Raw evidence may never be persisted locally''),
      (mode m = Submission \<and> \<not> isSubmissionEligibilityAllowed (leaderboardEligibility m),
       DarkFactoryError FULL_EVAL_FORBIDDEN
         ''Submission mode requires cleared or strict-score-only eligibility'')]"

definition assertComparableProtocol :: "string \<Rightarrow> string \<Rightarrow> unit result" where
  "assertComparableProtocol expectedProtocolHash observedProtocolHash =
     (if expectedProtocolHash \<noteq> observedProtocolHash
      then Inl (DarkFactoryError PROTOCOL_MISMATCH
        ''Evidence from different protocol hashes cannot be compared'')
      else Inr ())"

lemma sameChannels_eq [guard_simps]: "sameChannels a b \<longleftrightarrow> a = b"
  by (cases a; cases b) (simp add: sameChannels_def)

text \<open>
  A manifest that passes the compliance check determines what a run may do: the run's
  channels are a function of its mode, official evaluation and the adaptive channels
  (briefs, repair feedback, optimizer tools, task selection) exclude each other, a
  submission is cleared or strict-score-only, and no accepted manifest gives the optimizer
  benchmark credentials or lets raw evidence stay local. Any two accepted manifests of one
  mode agree on their channels.
\<close>

theorem accepted_manifest_separates_channels:
  assumes "assertComplianceManifest m = Inr ()"
  shows "(officialEvaluation (channels m) \<longleftrightarrow> mode m = Submission) \<and>
    (\<forall>f \<in> {diagnosticBriefs, repairFeedback, optimizerMcp, adaptiveTaskSelection}.
       f (channels m) \<noteq> officialEvaluation (channels m)) \<and>
    (mode m = Submission \<longrightarrow> leaderboardEligibility m \<in> {Cleared, Strict_score_only}) \<and>
    \<not> optimizerHasBenchmarkCredentials m \<and> \<not> localRawEvidenceAllowed m \<and>
    (\<forall>n. assertComplianceManifest n = Inr () \<longrightarrow> mode n = mode m \<longrightarrow> channels n = channels m)"
  using assms
  by (cases "mode m")
    (auto simp: assertComplianceManifest_def guard_simps expectedChannels_def
      isSubmissionEligibilityAllowed_def)

theorem accepted_manifest_separates_channels_witness:
  "\<not> repairFeedback (channels \<lparr>mode = Submission, leaderboardEligibility = Cleared,
      optimizerHasBenchmarkCredentials = False, localRawEvidenceAllowed = False,
      channels = expectedChannels Submission\<rparr>)"
  using accepted_manifest_separates_channels
    [of "\<lparr>mode = Submission, leaderboardEligibility = Cleared,
      optimizerHasBenchmarkCredentials = False, localRawEvidenceAllowed = False,
      channels = expectedChannels Submission\<rparr>"]
  by (simp add: assertComplianceManifest_def guard_simps expectedChannels_def
      isSubmissionEligibilityAllowed_def)

end
