(* ===== verification/Validation_Decision.thy ===== *)
theory Validation_Decision
  imports Prelude
begin

text \<open>
  The preregistered promotion gate of a fresh validation: \<open>src/core/validation-decision.ts\<close>.
  The statistics are numbers of the language, and the thresholds 0.95, 0.05 and 0.2 are the
  binary64 values the literals denote.
\<close>

datatype disposition = Promote | Reject | Inconclusive_result

record validation_inputs =
  probabilityPositive :: number
  medianAccuracyDelta :: number
  requiredPosteriorProbability :: number
  onlineGateAuthorized :: bool
  stratumRegressionVeto :: bool
  integrityVeto :: bool
  correctnessVeto :: bool
  capabilityVeto :: bool
  costWithinGuardrail :: bool
  latencyWithinGuardrail :: bool
  accuracyTradeoffPredeclared :: bool

definition lit_095 :: number where "lit_095 = num_of (95 / 100)"
definition lit_005 :: number where "lit_005 = num_of (5 / 100)"
definition lit_02 :: number where "lit_02 = num_of (2 / 10)"

definition unitInterval :: "number \<Rightarrow> string \<Rightarrow> unit result" where
  "unitInterval value label =
     (if \<not> is_finite value \<or> num_less value (Fin 0) \<or> num_less (Fin 1) value
      then Inl (Error (label @ '' must be a finite unit-interval probability''))
      else Inr ())"

definition hard_veto :: "validation_inputs \<Rightarrow> bool" where
  "hard_veto i \<longleftrightarrow>
     (let costAndLatencyAllowed =
            (costWithinGuardrail i \<and> latencyWithinGuardrail i) \<or> accuracyTradeoffPredeclared i
      in integrityVeto i \<or> correctnessVeto i \<or> capabilityVeto i \<or> \<not> costAndLatencyAllowed)"

definition statistically_promotable :: "validation_inputs \<Rightarrow> bool" where
  "statistically_promotable i \<longleftrightarrow>
     num_le (requiredPosteriorProbability i) (probabilityPositive i) \<and>
     num_le lit_095 (probabilityPositive i) \<and>
     num_le lit_005 (medianAccuracyDelta i) \<and>
     \<not> stratumRegressionVeto i"

definition reproduceFreshValidationDisposition :: "validation_inputs \<Rightarrow> disposition result" where
  "reproduceFreshValidationDisposition i =
     and_then (unitInterval (probabilityPositive i) ''probabilityPositive'') (\<lambda>_.
     and_then (unitInterval (requiredPosteriorProbability i) ''requiredPosteriorProbability'') (\<lambda>_.
     if \<not> is_finite (medianAccuracyDelta i) \<or> num_less (medianAccuracyDelta i) (Fin (- 1)) \<or>
        num_less (Fin 1) (medianAccuracyDelta i)
     then Inl (Error ''medianAccuracyDelta must be finite and bounded'')
     else if hard_veto i then Inr Reject
     else if onlineGateAuthorized i \<and> statistically_promotable i then Inr Promote
     else if num_le (probabilityPositive i) lit_02 \<or>
        num_le (medianAccuracyDelta i) (num_neg lit_005) then Inr Reject
     else Inr Inconclusive_result))"

lemma unitInterval_ok [guard_simps]:
  "unitInterval v l = Inr () \<longleftrightarrow> (\<exists>p. v = Fin p \<and> 0 \<le> p \<and> p \<le> 1)"
  by (cases v) (auto simp: unitInterval_def)

text \<open>The literals as binary64 values, and how they lie to the decimal fractions.\<close>

lemma literal_values:
  "lit_095 = Fin (8556839292003942 / 9007199254740992)"
  "lit_005 = Fin (3602879701896397 / 72057594037927936)"
  "lit_02 = Fin (3602879701896397 / 18014398509481984)"
  by code_simp+

text \<open>The inputs without vetoes are better evidence: the order in which promotion is monotone.\<close>

definition evidence_le :: "validation_inputs \<Rightarrow> validation_inputs \<Rightarrow> bool" where
  "evidence_le i j \<longleftrightarrow>
     num_le (probabilityPositive i) (probabilityPositive j) \<and>
     num_le (medianAccuracyDelta i) (medianAccuracyDelta j) \<and>
     requiredPosteriorProbability i = requiredPosteriorProbability j \<and>
     (onlineGateAuthorized i \<longrightarrow> onlineGateAuthorized j) \<and>
     (stratumRegressionVeto j \<longrightarrow> stratumRegressionVeto i) \<and>
     (hard_veto j \<longrightarrow> hard_veto i)"

lemma disposition_promote:
  "reproduceFreshValidationDisposition i = Inr Promote \<longleftrightarrow>
     unitInterval (probabilityPositive i) ''probabilityPositive'' = Inr () \<and>
     unitInterval (requiredPosteriorProbability i) ''requiredPosteriorProbability'' = Inr () \<and>
     num_le (Fin (- 1)) (medianAccuracyDelta i) \<and> num_le (medianAccuracyDelta i) (Fin 1) \<and>
     \<not> hard_veto i \<and> onlineGateAuthorized i \<and> statistically_promotable i"
  by (cases "medianAccuracyDelta i") (auto simp: reproduceFreshValidationDisposition_def)

text \<open>
  A fresh validation promotes only with the online gate's authorization, no integrity,
  correctness, capability or stratum veto, a posterior probability of at least 0.95 and of
  at least the required one, and a median gain of at least 0.05 (the binary64 values); the
  promotion is monotone: with a valid median and probability that are no worse, and no veto
  added, better evidence is promoted too.
\<close>

theorem promotion_monotone:
  assumes "reproduceFreshValidationDisposition i = Inr Promote"
  shows "onlineGateAuthorized i \<and> \<not> integrityVeto i \<and> \<not> correctnessVeto i \<and>
    \<not> capabilityVeto i \<and> \<not> stratumRegressionVeto i \<and>
    (accuracyTradeoffPredeclared i \<or> costWithinGuardrail i \<and> latencyWithinGuardrail i) \<and>
    num_le lit_095 (probabilityPositive i) \<and>
    num_le (requiredPosteriorProbability i) (probabilityPositive i) \<and>
    num_le lit_005 (medianAccuracyDelta i) \<and>
    (\<forall>j. evidence_le i j \<longrightarrow> num_le (probabilityPositive j) (Fin 1) \<longrightarrow>
       num_le (medianAccuracyDelta j) (Fin 1) \<longrightarrow>
       reproduceFreshValidationDisposition j = Inr Promote)"
proof -
  note p = assms [unfolded disposition_promote]
  have "reproduceFreshValidationDisposition j = Inr Promote"
    if j: "evidence_le i j" "num_le (probabilityPositive j) (Fin 1)"
      "num_le (medianAccuracyDelta j) (Fin 1)" for j
  proof -
    have "unitInterval (probabilityPositive j) ''probabilityPositive'' = Inr ()"
      using p j by (cases "probabilityPositive j")
        (auto simp: unitInterval_ok evidence_le_def num_le_def num_eq_def)
    then show ?thesis
      using p j num_le_trans unfolding disposition_promote statistically_promotable_def evidence_le_def
      by (metis unitInterval_ok)
  qed
  then show ?thesis using p by (auto simp: hard_veto_def statistically_promotable_def Let_def)
qed

definition strong_evidence :: validation_inputs where
  "strong_evidence =
     \<lparr>probabilityPositive = Fin (31 / 32), medianAccuracyDelta = Fin (1 / 8),
      requiredPosteriorProbability = lit_095, onlineGateAuthorized = True,
      stratumRegressionVeto = False, integrityVeto = False, correctnessVeto = False,
      capabilityVeto = False, costWithinGuardrail = True, latencyWithinGuardrail = True,
      accuracyTradeoffPredeclared = False\<rparr>"

theorem promotion_monotone_witness:
  "reproduceFreshValidationDisposition strong_evidence = Inr Promote \<and>
   num_le lit_005 (medianAccuracyDelta strong_evidence)"
proof -
  have p: "reproduceFreshValidationDisposition strong_evidence = Inr Promote" by code_simp
  show ?thesis using p promotion_monotone [OF p] by blast
qed

text \<open>
  Vetoes dominate: on valid statistics a run with an integrity, correctness or
  capability veto, or over a cost or latency guardrail without a predeclared tradeoff, is
  rejected whatever its evidence; every other run gets exactly one disposition, and one
  without the online gate's authorization is never promoted.
\<close>

theorem vetoes_dominate:
  assumes "num_le (Fin 0) (probabilityPositive i)" "num_le (probabilityPositive i) (Fin 1)"
    "num_le (Fin 0) (requiredPosteriorProbability i)"
    "num_le (requiredPosteriorProbability i) (Fin 1)"
    "num_le (Fin (- 1)) (medianAccuracyDelta i)" "num_le (medianAccuracyDelta i) (Fin 1)"
  shows "\<exists>d. reproduceFreshValidationDisposition i = Inr d \<and> (hard_veto i \<longrightarrow> d = Reject) \<and>
    (\<not> onlineGateAuthorized i \<longrightarrow> d \<noteq> Promote) \<and>
    (d = Inconclusive_result \<longrightarrow> num_less lit_02 (probabilityPositive i))"
proof -
  have v: "unitInterval (probabilityPositive i) l = Inr ()"
    "unitInterval (requiredPosteriorProbability i) l = Inr ()" for l
    using assms(1-4) by (cases "probabilityPositive i"; cases "requiredPosteriorProbability i";
      auto simp: unitInterval_ok num_le_def num_eq_def)+
  obtain m where m: "medianAccuracyDelta i = Fin m" "- 1 \<le> m" "m \<le> 1"
    using assms(5,6) by (cases "medianAccuracyDelta i") (auto simp: num_le_def num_eq_def)
  obtain p where p: "probabilityPositive i = Fin p" using v(1) by (auto simp: unitInterval_ok)
  show ?thesis using v m p by (auto simp: reproduceFreshValidationDisposition_def literal_values)
qed

theorem vetoes_dominate_witness:
  "reproduceFreshValidationDisposition (strong_evidence\<lparr>integrityVeto := True\<rparr>) = Inr Reject"
proof -
  let ?i = "strong_evidence\<lparr>integrityVeto := True\<rparr>"
  have h: "num_le (Fin 0) (probabilityPositive ?i)" "num_le (probabilityPositive ?i) (Fin 1)"
    "num_le (Fin 0) (requiredPosteriorProbability ?i)"
    "num_le (requiredPosteriorProbability ?i) (Fin 1)"
    "num_le (Fin (- 1)) (medianAccuracyDelta ?i)" "num_le (medianAccuracyDelta ?i) (Fin 1)"
    by (simp_all add: strong_evidence_def literal_values)
  have "hard_veto ?i" by (simp add: hard_veto_def)
  with vetoes_dominate [OF h] show ?thesis by blast
qed

end
