(* ===== verification/Hidden_Types.thy ===== *)
theory Hidden_Types
  imports Prelude
begin

text \<open>
  The broker-private types of \<open>src/evaluation/types.ts\<close>: evaluation stages, gate
  dispositions, and the ledger entry of a hidden task with its estimates and its exposure.
  Estimates are numbers of the language; counters and experiment ordinals, which the code
  only increments and compares, are integers.
\<close>

datatype selection_bucket = Hard | Uncertain | Easy | Coverage

datatype evaluation_stage = Repair | Validation | Shadow_stage

datatype gate_disposition = Pass | Fail | Promote_gate | Reject_gate | Inconclusive_gate

datatype arm_order = AB | BA

record task_estimates =
  championFailureProbability :: number
  baselineFailureProbability :: number
  leaderboardFailureProbability :: number
  recentFailureProbability :: number
  outcomeUncertainty :: number
  discrimination :: number
  componentRelevance :: number
  underexposure :: number
  missingCapabilityCoverage :: number
  normalizedCost :: number
  impossibleProbability :: number

record task_exposure =
  total :: int
  consecutiveExperiments :: int
  lastExperiment :: "int option"
  feedbackReleased :: bool
  positiveValidationConsumed :: bool
  taskCooldownThroughExperiment :: "int option"
  informedHypothesisDigests :: "string list"

record hidden_task =
  taskId :: string
  taskRevisionDigest :: string
  capabilityStratum :: string
  difficultyStratum :: string
  buckets :: "selection_bucket list"
  estimates :: task_estimates
  exposure :: task_exposure
  shadowReserved :: bool
  regressionCanary :: bool
  infrastructureValid :: bool
  discriminating :: bool

record selected_task =
  selected_id :: string
  selected_bucket :: selection_bucket
  selected_score :: number

record panel_selection =
  selection_stage :: evaluation_stage
  selection_tasks :: "selected_task list"
  selection_quota :: "selection_bucket \<Rightarrow> int"
  selection_policy :: string

text \<open>What leaves the broker: counts and the quota, no identifiers.\<close>

record panel_attestation =
  pa_stage :: evaluation_stage
  pa_taskCount :: nat
  pa_quota :: "selection_bucket \<Rightarrow> int"
  pa_policyVersion :: string
  pa_deterministicSelection :: bool
  pa_containsTaskIdentifiers :: bool

definition hiddenTaskId :: "string \<Rightarrow> string result" where
  "hiddenTaskId digest =
     (if \<not> is_sha256 digest then Inl (Error ''A hidden task ID must be a lowercase SHA-256 digest'')
      else Inr digest)"

definition hiddenPanelId :: "string \<Rightarrow> string result" where
  "hiddenPanelId digest =
     (if \<not> is_sha256 digest then Inl (Error ''A hidden panel ID must be a lowercase SHA-256 digest'')
      else Inr digest)"

definition releaseSafePanelAttestation :: "panel_selection \<Rightarrow> panel_attestation" where
  "releaseSafePanelAttestation selection =
     \<lparr>pa_stage = selection_stage selection,
      pa_taskCount = length (selection_tasks selection),
      pa_quota = selection_quota selection,
      pa_policyVersion = selection_policy selection,
      pa_deterministicSelection = True,
      pa_containsTaskIdentifiers = False\<rparr>"

end
