(* ===== verification/Panel_Ledger.thy ===== *)
theory Panel_Ledger
  imports Hidden_Types Machines
begin

text \<open>
  The hidden-panel ledger, the shadow ledger and the task exposure ledger of
  \<open>src/evaluation/ledger.ts\<close>. A panel is a state machine: \<open>panel_step\<close> is the union of
  the exported transitions, and a \<open>monotone_machine\<close> whose order says what no history can
  undo. The shadow ledger is another.
\<close>

subsection \<open>Records\<close>

datatype panel_status =
  Panel_sealed | Panel_started | Panel_decided | Panel_returned_unstarted | Panel_quarantined

record panel_entry =
  panelId :: string
  stage :: evaluation_stage
  taskIds :: "string list"
  frozenHypothesisDigest :: string
  frozenCandidateDigest :: string
  status :: panel_status
  anyArmStarted :: bool
  feedbackConsumed :: bool
  panel_disposition :: "gate_disposition option"
  repairAttemptsUsed :: int
  repairClosed :: bool
  repairCooldownThroughExperiment :: "int option"
  panel_sealedAt :: string

record panel_ledger_attestation =
  at_stage :: evaluation_stage
  at_status :: panel_status
  at_taskCount :: nat
  at_feedbackConsumed :: bool
  at_disposition :: "gate_disposition option"
  at_cooldownApplied :: bool
  at_containsPanelHandle :: bool
  at_containsTaskIdentifiers :: bool

record shadow_ledger =
  reservedSlices :: int
  consumedSlices :: int
  attemptedActiveCommitDigests :: "string list"

record shadow_capacity =
  reservedSliceCount :: int
  remainingSliceCount :: int
  certificationPaused :: bool
  containsCommitIdentifiers :: bool
  sc_containsTaskIdentifiers :: bool

record panel_input =
  in_panelId :: string
  in_stage :: evaluation_stage
  in_taskIds :: "string list"
  in_frozenHypothesisDigest :: string
  in_frozenCandidateDigest :: string
  in_sealedAt :: string

record revision_input =
  rv_currentExperimentOrdinal :: int
  rv_frozenHypothesisDigest :: string
  rv_frozenCandidateDigest :: string
  rv_sealedAt :: string

subsection \<open>Panels\<close>

definition createHiddenPanelLedgerEntry :: "host \<Rightarrow> panel_input \<Rightarrow> panel_entry result" where
  "createHiddenPanelLedgerEntry h input = and_then (guards
     [(length (in_taskIds input) = 0 \<or> card (set (in_taskIds input)) \<noteq> length (in_taskIds input),
       Error ''A hidden panel must contain unique tasks''),
      (date_parse h (in_sealedAt input) = None, Error ''Panel seal timestamp must be valid''),
      (length (in_frozenHypothesisDigest input) = 0 \<or> length (in_frozenCandidateDigest input) = 0,
       Error ''A panel requires frozen hypothesis and candidate digests'')])
     (\<lambda>_. Inr \<lparr>panelId = in_panelId input, stage = in_stage input, taskIds = in_taskIds input,
        frozenHypothesisDigest = in_frozenHypothesisDigest input,
        frozenCandidateDigest = in_frozenCandidateDigest input,
        status = Panel_sealed, anyArmStarted = False, feedbackConsumed = False,
        panel_disposition = None, repairAttemptsUsed = 0, repairClosed = False,
        repairCooldownThroughExperiment = None, panel_sealedAt = in_sealedAt input\<rparr>)"

definition markPanelArmStarted :: "panel_entry \<Rightarrow> panel_entry result" where
  "markPanelArmStarted p =
     (if status p \<noteq> Panel_sealed \<and> status p \<noteq> Panel_started
      then Inl (Error ''Cannot start an arm for this panel'')
      else Inr (p\<lparr>status := Panel_started, anyArmStarted := True\<rparr>))"

fun allowed_dispositions :: "evaluation_stage \<Rightarrow> gate_disposition list" where
  "allowed_dispositions Repair = [Pass, Fail, Inconclusive_gate]"
| "allowed_dispositions Validation = [Promote_gate, Reject_gate, Inconclusive_gate]"
| "allowed_dispositions Shadow_stage = [Pass, Fail, Inconclusive_gate]"

definition validateDispositionForStage :: "evaluation_stage \<Rightarrow> gate_disposition \<Rightarrow> unit result" where
  "validateDispositionForStage s d =
     (if d \<notin> set (allowed_dispositions s) then Inl (Error ''Disposition is invalid for the stage'')
      else Inr ())"

definition decidePanel :: "gate_disposition \<Rightarrow> panel_entry \<Rightarrow> panel_entry result" where
  "decidePanel d p =
     (if status p \<noteq> Panel_started then Inl (Error ''Only a started panel can be decided'')
      else and_then (validateDispositionForStage (stage p) d)
        (\<lambda>_. Inr (p\<lparr>status := Panel_decided, feedbackConsumed := True, panel_disposition := Some d\<rparr>)))"

definition abandonPanel :: "panel_entry \<Rightarrow> panel_entry result" where
  "abandonPanel p =
     (if status p = Panel_sealed \<and> \<not> anyArmStarted p
      then Inr (p\<lparr>status := Panel_returned_unstarted\<rparr>)
      else if status p = Panel_started \<or> anyArmStarted p
      then Inr (p\<lparr>status := Panel_quarantined, feedbackConsumed := True,
             panel_disposition := Some Inconclusive_gate\<rparr>)
      else Inl (Error ''Cannot abandon the panel''))"

definition recordRepairAttempt :: "int \<Rightarrow> bool \<Rightarrow> panel_entry \<Rightarrow> panel_entry result" where
  "recordRepairAttempt ordinal advanced p =
     (if stage p \<noteq> Repair \<or> status p \<noteq> Panel_decided \<or> \<not> feedbackConsumed p \<or>
         \<not> safe_int ordinal \<or> ordinal < 0
      then Inl (Error ''Repair attempt accounting requires a decided repair panel'')
      else if 2 \<le> repairAttemptsUsed p
      then Inl (Error ''A discovery panel cannot support more than two candidate commits'')
      else let used = repairAttemptsUsed p + 1; closes = advanced \<or> used = 2
        in Inr (p\<lparr>repairAttemptsUsed := used, repairClosed := closes,
             repairCooldownThroughExperiment := (if closes then Some (ordinal + 3) else None)\<rparr>))"

definition repairPanelCanBeClaimed :: "panel_entry \<Rightarrow> int \<Rightarrow> bool" where
  "repairPanelCanBeClaimed p current \<longleftrightarrow>
     stage p = Repair \<and> status p = Panel_decided \<and> feedbackConsumed p \<and> \<not> repairClosed p \<and>
     repairAttemptsUsed p < 2 \<and>
     (case repairCooldownThroughExperiment p of None \<Rightarrow> True | Some c \<Rightarrow> c < current)"

text \<open>\<open>Date.parse(a) < Date.parse(b)\<close> is false when either is NaN.\<close>

definition parses_before :: "host \<Rightarrow> string \<Rightarrow> string \<Rightarrow> bool" where
  "parses_before h a b \<longleftrightarrow>
     (case (date_parse h a, date_parse h b) of (Some s, Some t) \<Rightarrow> s < t | _ \<Rightarrow> False)"

definition claimRepairRevision :: "host \<Rightarrow> revision_input \<Rightarrow> panel_entry \<Rightarrow> panel_entry result" where
  "claimRepairRevision h input p =
     (if \<not> safe_int (rv_currentExperimentOrdinal input) \<or> rv_currentExperimentOrdinal input < 0 \<or>
         \<not> repairPanelCanBeClaimed p (rv_currentExperimentOrdinal input)
      then Inl (Error ''Repair discovery cohort is not eligible for a revision'')
      else if length (rv_frozenHypothesisDigest input) = 0 \<or>
         length (rv_frozenCandidateDigest input) = 0 \<or>
         rv_frozenCandidateDigest input = frozenCandidateDigest p \<or>
         date_parse h (rv_sealedAt input) = None \<or>
         parses_before h (rv_sealedAt input) (panel_sealedAt p)
      then Inl (Error ''Repair revision requires a new frozen candidate and valid seal'')
      else Inr (p\<lparr>frozenHypothesisDigest := rv_frozenHypothesisDigest input,
             frozenCandidateDigest := rv_frozenCandidateDigest input,
             status := Panel_sealed, anyArmStarted := False, feedbackConsumed := False,
             panel_disposition := None, panel_sealedAt := rv_sealedAt input\<rparr>))"

definition contributingRepairTasksClearCooldown :: "panel_entry \<Rightarrow> int \<Rightarrow> bool" where
  "contributingRepairTasksClearCooldown p current \<longleftrightarrow>
     stage p = Repair \<and> repairClosed p \<and>
     (case repairCooldownThroughExperiment p of None \<Rightarrow> False | Some c \<Rightarrow> c < current)"

definition makeReleaseSafePanelLedgerAttestation :: "panel_entry \<Rightarrow> panel_ledger_attestation" where
  "makeReleaseSafePanelLedgerAttestation p =
     \<lparr>at_stage = stage p, at_status = status p, at_taskCount = length (taskIds p),
      at_feedbackConsumed = feedbackConsumed p, at_disposition = panel_disposition p,
      at_cooldownApplied = (repairCooldownThroughExperiment p \<noteq> None),
      at_containsPanelHandle = False, at_containsTaskIdentifiers = False\<rparr>"

subsection \<open>Shadow slices\<close>

definition createHiddenShadowLedger :: shadow_ledger where
  "createHiddenShadowLedger =
     \<lparr>reservedSlices = 2, consumedSlices = 0, attemptedActiveCommitDigests = []\<rparr>"

definition validateShadowLedger :: "shadow_ledger \<Rightarrow> unit result" where
  "validateShadowLedger l =
     (if reservedSlices l \<noteq> 2 \<or> \<not> safe_int (consumedSlices l) \<or> consumedSlices l < 0 \<or>
         2 < consumedSlices l \<or>
         card (set (attemptedActiveCommitDigests l)) \<noteq> length (attemptedActiveCommitDigests l) \<or>
         int (length (attemptedActiveCommitDigests l)) \<noteq> consumedSlices l
      then Inl (Error ''Invalid hidden shadow ledger'') else Inr ())"

definition claimShadowCertification :: "string \<Rightarrow> shadow_ledger \<Rightarrow> shadow_ledger result" where
  "claimShadowCertification commit l =
     and_then (validateShadowLedger l) (\<lambda>_.
     and_then (guards
       [(\<not> is_git_oid commit, Error ''Shadow certification requires a commit digest''),
        (reservedSlices l \<le> consumedSlices l, Error ''All feedback-dark shadow slices are consumed''),
        (commit \<in> set (attemptedActiveCommitDigests l),
         Error ''An active commit receives at most one certification attempt'')])
     (\<lambda>_. Inr (l\<lparr>consumedSlices := consumedSlices l + 1,
        attemptedActiveCommitDigests := attemptedActiveCommitDigests l @ [commit]\<rparr>)))"

definition releaseSafeShadowCapacity :: "shadow_ledger \<Rightarrow> shadow_capacity result" where
  "releaseSafeShadowCapacity l =
     and_then (validateShadowLedger l) (\<lambda>_.
       let remaining = reservedSlices l - consumedSlices l
       in if remaining \<noteq> 0 \<and> remaining \<noteq> 1 \<and> remaining \<noteq> 2
          then Inl (Error ''Invalid shadow capacity'')
          else Inr \<lparr>reservedSliceCount = 2, remainingSliceCount = remaining,
            certificationPaused = (remaining = 0), containsCommitIdentifiers = False,
            sc_containsTaskIdentifiers = False\<rparr>)"

subsection \<open>Task exposure\<close>

definition expose :: "panel_entry \<Rightarrow> int \<Rightarrow> hidden_task \<Rightarrow> hidden_task" where
  "expose p ordinal task =
     (let e = exposure task; wasConsecutive = (lastExperiment e = Some (ordinal - 1))
      in task\<lparr>exposure := e\<lparr>total := total e + 1,
           consecutiveExperiments := (if wasConsecutive then consecutiveExperiments e + 1 else 1),
           lastExperiment := Some ordinal,
           feedbackReleased := True,
           positiveValidationConsumed :=
             (positiveValidationConsumed e \<or> stage p = Validation \<or> stage p = Shadow_stage),
           taskCooldownThroughExperiment :=
             (case repairCooldownThroughExperiment p of
                Some c \<Rightarrow> Some c | None \<Rightarrow> taskCooldownThroughExperiment e)\<rparr>\<rparr>)"

definition applyConsumedPanelToTaskLedger ::
    "hidden_task list \<Rightarrow> panel_entry \<Rightarrow> int \<Rightarrow> hidden_task list result" where
  "applyConsumedPanelToTaskLedger tasks p ordinal =
     (if \<not> feedbackConsumed p \<or> (status p \<noteq> Panel_decided \<and> status p \<noteq> Panel_quarantined) \<or>
         \<not> safe_int ordinal \<or> ordinal < 0
      then Inl (Error ''Only consumed panels can update hidden task exposure'')
      else Inr (map (\<lambda>task. if taskId task \<notin> set (taskIds p) then task else expose p ordinal task) tasks))"

definition linkReleasedEvidenceToHypothesis ::
    "hidden_task list \<Rightarrow> string list \<Rightarrow> string \<Rightarrow> hidden_task list result" where
  "linkReleasedEvidenceToHypothesis tasks contributing digest =
     (if length digest = 0 then Inl (Error ''A frozen hypothesis digest is required'')
      else Inr (map (\<lambda>task.
        if taskId task \<in> set contributing
        then task\<lparr>exposure := (exposure task)\<lparr>informedHypothesisDigests :=
               new_set (informedHypothesisDigests (exposure task) @ [digest])\<rparr>\<rparr>
        else task) tasks))"

subsection \<open>The panel as a machine\<close>

datatype panel_op =
    Arm_started
  | Decide gate_disposition
  | Abandon
  | Repair_attempt int bool
  | Revise revision_input

fun panel_step :: "host \<Rightarrow> panel_op \<Rightarrow> panel_entry \<Rightarrow> panel_entry result" where
  "panel_step h Arm_started p = markPanelArmStarted p"
| "panel_step h (Decide d) p = decidePanel d p"
| "panel_step h Abandon p = abandonPanel p"
| "panel_step h (Repair_attempt ordinal advanced) p = recordRepairAttempt ordinal advanced p"
| "panel_step h (Revise input) p = claimRepairRevision h input p"

text \<open>The disposition and the flags that go with each status.\<close>

fun status_ok :: "panel_status \<Rightarrow> evaluation_stage \<Rightarrow> bool \<Rightarrow> bool \<Rightarrow> gate_disposition option \<Rightarrow> bool" where
  "status_ok Panel_sealed s started consumed d \<longleftrightarrow> \<not> started \<and> \<not> consumed \<and> d = None"
| "status_ok Panel_started s started consumed d \<longleftrightarrow> started \<and> \<not> consumed \<and> d = None"
| "status_ok Panel_decided s started consumed d \<longleftrightarrow>
     started \<and> consumed \<and> (\<exists>g \<in> set (allowed_dispositions s). d = Some g)"
| "status_ok Panel_returned_unstarted s started consumed d \<longleftrightarrow> \<not> started \<and> \<not> consumed \<and> d = None"
| "status_ok Panel_quarantined s started consumed d \<longleftrightarrow> started \<and> consumed \<and> d = Some Inconclusive_gate"

definition panel_inv :: "panel_entry \<Rightarrow> bool" where
  "panel_inv p \<longleftrightarrow>
     taskIds p \<noteq> [] \<and> distinct (taskIds p) \<and> frozenHypothesisDigest p \<noteq> [] \<and>
     frozenCandidateDigest p \<noteq> [] \<and>
     status_ok (status p) (stage p) (anyArmStarted p) (feedbackConsumed p) (panel_disposition p) \<and>
     0 \<le> repairAttemptsUsed p \<and> repairAttemptsUsed p \<le> 2 \<and>
     (repairClosed p \<longleftrightarrow> repairCooldownThroughExperiment p \<noteq> None) \<and>
     (repairAttemptsUsed p = 2 \<longrightarrow> repairClosed p) \<and> (repairAttemptsUsed p = 0 \<longrightarrow> \<not> repairClosed p) \<and>
     (stage p \<noteq> Repair \<longrightarrow> repairAttemptsUsed p = 0)"

definition panel_le :: "panel_entry \<Rightarrow> panel_entry \<Rightarrow> bool" where
  "panel_le p q \<longleftrightarrow>
     panelId p = panelId q \<and> stage p = stage q \<and> taskIds p = taskIds q \<and>
     repairAttemptsUsed p \<le> repairAttemptsUsed q \<and> (repairClosed p \<longrightarrow> repairClosed q) \<and>
     (stage p \<noteq> Repair \<longrightarrow>
        (anyArmStarted p \<longrightarrow> anyArmStarted q) \<and> (feedbackConsumed p \<longrightarrow> feedbackConsumed q) \<and>
        frozenCandidateDigest p = frozenCandidateDigest q \<and>
        (status p = Panel_quarantined \<longrightarrow> status q = Panel_quarantined) \<and>
        (panel_disposition p \<noteq> None \<longrightarrow> panel_disposition q \<in> {panel_disposition p, Some Inconclusive_gate}))"

lemma recordRepairAttempt_ok:
  "recordRepairAttempt E advanced p = Inr q \<longleftrightarrow>
     (stage p = Repair \<and> status p = Panel_decided \<and> feedbackConsumed p \<and> safe_int E \<and> 0 \<le> E \<and>
      repairAttemptsUsed p < 2) \<and>
     q = p\<lparr>repairAttemptsUsed := repairAttemptsUsed p + 1,
        repairClosed := advanced \<or> repairAttemptsUsed p + 1 = 2,
        repairCooldownThroughExperiment :=
          (if advanced \<or> repairAttemptsUsed p + 1 = 2 then Some (E + 3) else None)\<rparr>"
  unfolding recordRepairAttempt_def Let_def by (simp add: not_le not_less) blast

lemma markPanelArmStarted_ok:
  "markPanelArmStarted p = Inr q \<longleftrightarrow>
     status p \<in> {Panel_sealed, Panel_started} \<and> q = p\<lparr>status := Panel_started, anyArmStarted := True\<rparr>"
  by (auto simp: markPanelArmStarted_def)

lemma decidePanel_ok:
  "decidePanel d p = Inr q \<longleftrightarrow>
     status p = Panel_started \<and> d \<in> set (allowed_dispositions (stage p)) \<and>
     q = p\<lparr>status := Panel_decided, feedbackConsumed := True, panel_disposition := Some d\<rparr>"
  by (auto simp: decidePanel_def validateDispositionForStage_def)

lemma abandonPanel_ok:
  "abandonPanel p = Inr q \<longleftrightarrow>
     status p = Panel_sealed \<and> \<not> anyArmStarted p \<and> q = p\<lparr>status := Panel_returned_unstarted\<rparr> \<or>
     (status p = Panel_started \<or> anyArmStarted p) \<and>
     q = p\<lparr>status := Panel_quarantined, feedbackConsumed := True,
            panel_disposition := Some Inconclusive_gate\<rparr>"
  by (auto simp: abandonPanel_def)

lemmas panel_step_ok =
  markPanelArmStarted_ok decidePanel_ok abandonPanel_ok recordRepairAttempt_ok

lemma claimRepairRevision_ok:
  assumes "claimRepairRevision h input p = Inr q"
  shows "repairPanelCanBeClaimed p (rv_currentExperimentOrdinal input)"
    and "rv_frozenHypothesisDigest input \<noteq> []" "rv_frozenCandidateDigest input \<noteq> []"
    and "q = p\<lparr>frozenHypothesisDigest := rv_frozenHypothesisDigest input,
             frozenCandidateDigest := rv_frozenCandidateDigest input,
             status := Panel_sealed, anyArmStarted := False, feedbackConsumed := False,
             panel_disposition := None, panel_sealedAt := rv_sealedAt input\<rparr>"
  using assms by (simp_all add: claimRepairRevision_def split: if_splits)

lemma panel_step_inv:
  assumes inv: "panel_inv p" and ok: "panel_step h op p = Inr q"
  shows "panel_inv q"
proof (cases op)
  case (Repair_attempt ordinal advanced)
  then show ?thesis
    using inv ok by (cases "advanced \<or> repairAttemptsUsed p + 1 = 2")
      (auto simp: panel_step_ok panel_inv_def)
next
  case (Revise input)
  then show ?thesis
    using inv ok claimRepairRevision_ok [of h input p q] by (auto simp: panel_inv_def)
next
  case Abandon
  then show ?thesis
    using inv ok by (cases "status p") (auto simp: panel_step_ok panel_inv_def)
qed (use inv ok in \<open>auto simp: panel_step_ok panel_inv_def\<close>)

lemma panel_step_le:
  assumes inv: "panel_inv p" and ok: "panel_step h op p = Inr q"
  shows "panel_le p q"
proof (cases op)
  case (Revise input)
  then show ?thesis
    using ok claimRepairRevision_ok [of h input p q]
    by (simp add: panel_le_def repairPanelCanBeClaimed_def)
qed (use inv ok in \<open>cases "status p"; auto simp: panel_step_ok panel_inv_def panel_le_def\<close>)+

interpretation panel: monotone_machine "panel_step h" panel_inv panel_le for h
proof unfold_locales
  fix p q and op
  assume "panel_inv p" "panel_step h op p = Inr q"
  then show "panel_inv q" "panel_le p q" by (rule panel_step_inv, rule panel_step_le)
next
  fix p q r
  assume "panel_le p q" "panel_le q r"
  then show "panel_le p r"
    unfolding panel_le_def by (cases "stage p = Repair") (simp, simp, metis insertE insertI1 insertI2 singletonD)
qed (simp add: panel_le_def)

lemma created_panel_inv: "createHiddenPanelLedgerEntry h input = Inr p \<Longrightarrow> panel_inv p"
  by (auto simp: createHiddenPanelLedgerEntry_def guard_simps panel_inv_def)

subsection \<open>The shadow ledger as a machine\<close>

definition shadow_inv :: "shadow_ledger \<Rightarrow> bool" where
  "shadow_inv l \<longleftrightarrow> validateShadowLedger l = Inr ()"

lemma shadow_inv_iff:
  "shadow_inv l \<longleftrightarrow>
     reservedSlices l = 2 \<and> 0 \<le> consumedSlices l \<and> consumedSlices l \<le> 2 \<and>
     distinct (attemptedActiveCommitDigests l) \<and>
     int (length (attemptedActiveCommitDigests l)) = consumedSlices l"
  by (auto simp: shadow_inv_def validateShadowLedger_def safe_int_def max_safe_def)

definition shadow_le :: "shadow_ledger \<Rightarrow> shadow_ledger \<Rightarrow> bool" where
  "shadow_le l m \<longleftrightarrow>
     consumedSlices l \<le> consumedSlices m \<and>
     set (attemptedActiveCommitDigests l) \<subseteq> set (attemptedActiveCommitDigests m)"

interpretation shadow: monotone_machine claimShadowCertification shadow_inv shadow_le
proof unfold_locales
  fix l m op
  assume inv: "shadow_inv l" and ok: "claimShadowCertification op l = Inr m"
  from ok have m: "m = l\<lparr>consumedSlices := consumedSlices l + 1,
        attemptedActiveCommitDigests := attemptedActiveCommitDigests l @ [op]\<rparr>"
    and fresh: "op \<notin> set (attemptedActiveCommitDigests l)" "\<not> reservedSlices l \<le> consumedSlices l"
    by (auto simp: claimShadowCertification_def guard_simps)
  show "shadow_inv m" using inv fresh by (simp add: shadow_inv_iff m)
  show "shadow_le l m" by (auto simp: shadow_le_def m)
qed (auto simp: shadow_le_def)

subsection \<open>Properties\<close>

text \<open>
  C20. No history of transitions, refused ones included, changes a hidden panel's stage or
  its cohort of tasks, uses it for more than two repair attempts or reopens a closed one,
  and its flags and disposition always fit its status. A validation or shadow panel keeps
  its frozen candidate, once started stays started, once consumed stays consumed, and once
  decided keeps its disposition or, if it is abandoned, becomes inconclusive for good.
\<close>

theorem panel_history_safe:
  assumes "createHiddenPanelLedgerEntry h input = Inr p"
  shows "let q = run_ops (panel_step h) p xs; r = run_ops (panel_step h) p (xs @ ys)
     in panel_inv r \<and> panel_le q r \<and> taskIds r = in_taskIds input \<and> stage r = in_stage input"
proof -
  have inv: "panel_inv p" using assms by (rule created_panel_inv)
  have p: "taskIds p = in_taskIds input" "stage p = in_stage input"
    using assms by (auto simp: createHiddenPanelLedgerEntry_def)
  show ?thesis
    using panel.history_inv [OF inv] panel.history_prefix_le [OF inv]
      panel.history_le [OF inv, of h "xs @ ys"] p
    by (auto simp: Let_def panel_le_def)
qed

definition panel_input_example :: panel_input where
  "panel_input_example =
     \<lparr>in_panelId = replicate 64 CHR ''a'', in_stage = Validation, in_taskIds = [''t1'', ''t2''],
      in_frozenHypothesisDigest = ''h'', in_frozenCandidateDigest = ''c'',
      in_sealedAt = ''2026''\<rparr>"

theorem panel_history_safe_witness:
  "\<exists>p. createHiddenPanelLedgerEntry simple_host panel_input_example = Inr p \<and>
     panel_inv (run_ops (panel_step simple_host) p
       ([Arm_started, Decide Promote_gate] @ [Abandon, Arm_started]))"
proof -
  have "\<not> isl (createHiddenPanelLedgerEntry simple_host panel_input_example)" by code_simp
  then obtain p where p: "createHiddenPanelLedgerEntry simple_host panel_input_example = Inr p"
    by (cases "createHiddenPanelLedgerEntry simple_host panel_input_example") auto
  show ?thesis using p panel_history_safe [OF p] by (metis (no_types))
qed

text \<open>
  The repair cooldown is exact: when experiment \<open>E\<close> closes a discovery panel, by
  advancing a challenger or with the second attempt, the contributing tasks are clear from
  experiment \<open>E + 4\<close> on and not before, and after whatever follows the panel can never be
  claimed for another revision; when the attempt does not close it, the panel can be
  claimed at once, and exactly one attempt has been used.
\<close>

theorem repair_cooldown_exact:
  assumes "panel_inv p" "recordRepairAttempt E advanced p = Inr q"
  shows "(repairClosed q \<longleftrightarrow> advanced \<or> repairAttemptsUsed p = 1) \<and>
    (if repairClosed q
     then (contributingRepairTasksClearCooldown q c \<longleftrightarrow> E + 4 \<le> c) \<and>
       \<not> repairPanelCanBeClaimed (run_ops (panel_step h) q ops) c
     else repairPanelCanBeClaimed q c \<and> repairAttemptsUsed q = 1)"
proof -
  have q: "panel_inv q" using assms panel_step_inv [of p h "Repair_attempt E advanced" q] by simp
  have "panel_le q (run_ops (panel_step h) q ops)" by (rule panel.history_le [OF q])
  then have closed: "repairClosed q \<longrightarrow> \<not> repairPanelCanBeClaimed (run_ops (panel_step h) q ops) c"
    by (simp add: panel_le_def repairPanelCanBeClaimed_def)
  have used: "repairAttemptsUsed p = 0 \<or> repairAttemptsUsed p = 1"
    using assms by (auto simp: panel_inv_def recordRepairAttempt_ok)
  show ?thesis
    using closed used assms(2)
    by (auto simp: recordRepairAttempt_ok contributingRepairTasksClearCooldown_def
        repairPanelCanBeClaimed_def)
qed

definition decided_repair_panel :: panel_entry where
  "decided_repair_panel =
     \<lparr>panelId = replicate 64 CHR ''a'', stage = Repair, taskIds = [''t1''],
      frozenHypothesisDigest = ''h'', frozenCandidateDigest = ''c'', status = Panel_decided,
      anyArmStarted = True, feedbackConsumed = True, panel_disposition = Some Pass,
      repairAttemptsUsed = 1, repairClosed = False, repairCooldownThroughExperiment = None,
      panel_sealedAt = ''2026''\<rparr>"

theorem repair_cooldown_exact_witness:
  "\<exists>q. recordRepairAttempt 7 False decided_repair_panel = Inr q \<and>
     \<not> contributingRepairTasksClearCooldown q 10 \<and> contributingRepairTasksClearCooldown q 11"
proof -
  have inv: "panel_inv decided_repair_panel" by (simp add: panel_inv_def decided_repair_panel_def)
  have "\<not> isl (recordRepairAttempt 7 False decided_repair_panel)" by code_simp
  then obtain q where q: "recordRepairAttempt 7 False decided_repair_panel = Inr q"
    by (cases "recordRepairAttempt 7 False decided_repair_panel") auto
  have "repairAttemptsUsed decided_repair_panel = 1" by (simp add: decided_repair_panel_def)
  then show ?thesis
    using q repair_cooldown_exact [OF inv q, of 10] repair_cooldown_exact [OF inv q, of 11]
    by (auto split: if_splits)
qed

text \<open>
  From the ledger created with two feedback-dark slices, no history of certification
  claims consumes a third slice or certifies a commit twice; claims are never undone, a
  further claim succeeds exactly for a fresh Git object id while a slice remains, and the
  released capacity is two minus the claims made.
\<close>

theorem shadow_slices_bounded:
  fixes claims :: "string list"
  shows "let l = run_ops claimShadowCertification createHiddenShadowLedger claims in
    consumedSlices l \<le> 2 \<and> distinct (attemptedActiveCommitDigests l) \<and>
    set (attemptedActiveCommitDigests l) \<subseteq> set (attemptedActiveCommitDigests (attempt claimShadowCertification c l)) \<and>
    ((\<exists>m. claimShadowCertification c l = Inr m) \<longleftrightarrow>
       is_git_oid c \<and> c \<notin> set (attemptedActiveCommitDigests l) \<and> consumedSlices l < 2) \<and>
    (\<exists>cap. releaseSafeShadowCapacity l = Inr cap \<and>
       remainingSliceCount cap = 2 - int (length (attemptedActiveCommitDigests l)) \<and>
       (certificationPaused cap \<longleftrightarrow> consumedSlices l = 2))"
proof -
  let ?l = "run_ops claimShadowCertification createHiddenShadowLedger claims"
  have "shadow_inv createHiddenShadowLedger"
    by (simp add: shadow_inv_iff createHiddenShadowLedger_def)
  then have inv: "shadow_inv ?l" by (rule shadow.history_inv)
  have le: "shadow_le ?l (attempt claimShadowCertification c ?l)" using inv by (rule shadow.attempt_le)
  have "(\<exists>m. claimShadowCertification c ?l = Inr m) \<longleftrightarrow>
       is_git_oid c \<and> c \<notin> set (attemptedActiveCommitDigests ?l) \<and> consumedSlices ?l < 2"
    using inv [unfolded shadow_inv_def] inv [unfolded shadow_inv_iff]
    by (simp add: claimShadowCertification_def guard_simps not_le) blast
  moreover have "\<exists>cap. releaseSafeShadowCapacity ?l = Inr cap \<and>
       remainingSliceCount cap = 2 - int (length (attemptedActiveCommitDigests ?l)) \<and>
       (certificationPaused cap \<longleftrightarrow> consumedSlices ?l = 2)"
    using inv [unfolded shadow_inv_def] inv [unfolded shadow_inv_iff]
    by (simp add: releaseSafeShadowCapacity_def Let_def) arith
  ultimately show ?thesis using inv le unfolding Let_def shadow_inv_iff shadow_le_def by blast
qed

text \<open>
  Applying a consumed panel touches exactly the panel's tasks: each of them gains one
  exposure at that experiment, with the streak continued only from the experiment just
  before, and after a validation or shadow panel is marked as consumed; every other task,
  and everything of a task but its exposure, is unchanged, and no task is ever unmarked.
\<close>

theorem exposure_accounting:
  assumes "applyConsumedPanelToTaskLedger tasks p E = Inr tasks'"
  shows "feedbackConsumed p \<and> length tasks' = length tasks \<and>
    (\<forall>(t, u) \<in> set (zip tasks tasks').
       u = t\<lparr>exposure := exposure u\<rparr> \<and>
       (taskId t \<notin> set (taskIds p) \<longrightarrow> u = t) \<and>
       (taskId t \<in> set (taskIds p) \<longrightarrow>
          total (exposure u) = total (exposure t) + 1 \<and> lastExperiment (exposure u) = Some E \<and>
          (consecutiveExperiments (exposure u) =
             (if lastExperiment (exposure t) = Some (E - 1)
              then consecutiveExperiments (exposure t) + 1 else 1)) \<and>
          (stage p \<noteq> Repair \<longrightarrow> positiveValidationConsumed (exposure u))) \<and>
       (positiveValidationConsumed (exposure t) \<longrightarrow> positiveValidationConsumed (exposure u)))"
proof -
  have consumed: "feedbackConsumed p" and t': "tasks' =
      map (\<lambda>task. if taskId task \<notin> set (taskIds p) then task else expose p E task) tasks"
    using assms by (auto simp: applyConsumedPanelToTaskLedger_def split: if_splits)
  have "stage p \<noteq> Repair \<Longrightarrow> stage p = Validation \<or> stage p = Shadow_stage" by (cases "stage p") auto
  then show ?thesis
    unfolding t' using consumed by (auto simp: set_zip expose_def Let_def)
qed

definition task_example :: "string \<Rightarrow> hidden_task" where
  "task_example name =
     \<lparr>taskId = name, taskRevisionDigest = ''r'', capabilityStratum = ''c'', difficultyStratum = ''d'',
      buckets = [Hard],
      estimates = \<lparr>championFailureProbability = Fin (1 / 2), baselineFailureProbability = Fin (1 / 2),
        leaderboardFailureProbability = Fin (1 / 2), recentFailureProbability = Fin (1 / 2),
        outcomeUncertainty = Fin (1 / 2), discrimination = Fin (1 / 2), componentRelevance = Fin (1 / 2),
        underexposure = Fin (1 / 2), missingCapabilityCoverage = Fin (1 / 2),
        normalizedCost = Fin (1 / 2), impossibleProbability = Fin 0\<rparr>,
      exposure = \<lparr>total = 2, consecutiveExperiments = 1, lastExperiment = Some 4,
        feedbackReleased = True, positiveValidationConsumed = False,
        taskCooldownThroughExperiment = None, informedHypothesisDigests = []\<rparr>,
      shadowReserved = False, regressionCanary = False, infrastructureValid = True,
      discriminating = True\<rparr>"

theorem exposure_accounting_witness:
  "\<exists>u. applyConsumedPanelToTaskLedger [task_example ''t1''] (decided_repair_panel\<lparr>stage := Validation\<rparr>) 5 = Inr [u] \<and>
     consecutiveExperiments (exposure u) = 2 \<and> positiveValidationConsumed (exposure u)"
proof -
  let ?p = "decided_repair_panel\<lparr>stage := Validation\<rparr>" and ?t = "task_example ''t1''"
  have "\<not> isl (applyConsumedPanelToTaskLedger [?t] ?p 5)" by code_simp
  then obtain us where us: "applyConsumedPanelToTaskLedger [?t] ?p 5 = Inr us"
    by (cases "applyConsumedPanelToTaskLedger [?t] ?p 5") auto
  note e = exposure_accounting [OF us]
  from e obtain u where u: "us = [u]" by (auto simp: length_Suc_conv)
  have "taskId ?t \<in> set (taskIds ?p)" "lastExperiment (exposure ?t) = Some (5 - 1)"
    "consecutiveExperiments (exposure ?t) = 1" "stage ?p \<noteq> Repair"
    by (simp_all add: task_example_def decided_repair_panel_def)
  then show ?thesis using us e by (simp add: u)
qed

end
