(* ===== verification/Canonical_Json.thy ===== *)
theory Canonical_Json
  imports Prelude
begin

text \<open>
  Canonical JSON and content hashes: \<open>src/schemas/canonical.ts\<close>. A value of the language is
  a primitive or a reference to an object of a heap, so that cyclic values exist and the
  ancestor check of \<open>serializeArray\<close> and \<open>serializeObject\<close> has something to reject; an object
  is an array, a plain object (its own enumerable members in insertion order) or an object
  with another prototype. Strings are sequences of code units up to 255, of which
  \<open>JSON.stringify\<close> escapes the control characters, the quote and the backslash. The text of
  a number that is not a safe integer is the platform's (\<open>number_string\<close>). The abstract
  side is the tree \<open>json\<close> and its text \<open>json_text\<close>: serialization is that text of the tree
  a value unfolds to, and the text determines the tree.
\<close>

subsection \<open>Values\<close>

datatype js_value =
    VNull | VBool bool | VNumber number | VString string | VUndefined
  | VOther string  \<comment> \<open>a function, symbol or bigint, with its \<open>typeof\<close>\<close>
  | VRef nat

datatype js_object =
    OArray "js_value list"
  | OPlain "(string \<times> js_value) list"
  | OInstance "(string \<times> js_value) list"  \<comment> \<open>any other prototype\<close>

type_synonym heap = "js_object list"

definition object_at :: "heap \<Rightarrow> nat \<Rightarrow> js_object" where
  "object_at hp a = (if a < length hp then hp ! a else OInstance [])"

subsection \<open>Text of primitives\<close>

definition hex_digit :: "nat \<Rightarrow> char" where
  "hex_digit d = ''0123456789abcdef'' ! d"

definition escape_char :: "char \<Rightarrow> string" where
  "escape_char c =
     (if c = CHR 0x22 then [CHR 0x5C, CHR 0x22]
      else if c = CHR 0x5C then [CHR 0x5C, CHR 0x5C]
      else if c = CHR 0x08 then [CHR 0x5C, CHR ''b'']
      else if c = CHR 0x0C then [CHR 0x5C, CHR ''f'']
      else if c = CHR 0x0A then [CHR 0x5C, CHR ''n'']
      else if c = CHR 0x0D then [CHR 0x5C, CHR ''r'']
      else if c = CHR 0x09 then [CHR 0x5C, CHR ''t'']
      else if (of_char c :: nat) < 32
      then CHR 0x5C # ''u00'' @ [hex_digit (of_char c div 16), hex_digit (of_char c mod 16)]
      else [c])"

definition serializeString :: "string \<Rightarrow> string" where
  "serializeString value = CHR 0x22 # concat (map escape_char value) @ [CHR 0x22]"

definition int_text :: "int \<Rightarrow> string" where
  "int_text n = (if n < 0 then CHR ''-'' # decimal (nat (- n)) else decimal (nat n))"

definition number_text :: "host \<Rightarrow> rat \<Rightarrow> string" where
  "number_text h a = (if is_safe_integer (Fin a) then int_text \<lfloor>a\<rfloor> else number_string h a)"

definition serializeNumber :: "host \<Rightarrow> number \<Rightarrow> string result" where
  "serializeNumber h value =
     (case value of
        Fin a \<Rightarrow> Inr (number_text h a)
      | _ \<Rightarrow> Inl (CanonicalJsonError ''Canonical JSON cannot contain non-finite numbers''))"

fun join :: "string \<Rightarrow> string list \<Rightarrow> string" where
  "join sep [] = []"
| "join sep [x] = x"
| "join sep (x # y # xs) = x @ sep @ join sep (y # xs)"

subsection \<open>Serialization\<close>

function serialize :: "host \<Rightarrow> heap \<Rightarrow> nat list \<Rightarrow> js_value \<Rightarrow> string result" where
  "serialize h hp ancestors value =
     (case value of
        VNull \<Rightarrow> Inr ''null''
      | VBool b \<Rightarrow> Inr (if b then ''true'' else ''false'')
      | VNumber x \<Rightarrow> serializeNumber h x
      | VString s \<Rightarrow> Inr (serializeString s)
      | VUndefined \<Rightarrow> Inl (CanonicalJsonError ''Canonical JSON cannot contain undefined'')
      | VOther t \<Rightarrow> Inl (CanonicalJsonError (''Canonical JSON cannot contain '' @ t))
      | VRef a \<Rightarrow>
          (case object_at hp a of
             OArray items \<Rightarrow>
               if a \<in> set ancestors
               then Inl (CanonicalJsonError ''Canonical JSON cannot contain cycles'')
               else and_then (map_result (\<lambda>item. serialize h hp (a # ancestors) item) items)
                 (\<lambda>texts. Inr (''['' @ join '','' texts @ '']''))
           | OPlain members \<Rightarrow>
               if a \<in> set ancestors
               then Inl (CanonicalJsonError ''Canonical JSON cannot contain cycles'')
               else and_then
                 (map_result (\<lambda>key.
                    case map_of members key of
                      None \<Rightarrow> Inl (CanonicalJsonError ''Canonical JSON cannot contain undefined at key'')
                    | Some item \<Rightarrow>
                        if item = VUndefined
                        then Inl (CanonicalJsonError ''Canonical JSON cannot contain undefined at key'')
                        else and_then (serialize h hp (a # ancestors) item)
                          (\<lambda>text. Inr (serializeString key @ '':'' @ text)))
                   (sort (map fst members)))
                 (\<lambda>texts. Inr (''{'' @ join '','' texts @ ''}''))
           | OInstance _ \<Rightarrow>
               Inl (CanonicalJsonError ''Canonical JSON accepts only plain objects and arrays'')))"
  by pat_completeness auto

lemma ancestors_room:
  "a \<notin> set ancestors \<Longrightarrow> a < length hp \<Longrightarrow> 0 < card ({..<length hp} - set ancestors)"
  by (subst card_gt_0_iff) auto

termination serialize
  by (relation "measure (\<lambda>(h, hp, ancestors, value). card ({..<length hp} - set ancestors))")
    (auto simp: object_at_def dest!: ancestors_room split: if_splits)

declare serialize.simps [simp del]

definition canonicalJson :: "host \<Rightarrow> heap \<Rightarrow> js_value \<Rightarrow> string result" where
  "canonicalJson h hp value = serialize h hp [] value"

definition canonicalHash :: "host \<Rightarrow> heap \<Rightarrow> js_value \<Rightarrow> string result" where
  "canonicalHash h hp value =
     and_then (canonicalJson h hp value) (\<lambda>text. Inr (sha256 h text))"

subsection \<open>Content hashes\<close>

text \<open>
  The copy \<open>result[key] = document[key]\<close> defines a member for every key but \<open>__proto__\<close>:
  assigning that one sets the prototype of the result when the value is an object or null,
  and does nothing otherwise.
\<close>

definition sets_prototype :: "(string \<times> js_value) list \<Rightarrow> bool" where
  "sets_prototype members =
     (case map_of members ''__proto__'' of
        Some (VRef _) \<Rightarrow> True | Some VNull \<Rightarrow> True | _ \<Rightarrow> False)"

definition withoutTopLevelContentHash :: "heap \<Rightarrow> js_value \<Rightarrow> js_object result" where
  "withoutTopLevelContentHash hp value =
     (case value of
        VRef a \<Rightarrow>
          (case object_at hp a of
             OPlain document \<Rightarrow>
               (let copied = filter (\<lambda>(key, _). key \<noteq> ''contentHash'' \<and> key \<noteq> ''__proto__'') document
                in Inr (if sets_prototype document then OInstance copied else OPlain copied))
           | _ \<Rightarrow> Inl (CanonicalJsonError ''A content-addressed document must be a plain object''))
      | _ \<Rightarrow> Inl (CanonicalJsonError ''A content-addressed document must be a plain object''))"

text \<open>The copy is a new object of the heap.\<close>

definition computeContentHash :: "host \<Rightarrow> heap \<Rightarrow> js_value \<Rightarrow> string result" where
  "computeContentHash h hp value =
     and_then (withoutTopLevelContentHash hp value)
       (\<lambda>document. canonicalHash h (hp @ [document]) (VRef (length hp)))"

text \<open>\<open>{ ...value, contentHash: "" }\<close>, and the same with the hash computed over it.\<close>

definition withContentHash ::
    "host \<Rightarrow> heap \<Rightarrow> (string \<times> js_value) list \<Rightarrow> (string \<times> js_value) list result" where
  "withContentHash h hp value =
     and_then (computeContentHash h (hp @ [OPlain (AList.update ''contentHash'' (VString []) value)])
         (VRef (length hp)))
       (\<lambda>hash. Inr (AList.update ''contentHash'' (VString hash) value))"

definition own_members :: "js_object \<Rightarrow> (string \<times> js_value) list" where
  "own_members object =
     (case object of OArray _ \<Rightarrow> [] | OPlain members \<Rightarrow> members | OInstance members \<Rightarrow> members)"

definition hasValidContentHash :: "host \<Rightarrow> heap \<Rightarrow> js_value \<Rightarrow> bool result" where
  "hasValidContentHash h hp value =
     (case value of
        VRef a \<Rightarrow>
          (case map_of (own_members (object_at hp a)) ''contentHash'' of
             Some (VString hash) \<Rightarrow>
               if length hash = 64
               then and_then (computeContentHash h hp value) (\<lambda>c. Inr (hash = c))
               else Inr False
           | _ \<Rightarrow> Inr False)
      | _ \<Rightarrow> Inr False)"

subsection \<open>The tree of a value and its text\<close>

datatype json =
    JNull | JBool bool | JNumber rat | JString string
  | JArray "json list" | JObject "(string \<times> json) list"

function value_tree :: "heap \<Rightarrow> nat list \<Rightarrow> js_value \<Rightarrow> json option" where
  "value_tree hp ancestors value =
     (case value of
        VNull \<Rightarrow> Some JNull
      | VBool b \<Rightarrow> Some (JBool b)
      | VNumber x \<Rightarrow> (case x of Fin a \<Rightarrow> Some (JNumber a) | _ \<Rightarrow> None)
      | VString s \<Rightarrow> Some (JString s)
      | VUndefined \<Rightarrow> None
      | VOther t \<Rightarrow> None
      | VRef a \<Rightarrow>
          (case object_at hp a of
             OArray items \<Rightarrow>
               if a \<in> set ancestors then None
               else map_option JArray (those (map (\<lambda>item. value_tree hp (a # ancestors) item) items))
           | OPlain members \<Rightarrow>
               if a \<in> set ancestors then None
               else map_option JObject (those (map (\<lambda>key.
                   case map_of members key of
                     None \<Rightarrow> None
                   | Some item \<Rightarrow> map_option (Pair key) (value_tree hp (a # ancestors) item))
                 (sort (map fst members))))
           | OInstance _ \<Rightarrow> None))"
  by pat_completeness auto

termination value_tree
  by (relation "measure (\<lambda>(hp, ancestors, value). card ({..<length hp} - set ancestors))")
    (auto simp: object_at_def dest!: ancestors_room split: if_splits)

declare value_tree.simps [simp del]

fun json_text :: "host \<Rightarrow> json \<Rightarrow> string" where
  "json_text h JNull = ''null''"
| "json_text h (JBool b) = (if b then ''true'' else ''false'')"
| "json_text h (JNumber a) = number_text h a"
| "json_text h (JString s) = serializeString s"
| "json_text h (JArray js) = ''['' @ join '','' (map (json_text h) js) @ '']''"
| "json_text h (JObject ms) =
     ''{'' @ join '','' (map (\<lambda>(key, j). serializeString key @ '':'' @ json_text h j) ms) @ ''}''"

subsection \<open>Serialization is the text of the tree\<close>

lemma map_result_those:
  assumes "\<And>x t. x \<in> set xs \<Longrightarrow> f x = Inr t \<longleftrightarrow> (\<exists>j. g x = Some j \<and> t = p j)"
  shows "map_result f xs = Inr ts \<longleftrightarrow> (\<exists>js. those (map g xs) = Some js \<and> ts = map p js)"
  using assms
proof (induction xs arbitrary: ts)
  case (Cons x xs)
  have IH: "map_result f xs = Inr us \<longleftrightarrow> (\<exists>js. those (map g xs) = Some js \<and> us = map p js)" for us
    using Cons.prems by (intro Cons.IH) simp
  show ?case
    using Cons.prems [of x] by (auto simp: IH split: option.splits)
qed auto

theorem serialize_refines:
  "serialize h hp anc v = Inr t \<longleftrightarrow> (\<exists>j. value_tree hp anc v = Some j \<and> t = json_text h j)"
proof (induction h hp anc v arbitrary: t rule: serialize.induct)
  case (1 h hp anc v)
  show ?case
  proof (cases v)
    case (VRef a)
    show ?thesis
    proof (cases "object_at hp a")
      case (OArray items)
      show ?thesis
      proof (cases "a \<in> set anc")
        case False
        have "map_result (\<lambda>item. serialize h hp (a # anc) item) items = Inr ts \<longleftrightarrow>
          (\<exists>js. those (map (\<lambda>item. value_tree hp (a # anc) item) items) = Some js \<and>
             ts = map (json_text h) js)" for ts
          by (rule map_result_those) (rule 1(1) [OF VRef OArray False])
        with VRef OArray False show ?thesis
          by (auto simp: serialize.simps [of _ _ _ "VRef a"] value_tree.simps [of _ _ "VRef a"])
      qed (simp add: VRef OArray serialize.simps value_tree.simps)
    next
      case (OPlain members)
      show ?thesis
      proof (cases "a \<in> set anc")
        case False
        let ?f = "\<lambda>key. case map_of members key of
             None \<Rightarrow> Inl (CanonicalJsonError ''Canonical JSON cannot contain undefined at key'')
           | Some item \<Rightarrow>
               if item = VUndefined
               then Inl (CanonicalJsonError ''Canonical JSON cannot contain undefined at key'')
               else and_then (serialize h hp (a # anc) item)
                 (\<lambda>text. Inr (serializeString key @ '':'' @ text))"
        let ?g = "\<lambda>key. case map_of members key of
             None \<Rightarrow> None
           | Some item \<Rightarrow> map_option (Pair key) (value_tree hp (a # anc) item)"
        have "map_result ?f (sort (map fst members)) = Inr ts \<longleftrightarrow>
          (\<exists>js. those (map ?g (sort (map fst members))) = Some js \<and>
             ts = map (\<lambda>(key, j). serializeString key @ '':'' @ json_text h j) js)" for ts
        proof (rule map_result_those)
          fix key t assume key: "key \<in> set (sort (map fst members))"
          show "?f key = Inr t \<longleftrightarrow>
            (\<exists>j. ?g key = Some j \<and> t = (\<lambda>(key, j). serializeString key @ '':'' @ json_text h j) j)"
          proof (cases "map_of members key")
            case (Some item)
            show ?thesis
            proof (cases "item = VUndefined")
              case False
              then show ?thesis
                using 1(2) [OF VRef OPlain \<open>a \<notin> set anc\<close> key Some False] Some
                by (auto simp: map_option_case split: option.splits)
            qed (simp add: Some value_tree.simps)
          qed simp
        qed
        with VRef OPlain False show ?thesis
          by (auto simp: serialize.simps [of _ _ _ "VRef a"] value_tree.simps [of _ _ "VRef a"])
      qed (simp add: VRef OPlain serialize.simps value_tree.simps)
    qed (simp add: VRef serialize.simps value_tree.simps)
  qed (auto simp: serialize.simps value_tree.simps serializeNumber_def split: number.split)
qed

subsection \<open>The text determines the tree\<close>

definition numeric :: "char \<Rightarrow> bool" where
  "numeric c \<longleftrightarrow> c \<in> set ''0123456789+-.e''"

text \<open>
  What is used of the platform's text of a number that is not a safe integer: it is made of
  numeric characters, it is not the text of a safe integer, and it determines the number. ECMAScript's
  \<open>Number::toString\<close> has all three: distinct finite values have distinct texts, and that of an integer
  beyond the safe range, such as 9007199254740992 for $2^{53}$, is its plain decimal text up to $10^{21}$.
  (On rationals that are not values of the language it is never evaluated.)
\<close>

definition number_law :: "host \<Rightarrow> bool" where
  "number_law h \<longleftrightarrow>
     (\<forall>a. \<not> is_safe_integer (Fin a) \<longrightarrow>
        number_string h a \<noteq> [] \<and> list_all numeric (number_string h a) \<and>
        (\<forall>n. safe_int n \<longrightarrow> number_string h a \<noteq> int_text n) \<and>
        (\<forall>b. \<not> is_safe_integer (Fin b) \<longrightarrow> number_string h a = number_string h b \<longrightarrow> a = b))"

definition stop :: "string \<Rightarrow> bool" where
  "stop r \<longleftrightarrow> r = [] \<or> hd r \<in> set '',]}''"

lemma stop_simps [simp]:
  "stop []" "stop (CHR '','' # r)" "stop (CHR '']'' # r)" "stop (CHR ''}'' # r)"
  by (simp_all add: stop_def)

lemma digit_numeric: "digit c \<Longrightarrow> numeric c"
  by (auto simp: digit_def numeric_def)

lemma decimal_inject [simp]: "decimal m = decimal n \<longleftrightarrow> m = n"
  by (metis parse_decimal_decimal)

lemma decimal_not_minus: "decimal n \<noteq> CHR ''-'' # s"
proof
  assume "decimal n = CHR ''-'' # s"
  then have "digit CHR ''-''" using decimal_digits [of n] by simp
  then show False by (simp add: digit_def)
qed

lemma int_text_inject: "int_text m = int_text n \<longleftrightarrow> m = n"
  using decimal_not_minus by (auto simp: int_text_def) metis+

lemma int_text_numeric: "list_all numeric (int_text n)" "int_text n \<noteq> []"
  using decimal_digits digit_numeric
  by (auto simp: int_text_def list_all_iff) (simp add: numeric_def)

lemma number_text_safe: "is_safe_integer (Fin a) \<Longrightarrow> number_text h a = int_text \<lfloor>a\<rfloor>"
  and number_text_other: "\<not> is_safe_integer (Fin a) \<Longrightarrow> number_text h a = number_string h a"
  by (simp_all only: number_text_def if_True if_False)

lemma number_lawD:
  assumes "number_law h" "\<not> is_safe_integer (Fin a)"
  shows "number_string h a \<noteq> []" "list_all numeric (number_string h a)"
    "\<not> is_safe_integer (Fin b) \<Longrightarrow> number_string h a = number_string h b \<Longrightarrow> a = b"
  using assms unfolding number_law_def by blast+

lemma number_text_numeric:
  assumes "number_law h" shows "list_all numeric (number_text h a)" "number_text h a \<noteq> []"
  using int_text_numeric number_lawD(1,2) [OF assms, of a]
  by (cases "is_safe_integer (Fin a)"; simp only: number_text_safe number_text_other not_False_eq_True)+

lemma number_law_range:
  assumes "number_law h" "\<not> is_safe_integer (Fin a)" "is_safe_integer (Fin b)"
  shows "number_string h a \<noteq> int_text \<lfloor>b\<rfloor>"
proof -
  have "is_safe_integer (num_of_int \<lfloor>b\<rfloor>)"
    using assms(3) by (metis is_safe_integer.simps(1) is_safe_integer_of_int safe_int_def)
  then have "safe_int \<lfloor>b\<rfloor>" by (simp only: is_safe_integer_of_int)
  with assms(1,2) show ?thesis unfolding number_law_def by blast
qed

lemma number_text_inject:
  assumes "number_law h" "number_text h a = number_text h b" shows "a = b"
proof (cases "is_safe_integer (Fin a)"; cases "is_safe_integer (Fin b)")
  assume s: "is_safe_integer (Fin a)" "is_safe_integer (Fin b)"
  then have "\<lfloor>a\<rfloor> = \<lfloor>b\<rfloor>"
    using assms(2) by (simp only: number_text_safe int_text_inject)
  moreover have "a = of_int \<lfloor>a\<rfloor>" "b = of_int \<lfloor>b\<rfloor>"
    using s by (simp_all only: is_safe_integer.simps)
  ultimately show ?thesis by simp
next
  assume "\<not> is_safe_integer (Fin a)" "\<not> is_safe_integer (Fin b)"
  then show ?thesis
    using assms(2) number_lawD(3) [OF assms(1), of a b] by (simp only: number_text_other not_False_eq_True)
next
  assume "is_safe_integer (Fin a)" "\<not> is_safe_integer (Fin b)"
  then show ?thesis
    using assms(2) number_law_range [OF assms(1), of b a]
    by (metis number_text_safe number_text_other)
next
  assume "\<not> is_safe_integer (Fin a)" "is_safe_integer (Fin b)"
  then show ?thesis
    using assms(2) number_law_range [OF assms(1), of a b]
    by (metis number_text_safe number_text_other)
qed

lemma take_numeric:
  assumes "list_all numeric x" "stop r"
  shows "takeWhile numeric (x @ r) = x" "dropWhile numeric (x @ r) = r"
proof -
  have r: "takeWhile numeric r = [] \<and> dropWhile numeric r = r"
    using assms(2) by (cases r) (auto simp: stop_def numeric_def)
  show "takeWhile numeric (x @ r) = x" "dropWhile numeric (x @ r) = r"
    using assms(1) r by (induction x) auto
qed

lemma number_text_code:
  assumes "number_law h" "stop r" "stop s" "number_text h a @ r = number_text h b @ s"
  shows "a = b \<and> r = s"
proof -
  have "number_text h a = number_text h b" and "r = s"
    using take_numeric [OF number_text_numeric(1) [OF assms(1)]] assms(2-4) by metis+
  then show ?thesis using number_text_inject [OF assms(1)] by blast
qed

lemma hex_digit_inject:
  assumes "d < 16" "e < 16" "hex_digit d = hex_digit e" shows "d = e"
proof -
  have "distinct ''0123456789abcdef''" by simp
  then show ?thesis
    using assms nth_eq_iff_index_eq [of "''0123456789abcdef''" d e] by (simp add: hex_digit_def)
qed

lemma of_char_hex:
  assumes "(of_char c :: nat) < 32" "(of_char d :: nat) < 32"
    "hex_digit (of_char c div 16) = hex_digit (of_char d div 16)"
    "hex_digit (of_char c mod 16) = hex_digit (of_char d mod 16)"
  shows "c = d"
proof -
  have "(of_char c :: nat) div 16 = of_char d div 16" "(of_char c :: nat) mod 16 = of_char d mod 16"
    using assms by (auto intro!: hex_digit_inject)
  then have "(of_char c :: nat) = of_char d" by (metis div_mult_mod_eq)
  then show ?thesis by simp
qed

lemma escape_char_code:
  assumes "escape_char c @ x = escape_char d @ y" shows "c = d \<and> x = y"
  using assms by (simp only: escape_char_def split: if_splits) (auto intro: of_char_hex)

lemma escape_char_first: "escape_char c \<noteq> []" "hd (escape_char c) \<noteq> CHR 0x22"
  by (auto simp: escape_char_def)

lemma escape_not_quote [simp]: "CHR 0x22 # s \<noteq> escape_char c" "escape_char c \<noteq> CHR 0x22 # s"
  using escape_char_first(2) [of c] by (metis list.sel(1))+

lemma string_code:
  "serializeString s @ x = serializeString t @ y \<Longrightarrow> s = t \<and> x = y"
proof -
  have "concat (map escape_char s) @ CHR 0x22 # x = concat (map escape_char t) @ CHR 0x22 # y \<Longrightarrow>
    s = t \<and> x = y"
  proof (induction s arbitrary: t)
    case Nil
    then show ?case using escape_char_first by (cases t) (auto simp: Cons_eq_append_conv)
  next
    case (Cons c s)
    show ?case
    proof (cases t)
      case Nil
      with Cons.prems show ?thesis using escape_char_first [of c] by (auto simp: append_eq_Cons_conv)
    next
      case (Cons d t')
      with Cons.prems Cons.IH [of t'] show ?thesis by (auto dest!: escape_char_code)
    qed
  qed
  then show "serializeString s @ x = serializeString t @ y \<Longrightarrow> s = t \<and> x = y"
    by (simp add: serializeString_def)
qed

text \<open>A list of codes between brackets is a code, for any way of coding the entries.\<close>

lemma join_Cons: "join sep (x # xs) = x @ concat (map ((@) sep) xs)"
proof (induction xs arbitrary: x)
  case (Cons y ys) then show ?case by (cases ys) simp_all
qed simp

lemma tail_code:
  assumes "\<And>x y r s. x \<in> set xs \<Longrightarrow> stop r \<Longrightarrow> stop s \<Longrightarrow> p x @ r = p y @ s \<Longrightarrow> x = y \<and> r = s"
    and "c \<noteq> CHR '',''" "stop [c]"
    and "concat (map (\<lambda>x. '','' @ p x) xs) @ c # r = concat (map (\<lambda>x. '','' @ p x) ys) @ c # s"
  shows "xs = ys \<and> r = s"
  using assms(1,4)
proof (induction xs arbitrary: ys)
  case Nil
  then show ?case using assms(2) by (cases ys) auto
next
  case (Cons x xs)
  then obtain y zs where ys: "ys = y # zs" using assms(2) by (cases ys) auto
  have st: "stop (concat (map (\<lambda>x. '','' @ p x) us) @ c # u)" for us u
    using assms(3) by (cases us) (auto simp: stop_def)
  have "x = y \<and> concat (map (\<lambda>x. '','' @ p x) xs) @ c # r = concat (map (\<lambda>x. '','' @ p x) zs) @ c # s"
    using Cons.prems(2) ys st by (intro Cons.prems(1)) auto
  moreover have "concat (map (\<lambda>x. '','' @ p x) xs) @ c # r = concat (map (\<lambda>x. '','' @ p x) zs) @ c # s \<Longrightarrow>
      xs = zs \<and> r = s"
    using Cons.prems(1) by (intro Cons.IH) auto
  ultimately show ?case using ys by blast
qed

lemma join_code:
  assumes "\<And>x y r s. x \<in> set xs \<Longrightarrow> stop r \<Longrightarrow> stop s \<Longrightarrow> p x @ r = p y @ s \<Longrightarrow> x = y \<and> r = s"
    and "c \<noteq> CHR '',''" "stop [c]" "\<And>x. p x \<noteq> [] \<and> hd (p x) \<noteq> c"
    and "join '','' (map p xs) @ c # r = join '','' (map p ys) @ c # s"
  shows "xs = ys \<and> r = s"
proof (cases xs)
  case Nil
  then show ?thesis
    using assms(4,5) by (cases ys) (auto simp: join_Cons Cons_eq_append_conv, metis list.sel(1))
next
  case (Cons x xs')
  then obtain y zs where ys: "ys = y # zs"
    using assms(4) [of x] assms(5) by (cases ys) (auto simp: join_Cons append_eq_Cons_conv)
  have st: "stop (concat (map (\<lambda>x. '','' @ p x) us) @ c # u)" for us u
    using assms(3) by (cases us) (auto simp: stop_def)
  have "p x @ concat (map (\<lambda>x. '','' @ p x) xs') @ c # r = p y @ concat (map (\<lambda>x. '','' @ p x) zs) @ c # s"
    using assms(5) by (simp add: Cons ys join_Cons comp_def)
  then have "x = y \<and> concat (map (\<lambda>x. '','' @ p x) xs') @ c # r = concat (map (\<lambda>x. '','' @ p x) zs) @ c # s"
    using st by (intro assms(1)) (auto simp: Cons)
  moreover have "xs' = zs \<and> r = s"
    if "concat (map (\<lambda>x. '','' @ p x) xs') @ c # r = concat (map (\<lambda>x. '','' @ p x) zs) @ c # s"
    using assms(1-3) that by (intro tail_code [of xs' p c r zs s]) (auto simp: Cons)
  ultimately show ?thesis using ys Cons by blast
qed

text \<open>The first character of a text tells the kind of the tree.\<close>

lemma number_text_first: "number_law h \<Longrightarrow> numeric (hd (number_text h a))"
  using number_text_numeric by (metis list_all_iff list.set_sel(1))

fun kind :: "json \<Rightarrow> nat" where
  "kind JNull = 0"
| "kind (JBool b) = (if b then 1 else 2)"
| "kind (JNumber a) = 3"
| "kind (JString s) = 4"
| "kind (JArray js) = 5"
| "kind (JObject ms) = 6"

definition first_kind :: "char \<Rightarrow> nat" where
  "first_kind c =
     (if numeric c then 3 else if c = CHR ''n'' then 0 else if c = CHR ''t'' then 1
      else if c = CHR ''f'' then 2 else if c = CHR 0x22 then 4 else if c = CHR ''['' then 5
      else if c = CHR ''{'' then 6 else 7)"

lemma json_text_first:
  assumes "number_law h"
  shows "json_text h j \<noteq> [] \<and> first_kind (hd (json_text h j)) = kind j"
  using number_text_numeric(2) [OF assms] number_text_first [OF assms]
  by (cases j) (simp_all add: serializeString_def first_kind_def numeric_def)

lemma json_text_kind:
  assumes "number_law h" "json_text h j @ r = json_text h k @ s"
  shows "kind j = kind k"
  using json_text_first [OF assms(1), of j] json_text_first [OF assms(1), of k] assms(2)
  by (metis hd_append2)

lemma json_text_not_close:
  assumes "number_law h" shows "json_text h j \<noteq> [] \<and> hd (json_text h j) \<noteq> CHR '']''"
proof -
  have "first_kind CHR '']'' = 7" by (simp add: first_kind_def numeric_def)
  moreover have "kind j \<noteq> 7" by (cases j) auto
  ultimately show ?thesis using json_text_first [OF assms, of j] by metis
qed

lemma member_code:
  assumes "\<And>x y. json_text h j @ x = json_text h k @ y \<Longrightarrow> stop x \<Longrightarrow> stop y \<Longrightarrow> j = k \<and> x = y"
    and "stop r" "stop s"
    and "(serializeString a @ '':'' @ json_text h j) @ r = (serializeString b @ '':'' @ json_text h k) @ s"
  shows "(a, j) = (b, k) \<and> r = s"
proof -
  have "a = b \<and> '':'' @ json_text h j @ r = '':'' @ json_text h k @ s"
    using assms(4) by (intro string_code) simp
  then show ?thesis using assms(1) [of r s] assms(2,3) by simp
qed

lemma json_text_code:
  assumes law: "number_law h"
  shows "json_text h j @ r = json_text h k @ s \<Longrightarrow> stop r \<Longrightarrow> stop s \<Longrightarrow> j = k \<and> r = s"
proof (induction j arbitrary: k r s)
  case JNull
  with json_text_kind [OF law JNull(1)] show ?case by (cases k) (auto split: if_splits)
next
  case (JBool b)
  with json_text_kind [OF law JBool(1)] show ?case by (cases k) (auto split: if_splits)
next
  case (JNumber a)
  with json_text_kind [OF law JNumber(1)] show ?case
    using number_text_code [OF law] by (cases k) (auto split: if_splits)
next
  case (JString a)
  with json_text_kind [OF law JString(1)] show ?case
    using string_code [of a r _ s] by (cases k) (auto split: if_splits)
next
  case (JArray js)
  from json_text_kind [OF law JArray(2)] obtain ks where k: "k = JArray ks" by (cases k) (auto split: if_splits)
  have "js = ks \<and> r = s"
    by (rule join_code [where p = "json_text h" and c = "CHR '']''"])
      (use JArray json_text_not_close [OF law] in \<open>auto simp: k\<close>)
  then show ?case by (simp add: k)
next
  case (JObject ms)
  from json_text_kind [OF law JObject(2)] obtain ns where k: "k = JObject ns" by (cases k) (auto split: if_splits)
  let ?p = "\<lambda>(key, j). serializeString key @ '':'' @ json_text h j"
  have "ms = ns \<and> r = s"
  proof (rule join_code [where p = ?p and c = "CHR ''}''"])
    fix x y u v
    assume x: "x \<in> set ms" "stop u" "stop v" "?p x @ u = ?p y @ v"
    obtain a i b l where xy: "x = (a, i)" "y = (b, l)" by (cases x; cases y)
    have "(a, i) = (b, l) \<and> u = v"
    proof (rule member_code)
      fix w z assume "json_text h i @ w = json_text h l @ z" "stop w" "stop z"
      then show "i = l \<and> w = z"
        using x(1) by (intro JObject(1) [of "(a, i)"]) (auto simp: xy)
    qed (use x in \<open>auto simp: xy\<close>)
    then show "x = y \<and> u = v" by (simp add: xy)
  qed (use JObject in \<open>auto simp: k serializeString_def\<close>)
  then show ?case by (simp add: k)
qed

theorem json_text_inject:
  assumes "number_law h" shows "json_text h j = json_text h k \<longleftrightarrow> j = k"
  using json_text_code [OF assms, of j "[]" k "[]"] by auto

subsection \<open>References, cycles and heaps that agree\<close>

fun val_refs :: "js_value \<Rightarrow> nat set" where
  "val_refs (VRef a) = {a}"
| "val_refs _ = {}"

definition obj_refs :: "js_object \<Rightarrow> nat set" where
  "obj_refs object =
     (case object of
        OArray items \<Rightarrow> (\<Union>v \<in> set items. val_refs v)
      | OPlain members \<Rightarrow> (\<Union>m \<in> set members. val_refs (snd m))
      | OInstance members \<Rightarrow> (\<Union>m \<in> set members. val_refs (snd m)))"

text \<open>A reference from the value a plain object gives a key, or from an entry of an array.\<close>

definition points_to :: "heap \<Rightarrow> (nat \<times> nat) set" where
  "points_to hp = {(a, b). case object_at hp a of
      OArray items \<Rightarrow> VRef b \<in> set items
    | OPlain members \<Rightarrow> (\<exists>key. map_of members key = Some (VRef b))
    | OInstance _ \<Rightarrow> False}"

lemma map_result_Inr_set:
  "map_result f xs = Inr ys \<Longrightarrow> x \<in> set xs \<Longrightarrow> \<exists>y. f x = Inr y"
  by (induction xs arbitrary: ys) auto

lemma serialize_ref:
  assumes "serialize h hp anc (VRef a) = Inr t"
  shows "a \<notin> set anc" and "(a, b) \<in> points_to hp \<Longrightarrow> \<exists>t. serialize h hp (a # anc) (VRef b) = Inr t"
proof -
  show "a \<notin> set anc"
    using assms by (subst (asm) serialize.simps) (auto split: js_object.splits if_splits)
  assume b: "(a, b) \<in> points_to hp"
  show "\<exists>t. serialize h hp (a # anc) (VRef b) = Inr t"
  proof (cases "object_at hp a")
    case (OArray items)
    with assms b show ?thesis
      by (subst (asm) serialize.simps)
        (auto simp: points_to_def split: if_splits dest: map_result_Inr_set)
  next
    case (OPlain members)
    then obtain key where key: "map_of members key = Some (VRef b)"
      using b by (auto simp: points_to_def)
    then have "key \<in> set (sort (map fst members))"
      by (metis domI dom_map_of_conv_image_fst list.set_map set_sort)
    then show ?thesis
      using assms OPlain key
      by (subst (asm) serialize.simps)
        (force split: if_splits dest: map_result_Inr_set [of _ _ _ key])
  next
    case (OInstance members)
    with b show ?thesis by (simp add: points_to_def)
  qed
qed

lemma serialize_path:
  assumes "(a, b) \<in> (points_to hp)\<^sup>+" "serialize h hp anc (VRef a) = Inr t"
  shows "\<exists>anc' u. serialize h hp anc' (VRef b) = Inr u \<and> a \<in> set anc'"
  using assms
proof (induction rule: trancl_induct)
  case (base b)
  then show ?case using serialize_ref(2) [of h hp anc a t b] by (meson list.set_intros(1))
next
  case (step b c)
  then obtain anc' u where u: "serialize h hp anc' (VRef b) = Inr u" "a \<in> set anc'" by blast
  then show ?case using serialize_ref(2) [OF u(1) step.hyps(2)] by (meson list.set_intros(2))
qed

text \<open>Serialization only depends on what the value can reach.\<close>

definition heaps_agree :: "nat set \<Rightarrow> heap \<Rightarrow> heap \<Rightarrow> bool" where
  "heaps_agree S hp hp' \<longleftrightarrow>
     (\<forall>a \<in> S. object_at hp a = object_at hp' a \<and> obj_refs (object_at hp a) \<subseteq> S)"

lemma serialize_agree:
  "heaps_agree S hp hp' \<Longrightarrow> val_refs v \<subseteq> S \<Longrightarrow> serialize h hp anc v = serialize h hp' anc v"
proof (induction h hp anc v rule: serialize.induct)
  case (1 h hp anc v)
  show ?case
  proof (cases v)
    case (VRef a)
    then have "a \<in> S" using 1(4) by simp
    with 1(3) have a: "object_at hp' a = object_at hp a" "obj_refs (object_at hp a) \<subseteq> S"
      unfolding heaps_agree_def by metis+
    show ?thesis
    proof (cases "object_at hp a")
      case (OArray items)
      have "serialize h hp (a # anc) item = serialize h hp' (a # anc) item"
        if "item \<in> set items" "a \<notin> set anc" for item
        using 1(1) [OF VRef OArray that(2) that(1) 1(3)] a(2) that(1)
        by (auto simp: OArray obj_refs_def)
      then show ?thesis
        by (simp add: VRef serialize.simps [of _ _ _ "VRef a"] OArray a(1) cong: map_result_cong)
    next
      case (OPlain members)
      have "serialize h hp (a # anc) item = serialize h hp' (a # anc) item"
        if "map_of members key = Some item" "key \<in> set (map fst members)" "item \<noteq> VUndefined"
          "a \<notin> set anc" for key item
        using 1(2) [OF VRef OPlain that(4) _ that(1,3) 1(3)] a(2) that(1,2) map_of_SomeD [OF that(1)]
        by (force simp: OPlain obj_refs_def)
      then show ?thesis
        by (auto simp: VRef serialize.simps [of _ _ _ "VRef a"] OPlain a(1) split: option.split
            intro!: map_result_cong arg_cong2 [where f = and_then])
    qed (simp add: VRef serialize.simps [of _ _ _ "VRef a"] a(1))
  qed (simp_all add: serialize.simps)
qed

text \<open>A heap whose objects only refer to objects of it agrees with its extensions.\<close>

definition closed :: "heap \<Rightarrow> bool" where
  "closed hp \<longleftrightarrow> (\<forall>object \<in> set hp. obj_refs object \<subseteq> {..<length hp})"

lemma closed_agree:
  assumes "closed hp" shows "heaps_agree {..<length hp} (hp @ us) (hp @ ws)"
  using assms by (auto simp: heaps_agree_def object_at_def nth_append closed_def)

subsection \<open>The content hash of a document\<close>

text \<open>What is hashed of a plain document: the canonical text of the filtered copy.\<close>

definition hashed_members :: "(string \<times> js_value) list \<Rightarrow> (string \<times> js_value) list" where
  "hashed_members document =
     filter (\<lambda>(key, _). key \<noteq> ''contentHash'' \<and> key \<noteq> ''__proto__'') document"

lemma object_at_new [simp]: "object_at (hp @ o1 # os) (length hp) = o1"
  by (simp add: object_at_def nth_append)

lemma object_at_new2 [simp]: "object_at (hp @ [o1, o2]) (Suc (length hp)) = o2"
  by (simp add: object_at_def nth_append)

lemma computeContentHash_new:
  "computeContentHash h (hp @ [OPlain document]) (VRef (length hp)) =
     canonicalHash h (hp @ [OPlain document,
         if sets_prototype document then OInstance (hashed_members document)
         else OPlain (hashed_members document)])
       (VRef (Suc (length hp)))"
  by (simp add: computeContentHash_def withoutTopLevelContentHash_def Let_def hashed_members_def)

text \<open>Documents with the same hashed members have the same content hash.\<close>

lemma content_hash_cong:
  assumes "closed hp" "obj_refs (OPlain (hashed_members document)) \<subseteq> {..<length hp}"
    and "hashed_members document' = hashed_members document"
    and "sets_prototype document' = sets_prototype document"
  shows "computeContentHash h (hp @ [OPlain document']) (VRef (length hp)) =
    computeContentHash h (hp @ [OPlain document]) (VRef (length hp))"
proof -
  let ?n = "Suc (length hp)"
  let ?o = "if sets_prototype document then OInstance (hashed_members document)
    else OPlain (hashed_members document)"
  have refs: "obj_refs ?o \<subseteq> {..<length hp}" using assms(2) by (simp add: obj_refs_def)
  have "heaps_agree (insert ?n {..<length hp}) (hp @ [OPlain document', ?o]) (hp @ [OPlain document, ?o])"
    using closed_agree [OF assms(1)] refs unfolding heaps_agree_def by auto
  then have "serialize h (hp @ [OPlain document', ?o]) [] (VRef ?n) =
      serialize h (hp @ [OPlain document, ?o]) [] (VRef ?n)"
    by (rule serialize_agree) simp
  then show ?thesis
    unfolding computeContentHash_new assms(3,4) canonicalHash_def canonicalJson_def by simp
qed

lemma hashed_members_update [simp]:
  "hashed_members (AList.update ''contentHash'' v document) = hashed_members document"
  by (induction document) (auto simp: hashed_members_def)

lemma sets_prototype_update [simp]:
  "sets_prototype (AList.update ''contentHash'' v document) = sets_prototype document"
  by (simp add: sets_prototype_def)

lemma computeContentHash_sha:
  "computeContentHash h hp v = Inr c \<Longrightarrow> \<exists>t. c = sha256 h t"
  by (auto simp: computeContentHash_def canonicalHash_def)

text \<open>
  The components that hash a record literal hash its tree: an object with the literal's
  members in key order. By \<open>canonicalHash_tree\<close> that is \<open>canonicalHash\<close> of any value that
  unfolds to the tree.
\<close>

definition json_object :: "(string \<times> json) list \<Rightarrow> json" where
  "json_object members = JObject (sort_key fst members)"

definition json_int :: "int \<Rightarrow> json" where
  "json_int n = JNumber (of_int n)"

definition tree_hash :: "host \<Rightarrow> json \<Rightarrow> string" where
  "tree_hash h j = sha256 h (json_text h j)"

lemma canonicalHash_tree:
  "canonicalHash h hp v = Inr c \<longleftrightarrow> (\<exists>j. value_tree hp [] v = Some j \<and> c = tree_hash h j)"
  unfolding canonicalHash_def canonicalJson_def tree_hash_def
  by (auto simp: serialize_refines)

lemma json_int_inject [simp]: "json_int m = json_int n \<longleftrightarrow> m = n"
  by (simp add: json_int_def)

subsection \<open>Properties\<close>

text \<open>
  C32. Canonical JSON is faithful: two values that both serialize have the same text exactly
  when they unfold to the same JSON tree with sorted keys, so the text depends on the data
  alone (not on sharing, key order or object identity) and loses none of it; and a value
  serializes exactly when it unfolds to a tree at all.
\<close>

theorem canonical_text_faithful:
  assumes "number_law h" "canonicalJson h hp v = Inr t" "canonicalJson h hp' v' = Inr t'"
  shows "(t = t' \<longleftrightarrow> value_tree hp [] v = value_tree hp' [] v') \<and> value_tree hp [] v \<noteq> None"
  using assms(2,3) json_text_inject [OF assms(1)]
  unfolding canonicalJson_def serialize_refines by auto

text \<open>A platform whose number text is a fraction, for concrete inputs.\<close>

definition fraction_text :: "rat \<Rightarrow> string" where
  "fraction_text a = (let (n, d) = quotient_of a in int_text n @ ''e'' @ decimal (nat d))"

definition example_host :: host where
  "example_host = \<lparr>sha256 = (\<lambda>s. replicate 64 (if s = [] then CHR ''0'' else CHR ''a'')),
     date_parse = (\<lambda>s. if length s = 24 then Some (int (parse_decimal (take 4 s))) else None),
     to_iso_string = (\<lambda>t. decimal (nat t) @ ''-01-01T00:00:00.000Z''),
     locale_compare = (\<lambda>a b. if a = b then 0 else if a < b then - 1 else 1),
     number_string = fraction_text\<rparr>"

lemma e_not_in_int_text: "CHR ''e'' \<notin> set (int_text n)"
proof -
  have "\<not> digit CHR ''e''" by (simp add: digit_def)
  then have "CHR ''e'' \<notin> set (decimal m)" for m
    using decimal_digits [of m] unfolding list_all_iff by blast
  then show ?thesis by (simp add: int_text_def)
qed

lemma takeWhile_e: "CHR ''e'' \<notin> set x \<Longrightarrow> takeWhile (\<lambda>c. c \<noteq> CHR ''e'') (x @ CHR ''e'' # y) = x"
  by (induction x) auto

lemma fraction_text_inject:
  assumes "fraction_text a = fraction_text b" shows "a = b"
proof -
  obtain n d where a: "quotient_of a = (n, d)" by (cases "quotient_of a")
  obtain m e where b: "quotient_of b = (m, e)" by (cases "quotient_of b")
  have eq: "int_text n @ CHR ''e'' # decimal (nat d) = int_text m @ CHR ''e'' # decimal (nat e)"
    using assms by (simp add: fraction_text_def a b)
  then have "int_text n = int_text m"
    using takeWhile_e e_not_in_int_text by metis
  then have "n = m" and "nat d = nat e" using eq by (simp_all add: int_text_inject)
  moreover have "0 < d" "0 < e" using a b quotient_of_denom_pos by blast+
  ultimately have "quotient_of a = quotient_of b" by (simp add: a b)
  then show ?thesis by (simp add: quotient_of_inject_eq)
qed

lemma example_number_law: "number_law example_host"
proof -
  have "numeric CHR ''e''" by (simp add: numeric_def)
  moreover have "list_all numeric (decimal m)" for m
    using decimal_digits digit_numeric unfolding list_all_iff by blast
  ultimately have f: "list_all numeric (fraction_text a) \<and> CHR ''e'' \<in> set (fraction_text a)" for a
    by (simp add: fraction_text_def int_text_numeric split: prod.split)
  then have "fraction_text a \<noteq> [] \<and> fraction_text a \<notin> range int_text" for a
    using e_not_in_int_text by (metis empty_iff list.set(1) rangeE)
  with f show ?thesis
    unfolding number_law_def by (simp add: example_host_def) (blast intro: fraction_text_inject)
qed

theorem canonical_text_faithful_witness:
  "canonicalJson example_host [OPlain [(''b'', VNumber (Fin 2)), (''a'', VRef 1)], OArray [VNull]] (VRef 0) =
     canonicalJson example_host [OArray [VNull], OPlain [(''a'', VRef 0), (''b'', VNumber (Fin 2))]] (VRef 1)"
proof -
  let ?p = "[OPlain [(''b'', VNumber (Fin 2)), (''a'', VRef 1)], OArray [VNull]]"
  let ?q = "[OArray [VNull], OPlain [(''a'', VRef 0), (''b'', VNumber (Fin 2))]]"
  have "value_tree ?p [] (VRef 0) \<noteq> None" "value_tree ?q [] (VRef 1) \<noteq> None"
    "value_tree ?p [] (VRef 0) = value_tree ?q [] (VRef 1)" by code_simp+
  moreover from this obtain t u where
    "canonicalJson example_host ?p (VRef 0) = Inr t" "canonicalJson example_host ?q (VRef 1) = Inr u"
    by (auto simp: canonicalJson_def serialize_refines)
  ultimately show ?thesis using canonical_text_faithful [OF example_number_law] by metis
qed

text \<open>
  Serialization always terminates, and a value from which a cycle can be reached never
  serializes: it is rejected with an error, whatever its ancestors so far.
\<close>

theorem cycles_are_rejected:
  assumes "(a, a) \<in> (points_to hp)\<^sup>+" "b = a \<or> (b, a) \<in> (points_to hp)\<^sup>+"
  shows "\<exists>e. serialize h hp ancestors (VRef b) = Inl e"
proof (rule ccontr)
  assume "\<not> ?thesis"
  then obtain t where "serialize h hp ancestors (VRef b) = Inr t"
    by (cases "serialize h hp ancestors (VRef b)") auto
  then obtain anc t where t: "serialize h hp anc (VRef a) = Inr t"
    using assms(2) serialize_path by metis
  from serialize_path [OF assms(1) t] obtain anc' u
    where "serialize h hp anc' (VRef a) = Inr u" "a \<in> set anc'" by blast
  then show False using serialize_ref(1) by blast
qed

theorem cycles_are_rejected_witness:
  "\<exists>e. serialize example_host [OArray [VRef 1], OPlain [(''self'', VRef 0)]] [] (VRef 1) = Inl e"
proof -
  have e: "(0, 1) \<in> points_to [OArray [VRef 1], OPlain [(''self'', VRef 0)]]"
    "(1, 0) \<in> points_to [OArray [VRef 1], OPlain [(''self'', VRef 0)]]"
    by (auto simp: points_to_def object_at_def)
  then show ?thesis by (intro cycles_are_rejected [of 0]) (auto intro: trancl_into_trancl)
qed

text \<open>
  C33. A document that \<open>withContentHash\<close> returns is accepted by \<open>hasValidContentHash\<close>, for
  any document whose parts are objects of the heap and any hash of 64 characters.
\<close>

theorem content_hash_roundtrip:
  assumes "withContentHash h hp document = Inr hashed" "closed hp"
    "obj_refs (OPlain (hashed_members document)) \<subseteq> {..<length hp}"
    "\<forall>t. length (sha256 h t) = 64"
  shows "hasValidContentHash h (hp @ [OPlain hashed]) (VRef (length hp)) = Inr True"
proof -
  let ?empty = "AList.update ''contentHash'' (VString []) document"
  obtain c where c: "computeContentHash h (hp @ [OPlain ?empty]) (VRef (length hp)) = Inr c"
    and hashed: "hashed = AList.update ''contentHash'' (VString c) document"
    using assms(1) by (auto simp: withContentHash_def)
  have "computeContentHash h (hp @ [OPlain hashed]) (VRef (length hp)) =
      computeContentHash h (hp @ [OPlain ?empty]) (VRef (length hp))"
    unfolding hashed by (rule content_hash_cong [OF assms(2)]) (use assms(3) in simp_all)
  then show ?thesis
    using c computeContentHash_sha [OF c] assms(4)
    by (auto simp: hasValidContentHash_def own_members_def hashed)
qed

theorem content_hash_roundtrip_witness:
  "\<exists>hashed. withContentHash example_host [] [(''runId'', VString ''r'')] = Inr hashed \<and>
     hasValidContentHash example_host [OPlain hashed] (VRef 0) = Inr True"
proof -
  obtain hashed where w: "withContentHash example_host [] [(''runId'', VString ''r'')] = Inr hashed"
  proof -
    have "\<not> isl (withContentHash example_host [] [(''runId'', VString ''r'')])" by code_simp
    then show thesis using that by (cases "withContentHash example_host [] [(''runId'', VString ''r'')]") auto
  qed
  have h: "closed []" "\<forall>t. length (sha256 example_host t) = 64"
    "obj_refs (OPlain (hashed_members [(''runId'', VString ''r'')])) \<subseteq> {..<length []}"
    by (simp_all add: closed_def example_host_def obj_refs_def hashed_members_def)
  show ?thesis using w content_hash_roundtrip [OF w h(1) h(3) h(2)] by simp
qed

text \<open>
  A content hash binds the document: if two plain documents have the same content hash
  and the hash function does not collide on their canonical texts, then their members
  other than the hash itself (and a member called \<open>__proto__\<close>) unfold to the same tree.
\<close>

theorem content_hash_binds:
  assumes "number_law h"
    and "computeContentHash h (hp @ [OPlain d]) (VRef (length hp)) = Inr c"
    and "computeContentHash h (hp' @ [OPlain d']) (VRef (length hp')) = Inr c"
    and "\<And>t t'. canonicalJson h (hp @ [OPlain d, OPlain (hashed_members d)]) (VRef (Suc (length hp))) = Inr t \<Longrightarrow>
        canonicalJson h (hp' @ [OPlain d', OPlain (hashed_members d')]) (VRef (Suc (length hp'))) = Inr t' \<Longrightarrow>
        sha256 h t = sha256 h t' \<Longrightarrow> t = t'"
  shows "value_tree (hp @ [OPlain d, OPlain (hashed_members d)]) [] (VRef (Suc (length hp))) =
    value_tree (hp' @ [OPlain d', OPlain (hashed_members d')]) [] (VRef (Suc (length hp')))"
proof -
  let ?h1 = "hp @ [OPlain d, OPlain (hashed_members d)]" and ?r1 = "VRef (Suc (length hp))"
  let ?h2 = "hp' @ [OPlain d', OPlain (hashed_members d')]" and ?r2 = "VRef (Suc (length hp'))"
  have ex: "\<exists>t. canonicalJson h (hp @ [OPlain d, OPlain (hashed_members d)]) (VRef (Suc (length hp))) = Inr t \<and>
      c = sha256 h t"
    if "computeContentHash h (hp @ [OPlain d]) (VRef (length hp)) = Inr c" for hp d
  proof (cases "sets_prototype d")
    case True
    then show ?thesis
      using that by (simp add: computeContentHash_new canonicalHash_def canonicalJson_def serialize.simps)
  next
    case False
    then show ?thesis using that by (auto simp: computeContentHash_new canonicalHash_def)
  qed
  obtain t t' where t: "canonicalJson h ?h1 ?r1 = Inr t" "c = sha256 h t"
    and t': "canonicalJson h ?h2 ?r2 = Inr t'" "c = sha256 h t'"
    using ex [OF assms(2)] ex [OF assms(3)] by blast
  then have "t = t'" using assms(4) by metis
  then show ?thesis
    using t(1) t'(1) json_text_inject [OF assms(1)] unfolding canonicalJson_def serialize_refines by auto
qed

theorem content_hash_binds_witness:
  "value_tree ([] @ [OPlain [(''a'', VBool True), (''b'', VNull)],
       OPlain (hashed_members [(''a'', VBool True), (''b'', VNull)])]) [] (VRef (Suc (length ([] :: heap)))) =
     value_tree ([] @ [OPlain [(''b'', VNull), (''a'', VBool True)],
       OPlain (hashed_members [(''b'', VNull), (''a'', VBool True)])]) [] (VRef (Suc (length ([] :: heap))))"
proof (rule content_hash_binds [OF example_number_law])
  let ?d = "[(''a'', VBool True), (''b'', VNull)]" and ?e = "[(''b'', VNull), (''a'', VBool True)]"
  show "computeContentHash example_host ([] @ [OPlain ?d]) (VRef (length ([] :: heap))) = Inr (replicate 64 CHR ''a'')"
    "computeContentHash example_host ([] @ [OPlain ?e]) (VRef (length ([] :: heap))) = Inr (replicate 64 CHR ''a'')"
    by code_simp+
  have "canonicalJson example_host ([] @ [OPlain ?d, OPlain (hashed_members ?d)]) (VRef (Suc (length ([] :: heap)))) =
      canonicalJson example_host ([] @ [OPlain ?e, OPlain (hashed_members ?e)]) (VRef (Suc (length ([] :: heap))))"
    by code_simp
  then show "t = t'"
    if "canonicalJson example_host ([] @ [OPlain ?d, OPlain (hashed_members ?d)]) (VRef (Suc (length ([] :: heap)))) = Inr t"
      "canonicalJson example_host ([] @ [OPlain ?e, OPlain (hashed_members ?e)]) (VRef (Suc (length ([] :: heap)))) = Inr t'"
    for t t'
    using that by simp
qed

text \<open>
  The content hash does not cover an own member called \<open>__proto__\<close>: a document that
  carries one with a primitive value other than null (as \<open>JSON.parse\<close> makes it) has the
  content hash of the document without it, although the hash is documented to bind every
  other field.
\<close>

theorem content_hash_skips_proto_member:
  assumes "closed hp" "obj_refs (OPlain (hashed_members document)) \<subseteq> {..<length hp}"
    "map_of document ''__proto__'' = None"
    "v \<noteq> VNull" "\<forall>a. v \<noteq> VRef a"
  shows "computeContentHash h (hp @ [OPlain ((''__proto__'', v) # document)]) (VRef (length hp)) =
    computeContentHash h (hp @ [OPlain document]) (VRef (length hp))"
proof (rule content_hash_cong [OF assms(1,2)])
  show "hashed_members ((''__proto__'', v) # document) = hashed_members document"
    by (simp add: hashed_members_def)
  show "sets_prototype ((''__proto__'', v) # document) = sets_prototype document"
    using assms(3-5) by (simp add: sets_prototype_def split: js_value.split)
qed

theorem content_hash_skips_proto_member_witness:
  "computeContentHash example_host ([] @ [OPlain [(''__proto__'', VString ''x''), (''a'', VNull)]]) (VRef (length ([] :: heap))) =
     computeContentHash example_host ([] @ [OPlain [(''a'', VNull)]]) (VRef (length ([] :: heap)))"
  by (rule content_hash_skips_proto_member)
    (simp_all add: closed_def obj_refs_def hashed_members_def)

text \<open>The hash of the example platform is constant, so that it is not computed.\<close>

lemma tree_hash_simple [simp]: "tree_hash simple_host j = sixty_four CHR ''0''"
  by (simp add: tree_hash_def simple_host_def sixty_four_def)

end
