(* ===== verification/Attempt_Ledger.thy ===== *)
theory Attempt_Ledger
  imports Canonical_Json Hidden_Types Machines
begin

text \<open>
  The presealed validation-attempt ledger of \<open>src/evaluation/validation-attempt-ledger.ts\<close>:
  24 cells in a fixed order, at most four infrastructure replacements, and a log of claims
  and receipts that the validator replays. Digests are hashes of the trees of the object
  literals the code hashes. The checks of a value's key set and of its enumerations hold
  for every record of the model and are left out; the cells of an array are distinct
  objects, so that \<open>indexOf\<close> is the position.
\<close>

subsection \<open>Records\<close>

datatype harness_arm = Candidate_arm | Champion_arm

datatype attempt_kind = Initial | Infrastructure_replacement

datatype attempt_outcome = Valid | Infrastructure_failure | Non_infrastructure_failure

datatype attempt_completion = Active | Complete | Draining_incomplete | Incomplete

datatype provider_action = Start_once | Recover | No_action

record pair_plan =
  plan_taskId :: string
  plan_taskRevisionDigest :: string
  plan_armOrder :: arm_order

record cell =
  ordinal :: int
  pairOrdinal :: int
  cell_taskId :: string
  cell_taskRevisionDigest :: string
  arm :: harness_arm

record receipt =
  receiptDigest :: string
  receipt_attemptDigest :: string
  outcome :: attempt_outcome
  evidenceDigest :: string
  observedAt :: string

record validation_attempt =
  requestId :: string
  attempt_digest :: string
  cellOrdinal :: int
  attemptOrdinal :: int
  attempt_kind :: attempt_kind
  claimedAt :: string
  claimRevision :: int
  attempt_receipt :: "receipt option"
  receiptRecordedRevision :: "int option"

record attempt_ledger =
  policyVersion :: string
  revision :: int
  panelBindingDigest :: string
  sealDigest :: string
  ledger_sealedAt :: string
  cells :: "cell list"
  ledger_attempts :: "validation_attempt list"

record attempt_claim =
  claim_requestId :: string
  claim_attemptDigest :: string
  claim_cellOrdinal :: int
  claim_taskId :: string
  claim_taskRevisionDigest :: string
  claim_arm :: harness_arm
  claim_attemptOrdinal :: int
  claim_kind :: attempt_kind

record claim_result =
  cr_ledger :: attempt_ledger
  cr_claim :: attempt_claim
  cr_replayed :: bool
  cr_providerAction :: provider_action

record receipt_result =
  rr_ledger :: attempt_ledger
  rr_replayed :: bool

record terminal_accounting =
  ta_policyVersion :: string
  ta_terminalStatus :: attempt_completion
  ta_presealedPairCount :: int
  ta_presealedArmCount :: int
  ta_validArmCount :: int
  ta_attemptedArmCount :: int
  ta_unresolvedArmCount :: int
  ta_totalAttemptCount :: int
  ta_replacementAttemptCount :: int
  ta_infrastructureFailureCount :: int
  ta_nonInfrastructureFailureCount :: int
  ta_containsPanelHandle :: bool
  ta_containsTaskIdentifiers :: bool
  ta_containsCellIdentifiers :: bool
  ta_containsAttemptIdentifiers :: bool
  ta_containsEvidenceIdentifiers :: bool

record attempt_counts =
  completion :: attempt_completion
  validArmCount :: int
  attemptedArmCount :: int
  inFlightAttemptCount :: int
  replacementAttemptCount :: int
  infrastructureFailureCount :: int
  nonInfrastructureFailureCount :: int

definition POLICY_VERSION :: string where
  "POLICY_VERSION = ''validation-attempt-ledger-v1''"
definition PAIR_COUNT :: nat where "PAIR_COUNT = 12"
definition ARM_COUNT :: nat where "ARM_COUNT = 24"
definition MAXIMUM_REPLACEMENTS :: int where "MAXIMUM_REPLACEMENTS = 4"

subsection \<open>Assertions and digests\<close>

definition assertSha256 :: "string \<Rightarrow> string \<Rightarrow> unit result" where
  "assertSha256 value label =
     (if \<not> is_sha256 value then Inl (Error (label @ '' must be a lowercase SHA-256 digest''))
      else Inr ())"

definition assertTimestamp :: "host \<Rightarrow> string \<Rightarrow> string \<Rightarrow> int result" where
  "assertTimestamp h value label =
     (case canonical_time h value of
        None \<Rightarrow> Inl (Error (label @ '' must be a canonical UTC RFC 3339 timestamp''))
      | Some t \<Rightarrow> Inr t)"

fun arm_text :: "harness_arm \<Rightarrow> string" where
  "arm_text Candidate_arm = ''candidate''"
| "arm_text Champion_arm = ''champion''"

fun kind_text :: "attempt_kind \<Rightarrow> string" where
  "kind_text Initial = ''initial''"
| "kind_text Infrastructure_replacement = ''infrastructure-replacement''"

fun outcome_text :: "attempt_outcome \<Rightarrow> string" where
  "outcome_text Valid = ''valid''"
| "outcome_text Infrastructure_failure = ''infrastructure-failure''"
| "outcome_text Non_infrastructure_failure = ''non-infrastructure-failure''"

definition cell_tree :: "cell \<Rightarrow> json" where
  "cell_tree c = json_object
     [(''ordinal'', json_int (ordinal c)), (''pairOrdinal'', json_int (pairOrdinal c)),
      (''taskId'', JString (cell_taskId c)),
      (''taskRevisionDigest'', JString (cell_taskRevisionDigest c)),
      (''arm'', JString (arm_text (arm c)))]"

definition immutableSealMaterial :: "string \<Rightarrow> string \<Rightarrow> cell list \<Rightarrow> json" where
  "immutableSealMaterial panelBinding sealed cs = json_object
     [(''domain'', JString ''dark-factory.validation-attempt-ledger.seal.v1''),
      (''policyVersion'', JString POLICY_VERSION),
      (''panelBindingDigest'', JString panelBinding),
      (''sealedAt'', JString sealed),
      (''presealedPairCount'', json_int (int PAIR_COUNT)),
      (''presealedArmCount'', json_int (int ARM_COUNT)),
      (''maximumInfrastructureReplacements'', json_int MAXIMUM_REPLACEMENTS),
      (''cells'', JArray (map cell_tree cs))]"

definition attemptDigest ::
    "host \<Rightarrow> attempt_ledger \<Rightarrow> string \<Rightarrow> cell \<Rightarrow> int \<Rightarrow> attempt_kind \<Rightarrow> int \<Rightarrow> string" where
  "attemptDigest h l request c ord knd claim_revision = tree_hash h (json_object
     [(''domain'', JString ''dark-factory.validation-attempt.v1''),
      (''policyVersion'', JString (policyVersion l)),
      (''ledgerSealDigest'', JString (sealDigest l)),
      (''requestId'', JString request),
      (''cellOrdinal'', json_int (ordinal c)),
      (''taskId'', JString (cell_taskId c)),
      (''taskRevisionDigest'', JString (cell_taskRevisionDigest c)),
      (''arm'', JString (arm_text (arm c))),
      (''attemptOrdinal'', json_int ord),
      (''kind'', JString (kind_text knd)),
      (''claimRevision'', json_int claim_revision)])"

definition receiptMaterial :: "string \<Rightarrow> attempt_outcome \<Rightarrow> string \<Rightarrow> string \<Rightarrow> json" where
  "receiptMaterial bound out evidence observed = json_object
     [(''domain'', JString ''dark-factory.validation-attempt-receipt.v1''),
      (''attemptDigest'', JString bound),
      (''outcome'', JString (outcome_text out)),
      (''evidenceDigest'', JString evidence),
      (''observedAt'', JString observed)]"

definition receipt_tree :: "receipt \<Rightarrow> json" where
  "receipt_tree r = json_object
     [(''receiptDigest'', JString (receiptDigest r)),
      (''attemptDigest'', JString (receipt_attemptDigest r)),
      (''outcome'', JString (outcome_text (outcome r))),
      (''evidenceDigest'', JString (evidenceDigest r)),
      (''observedAt'', JString (observedAt r))]"

definition attempt_tree :: "validation_attempt \<Rightarrow> json" where
  "attempt_tree a = json_object
     [(''requestId'', JString (requestId a)),
      (''attemptDigest'', JString (attempt_digest a)),
      (''cellOrdinal'', json_int (cellOrdinal a)),
      (''attemptOrdinal'', json_int (attemptOrdinal a)),
      (''kind'', JString (kind_text (attempt_kind a))),
      (''claimedAt'', JString (claimedAt a)),
      (''claimRevision'', json_int (claimRevision a)),
      (''receipt'', case attempt_receipt a of None \<Rightarrow> JNull | Some r \<Rightarrow> receipt_tree r),
      (''receiptRecordedRevision'',
        case receiptRecordedRevision a of None \<Rightarrow> JNull | Some n \<Rightarrow> json_int n)]"

subsection \<open>Counting and the schedule\<close>

definition attemptsForCell :: "validation_attempt list \<Rightarrow> int \<Rightarrow> validation_attempt list" where
  "attemptsForCell as n = filter (\<lambda>a. cellOrdinal a = n) as"

definition latestAttempt :: "validation_attempt list \<Rightarrow> int \<Rightarrow> validation_attempt option" where
  "latestAttempt as n =
     (let matching = attemptsForCell as n in if matching = [] then None else Some (last matching))"

definition outcome_of :: "validation_attempt \<Rightarrow> attempt_outcome option" where
  "outcome_of a = map_option outcome (attempt_receipt a)"

definition countAttempts :: "cell list \<Rightarrow> validation_attempt list \<Rightarrow> attempt_counts" where
  "countAttempts cs as =
     (let replacements = int (length (filter (\<lambda>a. attempt_kind a = Infrastructure_replacement) as));
          latest = List.map_filter (\<lambda>c. latestAttempt as (ordinal c)) cs;
          valids = int (length (filter (\<lambda>a. outcome_of a = Some Valid) latest));
          inflight = int (length (filter (\<lambda>a. attempt_receipt a = None) latest));
          permanent = int (length (filter (\<lambda>a.
            outcome_of a = Some Non_infrastructure_failure \<or>
            outcome_of a = Some Infrastructure_failure \<and> MAXIMUM_REPLACEMENTS \<le> replacements) latest))
      in \<lparr>completion =
            (if valids = int ARM_COUNT then Complete
             else if 0 < permanent then (if 0 < inflight then Draining_incomplete else Incomplete)
             else Active),
          validArmCount = valids,
          attemptedArmCount = int (length latest),
          inFlightAttemptCount = inflight,
          replacementAttemptCount = replacements,
          infrastructureFailureCount =
            int (length (filter (\<lambda>a. outcome_of a = Some Infrastructure_failure) as)),
          nonInfrastructureFailureCount =
            int (length (filter (\<lambda>a. outcome_of a = Some Non_infrastructure_failure) as))\<rparr>)"

definition nextClaimableCell :: "cell list \<Rightarrow> validation_attempt list \<Rightarrow> cell option" where
  "nextClaimableCell cs as =
     (let counts = countAttempts cs as in
      if completion counts \<noteq> Active then None
      else
        let retry = (if replacementAttemptCount counts < MAXIMUM_REPLACEMENTS
                     then List.find (\<lambda>c. case latestAttempt as (ordinal c) of
                            None \<Rightarrow> False
                          | Some a \<Rightarrow> outcome_of a = Some Infrastructure_failure) cs
                     else None)
        in case retry of
             Some c \<Rightarrow> Some c
           | None \<Rightarrow> List.find (\<lambda>c. attemptsForCell as (ordinal c) = []) cs)"

subsection \<open>Validation by replay\<close>

definition checkCell :: "nat \<Rightarrow> nat \<Rightarrow> cell \<Rightarrow> unit result" where
  "checkCell position pair c =
     and_then (guards
       [(\<not> safe_int (ordinal c) \<or> ordinal c \<noteq> int position \<or> pairOrdinal c \<noteq> int pair,
         Error ''Validation cell ordinals must be canonical and contiguous'')])
     (\<lambda>_. and_then (assertSha256 (cell_taskId c) ''taskId'')
     (\<lambda>_. assertSha256 (cell_taskRevisionDigest c) ''taskRevisionDigest''))"

definition checkPair :: "cell list \<Rightarrow> string list \<Rightarrow> nat \<Rightarrow> string list result" where
  "checkPair cs seen pair =
     (if length cs \<le> pair * 2 + 1 then Inl (Error ''A validation pair is missing a presealed arm'')
      else let first = cs ! (pair * 2); second = cs ! (pair * 2 + 1) in
        and_then (checkCell (pair * 2) pair first) (\<lambda>_.
        and_then (checkCell (pair * 2 + 1) pair second) (\<lambda>_.
        and_then (guards
          [(cell_taskId first \<noteq> cell_taskId second \<or>
            cell_taskRevisionDigest first \<noteq> cell_taskRevisionDigest second \<or>
            arm first = arm second,
            Error ''Every validation pair must contain one candidate and one champion arm''),
           (cell_taskId first \<in> set seen,
            Error ''A validation task may occur in exactly one presealed pair'')])
        (\<lambda>_. Inr (cell_taskId first # seen)))))"

definition validateCells :: "cell list \<Rightarrow> unit result" where
  "validateCells cs =
     (if length cs \<noteq> ARM_COUNT
      then Inl (Error ''A validation attempt ledger must preseal exactly 24 arms'')
      else and_then (fold_result (checkPair cs) [] [0..<PAIR_COUNT]) (\<lambda>_. Inr ()))"

definition assertReceipt :: "host \<Rightarrow> receipt \<Rightarrow> unit result" where
  "assertReceipt h r =
     and_then (assertSha256 (receipt_attemptDigest r) ''attemptDigest'') (\<lambda>_.
     and_then (assertSha256 (evidenceDigest r) ''evidenceDigest'') (\<lambda>_.
     and_then (assertSha256 (receiptDigest r) ''receiptDigest'') (\<lambda>_.
     and_then (assertTimestamp h (observedAt r) ''observedAt'') (\<lambda>_.
       if receiptDigest r \<noteq> tree_hash h
           (receiptMaterial (receipt_attemptDigest r) (outcome r) (evidenceDigest r) (observedAt r))
       then Inl (Error ''Validation attempt receipt digest does not reproduce'')
       else Inr ()))))"

definition replaceAttempt :: "validation_attempt list \<Rightarrow> validation_attempt \<Rightarrow> validation_attempt list" where
  "replaceAttempt as a = map (\<lambda>b. if attempt_digest b = attempt_digest a then a else b) as"

datatype operation = Claim_op validation_attempt | Receipt_op validation_attempt

definition addOperation ::
    "(int \<times> operation) list \<Rightarrow> validation_attempt \<Rightarrow> (int \<times> operation) list result" where
  "addOperation operations a =
     (if claimRevision a \<in> fst ` set operations
      then Inl (Error ''Validation attempt revisions must be unique'')
      else let claimed = operations @ [(claimRevision a, Claim_op a)] in
        case receiptRecordedRevision a of
          None \<Rightarrow> Inr claimed
        | Some n \<Rightarrow>
            if n \<in> fst ` set claimed
            then Inl (Error ''Validation attempt revisions must be unique'')
            else Inr (claimed @ [(n, Receipt_op a)]))"

definition operationRevisions :: "validation_attempt list \<Rightarrow> (int \<times> operation) list result" where
  "operationRevisions as = fold_result addOperation [] as"

record replay_state =
  requestIds :: "string list"
  attemptDigests :: "string list"
  replayedAttempts :: "validation_attempt list"

definition replayClaim ::
    "host \<Rightarrow> attempt_ledger \<Rightarrow> int \<Rightarrow> replay_state \<Rightarrow> validation_attempt \<Rightarrow> replay_state result" where
  "replayClaim h l revno s a =
     and_then (assertSha256 (requestId a) ''requestId'') (\<lambda>_.
     and_then (assertSha256 (attempt_digest a) ''attemptDigest'') (\<lambda>_.
     and_then (guards
       [(\<not> safe_int (claimRevision a) \<or> claimRevision a \<noteq> revno \<or>
         requestId a \<in> set (requestIds s) \<or> attempt_digest a \<in> set (attemptDigests s),
         Error ''Validation attempt claim is duplicated or out of sequence'')]) (\<lambda>_.
     and_then (assertTimestamp h (ledger_sealedAt l) ''sealedAt'') (\<lambda>sealed.
     and_then (assertTimestamp h (claimedAt a) ''claimedAt'') (\<lambda>claimed.
     if claimed < sealed then Inl (Error ''A validation attempt cannot predate its panel seal'')
     else case nextClaimableCell (cells l) (replayedAttempts s) of
       None \<Rightarrow> Inl (Error ''Validation attempt does not follow the deterministic sealed schedule'')
     | Some c \<Rightarrow>
         if ordinal c \<noteq> cellOrdinal a
         then Inl (Error ''Validation attempt does not follow the deterministic sealed schedule'')
         else
           let prior = attemptsForCell (replayedAttempts s) (ordinal c);
               expectedOrdinal = int (length prior) + 1;
               expectedKind = (if prior = [] then Initial else Infrastructure_replacement)
           in and_then (guards
             [(attemptOrdinal a \<noteq> expectedOrdinal \<or> attempt_kind a \<noteq> expectedKind \<or>
               (receiptRecordedRevision a \<noteq> None) \<noteq> (attempt_receipt a \<noteq> None),
               Error ''Validation attempt retry accounting is invalid''),
              (attempt_digest a \<noteq> attemptDigest h l (requestId a) c expectedOrdinal expectedKind revno,
               Error ''Validation attempt digest does not reproduce'')])
             (\<lambda>_. Inr \<lparr>requestIds = requestId a # requestIds s,
                attemptDigests = attempt_digest a # attemptDigests s,
                replayedAttempts = replayedAttempts s @
                  [a\<lparr>attempt_receipt := None, receiptRecordedRevision := None\<rparr>]\<rparr>))))))"

definition replayReceipt ::
    "host \<Rightarrow> int \<Rightarrow> replay_state \<Rightarrow> validation_attempt \<Rightarrow> replay_state result" where
  "replayReceipt h revno s a =
     (case List.find (\<lambda>b. attempt_digest b = attempt_digest a) (replayedAttempts s) of
        None \<Rightarrow> Inl (Error ''Validation receipt is missing, duplicated, or precedes its claim'')
      | Some b \<Rightarrow>
          (case attempt_receipt a of
             None \<Rightarrow> Inl (Error ''Validation receipt is missing, duplicated, or precedes its claim'')
           | Some r \<Rightarrow>
               if attempt_receipt b \<noteq> None \<or> receiptRecordedRevision a \<noteq> Some revno
               then Inl (Error ''Validation receipt is missing, duplicated, or precedes its claim'')
               else and_then (assertReceipt h r) (\<lambda>_.
                 if receipt_attemptDigest r \<noteq> attempt_digest a
                 then Inl (Error ''Validation receipt does not bind its claimed attempt'')
                 else and_then (assertTimestamp h (observedAt r) ''observedAt'') (\<lambda>observed.
                   and_then (assertTimestamp h (claimedAt a) ''claimedAt'') (\<lambda>claimed.
                     if observed < claimed
                     then Inl (Error ''Validation receipt cannot predate its attempt claim'')
                     else Inr (s\<lparr>replayedAttempts := replaceAttempt (replayedAttempts s) a\<rparr>))))))"

definition replayRevision ::
    "host \<Rightarrow> attempt_ledger \<Rightarrow> (int \<times> operation) list \<Rightarrow> replay_state \<Rightarrow> int \<Rightarrow> replay_state result" where
  "replayRevision h l operations s revno =
     (case map_of operations revno of
        None \<Rightarrow> Inl (Error ''Validation attempt ledger revisions must be contiguous'')
      | Some (Claim_op a) \<Rightarrow> replayClaim h l revno s a
      | Some (Receipt_op a) \<Rightarrow> replayReceipt h revno s a)"

definition empty_replay :: replay_state where
  "empty_replay = \<lparr>requestIds = [], attemptDigests = [], replayedAttempts = []\<rparr>"

definition validateValidationAttemptLedger :: "host \<Rightarrow> attempt_ledger \<Rightarrow> unit result" where
  "validateValidationAttemptLedger h l =
     and_then (guards
       [(policyVersion l \<noteq> POLICY_VERSION, Error ''Unknown validation attempt ledger policy''),
        (\<not> safe_int (revision l) \<or> revision l < 0,
         Error ''Validation attempt ledger revision must be a non-negative integer'')]) (\<lambda>_.
     and_then (assertSha256 (panelBindingDigest l) ''panelBindingDigest'') (\<lambda>_.
     and_then (assertSha256 (sealDigest l) ''sealDigest'') (\<lambda>_.
     and_then (assertTimestamp h (ledger_sealedAt l) ''sealedAt'') (\<lambda>_.
     and_then (validateCells (cells l)) (\<lambda>_.
     and_then (guards
       [(sealDigest l \<noteq> tree_hash h
           (immutableSealMaterial (panelBindingDigest l) (ledger_sealedAt l) (cells l)),
         Error ''Validation attempt ledger seal digest does not reproduce''),
        (int ARM_COUNT + MAXIMUM_REPLACEMENTS < int (length (ledger_attempts l)),
         Error ''Validation attempt ledger exceeds its 28-attempt ceiling'')]) (\<lambda>_.
     and_then (operationRevisions (ledger_attempts l)) (\<lambda>operations.
     if int (length operations) \<noteq> revision l
     then Inl (Error ''Validation attempt ledger revision accounting is incomplete'')
     else and_then (fold_result (replayRevision h l operations) empty_replay [1..revision l]) (\<lambda>s.
     guards
       [(tree_hash h (JArray (map attempt_tree (replayedAttempts s))) \<noteq>
           tree_hash h (JArray (map attempt_tree (ledger_attempts l))),
         Error ''Validation attempt ledger does not match its replayed transitions''),
        (MAXIMUM_REPLACEMENTS < replacementAttemptCount (countAttempts (cells l) (ledger_attempts l)),
         Error ''Validation attempt ledger exceeds four infrastructure replacements'')]))))))))"

subsection \<open>Operations\<close>

definition pair_cells :: "nat \<Rightarrow> pair_plan \<Rightarrow> cell list" where
  "pair_cells pair p =
     (let make = (\<lambda>position which. \<lparr>ordinal = int position, pairOrdinal = int pair,
            cell_taskId = plan_taskId p, cell_taskRevisionDigest = plan_taskRevisionDigest p,
            arm = which\<rparr>);
          arms = (case plan_armOrder p of
            AB \<Rightarrow> [Candidate_arm, Champion_arm] | BA \<Rightarrow> [Champion_arm, Candidate_arm])
      in [make (pair * 2) (arms ! 0), make (pair * 2 + 1) (arms ! 1)])"

definition addPair :: "cell list \<Rightarrow> nat \<times> pair_plan \<Rightarrow> cell list result" where
  "addPair cs = (\<lambda>(pair, p).
     and_then (assertSha256 (plan_taskId p) ''taskId'') (\<lambda>_.
     and_then (assertSha256 (plan_taskRevisionDigest p) ''taskRevisionDigest'') (\<lambda>_.
       Inr (cs @ pair_cells pair p))))"

definition createValidationAttemptLedger ::
    "host \<Rightarrow> string \<Rightarrow> pair_plan list \<Rightarrow> string \<Rightarrow> attempt_ledger result" where
  "createValidationAttemptLedger h panelBinding pairs sealed =
     and_then (assertSha256 panelBinding ''panelBindingDigest'') (\<lambda>_.
     and_then (assertTimestamp h sealed ''sealedAt'') (\<lambda>_.
     if length pairs \<noteq> PAIR_COUNT
     then Inl (Error ''Fresh validation requires exactly twelve hidden matched pairs'')
     else and_then (fold_result addPair [] (enumerate 0 pairs)) (\<lambda>cs.
     and_then (validateCells cs) (\<lambda>_.
       let l = \<lparr>policyVersion = POLICY_VERSION, revision = 0, panelBindingDigest = panelBinding,
             sealDigest = tree_hash h (immutableSealMaterial panelBinding sealed cs),
             ledger_sealedAt = sealed, cells = cs, ledger_attempts = []\<rparr>
       in and_then (validateValidationAttemptLedger h l) (\<lambda>_. Inr l)))))"

definition hiddenClaim :: "attempt_ledger \<Rightarrow> validation_attempt \<Rightarrow> attempt_claim result" where
  "hiddenClaim l a =
     (if cellOrdinal a < 0 \<or> int (length (cells l)) \<le> cellOrdinal a
      then Inl (Error ''Validation attempt references an unknown cell'')
      else let c = cells l ! nat (cellOrdinal a) in
        Inr \<lparr>claim_requestId = requestId a, claim_attemptDigest = attempt_digest a,
          claim_cellOrdinal = ordinal c, claim_taskId = cell_taskId c,
          claim_taskRevisionDigest = cell_taskRevisionDigest c, claim_arm = arm c,
          claim_attemptOrdinal = attemptOrdinal a, claim_kind = attempt_kind a\<rparr>)"

definition new_attempt :: "host \<Rightarrow> attempt_ledger \<Rightarrow> string \<Rightarrow> string \<Rightarrow> cell \<Rightarrow> validation_attempt" where
  "new_attempt h l request time c =
     (let prior = attemptsForCell (ledger_attempts l) (ordinal c);
          ord = int (length prior) + 1;
          knd = (if prior = [] then Initial else Infrastructure_replacement);
          claim_revision = revision l + 1
      in \<lparr>requestId = request,
          attempt_digest = attemptDigest h l request c ord knd claim_revision,
          cellOrdinal = ordinal c, attemptOrdinal = ord, attempt_kind = knd, claimedAt = time,
          claimRevision = claim_revision, attempt_receipt = None, receiptRecordedRevision = None\<rparr>)"

definition claimValidationAttempt ::
    "host \<Rightarrow> attempt_ledger \<Rightarrow> string \<Rightarrow> string \<Rightarrow> claim_result result" where
  "claimValidationAttempt h l request time =
     and_then (validateValidationAttemptLedger h l) (\<lambda>_.
     and_then (assertSha256 request ''requestId'') (\<lambda>_.
     and_then (assertTimestamp h time ''claimedAt'') (\<lambda>_.
     case List.find (\<lambda>a. requestId a = request) (ledger_attempts l) of
       Some existing \<Rightarrow>
         if claimedAt existing \<noteq> time
         then Inl (Error ''An idempotent validation claim cannot change its timestamp'')
         else and_then (hiddenClaim l existing) (\<lambda>claim.
           Inr \<lparr>cr_ledger = l, cr_claim = claim, cr_replayed = True,
             cr_providerAction = (if attempt_receipt existing = None then Recover else No_action)\<rparr>)
     | None \<Rightarrow>
         if completion (countAttempts (cells l) (ledger_attempts l)) \<noteq> Active
         then Inl (Error ''Cannot claim an attempt from a terminal validation ledger'')
         else (case nextClaimableCell (cells l) (ledger_attempts l) of
           None \<Rightarrow> Inl (Error ''All currently claimable validation arms are already in flight'')
         | Some c \<Rightarrow>
             let claimed = new_attempt h l request time c;
                 next_ledger = l\<lparr>revision := revision l + 1,
                   ledger_attempts := ledger_attempts l @ [claimed]\<rparr>
             in and_then (validateValidationAttemptLedger h next_ledger) (\<lambda>_.
                and_then (hiddenClaim next_ledger claimed) (\<lambda>claim.
                  Inr \<lparr>cr_ledger = next_ledger, cr_claim = claim, cr_replayed = False,
                    cr_providerAction = Start_once\<rparr>))))))"

definition createValidationAttemptReceipt ::
    "host \<Rightarrow> string \<Rightarrow> attempt_outcome \<Rightarrow> string \<Rightarrow> string \<Rightarrow> receipt result" where
  "createValidationAttemptReceipt h bound out evidence observed =
     and_then (assertSha256 bound ''attemptDigest'') (\<lambda>_.
     and_then (assertSha256 evidence ''evidenceDigest'') (\<lambda>_.
     and_then (assertTimestamp h observed ''observedAt'') (\<lambda>_.
       Inr \<lparr>receiptDigest = tree_hash h (receiptMaterial bound out evidence observed),
         receipt_attemptDigest = bound, outcome = out, evidenceDigest = evidence,
         observedAt = observed\<rparr>)))"

definition recordValidationAttemptReceipt ::
    "host \<Rightarrow> attempt_ledger \<Rightarrow> receipt \<Rightarrow> receipt_result result" where
  "recordValidationAttemptReceipt h l r =
     and_then (validateValidationAttemptLedger h l) (\<lambda>_.
     and_then (assertReceipt h r) (\<lambda>_.
     case List.find (\<lambda>a. attempt_digest a = receipt_attemptDigest r) (ledger_attempts l) of
       None \<Rightarrow> Inl (Error ''Validation receipt references an unknown attempt'')
     | Some existing \<Rightarrow>
         (case attempt_receipt existing of
            Some old \<Rightarrow>
              if tree_hash h (receipt_tree old) \<noteq> tree_hash h (receipt_tree r)
              then Inl (Error ''A validation attempt cannot accept a conflicting receipt'')
              else Inr \<lparr>rr_ledger = l, rr_replayed = True\<rparr>
          | None \<Rightarrow>
              and_then (assertTimestamp h (observedAt r) ''observedAt'') (\<lambda>observed.
              and_then (assertTimestamp h (claimedAt existing) ''claimedAt'') (\<lambda>claimed.
                if observed < claimed
                then Inl (Error ''Validation receipt cannot predate its attempt claim'')
                else
                  let recorded = existing\<lparr>attempt_receipt := Some r,
                        receiptRecordedRevision := Some (revision l + 1)\<rparr>;
                      next_ledger = l\<lparr>revision := revision l + 1,
                        ledger_attempts := replaceAttempt (ledger_attempts l) recorded\<rparr>
                  in and_then (validateValidationAttemptLedger h next_ledger) (\<lambda>_.
                    Inr \<lparr>rr_ledger = next_ledger, rr_replayed = False\<rparr>))))))"

definition validationAttemptCompletion :: "host \<Rightarrow> attempt_ledger \<Rightarrow> attempt_completion result" where
  "validationAttemptCompletion h l =
     and_then (validateValidationAttemptLedger h l)
       (\<lambda>_. Inr (completion (countAttempts (cells l) (ledger_attempts l))))"

definition makeReleaseSafeTerminalValidationAttemptAccounting ::
    "host \<Rightarrow> attempt_ledger \<Rightarrow> terminal_accounting result" where
  "makeReleaseSafeTerminalValidationAttemptAccounting h l =
     and_then (validateValidationAttemptLedger h l) (\<lambda>_.
       let counts = countAttempts (cells l) (ledger_attempts l) in
       if completion counts \<noteq> Complete \<and> completion counts \<noteq> Incomplete
       then Inl (Error ''Validation attempt accounting is not terminal'')
       else Inr \<lparr>ta_policyVersion = POLICY_VERSION, ta_terminalStatus = completion counts,
         ta_presealedPairCount = int PAIR_COUNT, ta_presealedArmCount = int ARM_COUNT,
         ta_validArmCount = validArmCount counts, ta_attemptedArmCount = attemptedArmCount counts,
         ta_unresolvedArmCount = int ARM_COUNT - validArmCount counts,
         ta_totalAttemptCount = int (length (ledger_attempts l)),
         ta_replacementAttemptCount = replacementAttemptCount counts,
         ta_infrastructureFailureCount = infrastructureFailureCount counts,
         ta_nonInfrastructureFailureCount = nonInfrastructureFailureCount counts,
         ta_containsPanelHandle = False, ta_containsTaskIdentifiers = False,
         ta_containsCellIdentifiers = False, ta_containsAttemptIdentifiers = False,
         ta_containsEvidenceIdentifiers = False\<rparr>)"

subsection \<open>What a valid ledger replays to\<close>

text \<open>The view of an attempt after a number of revisions: its receipt, once that is recorded.\<close>

definition strip :: "validation_attempt \<Rightarrow> validation_attempt" where
  "strip a = a\<lparr>attempt_receipt := None, receiptRecordedRevision := None\<rparr>"

definition seen :: "int \<Rightarrow> validation_attempt \<Rightarrow> validation_attempt" where
  "seen n a =
     (case receiptRecordedRevision a of
        None \<Rightarrow> strip a | Some k \<Rightarrow> if k \<le> n then a else strip a)"

definition claim_at :: "(int \<times> operation) list \<Rightarrow> int \<Rightarrow> validation_attempt option" where
  "claim_at operations n =
     (case map_of operations n of Some (Claim_op a) \<Rightarrow> Some a | _ \<Rightarrow> None)"

definition claims :: "(int \<times> operation) list \<Rightarrow> int \<Rightarrow> validation_attempt list" where
  "claims operations n = List.map_filter (claim_at operations) [1..n]"

lemma strip_simps [simp]:
  "requestId (strip a) = requestId a" "attempt_digest (strip a) = attempt_digest a"
  "cellOrdinal (strip a) = cellOrdinal a" "attemptOrdinal (strip a) = attemptOrdinal a"
  "attempt_kind (strip a) = attempt_kind a" "claimedAt (strip a) = claimedAt a"
  "claimRevision (strip a) = claimRevision a" "attempt_receipt (strip a) = None"
  "receiptRecordedRevision (strip a) = None"
  by (simp_all add: strip_def)

lemma seen_simps [simp]:
  "requestId (seen n a) = requestId a" "attempt_digest (seen n a) = attempt_digest a"
  "cellOrdinal (seen n a) = cellOrdinal a" "attemptOrdinal (seen n a) = attemptOrdinal a"
  "attempt_kind (seen n a) = attempt_kind a" "claimedAt (seen n a) = claimedAt a"
  "claimRevision (seen n a) = claimRevision a"
  by (simp_all add: seen_def split: option.split)

lemma upto_snoc: "0 \<le> n \<Longrightarrow> [1..n + 1] = [1..n] @ [n + 1]"
  by (simp add: upto_rec2)

lemma claims_Suc:
  "0 \<le> n \<Longrightarrow> claims operations (n + 1) = claims operations n @
     (case claim_at operations (n + 1) of None \<Rightarrow> [] | Some a \<Rightarrow> [a])"
  by (simp add: claims_def upto_snoc map_filter_def split: option.split)

lemma claims_claim:
    "0 \<le> n \<Longrightarrow> map_of operations (n + 1) = Some (Claim_op a) \<Longrightarrow>
       claims operations (n + 1) = claims operations n @ [a]"
  and claims_receipt:
    "0 \<le> n \<Longrightarrow> map_of operations (n + 1) = Some (Receipt_op a) \<Longrightarrow>
       claims operations (n + 1) = claims operations n"
  by (simp_all add: claims_Suc claim_at_def)

lemma claims_0 [simp]: "claims operations 0 = []"
  by (simp add: claims_def map_filter_def)

lemma claims_set:
  "a \<in> set (claims operations n) \<longleftrightarrow> (\<exists>m. 1 \<le> m \<and> m \<le> n \<and> map_of operations m = Some (Claim_op a))"
  by (force simp: claims_def map_filter_def claim_at_def split: option.splits operation.splits)

lemma addOperation_ok:
  "addOperation operations a = Inr operations' \<longleftrightarrow>
     claimRevision a \<notin> fst ` set operations \<and>
     (case receiptRecordedRevision a of
        None \<Rightarrow> operations' = operations @ [(claimRevision a, Claim_op a)]
      | Some n \<Rightarrow> n \<notin> fst ` set operations \<and> n \<noteq> claimRevision a \<and>
          operations' = operations @ [(claimRevision a, Claim_op a), (n, Receipt_op a)])"
  by (auto simp: addOperation_def Let_def split: option.splits)

text \<open>The operations of a log of attempts: their keys are distinct and each comes from an attempt.\<close>

definition operations_of :: "validation_attempt list \<Rightarrow> (int \<times> operation) set" where
  "operations_of as =
     {(claimRevision a, Claim_op a) | a. a \<in> set as} \<union>
     {(n, Receipt_op a) | n a. a \<in> set as \<and> receiptRecordedRevision a = Some n}"

lemma operationRevisions_ok:
  assumes "operationRevisions as = Inr operations"
  shows "distinct (map fst operations)" "set operations = operations_of as"
    "distinct (map claimRevision as)" "length operations \<le> 2 * length as"
proof -
  have "fold_result addOperation ops0 as = Inr ops \<Longrightarrow> distinct (map fst ops0) \<Longrightarrow>
      distinct (map fst ops) \<and> set ops = set ops0 \<union> operations_of as \<and>
      distinct (map claimRevision as) \<and> claimRevision ` set as \<inter> fst ` set ops0 = {} \<and>
      length ops \<le> length ops0 + 2 * length as" for ops0 ops
  proof (induction as arbitrary: ops0)
    case Nil
    then show ?case by (simp add: operations_of_def)
  next
    case (Cons a as)
    then obtain ops1 where s: "addOperation ops0 a = Inr ops1" and r: "fold_result addOperation ops1 as = Inr ops"
      by auto
    have d: "distinct (map fst ops1)" "fst ` set ops0 \<union> {claimRevision a} \<subseteq> fst ` set ops1"
      "claimRevision a \<notin> fst ` set ops0"
      "set ops1 = set ops0 \<union> operations_of [a]" "length ops1 \<le> length ops0 + 2"
      using s Cons.prems(2) by (auto simp: addOperation_ok operations_of_def split: option.splits)
    have "operations_of (a # as) = operations_of [a] \<union> operations_of as"
      by (auto simp: operations_of_def)
    then show ?case using Cons.IH [OF r d(1)] d(2-5) by auto
  qed
  from this [of "[]"] assms show "distinct (map fst operations)" "set operations = operations_of as"
    "distinct (map claimRevision as)" "length operations \<le> 2 * length as"
    by (simp_all add: operationRevisions_def)
qed

lemma replayClaim_ok:
  assumes "replayClaim h l n s a = Inr t"
  obtains c where "nextClaimableCell (cells l) (replayedAttempts s) = Some c"
    "cellOrdinal a = ordinal c" "claimRevision a = n"
    "requestId a \<notin> set (requestIds s)" "attempt_digest a \<notin> set (attemptDigests s)"
    "attemptOrdinal a = int (length (attemptsForCell (replayedAttempts s) (ordinal c))) + 1"
    "attempt_kind a = (if attemptsForCell (replayedAttempts s) (ordinal c) = [] then Initial
                       else Infrastructure_replacement)"
    "receiptRecordedRevision a = None \<longleftrightarrow> attempt_receipt a = None"
    "t = \<lparr>requestIds = requestId a # requestIds s, attemptDigests = attempt_digest a # attemptDigests s,
          replayedAttempts = replayedAttempts s @ [strip a]\<rparr>"
  using assms
  by (auto simp: replayClaim_def guard_simps Let_def strip_def split: if_splits option.splits)

lemma replayReceipt_ok:
  assumes "replayReceipt h n s a = Inr t"
  obtains b where "b \<in> set (replayedAttempts s)" "attempt_digest b = attempt_digest a"
    "receiptRecordedRevision a = Some n" "attempt_receipt a \<noteq> None" "attempt_receipt b = None"
    "t = s\<lparr>replayedAttempts := replaceAttempt (replayedAttempts s) a\<rparr>"
proof -
  obtain b where b: "List.find (\<lambda>b. attempt_digest b = attempt_digest a) (replayedAttempts s) = Some b"
    and rest: "receiptRecordedRevision a = Some n" "attempt_receipt a \<noteq> None" "attempt_receipt b = None"
    "t = s\<lparr>replayedAttempts := replaceAttempt (replayedAttempts s) a\<rparr>"
    using assms by (auto simp: replayReceipt_def split: if_splits option.splits)
  have "b \<in> set (replayedAttempts s)" "attempt_digest b = attempt_digest a"
    using b by (auto simp: find_Some_iff)
  then show thesis using rest by (rule that)
qed

lemma replaceAttempt_digests [simp]:
  "map attempt_digest (replaceAttempt as a) = map attempt_digest as"
  by (simp add: replaceAttempt_def)

text \<open>The replay of a log up to a revision, and what holds of it.\<close>

definition replay_to :: "host \<Rightarrow> attempt_ledger \<Rightarrow> (int \<times> operation) list \<Rightarrow> int \<Rightarrow> replay_state result" where
  "replay_to h l operations n = fold_result (replayRevision h l operations) empty_replay [1..n]"

lemma replay_to_Suc:
  "0 \<le> n \<Longrightarrow> replay_to h l operations (n + 1) =
     and_then (replay_to h l operations n) (\<lambda>s. replayRevision h l operations s (n + 1))"
  by (simp add: replay_to_def upto_snoc fold_result_append and_then_def split: sum.split)

lemma replay_to_prefix:
  assumes "replay_to h l operations n = Inr s" "0 \<le> m" "m \<le> n"
  shows "\<exists>t. replay_to h l operations m = Inr t"
proof (cases "m = 0")
  case True
  then show ?thesis by (simp add: replay_to_def)
next
  case False
  then have "[1..n] = [1..m] @ [m + 1..n]" using assms(2,3) by (intro upto_split2) auto
  then show ?thesis using assms(1) by (auto simp: replay_to_def fold_result_append)
qed

lemma replay_induct [consumes 2, case_names start claim receipt]:
  assumes "replay_to h l operations n = Inr s" "0 \<le> n"
    and "P 0 empty_replay"
    and "\<And>n s t a. 0 \<le> n \<Longrightarrow> replay_to h l operations n = Inr s \<Longrightarrow> P n s \<Longrightarrow>
          map_of operations (n + 1) = Some (Claim_op a) \<Longrightarrow>
          replayClaim h l (n + 1) s a = Inr t \<Longrightarrow> P (n + 1) t"
    and "\<And>n s t a. 0 \<le> n \<Longrightarrow> replay_to h l operations n = Inr s \<Longrightarrow> P n s \<Longrightarrow>
          map_of operations (n + 1) = Some (Receipt_op a) \<Longrightarrow>
          replayReceipt h (n + 1) s a = Inr t \<Longrightarrow> P (n + 1) t"
  shows "P n s"
  using assms(2,1)
proof (induction n arbitrary: s rule: int_ge_induct)
  case base
  then show ?case using assms(3) by (simp add: replay_to_def)
next
  case (step n)
  then obtain u where u: "replay_to h l operations n = Inr u"
    "replayRevision h l operations u (n + 1) = Inr s"
    by (auto simp: replay_to_Suc)
  then show ?case
    using assms(4) [OF step.hyps u(1) step.IH [OF u(1)]] assms(5) [OF step.hyps u(1) step.IH [OF u(1)]]
    by (auto simp: replayRevision_def split: option.splits operation.splits)
qed

lemma replay_keys:
  assumes "replay_to h l operations n = Inr s" "0 \<le> n" "1 \<le> m" "m \<le> n"
  shows "map_of operations m \<noteq> None"
  using assms
proof (induction rule: replay_induct)
  case (claim n s t a)
  then show ?case by (cases "m = n + 1") auto
next
  case (receipt n s t a)
  then show ?case by (cases "m = n + 1") auto
qed simp

lemma replay_digests:
  assumes "replay_to h l operations n = Inr s" "0 \<le> n"
  shows "requestIds s = rev (map requestId (claims operations n)) \<and>
    attemptDigests s = rev (map attempt_digest (claims operations n)) \<and>
    map attempt_digest (replayedAttempts s) = map attempt_digest (claims operations n) \<and>
    distinct (map requestId (claims operations n)) \<and>
    distinct (map attempt_digest (claims operations n)) \<and>
    (\<forall>a \<in> set (claims operations n). receiptRecordedRevision a = None \<longleftrightarrow> attempt_receipt a = None)"
  using assms
proof (induction rule: replay_induct)
  case start
  then show ?case by (simp add: empty_replay_def)
next
  case (claim n s t a)
  have c: "claims operations (n + 1) = claims operations n @ [a]"
    using claim(1,3) by (rule claims_claim)
  from claim(4) show ?case
    by (rule replayClaim_ok) (use claim(5) in \<open>auto simp: c\<close>)
next
  case (receipt n s t a)
  have c: "claims operations (n + 1) = claims operations n"
    using receipt(1,3) by (rule claims_receipt)
  from receipt(4) show ?case
    by (rule replayReceipt_ok) (use receipt(5) in \<open>simp add: c\<close>)
qed

text \<open>A log whose whole replay succeeds: its keys are the revisions, and its digests differ.\<close>

definition replayed_log ::
    "host \<Rightarrow> attempt_ledger \<Rightarrow> (int \<times> operation) list \<Rightarrow> replay_state \<Rightarrow> bool" where
  "replayed_log h l operations s \<longleftrightarrow>
     operationRevisions (ledger_attempts l) = Inr operations \<and>
     int (length operations) = revision l \<and> replay_to h l operations (revision l) = Inr s"

lemma valid_replayed:
  assumes "validateValidationAttemptLedger h l = Inr ()"
  obtains operations s where "replayed_log h l operations s" "validateCells (cells l) = Inr ()"
    "0 \<le> revision l" "int (length (ledger_attempts l)) \<le> 28"
    "replacementAttemptCount (countAttempts (cells l) (ledger_attempts l)) \<le> 4"
    "tree_hash h (JArray (map attempt_tree (replayedAttempts s))) =
       tree_hash h (JArray (map attempt_tree (ledger_attempts l)))"
  using assms
  by (auto simp: validateValidationAttemptLedger_def replayed_log_def replay_to_def guard_simps
      ARM_COUNT_def MAXIMUM_REPLACEMENTS_def not_less split: if_splits)

lemma replayed_keys:
  assumes "replayed_log h l operations s"
  shows "fst ` set operations = {1..revision l}"
proof -
  have r: "operationRevisions (ledger_attempts l) = Inr operations"
    "int (length operations) = revision l" "replay_to h l operations (revision l) = Inr s"
    using assms by (simp_all add: replayed_log_def)
  have sub: "{1..revision l} \<subseteq> fst ` set operations"
    using replay_keys [OF r(3)] r(2) by (fastforce simp: map_of_eq_None_iff)
  have "card (fst ` set operations) = length operations"
    using operationRevisions_ok(1) [OF r(1)] by (metis distinct_card length_map list.set_map)
  also have "\<dots> = card {1..revision l}" using r(2) by simp
  finally show ?thesis using sub by (metis List.finite_set card_subset_eq finite_imageI)
qed

lemma replayed_map_of:
  assumes "replayed_log h l operations s"
  shows "map_of operations n = Some p \<longleftrightarrow> (n, p) \<in> operations_of (ledger_attempts l)"
  using operationRevisions_ok [of "ledger_attempts l" operations] assms
  by (simp add: replayed_log_def)

lemma replayed_claims_set:
  assumes "replayed_log h l operations s"
  shows "set (claims operations n) = {a \<in> set (ledger_attempts l). claimRevision a \<le> n}"
proof -
  have "1 \<le> claimRevision a" if "a \<in> set (ledger_attempts l)" for a
  proof -
    have "(claimRevision a, Claim_op a) \<in> operations_of (ledger_attempts l)"
      using that by (auto simp: operations_of_def)
    then have "map_of operations (claimRevision a) \<noteq> None"
      using replayed_map_of [OF assms] by auto
    then have "claimRevision a \<in> {1..revision l}"
      using replayed_keys [OF assms] by (metis map_of_eq_None_iff)
    then show ?thesis by simp
  qed
  then show ?thesis
    unfolding set_eq_iff claims_set replayed_map_of [OF assms]
    by (auto simp: operations_of_def)
qed

lemma replayed_revisions:
  assumes "replayed_log h l operations s" "a \<in> set (ledger_attempts l)"
  shows "1 \<le> claimRevision a" "claimRevision a \<le> revision l"
    "receiptRecordedRevision a = Some n \<Longrightarrow> n \<le> revision l"
proof -
  have "(claimRevision a, Claim_op a) \<in> operations_of (ledger_attempts l)"
    "receiptRecordedRevision a = Some n \<Longrightarrow> (n, Receipt_op a) \<in> operations_of (ledger_attempts l)"
    using assms(2) by (auto simp: operations_of_def)
  then have "map_of operations (claimRevision a) \<noteq> None"
    "receiptRecordedRevision a = Some n \<Longrightarrow> map_of operations n \<noteq> None"
    using replayed_map_of [OF assms(1)] by auto
  then have "claimRevision a \<in> {1..revision l}"
    "receiptRecordedRevision a = Some n \<Longrightarrow> n \<in> {1..revision l}"
    using replayed_keys [OF assms(1)] by (metis map_of_eq_None_iff)+
  then show "1 \<le> claimRevision a" "claimRevision a \<le> revision l"
    "receiptRecordedRevision a = Some n \<Longrightarrow> n \<le> revision l" by auto
qed

lemma replayed_facts:
  assumes "replayed_log h l operations s" "0 \<le> revision l"
  shows "distinct (map attempt_digest (ledger_attempts l))" "distinct (map requestId (ledger_attempts l))"
    "\<And>a. a \<in> set (ledger_attempts l) \<Longrightarrow> receiptRecordedRevision a = None \<longleftrightarrow> attempt_receipt a = None"
proof -
  have cl: "set (claims operations (revision l)) = set (ledger_attempts l)"
    using replayed_claims_set [OF assms(1)] replayed_revisions(2) [OF assms(1)] by auto
  have d: "distinct (map claimRevision (ledger_attempts l))"
    using assms(1) operationRevisions_ok(3) by (simp add: replayed_log_def)
  have r: "replay_to h l operations (revision l) = Inr s" using assms(1) by (simp add: replayed_log_def)
  note f = replay_digests [OF r assms(2)]
  show "distinct (map attempt_digest (ledger_attempts l))" "distinct (map requestId (ledger_attempts l))"
    using f d cl by (metis distinct_map)+
  show "receiptRecordedRevision a = None \<longleftrightarrow> attempt_receipt a = None"
    if "a \<in> set (ledger_attempts l)" for a using f that cl by blast
qed

lemma seen_Suc:
  assumes "receiptRecordedRevision a \<noteq> Some (n + 1)" shows "seen (n + 1) a = seen n a"
  using assms by (auto simp: seen_def split: option.split)

text \<open>The replayed attempts are the claimed ones, each as it is seen at the revision.\<close>

lemma replay_closed_form:
  assumes log: "replayed_log h l operations s0" "0 \<le> revision l"
    and "replay_to h l operations n = Inr s" "0 \<le> n" "n \<le> revision l"
  shows "replayedAttempts s = map (seen n) (claims operations n)"
proof -
  have inj: "a = b" if "a \<in> set (ledger_attempts l)" "b \<in> set (ledger_attempts l)"
      "attempt_digest a = attempt_digest b" for a b
    using replayed_facts(1) [OF log] that by (auto simp: distinct_map inj_on_def)
  have member: "a \<in> set (ledger_attempts l)" if "a \<in> set (claims operations m)" for a m
    using that replayed_claims_set [OF log(1)] by auto
  from assms(3,4) show ?thesis
  proof (induction rule: replay_induct)
    case start
    then show ?case by (simp add: empty_replay_def)
  next
    case (claim n s t a)
    have c: "claims operations (n + 1) = claims operations n @ [a]"
      using claim(1,3) by (rule claims_claim)
    have key: "receiptRecordedRevision b \<noteq> Some (n + 1)" if "b \<in> set (claims operations (n + 1))" for b
    proof
      assume "receiptRecordedRevision b = Some (n + 1)"
      then have "(n + 1, Receipt_op b) \<in> operations_of (ledger_attempts l)"
        using member [OF that] by (auto simp: operations_of_def)
      then show False using claim(3) by (simp add: replayed_map_of [OF log(1), symmetric])
    qed
    have early: "receiptRecordedRevision a \<noteq> Some k" if "k \<le> n" for k
    proof
      assume k: "receiptRecordedRevision a = Some k"
      have "a \<in> set (claims operations (n + 1))" by (simp add: c)
      then have "a \<in> set (ledger_attempts l)" by (rule member)
      then have op: "map_of operations k = Some (Receipt_op a)"
        using k by (auto simp: replayed_map_of [OF log(1)] operations_of_def)
      then have "k \<in> fst ` set operations" by (metis map_of_eq_None_iff option.distinct(1))
      then have "1 \<le> k" using replayed_keys [OF log(1)] by auto
      then obtain u where u: "replay_to h l operations (k - 1) = Inr u"
        using replay_to_prefix [OF claim(2), of "k - 1"] \<open>k \<le> n\<close> by auto
      obtain v where v: "replay_to h l operations k = Inr v"
        using replay_to_prefix [OF claim(2), of k] \<open>k \<le> n\<close> \<open>1 \<le> k\<close> by auto
      have "replayReceipt h k u a = Inr v"
        using v u op replay_to_Suc [of "k - 1" h l operations] \<open>1 \<le> k\<close>
        by (simp add: replayRevision_def)
      then have "attempt_digest a \<in> attempt_digest ` set (replayedAttempts u)"
        by (rule replayReceipt_ok) (metis image_eqI)
      then have "attempt_digest a \<in> set (map attempt_digest (claims operations (k - 1)))"
        using replay_digests [OF u] \<open>1 \<le> k\<close> by (metis diff_ge_0_iff_ge list.set_map)
      then obtain b where b: "b \<in> set (claims operations (k - 1))" "attempt_digest b = attempt_digest a"
        by auto
      then have "b = a" using inj [OF member member, of b "k - 1" a "n + 1"] c by auto
      then have "a \<in> set (claims operations n)"
        using b(1) replayed_claims_set [OF log(1)] \<open>k \<le> n\<close> by auto
      moreover have "distinct (map attempt_digest (claims operations (n + 1)))"
        using replay_digests [of h l operations "n + 1" t] claim(1-4)
        by (simp add: replay_to_Suc replayRevision_def)
      ultimately show False by (auto simp: c)
    qed
    have "seen (n + 1) a = strip a"
    proof (cases "receiptRecordedRevision a")
      case (Some k)
      then have "\<not> k \<le> n" "k \<noteq> n + 1" using early [of k] key [of a] by (auto simp: c)
      then have "n + 1 < k" by linarith
      then show ?thesis using Some by (simp add: seen_def)
    qed (simp add: seen_def)
    moreover have "map (seen (n + 1)) (claims operations n) = map (seen n) (claims operations n)"
      using key by (auto simp: c intro!: seen_Suc)
    ultimately show ?case
      using claim(4,5) by (auto simp: c elim!: replayClaim_ok)
  next
    case (receipt n s t a)
    have c: "claims operations (n + 1) = claims operations n"
      using receipt(1,3) by (rule claims_receipt)
    have a: "a \<in> set (ledger_attempts l)" "receiptRecordedRevision a = Some (n + 1)"
      using receipt(3) by (auto simp: replayed_map_of [OF log(1)] operations_of_def)
    have "(if attempt_digest (seen n b) = attempt_digest a then a else seen n b) = seen (n + 1) b"
      if "b \<in> set (claims operations n)" for b
    proof (cases "b = a")
      case True
      then show ?thesis using a(2) by (simp add: seen_def)
    next
      case False
      then have "attempt_digest b \<noteq> attempt_digest a" using inj member [OF that] a(1) by blast
      moreover have "receiptRecordedRevision b \<noteq> Some (n + 1)"
      proof
        assume "receiptRecordedRevision b = Some (n + 1)"
        then have "map_of operations (n + 1) = Some (Receipt_op b)"
          using member [OF that] by (auto simp: replayed_map_of [OF log(1)] operations_of_def)
        then show False using receipt(3) False by simp
      qed
      ultimately show ?thesis by (simp add: seen_Suc)
    qed
    moreover have "t = s\<lparr>replayedAttempts := replaceAttempt (replayedAttempts s) a\<rparr>"
      using receipt(4) by (rule replayReceipt_ok)
    ultimately show ?case using receipt(5) by (simp add: c replaceAttempt_def)
  qed
qed

text \<open>The attempts of one cell: numbered from 1, and only an infrastructure failure is retried.\<close>

definition cell_ok :: "validation_attempt list \<Rightarrow> int \<Rightarrow> bool" where
  "cell_ok as n \<longleftrightarrow>
     (let xs = attemptsForCell as n in
        map attemptOrdinal xs = [1..int (length xs)] \<and>
        map attempt_kind xs =
          map (\<lambda>i. if i = 0 then Initial else Infrastructure_replacement) [0..<length xs] \<and>
        (\<forall>a \<in> set (butlast xs). outcome_of a = Some Infrastructure_failure))"

lemma outcome_of_seen:
  "outcome_of (seen n a) = Some f \<Longrightarrow> n \<le> m \<Longrightarrow> outcome_of (seen m a) = Some f"
  by (auto simp: outcome_of_def seen_def split: option.splits if_splits)

lemma attemptsForCell_seen:
  "attemptsForCell (map (seen n) as) c = map (seen n) (attemptsForCell as c)"
  by (induction as) (auto simp: attemptsForCell_def)

lemma cell_ok_seen:
  assumes "cell_ok (map (seen n) as) c" "n \<le> m" shows "cell_ok (map (seen m) as) c"
proof -
  let ?xs = "attemptsForCell as c"
  have "butlast (map (seen k) ?xs) = map (seen k) (butlast ?xs)" for k by (simp add: map_butlast)
  then have "cell_ok (map (seen k) as) c \<longleftrightarrow>
      map attemptOrdinal ?xs = [1..int (length ?xs)] \<and>
      map attempt_kind ?xs =
        map (\<lambda>i. if i = 0 then Initial else Infrastructure_replacement) [0..<length ?xs] \<and>
      (\<forall>a \<in> set (butlast ?xs). outcome_of (seen k a) = Some Infrastructure_failure)" for k
    by (simp add: cell_ok_def attemptsForCell_seen comp_def)
  then show ?thesis using assms outcome_of_seen by blast
qed

lemma nextClaimableCell_Some:
  assumes "nextClaimableCell cs as = Some c"
  shows "c \<in> set cs" and "completion (countAttempts cs as) = Active"
    and "attemptsForCell as (ordinal c) = [] \<or>
      outcome_of (last (attemptsForCell as (ordinal c))) = Some Infrastructure_failure"
  using assms
  by (auto simp: nextClaimableCell_def Let_def find_Some_iff latestAttempt_def
      split: if_splits option.splits)

lemma replay_cells:
  assumes log: "replayed_log h l operations s0" "0 \<le> revision l"
    and "replay_to h l operations n = Inr s" "0 \<le> n" "n \<le> revision l"
  shows "cell_ok (replayedAttempts s) c \<and> cellOrdinal ` set (replayedAttempts s) \<subseteq> ordinal ` set (cells l)"
  using assms(3-5)
proof (induction rule: replay_induct)
  case start
  then show ?case by (simp add: empty_replay_def cell_ok_def attemptsForCell_def)
next
  case (claim n s t a)
  from claim(4) obtain d where d: "nextClaimableCell (cells l) (replayedAttempts s) = Some d"
    "cellOrdinal a = ordinal d"
    "attemptOrdinal a = int (length (attemptsForCell (replayedAttempts s) (ordinal d))) + 1"
    "attempt_kind a = (if attemptsForCell (replayedAttempts s) (ordinal d) = [] then Initial
                       else Infrastructure_replacement)"
    and t: "replayedAttempts t = replayedAttempts s @ [strip a]"
    by (rule replayClaim_ok) auto
  let ?xs = "attemptsForCell (replayedAttempts s) c"
  have IH: "cell_ok (replayedAttempts s) c"
    "cellOrdinal ` set (replayedAttempts s) \<subseteq> ordinal ` set (cells l)" using claim(5,6) by auto
  have "cell_ok (replayedAttempts t) c"
  proof (cases "c = ordinal d")
    case True
    have "attemptsForCell (replayedAttempts t) c = ?xs @ [strip a]"
      by (simp add: t attemptsForCell_def d(2) True)
    moreover have "\<forall>b \<in> set ?xs. outcome_of b = Some Infrastructure_failure"
      using IH(1) nextClaimableCell_Some(3) [OF d(1)] True
      by (cases ?xs rule: rev_cases) (auto simp: cell_ok_def Let_def)
    moreover have "[1..1 + int (length ?xs)] = [1..int (length ?xs)] @ [1 + int (length ?xs)]"
      using upto_snoc [of "int (length ?xs)"] by (simp add: add.commute)
    ultimately show ?thesis
      using IH(1) d(3,4) True by (simp add: cell_ok_def Let_def)
  next
    case False
    then have "attemptsForCell (replayedAttempts t) c = ?xs"
      by (simp add: t attemptsForCell_def d(2))
    then show ?thesis using IH(1) by (simp add: cell_ok_def)
  qed
  then show ?case
    using IH(2) nextClaimableCell_Some(1) [OF d(1)] by (auto simp: t d(2))
next
  case (receipt n s t a)
  have r: "replay_to h l operations (n + 1) = Inr t"
    using receipt(1-4) by (simp add: replay_to_Suc replayRevision_def)
  have f: "replayedAttempts s = map (seen n) (claims operations n)"
    "replayedAttempts t = map (seen (n + 1)) (claims operations (n + 1))"
    using replay_closed_form [OF log receipt(2,1)] replay_closed_form [OF log r] receipt(1,6) by simp_all
  have c: "claims operations (n + 1) = claims operations n"
    using receipt(1,3) by (rule claims_receipt)
  show ?case
    using receipt(5,6) cell_ok_seen [of n "claims operations n" c "n + 1"]
    by (simp add: f c image_image)
qed

lemma claims_sorted:
  assumes "replayed_log h l operations s" "0 \<le> n"
  shows "sorted_wrt (<) (map claimRevision (claims operations n))"
proof -
  have at: "claimRevision a = m" if "map_of operations m = Some (Claim_op a)" for m a
    using that by (auto simp: replayed_map_of [OF assms(1)] operations_of_def)
  from assms(2) show ?thesis
  proof (induction n rule: int_ge_induct)
    case (step n)
    have "\<forall>a \<in> set (claims operations n). claimRevision a < n + 1"
      using replayed_claims_set [OF assms(1)] by auto
    then show ?case
      using step at [of "n + 1"]
      by (auto simp: claims_Suc claim_at_def sorted_wrt_append split: option.split operation.split)
  qed simp
qed

text \<open>With the attempts in the order of their claims, the log is exactly what it replays to.\<close>

lemma replayed_attempts:
  assumes "replayed_log h l operations s" "0 \<le> revision l"
    and "sorted_wrt (<) (map claimRevision (ledger_attempts l))"
  shows "claims operations (revision l) = ledger_attempts l" "replayedAttempts s = ledger_attempts l"
proof -
  have set: "set (claims operations (revision l)) = set (ledger_attempts l)"
    using replayed_claims_set [OF assms(1)] replayed_revisions(2) [OF assms(1)] by auto
  have d: "distinct (map claimRevision (ledger_attempts l))"
    using assms(1) operationRevisions_ok(3) by (simp add: replayed_log_def)
  show eq: "claims operations (revision l) = ledger_attempts l"
    using claims_sorted [OF assms(1,2)] assms(3) set d
    by (intro map_sorted_distinct_set_unique [where f = claimRevision])
      (auto simp: strict_sorted_iff distinct_map)
  have "replay_to h l operations (revision l) = Inr s" using assms(1) by (simp add: replayed_log_def)
  then have "replayedAttempts s = map (seen (revision l)) (ledger_attempts l)"
    using replay_closed_form [OF assms(1,2), of "revision l" s] assms(2) eq by simp
  moreover have "seen (revision l) a = a" if "a \<in> set (ledger_attempts l)" for a
    using replayed_revisions(3) [OF assms(1) that] replayed_facts(3) [OF assms(1,2) that]
    by (auto simp: seen_def strip_def split: option.split)
  ultimately show "replayedAttempts s = ledger_attempts l" by (simp add: map_idI)
qed

subsection \<open>The ledger as a machine\<close>

datatype ledger_op = Claim_attempt string string | Record_receipt receipt

fun ledger_step :: "host \<Rightarrow> ledger_op \<Rightarrow> attempt_ledger \<Rightarrow> attempt_ledger result" where
  "ledger_step h (Claim_attempt request time) l =
     and_then (claimValidationAttempt h l request time) (\<lambda>r. Inr (cr_ledger r))"
| "ledger_step h (Record_receipt r) l =
     and_then (recordValidationAttemptReceipt h l r) (\<lambda>r. Inr (rr_ledger r))"

definition ledger_inv :: "host \<Rightarrow> attempt_ledger \<Rightarrow> bool" where
  "ledger_inv h l \<longleftrightarrow>
     validateValidationAttemptLedger h l = Inr () \<and>
     sorted_wrt (<) (map claimRevision (ledger_attempts l))"

definition attempt_le :: "validation_attempt \<Rightarrow> validation_attempt \<Rightarrow> bool" where
  "attempt_le a b \<longleftrightarrow> b = a \<or> attempt_receipt a = None \<and> strip b = strip a"

definition attempts_le :: "attempt_ledger \<Rightarrow> attempt_ledger \<Rightarrow> bool" where
  "attempts_le l m \<longleftrightarrow>
     cells l = cells m \<and> sealDigest l = sealDigest m \<and>
     panelBindingDigest l = panelBindingDigest m \<and> revision l \<le> revision m \<and>
     length (ledger_attempts l) \<le> length (ledger_attempts m) \<and>
     (\<forall>i < length (ledger_attempts l). attempt_le (ledger_attempts l ! i) (ledger_attempts m ! i))"

lemma ledger_inv_log:
  assumes "ledger_inv h l"
  obtains operations s where "replayed_log h l operations s" "0 \<le> revision l"
    "replayedAttempts s = ledger_attempts l" "claims operations (revision l) = ledger_attempts l"
    "int (length (ledger_attempts l)) \<le> 28"
    "replacementAttemptCount (countAttempts (cells l) (ledger_attempts l)) \<le> 4"
    "validateCells (cells l) = Inr ()"
proof -
  have v: "validateValidationAttemptLedger h l = Inr ()"
    and so: "sorted_wrt (<) (map claimRevision (ledger_attempts l))"
    using assms by (simp_all add: ledger_inv_def)
  from v show thesis
    by (rule valid_replayed) (use so replayed_attempts in \<open>blast intro: that\<close>)
qed

lemma claim_ok:
  assumes "claimValidationAttempt h l request time = Inr r"
  obtains
    (replay) a where "List.find (\<lambda>a. requestId a = request) (ledger_attempts l) = Some a"
      "claimedAt a = time" "hiddenClaim l a = Inr (cr_claim r)" "cr_ledger r = l" "cr_replayed r"
      "cr_providerAction r = (if attempt_receipt a = None then Recover else No_action)"
  | (fresh) c where "List.find (\<lambda>a. requestId a = request) (ledger_attempts l) = None"
      "nextClaimableCell (cells l) (ledger_attempts l) = Some c"
      "cr_ledger r = l\<lparr>revision := revision l + 1,
         ledger_attempts := ledger_attempts l @ [new_attempt h l request time c]\<rparr>"
      "validateValidationAttemptLedger h (cr_ledger r) = Inr ()"
      "hiddenClaim (cr_ledger r) (new_attempt h l request time c) = Inr (cr_claim r)"
      "\<not> cr_replayed r" "cr_providerAction r = Start_once"
  using assms
  by (auto simp: claimValidationAttempt_def Let_def split: option.splits if_splits)

lemma record_ok:
  assumes "recordValidationAttemptReceipt h l r = Inr q"
  obtains
    (replay) a old where "List.find (\<lambda>a. attempt_digest a = receipt_attemptDigest r) (ledger_attempts l) = Some a"
      "attempt_receipt a = Some old" "rr_ledger q = l" "rr_replayed q"
      "tree_hash h (receipt_tree old) = tree_hash h (receipt_tree r)"
  | (fresh) a where "List.find (\<lambda>a. attempt_digest a = receipt_attemptDigest r) (ledger_attempts l) = Some a"
      "attempt_receipt a = None" "\<not> rr_replayed q"
      "rr_ledger q = l\<lparr>revision := revision l + 1,
         ledger_attempts := replaceAttempt (ledger_attempts l)
           (a\<lparr>attempt_receipt := Some r, receiptRecordedRevision := Some (revision l + 1)\<rparr>)\<rparr>"
      "validateValidationAttemptLedger h (rr_ledger q) = Inr ()"
  using assms
  by (auto simp: recordValidationAttemptReceipt_def Let_def split: option.splits if_splits)

lemma new_attempt_simps [simp]:
  "requestId (new_attempt h l request time c) = request"
  "claimedAt (new_attempt h l request time c) = time"
  "claimRevision (new_attempt h l request time c) = revision l + 1"
  "attempt_receipt (new_attempt h l request time c) = None"
  by (simp_all add: new_attempt_def Let_def)

text \<open>Recording a receipt changes the one attempt it is for.\<close>

lemma replaceAttempt_one:
  assumes "distinct (map attempt_digest as)" "a \<in> set as" "attempt_digest b = attempt_digest a"
  shows "replaceAttempt as b = map (\<lambda>x. if x = a then b else x) as"
  using assms by (auto simp: replaceAttempt_def distinct_map inj_on_def)

lemma ledger_step_keeps:
  assumes inv: "ledger_inv h l" and ok: "ledger_step h op l = Inr m"
  shows "ledger_inv h m \<and> attempts_le l m"
proof -
  obtain operations s where log: "replayed_log h l operations s" "0 \<le> revision l"
    using inv by (rule ledger_inv_log)
  note facts = replayed_facts [OF log]
  have so: "sorted_wrt (<) (map claimRevision (ledger_attempts l))"
    using inv by (simp add: ledger_inv_def)
  show ?thesis
  proof (cases op)
    case (Claim_attempt request time)
    then obtain r where r: "claimValidationAttempt h l request time = Inr r" "m = cr_ledger r"
      using ok by auto
    from r(1) show ?thesis
    proof (cases rule: claim_ok)
      case (replay a)
      then show ?thesis using inv r(2) by (simp add: attempts_le_def attempt_le_def)
    next
      case (fresh c)
      then show ?thesis
        using so replayed_revisions(2) [OF log(1)] r(2)
        by (auto simp: ledger_inv_def attempts_le_def attempt_le_def sorted_wrt_append nth_append)
    qed
  next
    case (Record_receipt r)
    then obtain q where q: "recordValidationAttemptReceipt h l r = Inr q" "m = rr_ledger q"
      using ok by auto
    from q(1) show ?thesis
    proof (cases rule: record_ok)
      case (replay a old)
      then show ?thesis using inv q(2) by (simp add: attempts_le_def attempt_le_def)
    next
      case (fresh a)
      let ?b = "a\<lparr>attempt_receipt := Some r, receiptRecordedRevision := Some (revision l + 1)\<rparr>"
      have a: "a \<in> set (ledger_attempts l)" using fresh(1) by (auto simp: find_Some_iff)
      have one: "replaceAttempt (ledger_attempts l) ?b =
          map (\<lambda>x. if x = a then ?b else x) (ledger_attempts l)"
        by (rule replaceAttempt_one [OF facts(1) a]) simp
      have "map claimRevision (replaceAttempt (ledger_attempts l) ?b) = map claimRevision (ledger_attempts l)"
        by (simp add: one comp_def)
      then have "sorted_wrt (<) (map claimRevision (replaceAttempt (ledger_attempts l) ?b))"
        using so by (simp only:)
      then have "ledger_inv h m" using fresh(4,5) q(2) by (simp add: ledger_inv_def)
      moreover have "attempts_le l m"
        using fresh(2,4) q(2) by (simp add: attempts_le_def attempt_le_def one strip_def)
      ultimately show ?thesis by blast
    qed
  qed
qed

interpretation attempts: monotone_machine "ledger_step h" "ledger_inv h" attempts_le for h
proof unfold_locales
  fix l m and op
  assume "ledger_inv h l" "ledger_step h op l = Inr m"
  then show "ledger_inv h m" "attempts_le l m" using ledger_step_keeps by blast+
next
  fix k l m assume "attempts_le k l" "attempts_le l m"
  then show "attempts_le k m" unfolding attempts_le_def attempt_le_def by (metis order_trans order_less_le_trans)
qed (simp add: attempts_le_def attempt_le_def)

lemma created_ledger_inv:
  "createValidationAttemptLedger h panelBinding pairs sealed = Inr l \<Longrightarrow>
     ledger_inv h l \<and> ledger_attempts l = []"
  by (auto simp: createValidationAttemptLedger_def Let_def ledger_inv_def split: if_splits)

subsection \<open>What the counts add up to\<close>

lemma validateCells_ordinals:
  assumes "validateCells cs = Inr ()"
  shows "length cs = 24" "i < 24 \<Longrightarrow> ordinal (cs ! i) = int i"
proof -
  show len: "length cs = 24"
    using assms by (simp add: validateCells_def ARM_COUNT_def split: if_splits)
  assume i: "i < 24"
  then have "i div 2 \<in> set [0..<PAIR_COUNT]" by (simp add: PAIR_COUNT_def)
  moreover obtain seen where "fold_result (checkPair cs) [] [0..<PAIR_COUNT] = Inr seen"
    using assms by (auto simp: validateCells_def split: if_splits)
  ultimately obtain u v where "checkPair cs u (i div 2) = Inr v"
    using fold_result_each by metis
  then have "ordinal (cs ! (i div 2 * 2)) = int (i div 2 * 2)"
    "ordinal (cs ! (i div 2 * 2 + 1)) = int (i div 2 * 2 + 1)"
    by (auto simp: checkPair_def checkCell_def guard_simps Let_def split: if_splits)
  moreover have "i = i div 2 * 2 \<or> i = i div 2 * 2 + 1" by arith
  ultimately show "ordinal (cs ! i) = int i" by metis
qed

lemma ordinals_range: "validateCells cs = Inr () \<Longrightarrow> ordinal ` set cs = int ` {..<24}"
  using validateCells_ordinals [of cs] by (force simp: in_set_conv_nth image_iff)

lemma cells_ordinals:
  assumes "validateCells cs = Inr ()" shows "map ordinal cs = map int [0..<24]"
  using validateCells_ordinals [OF assms] by (intro nth_equalityI) simp_all

text \<open>A count over the latest attempts of the cells is a sum over the cells.\<close>

definition latest_is :: "(validation_attempt \<Rightarrow> bool) \<Rightarrow> validation_attempt list \<Rightarrow> int \<Rightarrow> nat" where
  "latest_is P as n = (case latestAttempt as n of None \<Rightarrow> 0 | Some a \<Rightarrow> if P a then 1 else 0)"

lemma latest_count:
  assumes "validateCells cs = Inr ()"
  shows "length (filter P (List.map_filter (\<lambda>c. latestAttempt as (ordinal c)) cs)) =
    (\<Sum>i<24. latest_is P as (int i))"
proof -
  have "length (filter P (List.map_filter (\<lambda>c. latestAttempt as (ordinal c)) ds)) =
      sum_list (map (latest_is P as) (map ordinal ds))" for ds
    by (induction ds) (auto simp: map_filter_simps latest_is_def split: option.split)
  from this [of cs] show ?thesis
    unfolding cells_ordinals [OF assms]
    by (simp add: comp_def interv_sum_list_conv_sum_set_nat atLeast0LessThan)
qed

lemma length_filter_cells:
  assumes "cellOrdinal ` set as \<subseteq> int ` {..<n}"
  shows "length (filter P as) = (\<Sum>i<n. length (filter P (attemptsForCell as (int i))))"
  using assms
proof (induction as)
  case Nil
  then show ?case by (simp add: attemptsForCell_def)
next
  case (Cons a as)
  then obtain k where k: "k < n" "cellOrdinal a = int k" by auto
  have "(\<Sum>i<n. length (filter P (attemptsForCell (a # as) (int i)))) =
      (\<Sum>i<n. (if i = k then (if P a then 1 else 0) else 0) + length (filter P (attemptsForCell as (int i))))"
    by (intro sum.cong) (auto simp: attemptsForCell_def k(2))
  also have "\<dots> = (if P a then 1 else 0) + length (filter P as)"
    using k(1) Cons by (simp add: sum.distrib sum.delta)
  finally show ?case by simp
qed

lemma cell_counts:
  assumes "cell_ok as n"
  shows "length (attemptsForCell as n) = latest_is (\<lambda>_. True) as n +
      length (filter (\<lambda>a. attempt_kind a = Infrastructure_replacement) (attemptsForCell as n))"
    and "length (attemptsForCell as n) =
      latest_is (\<lambda>a. outcome_of a = Some Valid) as n +
      latest_is (\<lambda>a. attempt_receipt a = None) as n +
      length (filter (\<lambda>a. outcome_of a = Some Infrastructure_failure) (attemptsForCell as n)) +
      length (filter (\<lambda>a. outcome_of a = Some Non_infrastructure_failure) (attemptsForCell as n))"
    and "length (filter (\<lambda>a. outcome_of a = Some Non_infrastructure_failure) (attemptsForCell as n)) =
      latest_is (\<lambda>a. outcome_of a = Some Non_infrastructure_failure) as n"
proof -
  let ?xs = "attemptsForCell as n"
  have kinds: "map attempt_kind ?xs =
       map (\<lambda>i. if i = 0 then Initial else Infrastructure_replacement) [0..<length ?xs]"
    and fails: "\<forall>b \<in> set (butlast ?xs). outcome_of b = Some Infrastructure_failure"
    using assms by (simp_all add: cell_ok_def Let_def)
  have "length (filter (\<lambda>a. attempt_kind a = Infrastructure_replacement) ?xs) =
      length (filter (\<lambda>k. k = Infrastructure_replacement) (map attempt_kind ?xs))"
    by (simp add: filter_map comp_def)
  also have "\<dots> = length (filter (\<lambda>i. i \<noteq> 0) [0..<length ?xs])"
    unfolding kinds by (simp add: filter_map comp_def)
  also have "\<dots> = length ?xs - 1"
    by (cases "length ?xs") (simp_all add: upt_conv_Cons del: upt_Suc)
  finally show "length ?xs = latest_is (\<lambda>_. True) as n +
      length (filter (\<lambda>a. attempt_kind a = Infrastructure_replacement) ?xs)"
    by (simp add: latest_is_def latestAttempt_def Let_def Suc_leI)
  show "length (filter (\<lambda>a. outcome_of a = Some Non_infrastructure_failure) ?xs) =
      latest_is (\<lambda>a. outcome_of a = Some Non_infrastructure_failure) as n"
    using fails
    by (cases ?xs rule: rev_cases) (auto simp: latest_is_def latestAttempt_def Let_def filter_empty_conv)
  show "length ?xs = latest_is (\<lambda>a. outcome_of a = Some Valid) as n +
      latest_is (\<lambda>a. attempt_receipt a = None) as n +
      length (filter (\<lambda>a. outcome_of a = Some Infrastructure_failure) ?xs) +
      length (filter (\<lambda>a. outcome_of a = Some Non_infrastructure_failure) ?xs)"
  proof (cases ?xs rule: rev_cases)
    case (snoc ys a)
    have none: "outcome_of a = None \<longleftrightarrow> attempt_receipt a = None" for a
      by (simp add: outcome_of_def)
    show ?thesis
      using fails none [of a]
      by (cases "outcome_of a"; cases "the (outcome_of a)")
        (auto simp: snoc latest_is_def latestAttempt_def Let_def)
  qed (simp add: latest_is_def latestAttempt_def Let_def)
qed

lemma ledger_counts:
  assumes "ledger_inv h l" "counts = countAttempts (cells l) (ledger_attempts l)"
  shows "int (length (ledger_attempts l)) = attemptedArmCount counts + replacementAttemptCount counts"
    and "int (length (ledger_attempts l)) = validArmCount counts + inFlightAttemptCount counts +
      infrastructureFailureCount counts + nonInfrastructureFailureCount counts"
    and "validArmCount counts + inFlightAttemptCount counts + nonInfrastructureFailureCount counts \<le>
      attemptedArmCount counts"
    and "attemptedArmCount counts \<le> 24"
proof -
  let ?as = "ledger_attempts l"
  obtain operations s where log: "replayed_log h l operations s" "0 \<le> revision l"
    "replayedAttempts s = ?as" and cells: "validateCells (cells l) = Inr ()"
    using assms(1) by (rule ledger_inv_log)
  have r: "replay_to h l operations (revision l) = Inr s" using log(1) by (simp add: replayed_log_def)
  have ok: "cell_ok ?as n" and sub: "cellOrdinal ` set ?as \<subseteq> int ` {..<24}" for n
    using replay_cells [OF log(1,2) r log(2)] ordinals_range [OF cells] by (simp_all add: log(3))
  have total: "length ?as = (\<Sum>i<24. length (attemptsForCell ?as (int i)))"
    using length_filter_cells [OF sub, of "\<lambda>_. True"] by simp
  have attempted: "attemptedArmCount counts = int (\<Sum>i<24. latest_is (\<lambda>_. True) ?as (int i))"
    using latest_count [OF cells, of "\<lambda>_. True" ?as]
    by (simp add: assms(2) countAttempts_def Let_def)
  have valid: "validArmCount counts = int (\<Sum>i<24. latest_is (\<lambda>a. outcome_of a = Some Valid) ?as (int i))"
    and flight: "inFlightAttemptCount counts = int (\<Sum>i<24. latest_is (\<lambda>a. attempt_receipt a = None) ?as (int i))"
    unfolding latest_count [OF cells, symmetric] by (simp_all add: assms(2) countAttempts_def Let_def)
  have rest: "replacementAttemptCount counts =
      int (\<Sum>i<24. length (filter (\<lambda>a. attempt_kind a = Infrastructure_replacement) (attemptsForCell ?as (int i))))"
    "infrastructureFailureCount counts =
      int (\<Sum>i<24. length (filter (\<lambda>a. outcome_of a = Some Infrastructure_failure) (attemptsForCell ?as (int i))))"
    "nonInfrastructureFailureCount counts =
      int (\<Sum>i<24. length (filter (\<lambda>a. outcome_of a = Some Non_infrastructure_failure) (attemptsForCell ?as (int i))))"
    unfolding length_filter_cells [OF sub, symmetric]
    by (simp_all add: assms(2) countAttempts_def Let_def)
  show "int (length ?as) = attemptedArmCount counts + replacementAttemptCount counts"
    unfolding total attempted rest of_nat_add [symmetric] sum.distrib [symmetric]
    using cell_counts(1) [OF ok] by simp
  show "int (length ?as) = validArmCount counts + inFlightAttemptCount counts +
      infrastructureFailureCount counts + nonInfrastructureFailureCount counts"
    unfolding total valid flight rest of_nat_add [symmetric] sum.distrib [symmetric]
    using cell_counts(2) [OF ok] by simp
  show "validArmCount counts + inFlightAttemptCount counts + nonInfrastructureFailureCount counts \<le>
      attemptedArmCount counts"
    unfolding attempted valid flight rest cell_counts(3) [OF ok] of_nat_add [symmetric]
      sum.distrib [symmetric] of_nat_le_iff
    by (intro sum_mono) (auto simp: latest_is_def outcome_of_def split: option.split)
  have "(\<Sum>i<24. latest_is (\<lambda>_. True) ?as (int i)) \<le> (\<Sum>i<(24 :: nat). 1)"
    by (intro sum_mono) (simp add: latest_is_def split: option.split)
  then have "(\<Sum>i<24. latest_is (\<lambda>_. True) ?as (int i)) \<le> 24" by simp
  then show "attemptedArmCount counts \<le> 24"
    unfolding attempted by (metis of_nat_le_iff of_nat_numeral)
qed

text \<open>Only the latest attempt of an arm can have anything but an infrastructure failure.\<close>

lemma cell_latest:
  assumes "cell_ok as n" "\<And>a. outcome_of a = Some Infrastructure_failure \<Longrightarrow> \<not> P a"
  shows "length (filter P (attemptsForCell as n)) = latest_is P as n"
proof -
  have "\<forall>b \<in> set (butlast (attemptsForCell as n)). \<not> P b"
    using assms by (auto simp: cell_ok_def Let_def)
  then show ?thesis
    by (cases "attemptsForCell as n" rule: rev_cases) (auto simp: latest_is_def latestAttempt_def Let_def filter_empty_conv)
qed

lemma ledger_by_attempts:
  assumes "ledger_inv h l" "counts = countAttempts (cells l) (ledger_attempts l)"
  shows "validArmCount counts = int (length (filter (\<lambda>a. outcome_of a = Some Valid) (ledger_attempts l)))"
    and "inFlightAttemptCount counts = int (length (filter (\<lambda>a. attempt_receipt a = None) (ledger_attempts l)))"
    and "attemptedArmCount counts = int (card (cellOrdinal ` set (ledger_attempts l)))"
proof -
  let ?as = "ledger_attempts l"
  obtain operations s where log: "replayed_log h l operations s" "0 \<le> revision l"
    "replayedAttempts s = ?as" and cells: "validateCells (cells l) = Inr ()"
    using assms(1) by (rule ledger_inv_log)
  have r: "replay_to h l operations (revision l) = Inr s" using log(1) by (simp add: replayed_log_def)
  have ok: "cell_ok ?as n" and sub: "cellOrdinal ` set ?as \<subseteq> int ` {..<24}" for n
    using replay_cells [OF log(1,2) r log(2)] ordinals_range [OF cells] by (simp_all add: log(3))
  have by_latest: "length (filter P ?as) = length (filter P (List.map_filter (\<lambda>c. latestAttempt ?as (ordinal c)) (cells l)))"
    if "\<And>a. outcome_of a = Some Infrastructure_failure \<Longrightarrow> \<not> P a" for P
    unfolding length_filter_cells [OF sub] latest_count [OF cells] using cell_latest [OF ok that] by simp
  show "validArmCount counts = int (length (filter (\<lambda>a. outcome_of a = Some Valid) ?as))"
    "inFlightAttemptCount counts = int (length (filter (\<lambda>a. attempt_receipt a = None) ?as))"
    by (subst by_latest; auto simp: assms(2) countAttempts_def Let_def outcome_of_def)+
  have one: "latest_is (\<lambda>_. True) ?as n = (if n \<in> cellOrdinal ` set ?as then 1 else 0)" for n
    by (auto simp: latest_is_def latestAttempt_def attemptsForCell_def Let_def filter_empty_conv)
  have "attemptedArmCount counts = int (\<Sum>i<24. latest_is (\<lambda>_. True) ?as (int i))"
    using latest_count [OF cells, of "\<lambda>_. True" ?as] by (simp add: assms(2) countAttempts_def Let_def)
  also have "\<dots> = int (card {i. i < 24 \<and> int i \<in> cellOrdinal ` set ?as})"
    unfolding one by (simp add: sum.If_cases lessThan_def Int_def)
  also have "card {i. i < 24 \<and> int i \<in> cellOrdinal ` set ?as} = card (int ` {i. i < 24 \<and> int i \<in> cellOrdinal ` set ?as})"
    by (simp add: card_image)
  also have "int ` {i. i < 24 \<and> int i \<in> cellOrdinal ` set ?as} = cellOrdinal ` set ?as"
    using sub by force
  finally show "attemptedArmCount counts = int (card (cellOrdinal ` set ?as))" .
qed

subsection \<open>The cells a plan is sealed into\<close>

definition sealed_cells :: "pair_plan list \<Rightarrow> cell list" where
  "sealed_cells pairs = concat (map (\<lambda>(pair, p). pair_cells pair p) (enumerate 0 pairs))"

definition plan_ok :: "pair_plan \<Rightarrow> bool" where
  "plan_ok p \<longleftrightarrow> is_sha256 (plan_taskId p) \<and> is_sha256 (plan_taskRevisionDigest p)"

lemma addPair_ok:
  "addPair cs (pair, p) = Inr ds \<longleftrightarrow> plan_ok p \<and> ds = cs @ pair_cells pair p"
  by (auto simp: addPair_def assertSha256_def plan_ok_def)

lemma fold_addPair:
  "fold_result addPair cs (enumerate n pairs) = Inr ds \<longleftrightarrow>
     (\<forall>p \<in> set pairs. plan_ok p) \<and>
     ds = cs @ concat (map (\<lambda>(pair, p). pair_cells pair p) (enumerate n pairs))"
  by (induction pairs arbitrary: cs n) (auto simp: addPair_ok)

lemma pair_cells_two: "\<exists>c d. pair_cells pair p = [c, d]"
  by (simp add: pair_cells_def Let_def)

lemma concat_pairs_nth:
  assumes "\<And>x. x \<in> set xs \<Longrightarrow> length (f x) = 2" "i < length xs"
  shows "concat (map f xs) ! (i * 2) = f (xs ! i) ! 0"
    and "concat (map f xs) ! (i * 2 + 1) = f (xs ! i) ! 1"
    and "length (concat (map f xs)) = 2 * length xs"
proof -
  have "length (concat (map f xs)) = 2 * length xs \<and> (\<forall>i < length xs.
      concat (map f xs) ! (i * 2) = f (xs ! i) ! 0 \<and> concat (map f xs) ! (i * 2 + 1) = f (xs ! i) ! 1)"
    using assms(1)
  proof (induction xs)
    case (Cons x xs)
    have "length (f x) = 2" using Cons.prems by simp
    with Cons show ?case by (auto simp: nth_append nth_Cons split: nat.split)
  qed simp
  then show "concat (map f xs) ! (i * 2) = f (xs ! i) ! 0"
    "concat (map f xs) ! (i * 2 + 1) = f (xs ! i) ! 1" "length (concat (map f xs)) = 2 * length xs"
    using assms(2) by auto
qed

lemma sealed_cells_nth:
  assumes "i < length pairs"
  shows "sealed_cells pairs ! (i * 2) = pair_cells i (pairs ! i) ! 0"
    and "sealed_cells pairs ! (i * 2 + 1) = pair_cells i (pairs ! i) ! 1"
    and "length (sealed_cells pairs) = 2 * length pairs"
proof -
  have "i < length (enumerate 0 pairs)" using assms by simp
  note n = concat_pairs_nth [where f = "\<lambda>(pair, p). pair_cells pair p", OF _ this]
  show "sealed_cells pairs ! (i * 2) = pair_cells i (pairs ! i) ! 0"
    "sealed_cells pairs ! (i * 2 + 1) = pair_cells i (pairs ! i) ! 1"
    "length (sealed_cells pairs) = 2 * length pairs"
    using n assms by (auto simp: sealed_cells_def nth_enumerate_eq pair_cells_def Let_def)
qed

lemma pair_cells_simps:
  "ordinal (pair_cells i p ! 0) = int (i * 2)" "ordinal (pair_cells i p ! 1) = int (i * 2 + 1)"
  "pairOrdinal (pair_cells i p ! 0) = int i" "pairOrdinal (pair_cells i p ! 1) = int i"
  "cell_taskId (pair_cells i p ! 0) = plan_taskId p" "cell_taskId (pair_cells i p ! 1) = plan_taskId p"
  "cell_taskRevisionDigest (pair_cells i p ! 0) = plan_taskRevisionDigest p"
  "cell_taskRevisionDigest (pair_cells i p ! 1) = plan_taskRevisionDigest p"
  "arm (pair_cells i p ! 0) \<noteq> arm (pair_cells i p ! 1)"
  by (simp_all add: pair_cells_def Let_def split: arm_order.split)

lemma checkPair_sealed:
  assumes "length pairs = 12" "i < 12"
  shows "checkPair (sealed_cells pairs) before i = Inr after \<longleftrightarrow>
    plan_ok (pairs ! i) \<and> plan_taskId (pairs ! i) \<notin> set before \<and>
    after = plan_taskId (pairs ! i) # before"
proof -
  have i: "i < length pairs" using assms by simp
  have "int (i * 2 + 1) \<le> max_safe" using assms(2) by (simp add: max_safe_def)
  then show ?thesis
    using assms(2)
    by (auto simp: checkPair_def checkCell_def guard_simps Let_def sealed_cells_nth [OF i] assms(1)
        pair_cells_simps assertSha256_def plan_ok_def safe_int_def simp del: One_nat_def)
qed

lemma validateCells_sealed:
  assumes "length pairs = 12"
  shows "validateCells (sealed_cells pairs) = Inr () \<longleftrightarrow>
    (\<forall>p \<in> set pairs. plan_ok p) \<and> distinct (map plan_taskId pairs)"
proof -
  have "n \<le> 12 \<Longrightarrow> fold_result (checkPair (sealed_cells pairs)) [] [0..<n] = Inr seen \<longleftrightarrow>
      (\<forall>p \<in> set (take n pairs). plan_ok p) \<and> distinct (map plan_taskId (take n pairs)) \<and>
      seen = rev (map plan_taskId (take n pairs))" for n seen
  proof (induction n arbitrary: seen)
    case (Suc n)
    have "take (Suc n) pairs = take n pairs @ [pairs ! n]"
      using Suc.prems assms by (simp add: take_Suc_conv_app_nth)
    then show ?case
      using Suc checkPair_sealed [OF assms, of n] by (auto simp: fold_result_append)
  qed auto
  from this [of 12] show ?thesis
    using assms sealed_cells_nth(3) [of 0 pairs] by (auto simp: validateCells_def ARM_COUNT_def PAIR_COUNT_def)
qed

subsection \<open>Looking up what was just written\<close>

lemma find_snoc:
  "\<not> (\<exists>x \<in> set xs. P x) \<Longrightarrow> P y \<Longrightarrow> List.find P (xs @ [y]) = Some y"
  by (induction xs) auto

lemma find_replace:
  assumes "attempt_digest b = d" "List.find (\<lambda>a. attempt_digest a = d) as = Some a"
  shows "List.find (\<lambda>a. attempt_digest a = d) (replaceAttempt as b) = Some b"
  using assms by (induction as) (auto simp: replaceAttempt_def split: if_splits)

subsection \<open>Properties\<close>

text \<open>
  C24. Over any history of claims and receipts on a freshly sealed ledger, refused ones
  included, the ledger stays valid, makes at most 28 attempts of which at most four are
  replacements, with distinct requests and distinct digests; the attempts of each cell are
  numbered from one, only an infrastructure failure is followed by another attempt, and
  nothing recorded is ever changed or lost: cells, seal and receipts stay as they are.
\<close>

theorem attempt_history_disciplined:
  assumes "createValidationAttemptLedger h panelBinding pairs sealed = Inr l"
  shows "let q = run_ops (ledger_step h) l xs; r = run_ops (ledger_step h) l (xs @ ys)
     in validateValidationAttemptLedger h r = Inr () \<and> length (ledger_attempts r) \<le> 28 \<and>
        replacementAttemptCount (countAttempts (cells r) (ledger_attempts r)) \<le> 4 \<and>
        distinct (map requestId (ledger_attempts r)) \<and>
        distinct (map attempt_digest (ledger_attempts r)) \<and>
        (\<forall>c. cell_ok (ledger_attempts r) c) \<and> attempts_le q r"
proof -
  let ?r = "run_ops (ledger_step h) l (xs @ ys)"
  have inv: "ledger_inv h l" using created_ledger_inv [OF assms] by blast
  have r: "ledger_inv h ?r" by (rule attempts.history_inv [OF inv])
  obtain operations s where log: "replayed_log h ?r operations s" "0 \<le> revision ?r"
    "replayedAttempts s = ledger_attempts ?r" and b: "int (length (ledger_attempts ?r)) \<le> 28"
    "replacementAttemptCount (countAttempts (cells ?r) (ledger_attempts ?r)) \<le> 4"
    using r by (rule ledger_inv_log)
  have "replay_to h ?r operations (revision ?r) = Inr s" using log(1) by (simp add: replayed_log_def)
  then have "\<forall>c. cell_ok (ledger_attempts ?r) c"
    using replay_cells [OF log(1,2), of "revision ?r" s] log(2,3) by simp
  then show ?thesis
    using r b replayed_facts(1,2) [OF log(1,2)] attempts.history_prefix_le [OF inv, of xs ys]
    by (simp add: Let_def ledger_inv_def)
qed

definition example_digest :: "char \<Rightarrow> string" where
  "example_digest c = replicate 63 CHR ''a'' @ [c]"

lemma example_digest [simp]:
  "is_sha256 (example_digest c) \<longleftrightarrow> lower_hex c" "example_digest c = example_digest d \<longleftrightarrow> c = d"
  by (auto simp: example_digest_def is_sha256_def lower_hex_def list_all_iff simp del: replicate.simps)

definition example_pairs :: "pair_plan list" where
  "example_pairs = map (\<lambda>c. \<lparr>plan_taskId = example_digest c, plan_taskRevisionDigest = example_digest c,
     plan_armOrder = BA\<rparr>) ''0123456789ab''"

definition example_cells :: "cell list" where
  "example_cells = sealed_cells example_pairs"

definition ledger_of :: "int \<Rightarrow> validation_attempt list \<Rightarrow> attempt_ledger" where
  "ledger_of n as =
     \<lparr>policyVersion = POLICY_VERSION, revision = n, panelBindingDigest = sixty_four CHR ''c'',
      sealDigest = sixty_four CHR ''0'', ledger_sealedAt = ''2026'', cells = example_cells,
      ledger_attempts = as\<rparr>"

definition example_attempt :: validation_attempt where
  "example_attempt =
     \<lparr>requestId = sixty_four CHR ''d'', attempt_digest = sixty_four CHR ''0'', cellOrdinal = 0,
      attemptOrdinal = 1, attempt_kind = Initial, claimedAt = ''2027'', claimRevision = 1,
      attempt_receipt = None, receiptRecordedRevision = None\<rparr>"

definition example_receipt :: receipt where
  "example_receipt =
     \<lparr>receiptDigest = sixty_four CHR ''0'', receipt_attemptDigest = sixty_four CHR ''0'',
      outcome = Non_infrastructure_failure, evidenceDigest = sixty_four CHR ''e'',
      observedAt = ''2028''\<rparr>"

definition failed_attempt :: validation_attempt where
  "failed_attempt =
     example_attempt\<lparr>attempt_receipt := Some example_receipt, receiptRecordedRevision := Some 2\<rparr>"

lemma attemptDigest_simple [simp]:
  "attemptDigest simple_host l r c n k v = sixty_four CHR ''0''"
  by (simp only: attemptDigest_def tree_hash_simple)

lemma example_cells_valid:
  "fold_result addPair [] (enumerate 0 example_pairs) = Inr example_cells \<and>
   validateCells example_cells = Inr () \<and> length example_cells = 24"
proof -
  have len: "length example_pairs = 12" and "\<forall>p \<in> set example_pairs. plan_ok p"
    and "distinct (map plan_taskId example_pairs)"
    by (simp_all add: example_pairs_def plan_ok_def lower_hex_def)
  then show ?thesis
    using validateCells_sealed [OF len] sealed_cells_nth(3) [of 0 example_pairs]
    by (simp add: fold_addPair example_cells_def sealed_cells_def)
qed

lemma example_schedule:
  "nextClaimableCell example_cells [] = Some (example_cells ! 0)" "ordinal (example_cells ! 0) = 0"
  "completion (countAttempts example_cells []) = Active"
  "replacementAttemptCount (countAttempts example_cells [example_attempt]) = 0"
  "replacementAttemptCount (countAttempts example_cells [failed_attempt]) = 0"
  "completion (countAttempts example_cells [failed_attempt]) = Incomplete"
proof -
  obtain c cs where cs: "example_cells = c # cs"
    using example_cells_valid by (cases example_cells) auto
  show o0: "ordinal (example_cells ! 0) = 0"
    using validateCells_ordinals(2) [of example_cells 0] example_cells_valid by simp
  have none: "List.map_filter (\<lambda>c. latestAttempt [] (ordinal c)) ds = []" for ds
    by (induction ds) (simp_all add: map_filter_simps latestAttempt_def attemptsForCell_def Let_def)
  show active: "completion (countAttempts example_cells []) = Active"
    by (simp add: countAttempts_def Let_def none ARM_COUNT_def)
  have "\<not> (\<exists>c \<in> set example_cells. case latestAttempt [] (ordinal c) of
      None \<Rightarrow> False | Some a \<Rightarrow> outcome_of a = Some Infrastructure_failure)"
    by (simp add: latestAttempt_def attemptsForCell_def Let_def)
  then have "List.find (\<lambda>c. case latestAttempt [] (ordinal c) of
      None \<Rightarrow> False | Some a \<Rightarrow> outcome_of a = Some Infrastructure_failure) example_cells = None"
    by (simp add: find_None_iff)
  then show "nextClaimableCell example_cells [] = Some (example_cells ! 0)"
    using active by (simp add: nextClaimableCell_def Let_def attemptsForCell_def) (simp add: cs)
  show "replacementAttemptCount (countAttempts example_cells [example_attempt]) = 0"
    "replacementAttemptCount (countAttempts example_cells [failed_attempt]) = 0"
    by (simp_all add: countAttempts_def Let_def example_attempt_def failed_attempt_def)
  let ?latest = "List.map_filter (\<lambda>c. latestAttempt [failed_attempt] (ordinal c)) example_cells"
  have all: "\<forall>a \<in> set ?latest. a = failed_attempt"
    by (auto simp: map_filter_def latestAttempt_def attemptsForCell_def Let_def split: if_splits)
  have f: "filter P ?latest = (if P failed_attempt then ?latest else [])" for P
    using all by (auto intro: filter_True filter_False)
  have "cellOrdinal failed_attempt = 0" by (simp add: failed_attempt_def example_attempt_def)
  then have "?latest \<noteq> []"
    using o0 by (simp add: cs map_filter_simps latestAttempt_def attemptsForCell_def Let_def)
  moreover have "outcome_of failed_attempt = Some Non_infrastructure_failure"
    "attempt_receipt failed_attempt \<noteq> None"
    by (simp_all add: outcome_of_def failed_attempt_def example_receipt_def)
  ultimately show "completion (countAttempts example_cells [failed_attempt]) = Incomplete"
    using f by (simp add: countAttempts_def Let_def ARM_COUNT_def)
qed

lemmas example_defs =
  validateValidationAttemptLedger_def ledger_of_def assertSha256_def assertTimestamp_def
  guard_simps safe_int_def max_safe_def MAXIMUM_REPLACEMENTS_def ARM_COUNT_def empty_replay_def

lemma example_valid:
  "validateValidationAttemptLedger simple_host (ledger_of 0 []) = Inr ()"
  "validateValidationAttemptLedger simple_host (ledger_of 1 [example_attempt]) = Inr ()"
  "validateValidationAttemptLedger simple_host (ledger_of 2 [failed_attempt]) = Inr ()"
proof -
  have log: "operationRevisions [] = Inr []"
    "operationRevisions [example_attempt] = Inr [(1, Claim_op example_attempt)]"
    "operationRevisions [failed_attempt] = Inr [(1, Claim_op failed_attempt), (2, Receipt_op failed_attempt)]"
    by code_simp+
  have claim: "replayClaim simple_host (ledger_of n as) 1 empty_replay a =
      Inr \<lparr>requestIds = [sixty_four CHR ''d''], attemptDigests = [sixty_four CHR ''0''],
        replayedAttempts = [example_attempt]\<rparr>"
    if a: "requestId a = sixty_four CHR ''d''" "attempt_digest a = sixty_four CHR ''0''"
      "claimRevision a = 1" "claimedAt a = ''2027''" "cellOrdinal a = 0" "attemptOrdinal a = 1"
      "attempt_kind a = Initial" "receiptRecordedRevision a = None \<longleftrightarrow> attempt_receipt a = None"
      "a\<lparr>attempt_receipt := None, receiptRecordedRevision := None\<rparr> = example_attempt" for n as a
  proof -
    have "assertTimestamp simple_host ''2026'' l = Inr 2026" "assertTimestamp simple_host ''2027'' l = Inr 2027" for l
      by (simp_all only: assertTimestamp_def example_times option.case)
    then show ?thesis
      using example_checks example_schedule(1,2)
      by (simp add: replayClaim_def a assertSha256_def ledger_of_def empty_replay_def guards.simps
          safe_int_def max_safe_def attemptsForCell_def Let_def)
  qed
  have receipt: "replayReceipt simple_host 2 \<lparr>requestIds = [sixty_four CHR ''d''],
      attemptDigests = [sixty_four CHR ''0''], replayedAttempts = [example_attempt]\<rparr> failed_attempt =
    Inr \<lparr>requestIds = [sixty_four CHR ''d''], attemptDigests = [sixty_four CHR ''0''],
      replayedAttempts = [failed_attempt]\<rparr>"
    using example_checks example_times
    by (simp add: replayReceipt_def assertReceipt_def assertSha256_def assertTimestamp_def
        replaceAttempt_def failed_attempt_def example_receipt_def example_attempt_def)
  note facts = log example_checks example_times example_cells_valid example_schedule
  show "validateValidationAttemptLedger simple_host (ledger_of 0 []) = Inr ()"
    using facts by (simp add: example_defs countAttempts_def Let_def)
  show "validateValidationAttemptLedger simple_host (ledger_of 1 [example_attempt]) = Inr ()"
    using facts claim [of example_attempt 1 "[example_attempt]"]
    by (simp add: example_defs replayRevision_def example_attempt_def)
  have two: "[1..2] = [1, 2 :: int]" by (simp add: upto_rec1)
  have "replayClaim simple_host (ledger_of 2 [failed_attempt]) 1 empty_replay failed_attempt =
      Inr \<lparr>requestIds = [sixty_four CHR ''d''], attemptDigests = [sixty_four CHR ''0''],
        replayedAttempts = [example_attempt]\<rparr>"
    by (rule claim) (simp_all add: failed_attempt_def example_attempt_def)
  then show "validateValidationAttemptLedger simple_host (ledger_of 2 [failed_attempt]) = Inr ()"
    using facts receipt two by (simp add: example_defs replayRevision_def)
qed

lemma example_inv:
  "ledger_inv simple_host (ledger_of 0 [])" "ledger_inv simple_host (ledger_of 1 [example_attempt])"
  "ledger_inv simple_host (ledger_of 2 [failed_attempt])"
  using example_valid by (simp_all add: ledger_inv_def ledger_of_def)

lemma example_created:
  "createValidationAttemptLedger simple_host (sixty_four CHR ''c'') example_pairs ''2026'' =
     Inr (ledger_of 0 [])"
proof -
  have "length example_pairs = PAIR_COUNT" by (simp add: example_pairs_def PAIR_COUNT_def)
  then show ?thesis
    using example_cells_valid example_checks example_times example_valid(1)
    by (simp add: createValidationAttemptLedger_def assertSha256_def assertTimestamp_def Let_def
        ledger_of_def)
qed

lemma example_claimed:
  obtains r where "claimValidationAttempt simple_host (ledger_of 0 []) (sixty_four CHR ''d'') ''2027'' = Inr r"
    "cr_ledger r = ledger_of 1 [example_attempt]"
proof -
  have a: "new_attempt simple_host (ledger_of 0 []) (sixty_four CHR ''d'') ''2027'' (example_cells ! 0) =
      example_attempt"
    using example_schedule(2)
    by (simp add: new_attempt_def example_attempt_def attemptsForCell_def ledger_of_def Let_def)
  have "(ledger_of 0 [])\<lparr>revision := 1, ledger_attempts := [example_attempt]\<rparr> = ledger_of 1 [example_attempt]"
    by (simp add: ledger_of_def)
  then show thesis
    using that example_valid example_schedule example_checks example_times a example_cells_valid
    by (simp add: claimValidationAttempt_def assertSha256_def assertTimestamp_def Let_def
        hiddenClaim_def ledger_of_def example_attempt_def)
qed

lemma example_recorded:
  obtains q where
    "recordValidationAttemptReceipt simple_host (ledger_of 1 [example_attempt]) example_receipt = Inr q"
    "rr_ledger q = ledger_of 2 [failed_attempt]"
proof -
  have "(ledger_of 1 [example_attempt])\<lparr>revision := 2,
      ledger_attempts := replaceAttempt [example_attempt] failed_attempt\<rparr> = ledger_of 2 [failed_attempt]"
    by (simp add: ledger_of_def replaceAttempt_def failed_attempt_def)
  moreover have "assertReceipt simple_host example_receipt = Inr ()"
    using example_checks example_times by (simp add: assertReceipt_def assertSha256_def assertTimestamp_def example_receipt_def)
  ultimately show thesis
    using that example_valid example_checks example_times
    by (simp add: recordValidationAttemptReceipt_def assertTimestamp_def Let_def ledger_of_def
        example_attempt_def failed_attempt_def example_receipt_def)
qed

theorem attempt_history_disciplined_witness:
  "length (ledger_attempts (run_ops (ledger_step simple_host) (ledger_of 0 [])
     ([Claim_attempt (sixty_four CHR ''d'') ''2027''] @ [Record_receipt example_receipt]))) \<le> 28"
  using attempt_history_disciplined [OF example_created] unfolding Let_def by blast

text \<open>
  The schedule is deterministic and sealed: in any ledger reached by the operations,
  every attempt was claimed for exactly the cell the schedule names, from the attempts
  claimed before it and the receipts recorded before its own revision.
\<close>

theorem attempts_follow_schedule:
  assumes "ledger_inv h l" "i < length (ledger_attempts l)"
  shows "let a = ledger_attempts l ! i;
             before = map (seen (claimRevision a - 1)) (take i (ledger_attempts l))
         in \<exists>c. nextClaimableCell (cells l) before = Some c \<and> cellOrdinal a = ordinal c \<and>
              attempt_kind a = (if attemptsForCell before (ordinal c) = [] then Initial
                                else Infrastructure_replacement)"
proof -
  let ?as = "ledger_attempts l" and ?a = "ledger_attempts l ! i"
  obtain operations s where log: "replayed_log h l operations s" "0 \<le> revision l"
    "claims operations (revision l) = ?as"
    using assms(1) by (rule ledger_inv_log)
  define k where "k = claimRevision ?a"
  have a: "?a \<in> set ?as" using assms(2) by simp
  then have k: "1 \<le> k" "k \<le> revision l" "map_of operations k = Some (Claim_op ?a)"
    using replayed_revisions(1,2) [OF log(1)]
    by (auto simp: k_def replayed_map_of [OF log(1)] operations_of_def)
  have so: "sorted_wrt (<) (map claimRevision ?as)" using assms(1) by (simp add: ledger_inv_def)
  have split: "?as = take i ?as @ ?a # drop (Suc i) ?as" using assms(2) by (simp add: id_take_nth_drop)
  obtain xs zs where xs: "take i ?as = xs" "drop (Suc i) ?as = zs" by blast
  have parts: "?as = xs @ ?a # zs" using split unfolding xs .
  have before: "set (take i ?as) = {b \<in> set ?as. claimRevision b \<le> k - 1}"
  proof -
    have "sorted_wrt (<) (map claimRevision (xs @ ?a # zs))" using so parts by metis
    then have lt: "\<forall>b \<in> set xs. claimRevision b < k" "\<forall>b \<in> set zs. k < claimRevision b"
      by (simp_all add: sorted_wrt_append k_def)
    moreover have "set ?as = insert ?a (set xs \<union> set zs)"
      using arg_cong [OF parts, of set] by auto
    ultimately show ?thesis by (fastforce simp: xs(1) k_def)
  qed
  have "claims operations (k - 1) = take i ?as"
  proof (rule map_sorted_distinct_set_unique [where f = claimRevision])
    have "sorted_wrt (<) (map claimRevision (take i ?as))"
      using so by (simp add: take_map [symmetric] sorted_wrt_take)
    then show "sorted (map claimRevision (take i ?as))" "distinct (map claimRevision (take i ?as))"
      by (auto simp: strict_sorted_iff)
    have "sorted_wrt (<) (map claimRevision (claims operations (k - 1)))"
      using claims_sorted [OF log(1)] k(1) by simp
    then show "sorted (map claimRevision (claims operations (k - 1)))"
      "distinct (map claimRevision (claims operations (k - 1)))" by (auto simp: strict_sorted_iff)
    show "set (claims operations (k - 1)) = set (take i ?as)"
      using before replayed_claims_set [OF log(1)] by simp
    have "distinct (map claimRevision ?as)" using so by (simp add: strict_sorted_iff)
    then show "inj_on claimRevision (set (claims operations (k - 1)) \<union> set (take i ?as))"
      using before replayed_claims_set [OF log(1)] by (auto simp: distinct_map inj_on_def)
  qed
  moreover have r: "replay_to h l operations (revision l) = Inr s"
    using log(1) by (simp add: replayed_log_def)
  moreover obtain u where u: "replay_to h l operations (k - 1) = Inr u"
    using replay_to_prefix [OF r, of "k - 1"] k(1,2) by auto
  moreover obtain v where v: "replay_to h l operations k = Inr v"
    using replay_to_prefix [OF r, of k] k(1,2) by auto
  moreover have "replayedAttempts u = map (seen (k - 1)) (claims operations (k - 1))"
    using replay_closed_form [OF log(1,2) u] k(1,2) by simp
  moreover have "replayClaim h l k u ?a = Inr v"
    using replay_to_Suc [of "k - 1" h l operations] u v k by (simp add: replayRevision_def)
  ultimately show ?thesis
    unfolding Let_def k_def [symmetric] by (metis replayClaim_ok)
qed

theorem attempts_follow_schedule_witness:
  "\<exists>c. nextClaimableCell example_cells [] = Some c \<and> cellOrdinal example_attempt = ordinal c"
proof -
  have h: "0 < length (ledger_attempts (ledger_of 1 [example_attempt]))" by (simp add: ledger_of_def)
  show ?thesis
    using attempts_follow_schedule [OF example_inv(2) h] by (auto simp: ledger_of_def Let_def)
qed

text \<open>
  Claiming is idempotent: after a claim has been accepted, the same request at the same
  time returns the same claim on the unchanged ledger and never asks the provider to start
  a second execution, and the same request at another time is refused.
\<close>

theorem claim_idempotent:
  assumes "claimValidationAttempt h l request time = Inr r"
    and "ledger_inv h l"
  shows "(\<exists>r'. claimValidationAttempt h (cr_ledger r) request time = Inr r' \<and>
      cr_ledger r' = cr_ledger r \<and> cr_claim r' = cr_claim r \<and> cr_replayed r' \<and>
      cr_providerAction r' \<noteq> Start_once) \<and>
    (time' \<noteq> time \<longrightarrow> (\<exists>e. claimValidationAttempt h (cr_ledger r) request time' = Inl e))"
proof -
  have valid: "validateValidationAttemptLedger h (cr_ledger r) = Inr ()"
    using ledger_step_keeps [of h l "Claim_attempt request time" "cr_ledger r"] assms
    by (simp add: ledger_inv_def)
  have input: "assertSha256 request ''requestId'' = Inr ()"
    "\<exists>t. assertTimestamp h time ''claimedAt'' = Inr t"
    using assms(1) by (auto simp: claimValidationAttempt_def)
  from assms(1) obtain a where a:
    "List.find (\<lambda>a. requestId a = request) (ledger_attempts (cr_ledger r)) = Some a"
    "claimedAt a = time" "hiddenClaim (cr_ledger r) a = Inr (cr_claim r)"
  proof (cases rule: claim_ok)
    case (fresh c)
    have "\<not> (\<exists>x \<in> set (ledger_attempts l). requestId x = request)"
      using fresh(1) by (auto simp: find_None_iff)
    then have "List.find (\<lambda>a. requestId a = request) (ledger_attempts (cr_ledger r)) =
        Some (new_attempt h l request time c)"
      unfolding fresh(3) by (simp add: find_snoc)
    then show thesis using fresh(5) by (intro that) auto
  qed auto
  show ?thesis
  proof (intro conjI impI)
    show "\<exists>r'. claimValidationAttempt h (cr_ledger r) request time = Inr r' \<and>
      cr_ledger r' = cr_ledger r \<and> cr_claim r' = cr_claim r \<and> cr_replayed r' \<and>
      cr_providerAction r' \<noteq> Start_once"
      using valid input a by (simp add: claimValidationAttempt_def)
    assume "time' \<noteq> time"
    then show "\<exists>e. claimValidationAttempt h (cr_ledger r) request time' = Inl e"
      using valid input a by (cases "assertTimestamp h time' ''claimedAt''")
        (simp_all add: claimValidationAttempt_def)
  qed
qed

theorem claim_idempotent_witness:
  "\<exists>r'. claimValidationAttempt simple_host (ledger_of 1 [example_attempt]) (sixty_four CHR ''d'') ''2027'' = Inr r' \<and>
     cr_replayed r' \<and> cr_ledger r' = ledger_of 1 [example_attempt]"
proof -
  obtain r where r: "claimValidationAttempt simple_host (ledger_of 0 []) (sixty_four CHR ''d'') ''2027'' = Inr r"
    "cr_ledger r = ledger_of 1 [example_attempt]" by (rule example_claimed)
  show ?thesis using claim_idempotent [OF r(1) example_inv(1)] r(2) by auto
qed

text \<open>
  Receipts are inserted once: recording the receipt of an attempt again is a no-op, and
  every other receipt for the attempt, one whose canonical hash differs, is refused.
\<close>

theorem receipt_inserted_once:
  assumes "recordValidationAttemptReceipt h l r = Inr q" "ledger_inv h l"
  shows "(\<exists>q'. recordValidationAttemptReceipt h (rr_ledger q) r = Inr q' \<and>
      rr_ledger q' = rr_ledger q \<and> rr_replayed q') \<and>
    (\<forall>r'. receipt_attemptDigest r' = receipt_attemptDigest r \<longrightarrow>
       tree_hash h (receipt_tree r') \<noteq> tree_hash h (receipt_tree r) \<longrightarrow>
       (\<exists>e. recordValidationAttemptReceipt h (rr_ledger q) r' = Inl e))"
proof -
  have keeps: "ledger_inv h (rr_ledger q)"
    using ledger_step_keeps [of h l "Record_receipt r" "rr_ledger q"] assms by simp
  then have valid: "validateValidationAttemptLedger h (rr_ledger q) = Inr ()"
    by (simp add: ledger_inv_def)
  have input: "assertReceipt h r = Inr ()"
    using assms(1) by (auto simp: recordValidationAttemptReceipt_def)
  from assms(1) obtain a old where a:
    "List.find (\<lambda>a. attempt_digest a = receipt_attemptDigest r) (ledger_attempts (rr_ledger q)) = Some a"
    "attempt_receipt a = Some old" "tree_hash h (receipt_tree old) = tree_hash h (receipt_tree r)"
  proof (cases rule: record_ok)
    case (fresh a)
    let ?b = "a\<lparr>attempt_receipt := Some r, receiptRecordedRevision := Some (revision l + 1)\<rparr>"
    have "attempt_digest a = receipt_attemptDigest r" using fresh(1) by (auto simp: find_Some_iff)
    then have "List.find (\<lambda>a. attempt_digest a = receipt_attemptDigest r)
        (replaceAttempt (ledger_attempts l) ?b) = Some ?b"
      using fresh(1) by (simp add: find_replace)
    then show thesis using fresh(4) by (intro that [of ?b r]) auto
  qed auto
  show ?thesis
  proof (intro conjI allI impI)
    show "\<exists>q'. recordValidationAttemptReceipt h (rr_ledger q) r = Inr q' \<and>
      rr_ledger q' = rr_ledger q \<and> rr_replayed q'"
      using valid input a by (simp add: recordValidationAttemptReceipt_def)
    fix r'
    assume "receipt_attemptDigest r' = receipt_attemptDigest r"
      "tree_hash h (receipt_tree r') \<noteq> tree_hash h (receipt_tree r)"
    then show "\<exists>e. recordValidationAttemptReceipt h (rr_ledger q) r' = Inl e"
      using valid a by (cases "assertReceipt h r'") (simp_all add: recordValidationAttemptReceipt_def)
  qed
qed

theorem receipt_inserted_once_witness:
  "\<exists>q. recordValidationAttemptReceipt simple_host (ledger_of 2 [failed_attempt]) example_receipt = Inr q \<and>
     rr_replayed q \<and> rr_ledger q = ledger_of 2 [failed_attempt]"
proof -
  obtain q where q: "recordValidationAttemptReceipt simple_host (ledger_of 1 [example_attempt]) example_receipt = Inr q"
    "rr_ledger q = ledger_of 2 [failed_attempt]" by (rule example_recorded)
  show ?thesis using receipt_inserted_once [OF q(1) example_inv(2)] q(2) by auto
qed

text \<open>
  C25. What a terminal validation reports is exact: every figure is the count of the attempts in the ledger it names
  (all of them, those with a valid result, with either failure, the replacements; the arms that were
  tried at all), unresolved are the sealed arms without a valid result, and no attempt is left without a receipt. A
  complete validation has a valid result for each of its 24 arms and no failure of the other kind; an incomplete one
  has an unresolved arm and either such a failure or no replacement left.
\<close>

theorem terminal_accounting_exact:
  assumes "ledger_inv h l" "makeReleaseSafeTerminalValidationAttemptAccounting h l = Inr t"
  shows "ta_totalAttemptCount t = int (length (ledger_attempts l)) \<and>
    ta_validArmCount t = int (length (filter (\<lambda>a. outcome_of a = Some Valid) (ledger_attempts l))) \<and>
    ta_infrastructureFailureCount t = int (length (filter (\<lambda>a. outcome_of a = Some Infrastructure_failure) (ledger_attempts l))) \<and>
    ta_nonInfrastructureFailureCount t = int (length (filter (\<lambda>a. outcome_of a = Some Non_infrastructure_failure) (ledger_attempts l))) \<and>
    ta_replacementAttemptCount t = int (length (filter (\<lambda>a. attempt_kind a = Infrastructure_replacement) (ledger_attempts l))) \<and>
    ta_attemptedArmCount t = int (card (cellOrdinal ` set (ledger_attempts l))) \<and>
    (\<forall>a \<in> set (ledger_attempts l). attempt_receipt a \<noteq> None) \<and>
    ta_validArmCount t + ta_unresolvedArmCount t = 24 \<and> ta_replacementAttemptCount t \<le> 4 \<and>
    ta_totalAttemptCount t = ta_attemptedArmCount t + ta_replacementAttemptCount t \<and>
    ta_totalAttemptCount t = ta_validArmCount t + ta_infrastructureFailureCount t +
      ta_nonInfrastructureFailureCount t \<and>
    (if ta_terminalStatus t = Complete
     then ta_unresolvedArmCount t = 0 \<and> ta_nonInfrastructureFailureCount t = 0 \<and>
       ta_replacementAttemptCount t = ta_infrastructureFailureCount t
     else ta_terminalStatus t = Incomplete \<and> 0 < ta_unresolvedArmCount t \<and>
       (0 < ta_nonInfrastructureFailureCount t \<or> ta_replacementAttemptCount t = 4))"
proof -
  define counts where "counts = countAttempts (cells l) (ledger_attempts l)"
  have t: "completion counts = Complete \<or> completion counts = Incomplete"
    "t = \<lparr>ta_policyVersion = POLICY_VERSION, ta_terminalStatus = completion counts,
         ta_presealedPairCount = int PAIR_COUNT, ta_presealedArmCount = int ARM_COUNT,
         ta_validArmCount = validArmCount counts, ta_attemptedArmCount = attemptedArmCount counts,
         ta_unresolvedArmCount = int ARM_COUNT - validArmCount counts,
         ta_totalAttemptCount = int (length (ledger_attempts l)),
         ta_replacementAttemptCount = replacementAttemptCount counts,
         ta_infrastructureFailureCount = infrastructureFailureCount counts,
         ta_nonInfrastructureFailureCount = nonInfrastructureFailureCount counts,
         ta_containsPanelHandle = False, ta_containsTaskIdentifiers = False,
         ta_containsCellIdentifiers = False, ta_containsAttemptIdentifiers = False,
         ta_containsEvidenceIdentifiers = False\<rparr>"
    using assms(2)
    by (auto simp: makeReleaseSafeTerminalValidationAttemptAccounting_def Let_def counts_def
        split: if_splits)
  have four: "replacementAttemptCount counts \<le> 4"
    using assms(1) unfolding counts_def by (rule ledger_inv_log)
  note sums = ledger_counts [OF assms(1) counts_def]
  have nonneg: "0 \<le> inFlightAttemptCount counts" "0 \<le> nonInfrastructureFailureCount counts"
    by (simp_all add: counts_def countAttempts_def Let_def)
  have complete: "completion counts = Complete \<longleftrightarrow> validArmCount counts = 24"
    by (simp add: counts_def countAttempts_def Let_def ARM_COUNT_def)
  have incomplete: "inFlightAttemptCount counts = 0 \<and>
      (0 < nonInfrastructureFailureCount counts \<or> 4 \<le> replacementAttemptCount counts)"
    if inc: "completion counts = Incomplete"
  proof -
    define latest where
      "latest = List.map_filter (\<lambda>c. latestAttempt (ledger_attempts l) (ordinal c)) (cells l)"
    have "set latest \<subseteq> set (ledger_attempts l)"
      by (auto simp: latest_def map_filter_def latestAttempt_def Let_def attemptsForCell_def
          dest!: last_in_set split: if_splits)
    moreover have "inFlightAttemptCount counts = 0" and "\<exists>a \<in> set latest.
        outcome_of a = Some Non_infrastructure_failure \<or>
        outcome_of a = Some Infrastructure_failure \<and> 4 \<le> replacementAttemptCount counts"
      using inc by (auto simp: counts_def countAttempts_def Let_def latest_def MAXIMUM_REPLACEMENTS_def
          filter_empty_conv split: if_splits)
    ultimately show ?thesis
      by (fastforce simp: counts_def countAttempts_def Let_def filter_empty_conv)
  qed
  have flight: "inFlightAttemptCount counts = 0"
    using t(1) sums nonneg complete incomplete by auto
  then have receipts: "\<forall>a \<in> set (ledger_attempts l). attempt_receipt a \<noteq> None"
    unfolding ledger_by_attempts(2) [OF assms(1) counts_def] by (auto simp: filter_empty_conv)
  note figures = ledger_by_attempts(1,3) [OF assms(1) counts_def, symmetric]
  have rest: "replacementAttemptCount counts = int (length (filter (\<lambda>a. attempt_kind a = Infrastructure_replacement) (ledger_attempts l)))"
    "infrastructureFailureCount counts = int (length (filter (\<lambda>a. outcome_of a = Some Infrastructure_failure) (ledger_attempts l)))"
    "nonInfrastructureFailureCount counts = int (length (filter (\<lambda>a. outcome_of a = Some Non_infrastructure_failure) (ledger_attempts l)))"
    by (simp_all add: counts_def countAttempts_def Let_def)
  have status: "if completion counts = Complete
     then int ARM_COUNT - validArmCount counts = 0 \<and> nonInfrastructureFailureCount counts = 0 \<and>
       replacementAttemptCount counts = infrastructureFailureCount counts
     else completion counts = Incomplete \<and> 0 < int ARM_COUNT - validArmCount counts \<and>
       (0 < nonInfrastructureFailureCount counts \<or> replacementAttemptCount counts = 4)"
    using t(1) four sums nonneg complete incomplete by (simp add: ARM_COUNT_def) (smt (verit))
  show ?thesis
    unfolding t(2) terminal_accounting.simps figures rest [symmetric]
    using receipts four sums flight status by (simp add: ARM_COUNT_def)
qed

theorem terminal_accounting_exact_witness:
  "\<exists>t. makeReleaseSafeTerminalValidationAttemptAccounting simple_host (ledger_of 2 [failed_attempt]) = Inr t \<and>
     ta_terminalStatus t = Incomplete \<and> 0 < ta_unresolvedArmCount t"
proof -
  have "completion (countAttempts (cells (ledger_of 2 [failed_attempt]))
      (ledger_attempts (ledger_of 2 [failed_attempt]))) = Incomplete"
    using example_schedule(6) by (simp add: ledger_of_def)
  then obtain t where t: "makeReleaseSafeTerminalValidationAttemptAccounting simple_host
      (ledger_of 2 [failed_attempt]) = Inr t" "ta_terminalStatus t = Incomplete"
    using example_valid(3)
    by (simp add: makeReleaseSafeTerminalValidationAttemptAccounting_def Let_def)
  show ?thesis using t terminal_accounting_exact [OF example_inv(3) t(1)] by auto
qed

end
