(* ===== verification/One_Use_Ledger.thy ===== *)
theory One_Use_Ledger
  imports Canonical_Json Machines
begin

text \<open>
  The one-use request ledger of \<open>src/broker/ledger.ts\<close>. The store is linearizable, so an
  operation is one transaction on the shared state, and controllers interleave as a history
  of transactions. \<open>recoverInFlight\<close> makes two: it observes a record, asks the trusted
  authority, and commits against the state it then finds; other transactions may happen in
  between, so the observed record and the authorization are inputs of the second. The
  records are a plain object: an association list of its own members, and reading a key
  that is not one of them finds the member of \<open>Object.prototype\<close> of that name, if any.
\<close>

subsection \<open>Records\<close>

datatype failure_code =
    Panel_allocation_failed | Runtime_attestation_failed | Evaluation_failed
  | Normalization_failed | Raw_destruction_failed | Release_validation_failed

text \<open>Of a signed envelope the ledger reads the one-use request it is bound to.\<close>

record envelope =
  env_requestId :: string
  env_requestHash :: string
  env_dispositionAttestationHash :: string
  env_body :: json

datatype one_use_claim =
    Acquired string
  | Claim_completed string envelope
  | Claim_in_flight string int
  | Claim_consumed string failure_code
  | Conflict

datatype inspection = Missing | Found one_use_claim

datatype record_status = In_flight | Completed | Consumed

record ledger_record =
  requestHash :: string
  claimToken :: string
  record_status :: record_status
  dispositionAttestationHash :: "string option"
  ownerInstanceIdHash :: string
  claimEpoch :: int
  recoveryRecordHash :: "string option"
  recoveryAuthorizationHash :: "string option"
  record_envelope :: "envelope option"
  failureCode :: "failure_code option"

record ledger_state =
  state_revision :: int
  records :: "(string \<times> ledger_record) list"
  usedDispositionAttestations :: "string list"
  usedRecoveryAuthorizations :: "string list"

record recovery_observation =
  ob_requestId :: string
  ob_requestHash :: string
  ob_recoveryRecordHash :: string
  ob_dispositionAttestationHash :: string
  ob_priorClaimTokenHash :: string
  ob_priorOwnerInstanceIdHash :: string
  ob_priorClaimEpoch :: int
  ob_successorOwnerInstanceIdHash :: string
  ob_observationHash :: string

record recovery_authorization =
  au_schemaVersion :: int
  au_domain :: string
  au_authorizationId :: string
  au_requestId :: string
  au_requestHash :: string
  au_recoveryRecordHash :: string
  au_dispositionAttestationHash :: string
  au_priorClaimTokenHash :: string
  au_priorOwnerInstanceIdHash :: string
  au_priorClaimEpoch :: int
  au_successorOwnerInstanceIdHash :: string
  au_observationHash :: string
  au_providerTerminationAttestationHash :: string
  au_authorityAttestationHash :: string
  au_authorizedAt :: string
  au_signerKeyId :: string
  au_authorizationHash :: string

record recovery_input =
  rin_requestId :: string
  rin_requestHash :: string
  rin_recoveryRecordHash :: string

text \<open>A controller: its instance commitment and its retry interval.\<close>

record controller =
  controllerInstanceIdHash :: string
  retryAfterMs :: int

definition emptyOneUseLedgerState :: ledger_state where
  "emptyOneUseLedgerState =
     \<lparr>state_revision = 0, records = [], usedDispositionAttestations = [],
      usedRecoveryAuthorizations = []\<rparr>"

subsection \<open>Checks\<close>

definition newController :: "string \<Rightarrow> int option \<Rightarrow> controller result" where
  "newController instance_hash retry =
     (let r = (case retry of None \<Rightarrow> 5000 | Some n \<Rightarrow> n)
      in if \<not> is_sha256 instance_hash \<or> \<not> safe_int r \<or> r \<le> 0 \<or> 60 * 60000 < r
         then Inl (OneUseLedgerError ''Ledger retry interval is outside policy.'')
         else Inr \<lparr>controllerInstanceIdHash = instance_hash, retryAfterMs = r\<rparr>)"

definition assertOneUseClaim :: "one_use_claim \<Rightarrow> unit result" where
  "assertOneUseClaim claim =
     (let hash_ok = (\<lambda>hash. if \<not> is_sha256 hash
            then Inl (OneUseLedgerError ''One-use ledger returned a malformed request hash.'')
            else Inr ())
      in case claim of
           Acquired token \<Rightarrow>
             if \<not> is_token 255 token
             then Inl (OneUseLedgerError ''One-use ledger returned a malformed claim token.'')
             else Inr ()
         | Conflict \<Rightarrow> Inr ()
         | Claim_completed hash _ \<Rightarrow> hash_ok hash
         | Claim_consumed hash _ \<Rightarrow> hash_ok hash
         | Claim_in_flight hash retry \<Rightarrow> and_then (hash_ok hash) (\<lambda>_.
             if \<not> safe_int retry \<or> retry \<le> 0 \<or> 60 * 60000 < retry
             then Inl (OneUseLedgerError ''One-use ledger returned an invalid retry interval.'')
             else Inr ()))"

definition assertOneUseLedgerInspection :: "inspection \<Rightarrow> unit result" where
  "assertOneUseLedgerInspection i =
     (case i of Missing \<Rightarrow> Inr () | Found Conflict \<Rightarrow> Inr () | Found c \<Rightarrow> assertOneUseClaim c)"

definition assertRequestIdentity :: "string \<Rightarrow> string \<Rightarrow> unit result" where
  "assertRequestIdentity request_id request_hash =
     (if \<not> is_token 127 request_id \<or> \<not> is_sha256 request_hash
      then Inl (OneUseLedgerError ''One-use request identity is malformed.'') else Inr ())"

definition claimTokenHash :: "host \<Rightarrow> string \<Rightarrow> string" where
  "claimTokenHash h token = tree_hash h (json_object
     [(''domain'', JString ''dark-factory.one-use-claim-token.v1''), (''claimToken'', JString token)])"

definition recoveryObservation ::
    "host \<Rightarrow> recovery_input \<Rightarrow> ledger_record \<Rightarrow> string \<Rightarrow> recovery_observation result" where
  "recoveryObservation h i rec successor =
     (case dispositionAttestationHash rec of
        None \<Rightarrow> Inl (OneUseLedgerError ''Only a disposition-bound in-flight claim can be recovered.'')
      | Some att \<Rightarrow>
          if record_status rec \<noteq> In_flight
          then Inl (OneUseLedgerError ''Only a disposition-bound in-flight claim can be recovered.'')
          else
            let token_hash = claimTokenHash h (claimToken rec);
                unsigned = json_object
                  [(''schemaVersion'', json_int 1),
                   (''domain'', JString ''dark-factory.one-use-claim-recovery-observation.v1''),
                   (''requestId'', JString (rin_requestId i)),
                   (''requestHash'', JString (rin_requestHash i)),
                   (''recoveryRecordHash'', JString (rin_recoveryRecordHash i)),
                   (''dispositionAttestationHash'', JString att),
                   (''priorClaimTokenHash'', JString token_hash),
                   (''priorOwnerInstanceIdHash'', JString (ownerInstanceIdHash rec)),
                   (''priorClaimEpoch'', json_int (claimEpoch rec)),
                   (''successorOwnerInstanceIdHash'', JString successor)]
            in Inr \<lparr>ob_requestId = rin_requestId i, ob_requestHash = rin_requestHash i,
                 ob_recoveryRecordHash = rin_recoveryRecordHash i,
                 ob_dispositionAttestationHash = att, ob_priorClaimTokenHash = token_hash,
                 ob_priorOwnerInstanceIdHash = ownerInstanceIdHash rec,
                 ob_priorClaimEpoch = claimEpoch rec,
                 ob_successorOwnerInstanceIdHash = successor,
                 ob_observationHash = tree_hash h unsigned\<rparr>)"

definition hashOneUseClaimRecoveryAuthorization :: "host \<Rightarrow> recovery_authorization \<Rightarrow> string" where
  "hashOneUseClaimRecoveryAuthorization h a = tree_hash h (json_object
     [(''domain'', JString ''dark-factory.one-use-claim-recovery-authorization-hash.v1''),
      (''authorization'', json_object
        [(''schemaVersion'', json_int (au_schemaVersion a)),
         (''domain'', JString (au_domain a)),
         (''authorizationId'', JString (au_authorizationId a)),
         (''requestId'', JString (au_requestId a)),
         (''requestHash'', JString (au_requestHash a)),
         (''recoveryRecordHash'', JString (au_recoveryRecordHash a)),
         (''dispositionAttestationHash'', JString (au_dispositionAttestationHash a)),
         (''priorClaimTokenHash'', JString (au_priorClaimTokenHash a)),
         (''priorOwnerInstanceIdHash'', JString (au_priorOwnerInstanceIdHash a)),
         (''priorClaimEpoch'', json_int (au_priorClaimEpoch a)),
         (''successorOwnerInstanceIdHash'', JString (au_successorOwnerInstanceIdHash a)),
         (''observationHash'', JString (au_observationHash a)),
         (''providerTerminationAttestationHash'', JString (au_providerTerminationAttestationHash a)),
         (''authorityAttestationHash'', JString (au_authorityAttestationHash a)),
         (''authorizedAt'', JString (au_authorizedAt a)),
         (''signerKeyId'', JString (au_signerKeyId a))])])"

definition assertRecoveryAuthorization ::
    "host \<Rightarrow> recovery_authorization \<Rightarrow> recovery_observation \<Rightarrow> unit result" where
  "assertRecoveryAuthorization h a ob =
     (if au_schemaVersion a \<noteq> 1 \<or>
         au_domain a \<noteq> ''dark-factory.one-use-claim-recovery-authorization.v1'' \<or>
         \<not> is_token 127 (au_authorizationId a) \<or>
         au_requestId a \<noteq> ob_requestId ob \<or>
         au_requestHash a \<noteq> ob_requestHash ob \<or>
         au_recoveryRecordHash a \<noteq> ob_recoveryRecordHash ob \<or>
         au_dispositionAttestationHash a \<noteq> ob_dispositionAttestationHash ob \<or>
         au_priorClaimTokenHash a \<noteq> ob_priorClaimTokenHash ob \<or>
         au_priorOwnerInstanceIdHash a \<noteq> ob_priorOwnerInstanceIdHash ob \<or>
         au_priorClaimEpoch a \<noteq> ob_priorClaimEpoch ob \<or>
         au_successorOwnerInstanceIdHash a \<noteq> ob_successorOwnerInstanceIdHash ob \<or>
         au_observationHash a \<noteq> ob_observationHash ob \<or>
         au_priorOwnerInstanceIdHash a = au_successorOwnerInstanceIdHash a \<or>
         \<not> is_sha256 (au_providerTerminationAttestationHash a) \<or>
         \<not> is_sha256 (au_authorityAttestationHash a) \<or>
         canonical_time h (au_authorizedAt a) = None \<or>
         \<not> is_token 127 (au_signerKeyId a) \<or>
         au_authorizationHash a \<noteq> hashOneUseClaimRecoveryAuthorization h a
      then Inl (OneUseLedgerError ''Claim recovery authorization is malformed or detached.'')
      else Inr ())"

subsection \<open>Reading the records\<close>

datatype entry = Absent | Own ledger_record | Inherited

definition read_record :: "ledger_state \<Rightarrow> string \<Rightarrow> entry" where
  "read_record s request_id =
     (case map_of (records s) request_id of
        Some rec \<Rightarrow> Own rec
      | None \<Rightarrow> if request_id \<in> set OBJECT_PROTOTYPE then Inherited else Absent)"

definition by_token :: "ledger_state \<Rightarrow> string \<Rightarrow> (string \<times> ledger_record) option" where
  "by_token s token = List.find (\<lambda>(_, rec). claimToken rec = token) (object_entries (records s))"

definition nextState :: "ledger_state \<Rightarrow> string \<Rightarrow> ledger_record \<Rightarrow> ledger_state" where
  "nextState s request_id rec =
     s\<lparr>state_revision := state_revision s + 1, records := AList.update request_id rec (records s)\<rparr>"

text \<open>What a record that is not in flight any more reports.\<close>

definition settled_claim :: "controller \<Rightarrow> string \<Rightarrow> ledger_record \<Rightarrow> one_use_claim result" where
  "settled_claim c request_hash rec =
     (case record_status rec of
        Completed \<Rightarrow> (case record_envelope rec of
            None \<Rightarrow> Inl (OneUseLedgerError ''Completed ledger record has no signed envelope.'')
          | Some e \<Rightarrow> Inr (Claim_completed request_hash e))
      | Consumed \<Rightarrow> (case failureCode rec of
            None \<Rightarrow> Inl (OneUseLedgerError ''Consumed ledger record has no failure code.'')
          | Some f \<Rightarrow> Inr (Claim_consumed request_hash f))
      | In_flight \<Rightarrow> Inr (Claim_in_flight request_hash (retryAfterMs c)))"

subsection \<open>Operations\<close>

definition claim ::
    "controller \<Rightarrow> string \<Rightarrow> string \<Rightarrow> string \<Rightarrow> ledger_state \<Rightarrow> (ledger_state \<times> one_use_claim) result" where
  "claim c request_id request_hash token s =
     and_then (assertRequestIdentity request_id request_hash) (\<lambda>_.
       case read_record s request_id of
         Inherited \<Rightarrow> Inr (s, Conflict)
       | Own rec \<Rightarrow>
           if requestHash rec \<noteq> request_hash then Inr (s, Conflict)
           else and_then (settled_claim c request_hash rec) (\<lambda>r. Inr (s, r))
       | Absent \<Rightarrow>
           if \<not> is_token 255 token
           then Inl (OneUseLedgerError ''Claim token factory returned an unsafe token.'')
           else Inr (nextState s request_id
               \<lparr>requestHash = request_hash, claimToken = token, record_status = In_flight,
                dispositionAttestationHash = None,
                ownerInstanceIdHash = controllerInstanceIdHash c, claimEpoch = 1,
                recoveryRecordHash = None, recoveryAuthorizationHash = None,
                record_envelope = None, failureCode = None\<rparr>,
             Acquired token))"

definition inspect ::
    "controller \<Rightarrow> string \<Rightarrow> string \<Rightarrow> ledger_state \<Rightarrow> (ledger_state \<times> inspection) result" where
  "inspect c request_id request_hash s =
     and_then (assertRequestIdentity request_id request_hash) (\<lambda>_.
       case read_record s request_id of
         Absent \<Rightarrow> Inr (s, Missing)
       | Inherited \<Rightarrow> Inr (s, Found Conflict)
       | Own rec \<Rightarrow>
           if requestHash rec \<noteq> request_hash then Inr (s, Found Conflict)
           else and_then (settled_claim c request_hash rec) (\<lambda>r. Inr (s, Found r)))"

text \<open>
  The first transaction of a recovery and the checks before the authority is asked: a result
  when the recovery ends there, and otherwise the record and what the authority observes.
\<close>

definition recoverObserve ::
    "host \<Rightarrow> controller \<Rightarrow> bool \<Rightarrow> recovery_input \<Rightarrow> ledger_state \<Rightarrow>
       (one_use_claim + (ledger_record \<times> recovery_observation)) result" where
  "recoverObserve h c has_authority i s =
     and_then (assertRequestIdentity (rin_requestId i) (rin_requestHash i)) (\<lambda>_.
     if \<not> is_sha256 (rin_recoveryRecordHash i)
     then Inl (OneUseLedgerError ''Claim recovery record commitment is malformed.'')
     else case read_record s (rin_requestId i) of
       Absent \<Rightarrow> Inl (OneUseLedgerError ''An absent one-use claim cannot be recovered.'')
     | Inherited \<Rightarrow> Inr (Inl Conflict)
     | Own rec \<Rightarrow>
         if requestHash rec \<noteq> rin_requestHash i then Inr (Inl Conflict)
         else if record_status rec \<noteq> In_flight
         then and_then (settled_claim c (rin_requestHash i) rec) (\<lambda>r. Inr (Inl r))
         else if ownerInstanceIdHash rec = controllerInstanceIdHash c \<and>
             recoveryRecordHash rec = Some (rin_recoveryRecordHash i) \<and>
             recoveryAuthorizationHash rec \<noteq> None
         then Inr (Inl (Acquired (claimToken rec)))
         else if \<not> has_authority
         then Inl (OneUseLedgerError ''Provider-termination-attested claim recovery is unavailable.'')
         else and_then (recoveryObservation h i rec (controllerInstanceIdHash c))
           (\<lambda>ob. Inr (Inr (rec, ob))))"

text \<open>The second transaction, with the record observed and the authority's answer.\<close>

definition recoverCommit ::
    "host \<Rightarrow> controller \<Rightarrow> recovery_input \<Rightarrow> ledger_record \<Rightarrow> recovery_observation \<Rightarrow>
       recovery_authorization option \<Rightarrow> string \<Rightarrow> ledger_state \<Rightarrow> (ledger_state \<times> one_use_claim) result" where
  "recoverCommit h c i observed ob authorization token s =
     (case authorization of
        None \<Rightarrow> Inl (OneUseLedgerError
          ''The recovery authority did not prove prior controller termination.'')
      | Some a \<Rightarrow>
          and_then (assertRecoveryAuthorization h a ob) (\<lambda>_.
          if \<not> is_token 255 token
          then Inl (OneUseLedgerError ''Claim token factory returned an unsafe token.'')
          else case read_record s (rin_requestId i) of
            Absent \<Rightarrow> Inl (OneUseLedgerError ''Claim disappeared during recovery.'')
          | Inherited \<Rightarrow> Inr (s, Conflict)
          | Own current \<Rightarrow>
              if requestHash current \<noteq> rin_requestHash i then Inr (s, Conflict)
              else if record_status current \<noteq> In_flight
              then and_then (settled_claim c (rin_requestHash i) current) (\<lambda>r. Inr (s, r))
              else if claimToken current \<noteq> claimToken observed \<or>
                  ownerInstanceIdHash current \<noteq> ownerInstanceIdHash observed \<or>
                  claimEpoch current \<noteq> claimEpoch observed \<or>
                  dispositionAttestationHash current \<noteq> dispositionAttestationHash observed \<or>
                  recoveryRecordHash current \<noteq> recoveryRecordHash observed \<or>
                  recoveryAuthorizationHash current \<noteq> recoveryAuthorizationHash observed
              then Inl (OneUseLedgerError ''Claim changed while recovery authorization was pending.'')
              else if au_authorizationHash a \<in> set (usedRecoveryAuthorizations s) \<or>
                  token \<in> (claimToken \<circ> snd) ` set (records s)
              then Inl (OneUseLedgerError
                ''Claim recovery authorization or replacement token was reused.'')
              else Inr ((nextState s (rin_requestId i)
                  (current\<lparr>claimToken := token,
                     ownerInstanceIdHash := controllerInstanceIdHash c,
                     claimEpoch := claimEpoch current + 1,
                     recoveryRecordHash := Some (rin_recoveryRecordHash i),
                     recoveryAuthorizationHash := Some (au_authorizationHash a)\<rparr>))
                  \<lparr>usedRecoveryAuthorizations :=
                     usedRecoveryAuthorizations s @ [au_authorizationHash a]\<rparr>,
                Acquired token)))"

definition bindDispositionAttestation ::
    "string \<Rightarrow> string \<Rightarrow> string \<Rightarrow> ledger_state \<Rightarrow> (ledger_state \<times> bool) result" where
  "bindDispositionAttestation token request_hash att s =
     (if \<not> is_token 255 token \<or> \<not> is_sha256 request_hash \<or> \<not> is_sha256 att
      then Inl (OneUseLedgerError ''Attestation binding is malformed.'')
      else case by_token s token of
        None \<Rightarrow> Inl (OneUseLedgerError ''Unknown claim token.'')
      | Some (request_id, rec) \<Rightarrow>
          if requestHash rec \<noteq> request_hash \<or> record_status rec \<noteq> In_flight
          then Inl (OneUseLedgerError ''Claim cannot bind an attestation in its current state.'')
          else case dispositionAttestationHash rec of
            Some bound \<Rightarrow> Inr (s, bound = att)
          | None \<Rightarrow>
              if att \<in> set (usedDispositionAttestations s) then Inr (s, False)
              else Inr ((nextState s request_id (rec\<lparr>dispositionAttestationHash := Some att\<rparr>))
                  \<lparr>usedDispositionAttestations := usedDispositionAttestations s @ [att]\<rparr>, True))"

definition complete ::
    "string \<Rightarrow> string \<Rightarrow> string \<Rightarrow> envelope \<Rightarrow> ledger_state \<Rightarrow> ledger_state result" where
  "complete token request_hash att e s =
     (case by_token s token of
        None \<Rightarrow> Inl (OneUseLedgerError ''Unknown claim token.'')
      | Some (request_id, rec) \<Rightarrow>
          if requestHash rec \<noteq> request_hash \<or> record_status rec \<noteq> In_flight \<or>
             dispositionAttestationHash rec \<noteq> Some att \<or>
             env_requestHash e \<noteq> request_hash \<or> env_requestId e \<noteq> request_id \<or>
             env_dispositionAttestationHash e \<noteq> att
          then Inl (OneUseLedgerError ''Completed envelope does not match its bound one-use claim.'')
          else Inr (nextState s request_id
            (rec\<lparr>record_status := Completed, record_envelope := Some e\<rparr>)))"

definition consumeFailure ::
    "string \<Rightarrow> string \<Rightarrow> failure_code \<Rightarrow> ledger_state \<Rightarrow> ledger_state result" where
  "consumeFailure token request_hash code s =
     (case by_token s token of
        None \<Rightarrow> Inl (OneUseLedgerError ''Unknown claim token.'')
      | Some (request_id, rec) \<Rightarrow>
          if requestHash rec \<noteq> request_hash
          then Inl (OneUseLedgerError ''Failure does not match its one-use claim.'')
          else case record_status rec of
            Completed \<Rightarrow>
              Inl (OneUseLedgerError ''A completed one-use claim cannot be changed to failure.'')
          | Consumed \<Rightarrow>
              if failureCode rec \<noteq> Some code
              then Inl (OneUseLedgerError ''A consumed claim cannot change its failure code.'')
              else Inr s
          | In_flight \<Rightarrow>
              Inr (nextState s request_id (rec\<lparr>record_status := Consumed, failureCode := Some code\<rparr>)))"

subsection \<open>The ledger as a machine of many controllers\<close>

datatype one_use_op =
    Claim controller string string string
  | Bind string string string
  | Complete string string string envelope
  | Consume string string failure_code
  | Recover controller recovery_input ledger_record recovery_observation
      "recovery_authorization option" string

fun one_use_step :: "host \<Rightarrow> one_use_op \<Rightarrow> ledger_state \<Rightarrow> ledger_state result" where
  "one_use_step h (Claim c i hash token) s = and_then (claim c i hash token s) (\<lambda>(t, _). Inr t)"
| "one_use_step h (Bind token hash att) s =
     and_then (bindDispositionAttestation token hash att s) (\<lambda>(t, _). Inr t)"
| "one_use_step h (Complete token hash att e) s = complete token hash att e s"
| "one_use_step h (Consume token hash code) s = consumeFailure token hash code s"
| "one_use_step h (Recover c i observed ob a token) s =
     and_then (recoverCommit h c i observed ob a token s) (\<lambda>(t, _). Inr t)"

definition record_ok :: "string set \<Rightarrow> string set \<Rightarrow> string \<Rightarrow> ledger_record \<Rightarrow> bool" where
  "record_ok used_att used_auth i r \<longleftrightarrow>
     1 \<le> claimEpoch r \<and>
     (\<forall>a. dispositionAttestationHash r = Some a \<longrightarrow> a \<in> used_att) \<and>
     (\<forall>a. recoveryAuthorizationHash r = Some a \<longrightarrow> a \<in> used_auth) \<and>
     (case record_status r of
        In_flight \<Rightarrow> record_envelope r = None \<and> failureCode r = None
      | Completed \<Rightarrow> \<exists>e. record_envelope r = Some e \<and> env_requestId e = i \<and>
          env_requestHash e = requestHash r \<and>
          dispositionAttestationHash r = Some (env_dispositionAttestationHash e)
      | Consumed \<Rightarrow> failureCode r \<noteq> None)"

definition one_use_inv :: "ledger_state \<Rightarrow> bool" where
  "one_use_inv s \<longleftrightarrow>
     distinct (map fst (records s)) \<and> distinct (usedDispositionAttestations s) \<and>
     distinct (usedRecoveryAuthorizations s) \<and>
     (\<forall>i r. map_of (records s) i = Some r \<longrightarrow>
        record_ok (set (usedDispositionAttestations s)) (set (usedRecoveryAuthorizations s)) i r) \<and>
     (\<forall>i j r q a. map_of (records s) i = Some r \<longrightarrow> map_of (records s) j = Some q \<longrightarrow>
        dispositionAttestationHash r = Some a \<longrightarrow> dispositionAttestationHash q = Some a \<longrightarrow> i = j)"

definition record_le :: "ledger_record \<Rightarrow> ledger_record \<Rightarrow> bool" where
  "record_le r q \<longleftrightarrow>
     requestHash r = requestHash q \<and> claimEpoch r \<le> claimEpoch q \<and>
     (dispositionAttestationHash r \<noteq> None \<longrightarrow>
        dispositionAttestationHash q = dispositionAttestationHash r) \<and>
     (record_status r \<noteq> In_flight \<longrightarrow> q = r) \<and>
     (claimEpoch r = claimEpoch q \<longrightarrow> claimToken r = claimToken q \<and> ownerInstanceIdHash r = ownerInstanceIdHash q)"

definition one_use_le :: "ledger_state \<Rightarrow> ledger_state \<Rightarrow> bool" where
  "one_use_le s t \<longleftrightarrow>
     state_revision s \<le> state_revision t \<and>
     set (usedDispositionAttestations s) \<subseteq> set (usedDispositionAttestations t) \<and>
     set (usedRecoveryAuthorizations s) \<subseteq> set (usedRecoveryAuthorizations t) \<and>
     (\<forall>i r. map_of (records s) i = Some r \<longrightarrow>
        (\<exists>q. map_of (records t) i = Some q \<and> record_le r q))"

lemma record_le_refl [simp]: "record_le r r"
  by (simp add: record_le_def)

lemma record_le_trans:
  assumes rq: "record_le r q" and qp: "record_le q p"
  shows "record_le r p"
proof -
  note d = rq [unfolded record_le_def] qp [unfolded record_le_def]
  have le: "claimEpoch r \<le> claimEpoch q" "claimEpoch q \<le> claimEpoch p" using d by blast+
  then have "claimEpoch r = claimEpoch q \<and> claimEpoch q = claimEpoch p" if "claimEpoch r = claimEpoch p"
    using that by linarith
  then have "claimToken r = claimToken p \<and> ownerInstanceIdHash r = ownerInstanceIdHash p"
    if "claimEpoch r = claimEpoch p"
    using that d by metis
  moreover have "p = r" if "record_status r \<noteq> In_flight"
    using that d by metis
  moreover have "dispositionAttestationHash p = dispositionAttestationHash r"
    if "dispositionAttestationHash r \<noteq> None"
    using that d by metis
  moreover have "requestHash r = requestHash p" "claimEpoch r \<le> claimEpoch p"
    using d le by (metis, linarith)
  ultimately show ?thesis unfolding record_le_def by blast
qed

lemma one_use_le_refl [simp]: "one_use_le s s"
  by (auto simp: one_use_le_def)

lemma one_use_le_trans: "one_use_le s t \<Longrightarrow> one_use_le t u \<Longrightarrow> one_use_le s u"
  unfolding one_use_le_def by (meson order_trans record_le_trans)

lemma by_token_map_of:
  assumes "by_token s token = Some (i, r)" "one_use_inv s"
  shows "map_of (records s) i = Some r" and "claimToken r = token"
proof -
  have "(i, r) \<in> set (object_entries (records s))" and t: "claimToken r = token"
    using find_SomeD [OF assms(1) [unfolded by_token_def]] by simp_all
  then show "map_of (records s) i = Some r" and "claimToken r = token"
    using assms(2) by (simp_all add: one_use_inv_def)
qed

text \<open>Writing one record, with the attestations and authorizations it uses.\<close>

definition write_record ::
    "string \<Rightarrow> ledger_record \<Rightarrow> string list \<Rightarrow> string list \<Rightarrow> ledger_state \<Rightarrow> ledger_state" where
  "write_record i r atts auths s =
     (nextState s i r)\<lparr>usedDispositionAttestations := usedDispositionAttestations s @ atts,
        usedRecoveryAuthorizations := usedRecoveryAuthorizations s @ auths\<rparr>"

lemma write_record_simps:
  "(nextState s i r)\<lparr>usedDispositionAttestations := usedDispositionAttestations s @ atts\<rparr> =
     write_record i r atts [] s"
  "(nextState s i r)\<lparr>usedRecoveryAuthorizations := usedRecoveryAuthorizations s @ auths\<rparr> =
     write_record i r [] auths s"
  by (cases s; simp add: write_record_def nextState_def)+

lemma write_record_plain: "nextState s i r = write_record i r [] [] s"
  by (cases s; simp add: write_record_def nextState_def)

lemma one_use_invD:
  assumes "one_use_inv s"
  shows "distinct (usedDispositionAttestations s)" "distinct (usedRecoveryAuthorizations s)"
    and "map_of (records s) i = Some r \<Longrightarrow>
      record_ok (set (usedDispositionAttestations s)) (set (usedRecoveryAuthorizations s)) i r"
    and "map_of (records s) i = Some r \<Longrightarrow> map_of (records s) j = Some q \<Longrightarrow>
      dispositionAttestationHash r = Some a \<Longrightarrow> dispositionAttestationHash q = Some a \<Longrightarrow> i = j"
  using assms unfolding one_use_inv_def by blast+

lemma write_record_inv:
  assumes "one_use_inv s"
    and "record_ok (set (usedDispositionAttestations s @ atts)) (set (usedRecoveryAuthorizations s @ auths)) i r"
    and "distinct (usedDispositionAttestations s @ atts)" "distinct (usedRecoveryAuthorizations s @ auths)"
    and "\<And>j q a. map_of (records s) j = Some q \<Longrightarrow> j \<noteq> i \<Longrightarrow>
           dispositionAttestationHash q = Some a \<Longrightarrow> dispositionAttestationHash r \<noteq> Some a"
  shows "one_use_inv (write_record i r atts auths s)"
proof -
  let ?t = "write_record i r atts auths s"
  have t: "map_of (records ?t) = (map_of (records s))(i \<mapsto> r)"
    "usedDispositionAttestations ?t = usedDispositionAttestations s @ atts"
    "usedRecoveryAuthorizations ?t = usedRecoveryAuthorizations s @ auths"
    "distinct (map fst (records ?t))"
    using assms(1) by (simp_all add: write_record_def nextState_def one_use_inv_def distinct_update)
  have ok: "record_ok (set (usedDispositionAttestations s @ atts)) (set (usedRecoveryAuthorizations s @ auths)) j q"
    if "map_of (records s) j = Some q" for j q
  proof -
    have "record_ok (set (usedDispositionAttestations s)) (set (usedRecoveryAuthorizations s)) j q"
      using that assms(1) by (auto simp: one_use_inv_def)
    then show ?thesis by (auto simp: record_ok_def)
  qed
  have unique: "j = k" if "map_of (records ?t) j = Some p" "map_of (records ?t) k = Some q"
      "dispositionAttestationHash p = Some a" "dispositionAttestationHash q = Some a" for j k p q a
  proof (cases "j = i \<or> k = i")
    case True
    then show ?thesis using that assms(5) unfolding t by (auto split: if_splits)
  next
    case False
    then show ?thesis using that one_use_invD(4) [OF assms(1)] unfolding t by simp
  qed
  have ok': "record_ok (set (usedDispositionAttestations s @ atts)) (set (usedRecoveryAuthorizations s @ auths)) j q"
    if "map_of (records ?t) j = Some q" for j q
    using that assms(2) ok unfolding t by (simp split: if_splits)
  show ?thesis
    unfolding one_use_inv_def t(2,3)
    using t(4) assms(3,4) ok' unique by blast
qed

lemma write_record_le:
  assumes "\<And>q. map_of (records s) i = Some q \<Longrightarrow> record_le q r"
  shows "one_use_le s (write_record i r atts auths s)"
  using assms by (auto simp: one_use_le_def write_record_def nextState_def)

text \<open>What each transaction writes.\<close>

lemma settled_not_acquired: "settled_claim c hash rec = Inr r \<Longrightarrow> r \<noteq> Acquired k"
  by (auto simp: settled_claim_def split: record_status.splits option.splits)

lemma claim_writes:
  assumes "claim c i hash token s = Inr (t, r)"
  obtains (read) "t = s" "\<forall>k. r \<noteq> Acquired k"
    | (acquired) q where "read_record s i = Absent" "map_of (records s) i = None" "t = write_record i q [] [] s"
        "r = Acquired token" "requestHash q = hash" "claimToken q = token" "record_status q = In_flight"
        "dispositionAttestationHash q = None" "recoveryAuthorizationHash q = None" "claimEpoch q = 1"
        "record_envelope q = None" "failureCode q = None"
proof (cases "read_record s i")
  case Absent
  define q where "q = \<lparr>requestHash = hash, claimToken = token, record_status = In_flight,
     dispositionAttestationHash = None, ownerInstanceIdHash = controllerInstanceIdHash c,
     claimEpoch = 1, recoveryRecordHash = None, recoveryAuthorizationHash = None,
     record_envelope = None, failureCode = None\<rparr>"
  have "t = write_record i q [] [] s" "r = Acquired token"
    using assms Absent by (simp_all add: claim_def write_record_plain q_def split: if_splits)
  moreover have "map_of (records s) i = None"
    using Absent by (auto simp: read_record_def split: option.splits if_splits)
  ultimately show thesis using Absent by (intro acquired [of q]) (simp_all add: q_def)
next
  case (Own rec)
  then show thesis
    using assms by (intro read) (auto simp: claim_def dest: settled_not_acquired split: if_splits)
next
  case Inherited
  then show thesis using assms by (intro read) (auto simp: claim_def)
qed

lemma bind_writes:
  assumes "bindDispositionAttestation token hash att s = Inr (t, b)"
  obtains (read) "t = s"
    | (bound) i q where "by_token s token = Some (i, q)" "record_status q = In_flight"
        "dispositionAttestationHash q = None" "att \<notin> set (usedDispositionAttestations s)"
        "t = write_record i (q\<lparr>dispositionAttestationHash := Some att\<rparr>) [att] [] s" "b"
  using assms
  by (auto simp: bindDispositionAttestation_def write_record_simps
      split: if_splits option.splits prod.splits)

lemma complete_writes:
  assumes "complete token hash att e s = Inr t"
  obtains i q where "by_token s token = Some (i, q)" "record_status q = In_flight"
    "requestHash q = hash" "dispositionAttestationHash q = Some att"
    "env_requestHash e = hash" "env_requestId e = i" "env_dispositionAttestationHash e = att"
    "t = write_record i (q\<lparr>record_status := Completed, record_envelope := Some e\<rparr>) [] [] s"
  using assms
  by (auto simp: complete_def write_record_plain split: if_splits option.splits prod.splits)

lemma consume_writes:
  assumes "consumeFailure token hash code s = Inr t"
  obtains (read) "t = s"
    | (consumed) i q where "by_token s token = Some (i, q)" "record_status q = In_flight"
        "t = write_record i (q\<lparr>record_status := Consumed, failureCode := Some code\<rparr>) [] [] s"
  using assms
  by (auto simp: consumeFailure_def write_record_plain split: if_splits option.splits prod.splits record_status.splits)

lemma recover_writes:
  assumes "recoverCommit h c i observed ob authorization token s = Inr (t, r)"
  obtains (read) "t = s" "\<forall>k. r \<noteq> Acquired k"
    | (recovered) a q where "authorization = Some a" "assertRecoveryAuthorization h a ob = Inr ()"
        "map_of (records s) (rin_requestId i) = Some q" "record_status q = In_flight"
        "claimToken q = claimToken observed" "claimEpoch q = claimEpoch observed"
        "requestHash q = rin_requestHash i"
        "au_authorizationHash a \<notin> set (usedRecoveryAuthorizations s)"
        "token \<notin> (claimToken \<circ> snd) ` set (records s)" "r = Acquired token"
        "t = write_record (rin_requestId i)
           (q\<lparr>claimToken := token, ownerInstanceIdHash := controllerInstanceIdHash c,
              claimEpoch := claimEpoch q + 1, recoveryRecordHash := Some (rin_recoveryRecordHash i),
              recoveryAuthorizationHash := Some (au_authorizationHash a)\<rparr>) []
           [au_authorizationHash a] s"
proof (cases authorization)
  case None
  then show thesis using assms by (simp add: recoverCommit_def)
next
  case (Some a)
  then have a: "assertRecoveryAuthorization h a ob = Inr ()" "is_token 255 token"
    using assms by (auto simp: recoverCommit_def split: if_splits)
  show thesis
  proof (cases "read_record s (rin_requestId i)")
    case (Own q)
    then have q: "map_of (records s) (rin_requestId i) = Some q"
      by (auto simp: read_record_def split: option.splits if_splits)
    show thesis
    proof (cases "requestHash q = rin_requestHash i \<and> record_status q = In_flight")
      case True
      show thesis
        using assms Some a Own True q
        by (intro recovered [of a q])
          (simp_all add: recoverCommit_def write_record_simps split: if_splits)
    next
      case False
      then show thesis
        using assms Some a Own
        by (intro read) (auto simp: recoverCommit_def dest: settled_not_acquired split: if_splits)
    qed
  next
    case Inherited
    then show thesis using assms Some a by (intro read) (auto simp: recoverCommit_def)
  next
    case Absent
    then show thesis using assms Some a by (simp add: recoverCommit_def)
  qed
qed

lemma attestation_elsewhere:
  assumes "one_use_inv s" "map_of (records s) i = Some r"
    and "map_of (records s) j = Some q" "j \<noteq> i" "dispositionAttestationHash q = Some a"
  shows "dispositionAttestationHash r \<noteq> Some a"
  using one_use_invD(4) [OF assms(1,3,2)] assms(4,5) by blast

lemma write_record_keeps:
  assumes "one_use_inv s"
    and "record_ok (set (usedDispositionAttestations s @ atts)) (set (usedRecoveryAuthorizations s @ auths)) i r"
    and "distinct atts" "set atts \<inter> set (usedDispositionAttestations s) = {}"
    and "distinct auths" "set auths \<inter> set (usedRecoveryAuthorizations s) = {}"
    and "\<And>j q a. map_of (records s) j = Some q \<Longrightarrow> j \<noteq> i \<Longrightarrow>
           dispositionAttestationHash q = Some a \<Longrightarrow> dispositionAttestationHash r \<noteq> Some a"
    and "\<And>q. map_of (records s) i = Some q \<Longrightarrow> record_le q r"
  shows "one_use_inv (write_record i r atts auths s) \<and> one_use_le s (write_record i r atts auths s)"
proof
  show "one_use_inv (write_record i r atts auths s)"
    using assms one_use_invD(1,2) [OF assms(1)] by (intro write_record_inv) (simp_all add: Int_commute)
  show "one_use_le s (write_record i r atts auths s)"
    using assms(8) by (rule write_record_le)
qed

lemma one_use_step_keeps:
  assumes inv: "one_use_inv s" and ok: "one_use_step h op s = Inr t"
  shows "one_use_inv t \<and> one_use_le s t"
proof (cases op)
  case (Claim c i hash token)
  then obtain r where r: "claim c i hash token s = Inr (t, r)" using ok by auto
  then show ?thesis
  proof (cases rule: claim_writes)
    case (acquired q)
    show ?thesis
      unfolding acquired(3) using inv acquired
      by (intro write_record_keeps) (simp_all add: record_ok_def)
  qed (simp add: inv)
next
  case (Bind token hash att)
  then obtain b where b: "bindDispositionAttestation token hash att s = Inr (t, b)" using ok by auto
  then show ?thesis
  proof (cases rule: bind_writes)
    case (bound i q)
    note q = by_token_map_of [OF bound(1) inv]
    have fresh: "dispositionAttestationHash p \<noteq> Some att" if "map_of (records s) j = Some p" for j p
      using one_use_invD(3) [OF inv that] bound(4) by (auto simp: record_ok_def)
    show ?thesis
      unfolding bound(5) using inv bound q fresh one_use_invD(3) [OF inv q(1)]
      by (intro write_record_keeps; force simp: record_ok_def record_le_def)
  qed (simp add: inv)
next
  case (Complete token hash att e)
  then have "complete token hash att e s = Inr t" using ok by simp
  then obtain i q where c: "by_token s token = Some (i, q)" "record_status q = In_flight"
    "requestHash q = hash" "dispositionAttestationHash q = Some att"
    "env_requestHash e = hash" "env_requestId e = i" "env_dispositionAttestationHash e = att"
    and t: "t = write_record i (q\<lparr>record_status := Completed, record_envelope := Some e\<rparr>) [] [] s"
    by (rule complete_writes)
  note q = by_token_map_of [OF c(1) inv]
  show ?thesis
    unfolding t using inv c q one_use_invD(3) [OF inv q(1)] attestation_elsewhere [OF inv q(1)]
    by (intro write_record_keeps; simp add: record_ok_def record_le_def)
next
  case (Consume token hash code)
  then have "consumeFailure token hash code s = Inr t" using ok by simp
  then show ?thesis
  proof (cases rule: consume_writes)
    case (consumed i q)
    note q = by_token_map_of [OF consumed(1) inv]
    show ?thesis
      unfolding consumed(3) using inv consumed q one_use_invD(3) [OF inv q(1)] attestation_elsewhere [OF inv q(1)]
      by (intro write_record_keeps; simp add: record_ok_def record_le_def)
  qed (simp add: inv)
next
  case (Recover c i observed ob a token)
  then obtain r where r: "recoverCommit h c i observed ob a token s = Inr (t, r)" using ok by auto
  then show ?thesis
  proof (cases rule: recover_writes)
    case (recovered b q)
    show ?thesis
      unfolding recovered(11)
      using inv recovered one_use_invD(3) [OF inv recovered(3)] attestation_elsewhere [OF inv recovered(3)]
      by (intro write_record_keeps; simp add: record_ok_def record_le_def)
  qed (simp add: inv)
qed

interpretation one_use: monotone_machine "one_use_step h" one_use_inv one_use_le for h
  by unfold_locales (auto dest: one_use_step_keeps intro: one_use_le_trans)

lemma empty_one_use: "one_use_inv emptyOneUseLedgerState"
  by (simp add: one_use_inv_def emptyOneUseLedgerState_def)

lemma claim_of_known:
  assumes "map_of (records s) i = Some r" "claim c i hash token s = Inr (t, res)"
  shows "t = s" "\<forall>k. res \<noteq> Acquired k" "requestHash r \<noteq> hash \<longrightarrow> res = Conflict"
proof -
  show "t = s" and "\<forall>k. res \<noteq> Acquired k"
    using assms(2) by (cases rule: claim_writes; simp add: assms(1))+
  show "requestHash r \<noteq> hash \<longrightarrow> res = Conflict"
    using assms by (auto simp: claim_def read_record_def)
qed

text \<open>No step adds a record under the name of an inherited member.\<close>

definition no_prototype_record :: "ledger_state \<Rightarrow> bool" where
  "no_prototype_record s \<longleftrightarrow>
     one_use_inv s \<and> (\<forall>i \<in> set OBJECT_PROTOTYPE. map_of (records s) i = None)"

lemma written_key:
  "map_of (records (write_record i r atts auths s)) = (map_of (records s))(i \<mapsto> r)"
  by (simp add: write_record_def nextState_def)

lemma one_use_step_keys:
  assumes inv: "one_use_inv s" and ok: "one_use_step h op s = Inr t"
    and new: "map_of (records s) i = None" "map_of (records t) i \<noteq> None"
  shows "read_record s i = Absent"
proof (cases op)
  case (Claim c j hash token)
  then obtain r where "claim c j hash token s = Inr (t, r)" using ok by auto
  then show ?thesis
    using new by (cases rule: claim_writes) (auto simp: written_key split: if_splits)
next
  case (Bind token hash att)
  then obtain b where "bindDispositionAttestation token hash att s = Inr (t, b)" using ok by auto
  then show ?thesis
    using new by (cases rule: bind_writes) (auto simp: written_key dest: by_token_map_of [OF _ inv] split: if_splits)
next
  case (Complete token hash att e)
  then have "complete token hash att e s = Inr t" using ok by simp
  then show ?thesis
    using new by (elim complete_writes) (auto simp: written_key dest: by_token_map_of [OF _ inv] split: if_splits)
next
  case (Consume token hash code)
  then have "consumeFailure token hash code s = Inr t" using ok by simp
  then show ?thesis
    using new by (cases rule: consume_writes) (auto simp: written_key dest: by_token_map_of [OF _ inv] split: if_splits)
next
  case (Recover c j observed ob a token)
  then obtain r where "recoverCommit h c j observed ob a token s = Inr (t, r)" using ok by auto
  then show ?thesis
    using new by (cases rule: recover_writes) (auto simp: written_key split: if_splits)
qed

interpretation inherited: guarded_machine "one_use_step h" no_prototype_record for h
proof (unfold_locales, unfold no_prototype_record_def, intro conjI ballI)
  fix s t op i
  assume s: "one_use_inv s \<and> (\<forall>i \<in> set OBJECT_PROTOTYPE. map_of (records s) i = None)"
    and t: "one_use_step h op s = Inr t"
  then show "one_use_inv t" using one_use_step_keeps by blast
  assume i: "i \<in> set OBJECT_PROTOTYPE"
  then have "read_record s i = Inherited" using s by (simp add: read_record_def)
  then show "map_of (records t) i = None" using s i one_use_step_keys [of s h op t i] t
    by (cases "map_of (records t) i") auto
qed

subsection \<open>Properties\<close>

text \<open>Two controllers and a request in flight, bound to an attestation, for the witnesses.\<close>

definition first_controller :: controller where
  "first_controller = \<lparr>controllerInstanceIdHash = sixty_four CHR ''c'', retryAfterMs = 5000\<rparr>"

definition second_controller :: controller where
  "second_controller = \<lparr>controllerInstanceIdHash = sixty_four CHR ''0'', retryAfterMs = 5000\<rparr>"

definition claimed_state :: ledger_state where
  "claimed_state = nextState emptyOneUseLedgerState ''r1''
     \<lparr>requestHash = sixty_four CHR ''d'', claimToken = ''t1'', record_status = In_flight,
      dispositionAttestationHash = None, ownerInstanceIdHash = sixty_four CHR ''c'', claimEpoch = 1,
      recoveryRecordHash = None, recoveryAuthorizationHash = None, record_envelope = None,
      failureCode = None\<rparr>"

definition bound_record :: ledger_record where
  "bound_record =
     \<lparr>requestHash = sixty_four CHR ''d'', claimToken = ''t1'', record_status = In_flight,
      dispositionAttestationHash = Some (sixty_four CHR ''e''), ownerInstanceIdHash = sixty_four CHR ''c'',
      claimEpoch = 1, recoveryRecordHash = None, recoveryAuthorizationHash = None,
      record_envelope = None, failureCode = None\<rparr>"

definition bound_state :: ledger_state where
  "bound_state = \<lparr>state_revision = 2, records = [(''r1'', bound_record)],
     usedDispositionAttestations = [sixty_four CHR ''e''], usedRecoveryAuthorizations = []\<rparr>"

definition example_recovery :: recovery_input where
  "example_recovery = \<lparr>rin_requestId = ''r1'', rin_requestHash = sixty_four CHR ''d'',
     rin_recoveryRecordHash = sixty_four CHR ''d''\<rparr>"

definition example_observation :: recovery_observation where
  "example_observation = \<lparr>ob_requestId = ''r1'', ob_requestHash = sixty_four CHR ''d'',
     ob_recoveryRecordHash = sixty_four CHR ''d'', ob_dispositionAttestationHash = sixty_four CHR ''e'',
     ob_priorClaimTokenHash = sixty_four CHR ''0'', ob_priorOwnerInstanceIdHash = sixty_four CHR ''c'',
     ob_priorClaimEpoch = 1, ob_successorOwnerInstanceIdHash = sixty_four CHR ''0'',
     ob_observationHash = sixty_four CHR ''0''\<rparr>"

definition example_authorization :: recovery_authorization where
  "example_authorization = \<lparr>au_schemaVersion = 1,
     au_domain = ''dark-factory.one-use-claim-recovery-authorization.v1'', au_authorizationId = ''a1'',
     au_requestId = ''r1'', au_requestHash = sixty_four CHR ''d'', au_recoveryRecordHash = sixty_four CHR ''d'',
     au_dispositionAttestationHash = sixty_four CHR ''e'', au_priorClaimTokenHash = sixty_four CHR ''0'',
     au_priorOwnerInstanceIdHash = sixty_four CHR ''c'', au_priorClaimEpoch = 1,
     au_successorOwnerInstanceIdHash = sixty_four CHR ''0'', au_observationHash = sixty_four CHR ''0'',
     au_providerTerminationAttestationHash = sixty_four CHR ''0'',
     au_authorityAttestationHash = sixty_four CHR ''0'', au_authorizedAt = ''2026'', au_signerKeyId = ''k1'',
     au_authorizationHash = sixty_four CHR ''0''\<rparr>"

lemma example_tokens:
  "is_token 127 ''r1''" "is_token 255 ''t1''" "is_token 255 ''t2''" "is_token 127 ''a1''" "is_token 127 ''k1''"
  by code_simp+

lemma claimed_once:
  "claim first_controller ''r1'' (sixty_four CHR ''d'') ''t1'' emptyOneUseLedgerState =
     Inr (claimed_state, Acquired ''t1'')"
  by (simp add: claim_def assertRequestIdentity_def example_tokens example_checks read_record_def
      emptyOneUseLedgerState_def claimed_state_def OBJECT_PROTOTYPE_def first_controller_def)

lemma example_observed:
  "recoverObserve simple_host second_controller True example_recovery bound_state =
     Inr (Inr (bound_record, example_observation))"
  by (simp add: recoverObserve_def assertRequestIdentity_def example_tokens example_checks read_record_def
      bound_state_def bound_record_def example_recovery_def example_observation_def second_controller_def
      recoveryObservation_def claimTokenHash_def)

lemma example_authorized:
  "assertRecoveryAuthorization simple_host example_authorization example_observation = Inr ()"
  by (simp add: assertRecoveryAuthorization_def hashOneUseClaimRecoveryAuthorization_def
      example_authorization_def example_observation_def example_tokens example_times)

lemma example_recovered:
  obtains t where "recoverCommit simple_host second_controller example_recovery bound_record
    example_observation (Some example_authorization) ''t2'' bound_state = Inr (t, Acquired ''t2'')"
  using example_authorized
  by (simp add: recoverCommit_def read_record_def bound_state_def bound_record_def example_recovery_def
      example_tokens)

lemma bound_state_inv: "one_use_inv bound_state"
  by (simp add: one_use_inv_def bound_state_def record_ok_def bound_record_def)

text \<open>
  C21. From the empty ledger, through any history of transactions of any controllers, each
  request id stays bound to its first request hash and its first attestation, a completed
  record holds an envelope of exactly this request, hash and attestation, and a completed or
  consumed record is never changed again; an attestation is bound to at most one request,
  and no attestation and no recovery authorization is used twice.
\<close>

theorem one_use_records_permanent:
  "let s = run_ops (one_use_step h) emptyOneUseLedgerState xs;
       t = run_ops (one_use_step h) emptyOneUseLedgerState (xs @ ys)
   in distinct (usedDispositionAttestations t) \<and> distinct (usedRecoveryAuthorizations t) \<and>
      (\<forall>i r. map_of (records s) i = Some r \<longrightarrow>
         (\<exists>q. map_of (records t) i = Some q \<and> requestHash q = requestHash r \<and>
            claimEpoch r \<le> claimEpoch q \<and>
            (\<forall>a. dispositionAttestationHash r = Some a \<longrightarrow> dispositionAttestationHash q = Some a) \<and>
            (record_status r \<noteq> In_flight \<longrightarrow> q = r) \<and>
            (record_status q = Completed \<longrightarrow>
               (\<exists>e. record_envelope q = Some e \<and> env_requestId e = i \<and>
                  env_requestHash e = requestHash r \<and>
                  dispositionAttestationHash q = Some (env_dispositionAttestationHash e))))) \<and>
      (\<forall>i j r q a. map_of (records t) i = Some r \<longrightarrow> map_of (records t) j = Some q \<longrightarrow>
         dispositionAttestationHash r = Some a \<longrightarrow> dispositionAttestationHash q = Some a \<longrightarrow> i = j)"
proof -
  let ?s = "run_ops (one_use_step h) emptyOneUseLedgerState xs"
  let ?t = "run_ops (one_use_step h) emptyOneUseLedgerState (xs @ ys)"
  have inv: "one_use_inv ?t" by (rule one_use.history_inv [OF empty_one_use])
  have le: "one_use_le ?s ?t" by (rule one_use.history_prefix_le [OF empty_one_use])
  have "\<exists>q. map_of (records ?t) i = Some q \<and> requestHash q = requestHash r \<and>
      claimEpoch r \<le> claimEpoch q \<and>
      (\<forall>a. dispositionAttestationHash r = Some a \<longrightarrow> dispositionAttestationHash q = Some a) \<and>
      (record_status r \<noteq> In_flight \<longrightarrow> q = r) \<and>
      (record_status q = Completed \<longrightarrow>
         (\<exists>e. record_envelope q = Some e \<and> env_requestId e = i \<and> env_requestHash e = requestHash r \<and>
            dispositionAttestationHash q = Some (env_dispositionAttestationHash e)))"
    if r: "map_of (records ?s) i = Some r" for i r
  proof -
    obtain q where q: "map_of (records ?t) i = Some q" "record_le r q"
      using le r unfolding one_use_le_def by blast
    show ?thesis
      using q one_use_invD(3) [OF inv q(1)]
      by (intro exI [of _ q]) (auto simp: record_le_def record_ok_def)
  qed
  then show ?thesis using one_use_invD [OF inv] by (simp only: Let_def) blast
qed

theorem one_use_records_permanent_witness:
  "\<exists>q. map_of (records (run_ops (one_use_step simple_host) emptyOneUseLedgerState
       ([Claim first_controller ''r1'' (sixty_four CHR ''d'') ''t1''] @
        [Consume ''t1'' (sixty_four CHR ''d'') Evaluation_failed]))) ''r1'' = Some q \<and>
     requestHash q = sixty_four CHR ''d''"
proof -
  have s: "run_ops (one_use_step simple_host) emptyOneUseLedgerState
      [Claim first_controller ''r1'' (sixty_four CHR ''d'') ''t1''] = claimed_state"
    by (simp add: attempt_def claimed_once)
  have r: "\<exists>r. map_of (records claimed_state) ''r1'' = Some r \<and> requestHash r = sixty_four CHR ''d''"
    by (simp add: claimed_state_def nextState_def)
  show ?thesis
    using r one_use_records_permanent [of simple_host "[Claim first_controller ''r1'' (sixty_four CHR ''d'') ''t1'']"
        "[Consume ''t1'' (sixty_four CHR ''d'') Evaluation_failed]"]
    unfolding s Let_def by metis
qed

text \<open>
  C22. A request is acquired by a claim at most once: after a claim was acquired, no later
  claim of the request id, by any controller, with any token and after any history, acquires
  it or changes the ledger, and one with another request hash reports a conflict.
\<close>

theorem claim_acquired_once:
  assumes "claim c i hash token s = Inr (t, Acquired k)" "one_use_inv s"
    and "claim c' i hash' token' (run_ops (one_use_step h) t ops) = Inr (u, res)"
  shows "u = run_ops (one_use_step h) t ops \<and> (\<forall>k'. res \<noteq> Acquired k') \<and>
    (hash' \<noteq> hash \<longrightarrow> res = Conflict)"
proof -
  obtain q where q: "map_of (records t) i = Some q" "requestHash q = hash"
    using assms(1) by (cases rule: claim_writes) (auto simp: write_record_def nextState_def)
  have "one_use_inv t"
    using one_use_step_keeps [of s h "Claim c i hash token" t] assms(1,2) by simp
  then have "one_use_le t (run_ops (one_use_step h) t ops)" by (rule one_use.history_le)
  then obtain r where "map_of (records (run_ops (one_use_step h) t ops)) i = Some r"
    "requestHash r = hash"
    using q unfolding one_use_le_def record_le_def by metis
  then show ?thesis using claim_of_known [OF _ assms(3)] by blast
qed

theorem claim_acquired_once_witness:
  "claim second_controller ''r1'' (sixty_four CHR ''e'') ''t2'' claimed_state = Inr (claimed_state, Conflict)"
proof -
  have c: "claim second_controller ''r1'' (sixty_four CHR ''e'') ''t2''
      (run_ops (one_use_step simple_host) claimed_state []) = Inr (claimed_state, Conflict)"
    by (simp add: claim_def assertRequestIdentity_def example_tokens example_checks read_record_def
      emptyOneUseLedgerState_def claimed_state_def nextState_def)
  then show ?thesis
    using claim_acquired_once [OF claimed_once empty_one_use c] by simp
qed

text \<open>
  C23. Recovery fences the predecessor: a committed recovery needs an authorization that
  names this request, record, attestation, prior owner and epoch and another successor; the
  attestation and the request hash stay, the epoch grows by one, the prior token (held by no
  other record) is unknown from then on, and the same authorization never commits again in
  any later history.
\<close>

theorem recovery_fences_predecessor:
  assumes "recoverCommit h c i observed ob (Some a) token s = Inr (t, Acquired token)"
    and "one_use_inv s" "distinct (map (claimToken \<circ> snd) (records s))"
  shows "\<exists>q r. map_of (records s) (rin_requestId i) = Some q \<and>
    map_of (records t) (rin_requestId i) = Some r \<and>
    requestHash r = requestHash q \<and> claimEpoch r = claimEpoch q + 1 \<and>
    dispositionAttestationHash r = dispositionAttestationHash q \<and>
    au_priorOwnerInstanceIdHash a \<noteq> au_successorOwnerInstanceIdHash a \<and>
    au_priorClaimEpoch a = ob_priorClaimEpoch ob \<and>
    ownerInstanceIdHash r = controllerInstanceIdHash c \<and>
    complete (claimToken q) hash att e t = Inl (OneUseLedgerError ''Unknown claim token.'') \<and>
    consumeFailure (claimToken q) hash code t = Inl (OneUseLedgerError ''Unknown claim token.'') \<and>
    recoverCommit h c' i' observed' ob' (Some a) token' (run_ops (one_use_step h) t ops) \<noteq>
      Inr (u, Acquired k)"
  using assms(1)
proof (cases rule: recover_writes)
  case (recovered b q)
  let ?r = "q\<lparr>claimToken := token, ownerInstanceIdHash := controllerInstanceIdHash c,
     claimEpoch := claimEpoch q + 1, recoveryRecordHash := Some (rin_recoveryRecordHash i),
     recoveryAuthorizationHash := Some (au_authorizationHash a)\<rparr>"
  have ab: "b = a" using recovered(1) by simp
  have t: "records t = AList.update (rin_requestId i) ?r (records s)"
    "set (usedRecoveryAuthorizations t) = insert (au_authorizationHash a) (set (usedRecoveryAuthorizations s))"
    using recovered(11) ab by (simp_all add: write_record_def nextState_def)
  have inS: "(rin_requestId i, q) \<in> set (records s)" using recovered(3) by (rule map_of_SomeD)
  have fresh: "claimToken q \<noteq> token" using inS recovered(9) by force
  have gone: "by_token t (claimToken q) = None"
  proof (rule ccontr)
    assume "by_token t (claimToken q) \<noteq> None"
    then obtain j p where p: "(j, p) \<in> set (records t)" "claimToken p = claimToken q"
      by (auto simp: by_token_def dest!: find_SomeD)
    have "one_use_inv t"
      using one_use_step_keeps [of s h "Recover c i observed ob (Some a) token" t] assms(1,2) by simp
    then have "map_of (records t) j = Some p" using p(1) by (simp add: one_use_inv_def)
    then have "j \<noteq> rin_requestId i" "(j, p) \<in> set (records s)"
      using p(2) fresh unfolding t by (auto split: if_splits dest: map_of_SomeD)
    then show False
      using inS p(2) assms(3) unfolding distinct_map inj_on_def comp_def
      by (metis prod.inject snd_conv)
  qed
  have "one_use_inv t"
    using one_use_step_keeps [of s h "Recover c i observed ob (Some a) token" t] assms(1,2) by simp
  then have "one_use_le t (run_ops (one_use_step h) t ops)" by (rule one_use.history_le)
  then have "au_authorizationHash a \<in> set (usedRecoveryAuthorizations (run_ops (one_use_step h) t ops))"
    unfolding one_use_le_def t(2) by blast
  then have once: "recoverCommit h c' i' observed' ob' (Some a) token' (run_ops (one_use_step h) t ops) \<noteq>
      Inr (u, Acquired k)"
    using recover_writes [of h c' i' observed' ob' "Some a" token' "run_ops (one_use_step h) t ops" u "Acquired k"]
    by blast
  show ?thesis
    using recovered(2,3) ab t(1) gone once
    by (intro exI [of _ q] exI [of _ ?r])
      (simp add: complete_def consumeFailure_def assertRecoveryAuthorization_def split: if_splits)
qed simp

theorem recovery_fences_predecessor_witness:
  "\<exists>t. recoverCommit simple_host second_controller example_recovery bound_record
      example_observation (Some example_authorization) ''t2'' bound_state = Inr (t, Acquired ''t2'') \<and>
    consumeFailure ''t1'' (sixty_four CHR ''d'') Evaluation_failed t =
      Inl (OneUseLedgerError ''Unknown claim token.'')"
proof -
  obtain t where t: "recoverCommit simple_host second_controller example_recovery bound_record
      example_observation (Some example_authorization) ''t2'' bound_state = Inr (t, Acquired ''t2'')"
    by (rule example_recovered)
  have "distinct (map (claimToken \<circ> snd) (records bound_state))"
    and r: "map_of (records bound_state) (rin_requestId example_recovery) = Some bound_record"
      "claimToken bound_record = ''t1''"
    by (simp_all add: bound_state_def example_recovery_def bound_record_def)
  then show ?thesis using t recovery_fences_predecessor [OF t bound_state_inv] by fastforce
qed

text \<open>
  A request id that names a member of \<open>Object.prototype\<close> (\<open>constructor\<close>,
  \<open>toString\<close>, \<open>valueOf\<close>, ...) passes the check of the request identity but can never be
  claimed: the lookup in the record object finds the inherited member, so every claim, after
  any history from the empty ledger, reports a conflict.
\<close>

theorem prototype_ids_always_conflict:
  assumes "i \<in> set OBJECT_PROTOTYPE" "is_sha256 hash"
  shows "assertRequestIdentity i hash = Inr () \<and>
    (let s = run_ops (one_use_step h) emptyOneUseLedgerState ops
     in claim c i hash token s = Inr (s, Conflict))"
proof -
  have "\<forall>j \<in> set OBJECT_PROTOTYPE. is_token 127 j" by code_simp
  then have id: "assertRequestIdentity i hash = Inr ()"
    using assms by (simp add: assertRequestIdentity_def)
  have "no_prototype_record emptyOneUseLedgerState"
    by (simp add: no_prototype_record_def empty_one_use) (simp add: emptyOneUseLedgerState_def)
  then have "no_prototype_record (run_ops (one_use_step h) emptyOneUseLedgerState ops)"
    by (rule inherited.history_inv)
  then show ?thesis
    using id assms(1) by (simp add: claim_def read_record_def no_prototype_record_def)
qed

theorem prototype_ids_always_conflict_witness:
  "claim \<lparr>controllerInstanceIdHash = sixty_four CHR ''c'', retryAfterMs = 5000\<rparr> ''constructor''
     (sixty_four CHR ''d'') ''token'' emptyOneUseLedgerState = Inr (emptyOneUseLedgerState, Conflict)"
  using prototype_ids_always_conflict [where i = "''constructor''" and hash = "sixty_four CHR ''d''"
      and c = "\<lparr>controllerInstanceIdHash = sixty_four CHR ''c'', retryAfterMs = 5000\<rparr>"
      and token = "''token''" and ops = "[]"]
  by (simp add: OBJECT_PROTOTYPE_def example_checks)

end
