(* ===== verification/Selection.thy ===== *)
theory Selection
  imports Hidden_Types Machines
begin

text \<open>
  The failure-weighted selection of hidden tasks of \<open>src/evaluation/selection.ts\<close>: the
  twelve slots of a fresh panel are divided over four buckets with an integer carry in
  tenths, every bucket takes its best-scored eligible tasks, repair panels take five tasks,
  and two shadow slices are reserved once. Scores are numbers of the language and are
  computed in the order of the code; \<open>quota\<close> and \<open>carry\<close> are functions of the bucket, as
  the four fields of the code's records are.
\<close>

definition SELECTION_POLICY_VERSION :: string where
  "SELECTION_POLICY_VERSION = ''failure-weighted-v2''"

definition BUCKETS :: "selection_bucket list" where
  "BUCKETS = [Hard, Uncertain, Easy, Coverage]"

fun TARGET_UNITS :: "selection_bucket \<Rightarrow> int" where
  "TARGET_UNITS Hard = 6"
| "TARGET_UNITS Uncertain = 2"
| "TARGET_UNITS Easy = 1"
| "TARGET_UNITS Coverage = 1"

definition TARGET_DENOMINATOR :: int where
  "TARGET_DENOMINATOR = 10"

type_synonym carry = "selection_bucket \<Rightarrow> int"
type_synonym relevance = "(string \<times> number) list"

record quota_allocation =
  quota :: "selection_bucket \<Rightarrow> int"
  nextCarry :: carry

record selection_context =
  currentExperiment :: int
  changedComponentRelevance :: relevance

record validation_context = selection_context +
  frozenHypothesisDigest :: string
  repairTaskIds :: "string set"
  carry_in :: carry

record shadow_reservation =
  first_slice :: panel_selection
  second_slice :: panel_selection
  reservation_carry :: carry

subsection \<open>Quotas\<close>

definition initialValidationQuotaCarry :: carry where
  "initialValidationQuotaCarry = (\<lambda>_. 0)"

definition validateCarry :: "carry \<Rightarrow> unit result" where
  "validateCarry carry =
     (if (\<exists>v \<in> set (map carry BUCKETS). \<not> safe_int v \<or> v < - 9 \<or> 9 < v) \<or>
         sum_list (map carry BUCKETS) \<noteq> 0
      then Inl (SelectionError ''Validation quota carry must be bounded integer tenths summing to zero'')
      else Inr ())"

text \<open>The \<open>%\<close> of the language truncates towards zero.\<close>

definition js_rem :: "int \<Rightarrow> int \<Rightarrow> int" where
  "js_rem a b = sgn a * (\<bar>a\<bar> mod \<bar>b\<bar>)"

definition modulo :: "int \<Rightarrow> int \<Rightarrow> int" where
  "modulo v denominator = js_rem (js_rem v denominator + denominator) denominator"

fun bucket_index :: "selection_bucket \<Rightarrow> int" where
  "bucket_index Hard = 0"
| "bucket_index Uncertain = 1"
| "bucket_index Easy = 2"
| "bucket_index Coverage = 3"

definition remainder_compare :: "carry \<Rightarrow> selection_bucket \<Rightarrow> selection_bucket \<Rightarrow> int" where
  "remainder_compare ideal left right =
     (let delta = modulo (ideal right) TARGET_DENOMINATOR - modulo (ideal left) TARGET_DENOMINATOR
      in if delta = 0 then bucket_index left - bucket_index right else delta)"

text \<open>The loop over the buckets in the order of their remainders.\<close>

fun hand_out :: "selection_bucket list \<Rightarrow> carry \<Rightarrow> int \<Rightarrow> carry \<times> int" where
  "hand_out [] q remaining = (q, remaining)"
| "hand_out (b # bs) q remaining =
     (if remaining = 0 then (q, remaining) else hand_out bs (q(b := q b + 1)) (remaining - 1))"

definition allocateValidationQuotas :: "carry \<Rightarrow> quota_allocation result" where
  "allocateValidationQuotas carry =
     and_then (validateCarry carry) (\<lambda>_.
       let ideal = (\<lambda>b. 12 * TARGET_UNITS b + carry b);
           floors = (\<lambda>b. ideal b div TARGET_DENOMINATOR);
           (q, remaining) = hand_out (sort_by (remainder_compare ideal) BUCKETS) floors
             (12 - sum_list (map floors BUCKETS))
       in if remaining \<noteq> 0
          then Inl (SelectionError ''Validation quota allocation did not produce twelve slots'')
          else let next = (\<lambda>b. ideal b - q b * TARGET_DENOMINATOR)
               in and_then (validateCarry next) (\<lambda>_. Inr \<lparr>quota = q, nextCarry = next\<rparr>))"

subsection \<open>Scores\<close>

definition estimate_values :: "task_estimates \<Rightarrow> number list" where
  "estimate_values e =
     [championFailureProbability e, baselineFailureProbability e, leaderboardFailureProbability e,
      recentFailureProbability e, outcomeUncertainty e, discrimination e, componentRelevance e,
      underexposure e, missingCapabilityCoverage e, normalizedCost e, impossibleProbability e]"

definition unit_value :: "number \<Rightarrow> bool" where
  "unit_value v \<longleftrightarrow> is_finite v \<and> \<not> num_less v (Fin 0) \<and> \<not> num_less (Fin 1) v"

definition validateChangedComponentRelevance :: "relevance \<Rightarrow> unit result" where
  "validateChangedComponentRelevance relevance =
     check_all (\<lambda>(stratum, v). if stratum = [] \<or> \<not> unit_value v
       then Inl (SelectionError ''Changed-component relevance must map non-empty capability strata to finite unit-interval values'')
       else Inr ()) (object_entries relevance)"

text \<open>
  \<open>relevance[stratum] ?? estimate\<close>. A stratum that names an inherited member finds a function
  or an object, whose product with a number is NaN.
\<close>

definition component_relevance :: "relevance \<Rightarrow> hidden_task \<Rightarrow> number" where
  "component_relevance relevance task =
     (case map_of relevance (capabilityStratum task) of
        Some v \<Rightarrow> v
      | None \<Rightarrow> if capabilityStratum task \<in> set INHERITED_MEMBERS then NaN
                else componentRelevance (estimates task))"

abbreviation times :: "rat \<Rightarrow> number \<Rightarrow> number" where
  "times r x \<equiv> num_mul (num_of r) x"

definition genericFailureWeight :: "task_estimates \<Rightarrow> number" where
  "genericFailureWeight e =
     num_add (num_add (num_add (times (25/100) (championFailureProbability e))
       (times (15/100) (baselineFailureProbability e)))
       (times (12/100) (leaderboardFailureProbability e)))
       (times (18/100) (recentFailureProbability e))"

definition shared_score :: "relevance \<Rightarrow> hidden_task \<Rightarrow> number" where
  "shared_score relevance task =
     (let e = estimates task in
      num_sub (num_sub (num_sub (num_add (num_add (num_add
        (times (8/100) (discrimination e))
        (times (7/100) (component_relevance relevance task)))
        (times (5/100) (underexposure e)))
        (times (4/100) (missingCapabilityCoverage e)))
        (times (4/100) (normalizedCost e)))
        (times (12/100) (num_of_int (min (consecutiveExperiments (exposure task)) 3))))
        (times (12/100) (impossibleProbability e)))"

fun bucket_signal :: "selection_bucket \<Rightarrow> task_estimates \<Rightarrow> number" where
  "bucket_signal Hard e = genericFailureWeight e"
| "bucket_signal Uncertain e =
     num_add (times (45/100) (outcomeUncertainty e)) (times (35/100) (discrimination e))"
| "bucket_signal Easy e =
     num_add (num_add (times (35/100) (num_sub (Fin 1) (championFailureProbability e)))
       (times (2/10) (num_sub (Fin 1) (baselineFailureProbability e))))
       (times (15/100) (num_sub (Fin 1) (recentFailureProbability e)))"
| "bucket_signal Coverage e =
     num_add (times (45/100) (underexposure e)) (times (35/100) (missingCapabilityCoverage e))"

definition roundScore :: "number \<Rightarrow> number result" where
  "roundScore v =
     (if \<not> is_finite v then Inl (SelectionError ''Task selection score inputs must be finite'')
      else Inr (num_div (num_round (num_mul v (Fin 1000000000))) (Fin 1000000000)))"

definition scoreTask :: "hidden_task \<Rightarrow> selection_bucket \<Rightarrow> relevance \<Rightarrow> number result" where
  "scoreTask task bucket relevance =
     (if \<exists>v \<in> set (estimate_values (estimates task)). \<not> unit_value v
      then Inl (SelectionError ''Task estimates must be finite probabilities or normalized scores'')
      else and_then (validateChangedComponentRelevance relevance) (\<lambda>_.
        roundScore (num_add (bucket_signal bucket (estimates task)) (shared_score relevance task))))"

subsection \<open>Taking the best tasks of every bucket\<close>

record candidate =
  candidate_task :: hidden_task
  candidate_score :: number

text \<open>Of the difference of two scores the sort reads the sign.\<close>

definition compareCandidates :: "host \<Rightarrow> candidate \<Rightarrow> candidate \<Rightarrow> int" where
  "compareCandidates h left right =
     (let delta = num_sgn (num_sub (candidate_score right) (candidate_score left));
          l = exposure (candidate_task left); r = exposure (candidate_task right)
      in if delta \<noteq> 0 then delta
         else if lastExperiment l \<noteq> lastExperiment r
         then (case (lastExperiment l, lastExperiment r) of
                 (Some a, Some b) \<Rightarrow> a - b | (None, _) \<Rightarrow> - 1 | (_, None) \<Rightarrow> 1)
         else if total l \<noteq> total r then total l - total r
         else locale_compare h (taskId (candidate_task left)) (taskId (candidate_task right)))"

definition score_candidate :: "relevance \<Rightarrow> selection_bucket \<Rightarrow> hidden_task \<Rightarrow> candidate result" where
  "score_candidate relevance bucket task =
     and_then (scoreTask task bucket relevance)
       (\<lambda>s. Inr \<lparr>candidate_task = task, candidate_score = s\<rparr>)"

text \<open>One round of the loop: \<open>selected\<close> in the order the tasks were pushed.\<close>

definition select_bucket ::
    "host \<Rightarrow> hidden_task list \<Rightarrow> carry \<Rightarrow> relevance \<Rightarrow> selected_task list \<Rightarrow> selection_bucket \<Rightarrow>
       selected_task list result" where
  "select_bucket h tasks q relevance selected bucket =
     (if \<not> safe_int (q bucket) \<or> q bucket < 0 then Inl (SelectionError ''Invalid quota'')
      else and_then (map_result (score_candidate relevance bucket)
          (filter (\<lambda>task. bucket \<in> set (buckets task) \<and> taskId task \<notin> selected_id ` set selected) tasks))
        (\<lambda>candidates.
          let sorted = sort_by (compareCandidates h) candidates
          in if int (length sorted) < q bucket then Inl (SelectionError ''Insufficient hidden tasks'')
             else Inr (selected @ map (\<lambda>c. \<lparr>selected_id = taskId (candidate_task c),
                 selected_bucket = bucket, selected_score = candidate_score c\<rparr>)
               (take (nat (q bucket)) sorted))))"

definition selectByQuota ::
    "host \<Rightarrow> hidden_task list \<Rightarrow> carry \<Rightarrow> relevance \<Rightarrow> selected_task list result" where
  "selectByQuota h tasks q relevance =
     fold_result (select_bucket h tasks q relevance) [] BUCKETS"

subsection \<open>Eligibility\<close>

definition eligibleForRepair :: "int \<Rightarrow> hidden_task \<Rightarrow> bool" where
  "eligibleForRepair current task \<longleftrightarrow>
     infrastructureValid task \<and> feedbackReleased (exposure task) \<and> \<not> shadowReserved task \<and>
     (case taskCooldownThroughExperiment (exposure task) of None \<Rightarrow> True | Some c \<Rightarrow> c < current) \<and>
     (consecutiveExperiments (exposure task) < 2 \<or> regressionCanary task)"

definition eligibleForValidation :: "int \<Rightarrow> string \<Rightarrow> hidden_task \<Rightarrow> bool" where
  "eligibleForValidation current digest task \<longleftrightarrow>
     infrastructureValid task \<and> discriminating task \<and> \<not> shadowReserved task \<and>
     \<not> feedbackReleased (exposure task) \<and> \<not> positiveValidationConsumed (exposure task) \<and>
     digest \<notin> set (informedHypothesisDigests (exposure task)) \<and>
     (consecutiveExperiments (exposure task) < 2 \<or> regressionCanary task) \<and> 0 \<le> current"

subsection \<open>Panels\<close>

definition repair_quota :: "int \<Rightarrow> selection_bucket \<Rightarrow> int" where
  "repair_quota epoch bucket =
     (let alternating = (if js_rem epoch 2 = 0 then Easy else Coverage)
      in case bucket of
           Hard \<Rightarrow> 3
         | Uncertain \<Rightarrow> 1
         | Easy \<Rightarrow> if alternating = Easy then 1 else 0
         | Coverage \<Rightarrow> if alternating = Coverage then 1 else 0)"

definition selectRepairPanelByEligibility ::
    "host \<Rightarrow> hidden_task list \<Rightarrow> selection_context \<Rightarrow> int \<Rightarrow> panel_selection result" where
  "selectRepairPanelByEligibility h eligible ctx epoch =
     (if \<not> safe_int epoch \<or> epoch < 0
      then Inl (SelectionError ''Repair epoch must be a non-negative safe integer'')
      else and_then (selectByQuota h eligible (repair_quota epoch) (changedComponentRelevance ctx))
        (\<lambda>selected. Inr \<lparr>selection_stage = Repair, selection_tasks = selected,
           selection_quota = repair_quota epoch, selection_policy = SELECTION_POLICY_VERSION\<rparr>))"

definition selectRepairPanel ::
    "host \<Rightarrow> hidden_task list \<Rightarrow> selection_context \<Rightarrow> int \<Rightarrow> panel_selection result" where
  "selectRepairPanel h tasks ctx epoch =
     selectRepairPanelByEligibility h (filter (eligibleForRepair (currentExperiment ctx)) tasks) ctx epoch"

definition selectRepairPanelFromSource ::
    "host \<Rightarrow> hidden_task list \<Rightarrow> selection_context \<Rightarrow> int \<Rightarrow> panel_selection result" where
  "selectRepairPanelFromSource h tasks ctx epoch =
     selectRepairPanelByEligibility h
       (filter (\<lambda>task. infrastructureValid task \<and> feedbackReleased (exposure task) \<and>
          \<not> shadowReserved task) tasks) ctx epoch"

definition fresh_candidates :: "hidden_task list \<Rightarrow> validation_context \<Rightarrow> hidden_task list" where
  "fresh_candidates tasks ctx =
     filter (\<lambda>task. eligibleForValidation (currentExperiment ctx) (frozenHypothesisDigest ctx) task \<and>
       taskId task \<notin> repairTaskIds ctx) tasks"

definition selectValidationPanel ::
    "host \<Rightarrow> hidden_task list \<Rightarrow> validation_context \<Rightarrow> (panel_selection \<times> carry) result" where
  "selectValidationPanel h tasks ctx =
     and_then (allocateValidationQuotas (carry_in ctx)) (\<lambda>allocation.
       and_then (selectByQuota h (fresh_candidates tasks ctx) (quota allocation)
           (changedComponentRelevance ctx)) (\<lambda>selected.
         Inr (\<lparr>selection_stage = Validation, selection_tasks = selected,
               selection_quota = quota allocation, selection_policy = SELECTION_POLICY_VERSION\<rparr>,
              nextCarry allocation)))"

definition panel_ids :: "panel_selection \<Rightarrow> string set" where
  "panel_ids p = selected_id ` set (selection_tasks p)"

definition reserveShadowSlices ::
    "host \<Rightarrow> hidden_task list \<Rightarrow> carry \<Rightarrow> shadow_reservation result" where
  "reserveShadowSlices h tasks carry =
     (let ctx = (\<lambda>ids c. \<lparr>currentExperiment = 0, changedComponentRelevance = [],
         frozenHypothesisDigest = ''shadow-reservation'', repairTaskIds = ids, carry_in = c\<rparr>)
      in and_then (selectValidationPanel h tasks (ctx {} carry)) (\<lambda>(first, c1).
         and_then (selectValidationPanel h tasks (ctx (panel_ids first) c1)) (\<lambda>(second, c2).
           Inr \<lparr>first_slice = first\<lparr>selection_stage := Shadow_stage\<rparr>,
                second_slice = second\<lparr>selection_stage := Shadow_stage\<rparr>,
                reservation_carry = c2\<rparr>)))"

definition reserved_ids :: "shadow_reservation \<Rightarrow> string set" where
  "reserved_ids r = panel_ids (first_slice r) \<union> panel_ids (second_slice r)"

definition markShadowReservations ::
    "hidden_task list \<Rightarrow> shadow_reservation \<Rightarrow> hidden_task list result" where
  "markShadowReservations tasks r =
     (if card (reserved_ids r) \<noteq> 24
      then Inl (SelectionError ''Shadow reservation must contain 24 disjoint tasks'')
      else Inr (map (\<lambda>task. if taskId task \<in> reserved_ids r
                  then task\<lparr>shadowReserved := True\<rparr> else task) tasks))"

subsection \<open>The quotas are fair\<close>

lemma finite_buckets [simp]: "finite (UNIV :: selection_bucket set)"
  by (rule finite_subset [of _ "set BUCKETS"]) (auto simp: BUCKETS_def intro: selection_bucket.exhaust)

lemma BUCKETS_facts [simp]: "set BUCKETS = UNIV" "distinct BUCKETS" "length BUCKETS = 4"
  by (auto simp: BUCKETS_def intro: selection_bucket.exhaust)

lemma js_rem_10: "js_rem v 10 = (if 0 \<le> v then v mod 10 else - ((- v) mod 10))"
  by (cases v "0 :: int" rule: linorder_cases) (simp_all add: js_rem_def)

lemma modulo_10 [simp]: "modulo v 10 = v mod 10"
proof (cases "0 \<le> v")
  case True
  then show ?thesis by (simp add: modulo_def js_rem_10)
next
  case False
  have "(- v) mod 10 < 10" by (rule pos_mod_bound) simp
  then have "modulo v 10 = (10 - (- v) mod 10) mod 10"
    using False by (simp add: modulo_def js_rem_10 [of v]) (simp add: js_rem_10)
  also have "\<dots> = (10 - (- v)) mod 10" by (rule mod_diff_right_eq)
  finally show ?thesis by simp
qed

lemma bucket_index_inject [simp]: "bucket_index a = bucket_index b \<longleftrightarrow> a = b"
  by (cases a; cases b) simp_all

lemma remainder_compare_nonpos:
  "remainder_compare ideal a b \<le> 0 \<longleftrightarrow> ideal b mod 10 < ideal a mod 10 \<or>
     ideal a mod 10 = ideal b mod 10 \<and> bucket_index a \<le> bucket_index b"
  by (simp add: remainder_compare_def TARGET_DENOMINATOR_def Let_def) linarith

lemma remainder_compare_0: "remainder_compare ideal a b = 0 \<longleftrightarrow> a = b"
  by (auto simp add: remainder_compare_def TARGET_DENOMINATOR_def Let_def)

lemma remainder_compare_minus: "remainder_compare ideal b a = - remainder_compare ideal a b"
  by (simp add: remainder_compare_def TARGET_DENOMINATOR_def Let_def)

interpretation remainder: strict_comparator "remainder_compare ideal" UNIV for ideal
proof unfold_locales
  show "sgn (remainder_compare ideal a b) = - sgn (remainder_compare ideal b a)" for a b
    by (subst remainder_compare_minus [of ideal b a]) simp
  show "remainder_compare ideal a c \<le> 0"
    if "remainder_compare ideal a b \<le> 0" "remainder_compare ideal b c \<le> 0" for a b c
    using that unfolding remainder_compare_nonpos by linarith
qed (simp add: remainder_compare_0)

lemma hand_out_take:
  "distinct bs \<Longrightarrow> 0 \<le> k \<Longrightarrow> nat k \<le> length bs \<Longrightarrow>
   hand_out bs q k = (\<lambda>b. q b + (if b \<in> set (take (nat k) bs) then 1 else 0), 0)"
proof (induction bs arbitrary: q k)
  case (Cons b bs)
  show ?case
  proof (cases "k = 0")
    case False
    then have "nat k = Suc (nat (k - 1))" using Cons.prems(2) by simp
    then show ?thesis
      using Cons.IH [of "k - 1" "q(b := q b + 1)"] Cons.prems False
      by (auto simp: fun_eq_iff fun_upd_def dest: in_set_takeD)
  qed simp
qed simp

lemma sum_buckets: "sum_list (map f BUCKETS) = f Hard + f Uncertain + f Easy + f Coverage"
  by (simp add: BUCKETS_def add.assoc)

lemma sum_list_bounds:
  fixes m :: "'a \<Rightarrow> int"
  shows "\<forall>x \<in> set xs. m x \<le> c \<Longrightarrow> sum_list (map m xs) \<le> c * int (length xs)"
  by (induction xs) (auto simp: algebra_simps)

text \<open>
  The slots that the floors leave over go to buckets with a positive remainder: the
  remainders add up to ten times the number of these slots, and they are below ten.
\<close>

lemma handed_out_positive:
  assumes "sum_list (map m bs) = 10 * k" "\<forall>b. 0 \<le> m b \<and> m b \<le> (9 :: int)"
    and "\<forall>a \<in> set (take (nat k) bs). \<forall>b \<in> set (drop (nat k) bs). m b \<le> m a"
    and "nat k \<le> length bs" "0 \<le> k" "b \<in> set (take (nat k) bs)"
  shows "1 \<le> m b"
proof (rule ccontr)
  assume "\<not> 1 \<le> m b"
  then have zero: "m b = 0" using assms(2) by (metis int_one_le_iff_zero_less le_less)
  then have "sum_list (map m (drop (nat k) bs)) \<le> 0 * int (length (drop (nat k) bs))"
    using assms(3,6) by (intro sum_list_bounds) force
  moreover have "sum_list (map m (take (nat k) bs)) \<le> 9 * k - 9"
  proof -
    obtain us vs where split: "take (nat k) bs = us @ b # vs" using assms(6) by (meson split_list)
    have "sum_list (map m us) \<le> 9 * int (length us)" "sum_list (map m vs) \<le> 9 * int (length vs)"
      using assms(2) by (intro sum_list_bounds; simp)+
    moreover have "int (length us) + int (length vs) + 1 = k"
      using arg_cong [OF split, of length] assms(4,5) by simp
    ultimately show ?thesis unfolding split using zero by simp
  qed
  moreover have "sum_list (map m bs) =
      sum_list (map m (take (nat k) bs)) + sum_list (map m (drop (nat k) bs))"
    by (metis append_take_drop_id map_append sum_list_append)
  moreover have "0 < k" using assms(6) by (cases "nat k") auto
  ultimately show False using assms(1) by linarith
qed

lemma validateCarry_ok:
  "validateCarry c = Inr u \<longleftrightarrow> (\<forall>b. - 9 \<le> c b \<and> c b \<le> 9) \<and> c Hard + c Uncertain + c Easy + c Coverage = 0"
proof -
  have "(\<exists>v \<in> set (map c BUCKETS). \<not> safe_int v \<or> v < - 9 \<or> 9 < v) \<longleftrightarrow> \<not> (\<forall>b. - 9 \<le> c b \<and> c b \<le> 9)"
    by (simp add: safe_int_def max_safe_def not_le) (smt (verit))
  then show ?thesis unfolding validateCarry_def sum_buckets by auto
qed

definition fair_allocation :: "carry \<Rightarrow> quota_allocation \<Rightarrow> bool" where
  "fair_allocation c a \<longleftrightarrow>
     (\<forall>b. 10 * quota a b + nextCarry a b = 12 * TARGET_UNITS b + c b \<and>
        0 \<le> quota a b \<and> - 9 \<le> nextCarry a b \<and> nextCarry a b \<le> 9) \<and>
     quota a Hard + quota a Uncertain + quota a Easy + quota a Coverage = 12"

lemma allocation_ok:
  assumes "validateCarry c = Inr ()"
  obtains a where "allocateValidationQuotas c = Inr a" "fair_allocation c a"
    "validateCarry (nextCarry a) = Inr ()"
proof -
  define ideal where "ideal = (\<lambda>b. 12 * TARGET_UNITS b + c b)"
  define floors where "floors = (\<lambda>b. ideal b div 10)"
  define m where "m = (\<lambda>b. ideal b mod 10)"
  define k where "k = 12 - sum_list (map floors BUCKETS)"
  define bs where "bs = sort_by (remainder_compare ideal) BUCKETS"
  define q where "q = (\<lambda>b. floors b + (if b \<in> set (take (nat k) bs) then 1 else 0))"
  have c: "\<forall>b. - 9 \<le> c b \<and> c b \<le> 9" "c Hard + c Uncertain + c Easy + c Coverage = 0"
    using assms by (simp_all add: validateCarry_ok)
  have m: "\<forall>b. 0 \<le> m b \<and> m b \<le> 9" and fm: "\<And>b. ideal b = 10 * floors b + m b"
    by (auto simp: m_def floors_def)
  have "ideal Hard + ideal Uncertain + ideal Easy + ideal Coverage = 120"
    using c(2) by (simp add: ideal_def)
  then have sum: "m Hard + m Uncertain + m Easy + m Coverage = 10 * k"
    unfolding k_def sum_buckets fm by simp
  then have k: "0 \<le> k" "k \<le> 3"
    using m [rule_format, of Hard] m [rule_format, of Uncertain] m [rule_format, of Easy]
      m [rule_format, of Coverage] by linarith+
  have bs: "distinct bs" "length bs = 4" "mset bs = mset BUCKETS" by (simp_all add: bs_def)
  have msum: "sum_list (map m bs) = 10 * k"
    using sum bs(3) by (metis mset_map sum_buckets sum_mset_sum_list)
  have pos: "1 \<le> m b" if "b \<in> set (take (nat k) bs)" for b
  proof (rule handed_out_positive [OF msum m _ _ k(1) that])
    show "\<forall>a\<in>set (take (nat k) bs). \<forall>b\<in>set (drop (nat k) bs). m b \<le> m a"
    proof (intro ballI)
      fix a b
      assume "a \<in> set (take (nat k) bs)" "b \<in> set (drop (nat k) bs)"
      then have "remainder_compare ideal a b \<le> 0"
        using remainder.prefix_first [of BUCKETS a "nat k" ideal b] by (simp add: bs_def)
      then show "m b \<le> m a"
        by (simp add: remainder_compare_def m_def TARGET_DENOMINATOR_def Let_def split: if_splits)
    qed
    show "nat k \<le> length bs" using k bs(2) by simp
  qed
  have out: "hand_out bs floors k = (q, 0)"
    using hand_out_take [of bs k floors] bs k by (simp add: q_def)
  let ?next = "\<lambda>b. ideal b - q b * TARGET_DENOMINATOR"
  let ?a = "\<lparr>quota = q, nextCarry = ?next\<rparr>"
  have next_val: "?next b = (if b \<in> set (take (nat k) bs) then m b - 10 else m b)" for b
    by (simp add: fm q_def TARGET_DENOMINATOR_def)
  have bounds: "- 9 \<le> ?next b \<and> ?next b \<le> 9" for b
    using m [rule_format, of b] pos [of b] unfolding next_val by (auto split: if_splits)
  have "card (set (take (nat k) bs)) = nat k"
    using bs k distinct_card [of "take (nat k) bs"] by simp
  then have "sum_list (map (\<lambda>b. if b \<in> set (take (nat k) bs) then 1 else 0) BUCKETS) = k"
    using k by (simp add: sum_list_distinct_conv_sum_set sum.If_cases)
  then have total: "q Hard + q Uncertain + q Easy + q Coverage = 12"
    unfolding q_def k_def sum_buckets by linarith
  have valid: "validateCarry ?next = Inr ()"
    using bounds total c(2) by (simp add: validateCarry_ok TARGET_DENOMINATOR_def ideal_def)
  have "allocateValidationQuotas c = Inr ?a"
    using assms valid out
    by (simp add: allocateValidationQuotas_def Let_def ideal_def [symmetric] TARGET_DENOMINATOR_def
        floors_def [symmetric] bs_def [symmetric] k_def [symmetric])
  moreover have "0 \<le> q b" for b
    using c(1) [rule_format, of b] by (cases b) (auto simp: q_def floors_def ideal_def)
  then have "fair_allocation c ?a"
    using bounds total by (simp add: fair_allocation_def TARGET_DENOMINATOR_def ideal_def)
  ultimately show thesis using valid that by simp
qed

subsection \<open>Scores are bounded\<close>

definition ranged :: "int \<Rightarrow> int \<Rightarrow> number \<Rightarrow> bool" where
  "ranged l u x \<longleftrightarrow> (\<exists>a. x = Fin a \<and> of_int l \<le> a \<and> a \<le> of_int u)"

lemma ranged_num_of:
  assumes "of_int l \<le> x" "x \<le> of_int u" "\<bar>l\<bar> \<le> 2 ^ 40" "\<bar>u\<bar> \<le> 2 ^ 40"
  shows "ranged l u (num_of x)"
proof -
  have "is_f64 (of_int l)" "is_f64 (of_int u)"
    using assms(3,4) by (intro is_f64_of_int; simp)+
  then have r: "of_int l \<le> round64 x" "round64 x \<le> of_int u"
    using assms(1,2) by (auto intro: round64_ge round64_le)
  have "(of_int (2 ^ 40) :: rat) \<le> max_f64" by (simp add: max_f64_code)
  moreover have "(of_int u :: rat) \<le> of_int (2 ^ 40)" "(of_int (- l) :: rat) \<le> of_int (2 ^ 40)"
    using assms(3,4) by (simp_all only: of_int_le_iff abs_le_iff)
  ultimately have "of_int u \<le> max_f64" "- max_f64 \<le> of_int l" by (simp_all del: of_int_power)
  then show ?thesis using r by (auto simp: num_of_def ranged_def Let_def)
qed

lemma ranged_add:
  assumes "ranged l u x" "ranged l' u' y" "\<bar>l + l'\<bar> \<le> 2 ^ 40" "\<bar>u + u'\<bar> \<le> 2 ^ 40"
  shows "ranged (l + l') (u + u') (num_add x y)"
proof -
  obtain a b where ab: "x = Fin a" "y = Fin b" "of_int l \<le> a" "a \<le> of_int u" "of_int l' \<le> b" "b \<le> of_int u'"
    using assms(1,2) unfolding ranged_def by blast
  show ?thesis unfolding ab(1,2) num_add.simps
    by (rule ranged_num_of) (use ab assms(3,4) in simp_all)
qed

lemma ranged_neg: "ranged l u x \<Longrightarrow> ranged (- u) (- l) (num_neg x)"
  by (auto simp: ranged_def)

lemma ranged_sub:
  assumes "ranged l u x" "ranged l' u' y" "\<bar>l - u'\<bar> \<le> 2 ^ 40" "\<bar>u - l'\<bar> \<le> 2 ^ 40"
  shows "ranged (l - u') (u - l') (num_sub x y)"
  using ranged_add [OF assms(1) ranged_neg [OF assms(2)]] assms(3,4) by (simp add: num_sub_def)

lemma ranged_times:
  assumes "ranged 0 u x" "0 \<le> r" "r \<le> 1" "0 \<le> u" "u \<le> 2 ^ 40"
  shows "ranged 0 u (times r x)"
proof -
  obtain a where a: "x = Fin a" "0 \<le> a" "a \<le> of_int u" using assms(1) by (auto simp: ranged_def)
  have "ranged 0 1 (num_of r)" using assms(2,3) by (intro ranged_num_of) simp_all
  then obtain c where c: "num_of r = Fin c" "0 \<le> c" "c \<le> 1" by (auto simp: ranged_def)
  have "c * a \<le> 1 * of_int u" using a c assms(4) by (intro mult_mono) simp_all
  then show ?thesis
    unfolding a(1) c(1) num_mul.simps using a c assms(4,5) by (intro ranged_num_of) simp_all
qed

lemma unit_value_ranged: "unit_value v \<longleftrightarrow> ranged 0 1 v"
  by (cases v) (auto simp: unit_value_def ranged_def)

lemma ranged_mono: "ranged l u x \<Longrightarrow> l' \<le> l \<Longrightarrow> u \<le> u' \<Longrightarrow> ranged l' u' x"
  by (auto simp: ranged_def intro: order_trans of_int_le_iff [THEN iffD2])

lemma num_NaN [simp]:
  "num_mul a NaN = NaN" "num_mul NaN a = NaN" "num_add a NaN = NaN" "num_add NaN a = NaN"
  "num_sub a NaN = NaN" "num_sub NaN a = NaN"
  by (cases a; simp add: num_sub_def)+

lemma times_unit: "unit_value x \<Longrightarrow> 0 \<le> r \<Longrightarrow> r \<le> 1 \<Longrightarrow> ranged 0 1 (times r x)"
  by (rule ranged_times) (simp_all add: unit_value_ranged)

lemma bucket_signal_ranged:
  assumes "\<forall>v \<in> set (estimate_values e). unit_value v"
  shows "ranged 0 4 (bucket_signal b e)"
proof -
  have u: "unit_value (championFailureProbability e)" "unit_value (baselineFailureProbability e)"
    "unit_value (leaderboardFailureProbability e)" "unit_value (recentFailureProbability e)"
    "unit_value (outcomeUncertainty e)" "unit_value (discrimination e)" "unit_value (underexposure e)"
    "unit_value (missingCapabilityCoverage e)"
    using assms by (simp_all add: estimate_values_def)
  have one: "ranged 1 1 (Fin 1)" by (simp add: ranged_def)
  have neg: "ranged 0 1 (num_sub (Fin 1) x)" if "unit_value x" for x
    using ranged_sub [OF one that [unfolded unit_value_ranged]] by simp
  have t: "ranged 0 1 (times r x)" if "unit_value x \<or> ranged 0 1 x" "0 \<le> r" "r \<le> 1" for r x
    using that times_unit unit_value_ranged by blast
  have two: "ranged 0 2 (num_add x y)" if "ranged 0 1 x" "ranged 0 1 y" for x y
    using ranged_add [OF that] by simp
  have three: "ranged 0 3 (num_add x y)" if "ranged 0 2 x" "ranged 0 1 y" for x y
    using ranged_add [OF that] by simp
  have four: "ranged 0 4 (num_add x y)" if "ranged 0 3 x" "ranged 0 1 y" for x y
    using ranged_add [OF that] by simp
  show ?thesis
  proof (cases b)
    case Hard
    then show ?thesis
      unfolding bucket_signal.simps genericFailureWeight_def Hard
      by (intro four three two t disjI1 u) simp_all
  next
    case Uncertain
    have "ranged 0 2 (bucket_signal b e)"
      unfolding Uncertain bucket_signal.simps by (intro two t disjI1 u) simp_all
    then show ?thesis by (rule ranged_mono) simp_all
  next
    case Easy
    have "ranged 0 3 (bucket_signal b e)"
      unfolding Easy bucket_signal.simps by (intro three two t disjI2 neg u) simp_all
    then show ?thesis by (rule ranged_mono) simp_all
  next
    case Coverage
    have "ranged 0 2 (bucket_signal b e)"
      unfolding Coverage bucket_signal.simps by (intro two t disjI1 u) simp_all
    then show ?thesis by (rule ranged_mono) simp_all
  qed
qed

lemma shared_score_ranged:
  assumes "\<forall>v \<in> set (estimate_values (estimates task)). unit_value v"
    and "unit_value (component_relevance relevance task)"
    and "0 \<le> consecutiveExperiments (exposure task)"
  shows "ranged (- 5) 4 (shared_score relevance task)"
proof -
  let ?e = "estimates task" and ?c = "min (consecutiveExperiments (exposure task)) 3"
  have u: "unit_value (discrimination ?e)" "unit_value (underexposure ?e)"
    "unit_value (missingCapabilityCoverage ?e)" "unit_value (normalizedCost ?e)"
    "unit_value (impossibleProbability ?e)"
    using assms(1) by (simp_all add: estimate_values_def)
  have t: "ranged 0 1 (times r x)" if "unit_value x" "0 \<le> r" "r \<le> 1" for r x
    using that by (rule times_unit)
  have c: "ranged 0 3 (times (12/100) (num_of_int ?c))"
    using assms(3) by (intro ranged_times) (auto simp: ranged_def min_def)
  have add: "ranged 0 (n + 1) (num_add x y)" if "ranged 0 n x" "ranged 0 1 y" "0 \<le> n" "n \<le> 3" for n x y
    using ranged_add [OF that(1,2)] that(3,4) by simp
  let ?a = "num_add (num_add (num_add (times (8/100) (discrimination ?e))
      (times (7/100) (component_relevance relevance task))) (times (5/100) (underexposure ?e)))
      (times (4/100) (missingCapabilityCoverage ?e))"
  have a: "ranged 0 (1 + 1 + 1 + 1) ?a" by (intro add t u assms(2)) simp_all
  have s1: "ranged (- 1) 4 (num_sub ?a (times (4/100) (normalizedCost ?e)))" (is "ranged _ _ ?s1")
    using ranged_sub [OF a t [OF u(4)], of "4/100"] by simp
  have s2: "ranged (- 4) 4 (num_sub ?s1 (times (12/100) (num_of_int ?c)))" (is "ranged _ _ ?s2")
    using ranged_sub [OF s1 c] by simp
  have "ranged (- 5) 4 (num_sub ?s2 (times (12/100) (impossibleProbability ?e)))"
    using ranged_sub [OF s2 t [OF u(5)], of "12/100"] by simp
  then show ?thesis by (simp only: shared_score_def Let_def)
qed

lemma roundScore_ranged:
  assumes "ranged l u v" "\<bar>l\<bar> \<le> 100" "\<bar>u\<bar> \<le> 100"
  obtains r where "roundScore v = Inr r" "ranged l u r" "wf_num r"
proof -
  obtain a where v: "v = Fin a" "of_int l \<le> a" "a \<le> of_int u" using assms(1) by (auto simp: ranged_def)
  have "ranged (l * 1000000000) (u * 1000000000) (num_of (a * 1000000000))"
    using v assms(2,3) by (intro ranged_num_of) simp_all
  then obtain b where b: "num_of (a * 1000000000) = Fin b" "of_int (l * 1000000000) \<le> b" "b \<le> of_int (u * 1000000000)"
    by (auto simp: ranged_def)
  let ?n = "\<lfloor>b + 1 / 2\<rfloor>"
  have n: "l * 1000000000 \<le> ?n" "?n \<le> u * 1000000000"
    using b(2,3) by (simp_all add: le_floor_iff floor_le_iff)
  then have "(of_int (l * 1000000000) :: rat) \<le> of_int ?n" "(of_int ?n :: rat) \<le> of_int (u * 1000000000)"
    by (simp_all only: of_int_le_iff)
  then have "ranged l u (num_of (of_int ?n / 1000000000))"
    using assms(2,3) by (intro ranged_num_of) (simp_all add: field_simps)
  moreover have "roundScore v = Inr (num_of (of_int ?n / 1000000000))"
    by (simp add: roundScore_def v(1) b(1))
  ultimately show thesis using that wf_num_of by blast
qed

definition relevance_ok :: "relevance \<Rightarrow> bool" where
  "relevance_ok relevance \<longleftrightarrow> (\<forall>(stratum, v) \<in> set relevance. stratum \<noteq> [] \<and> unit_value v)"

lemma validateRelevance_ok:
  "validateChangedComponentRelevance relevance = Inr u \<longleftrightarrow> relevance_ok relevance"
  by (auto simp: validateChangedComponentRelevance_def relevance_ok_def check_all_ok split: if_splits)

lemma component_relevance_unit:
  assumes "relevance_ok relevance" "\<forall>v \<in> set (estimate_values (estimates task)). unit_value v"
    and "component_relevance relevance task \<noteq> NaN"
  shows "unit_value (component_relevance relevance task)"
  using assms by (auto simp: component_relevance_def relevance_ok_def estimate_values_def
      split: option.splits if_splits dest!: map_of_SomeD)

lemma shared_score_NaN: "component_relevance relevance task = NaN \<Longrightarrow> shared_score relevance task = NaN"
  by (simp add: shared_score_def Let_def)

lemma bex_not_unit: "\<forall>v \<in> set vs. unit_value v \<Longrightarrow> \<not> (\<exists>v \<in> set vs. \<not> unit_value v)"
  by blast

lemma scoreTask_ok:
  assumes "0 \<le> consecutiveExperiments (exposure task)"
  shows "(\<exists>v. scoreTask task b relevance = Inr v) \<longleftrightarrow>
      (\<forall>v \<in> set (estimate_values (estimates task)). unit_value v) \<and> relevance_ok relevance \<and>
      component_relevance relevance task \<noteq> NaN" (is "?l \<longleftrightarrow> ?r")
    and "scoreTask task b relevance = Inr v \<Longrightarrow> ranged (- 5) 8 v \<and> wf_num v"
proof -
  have r: "\<exists>v. scoreTask task b relevance = Inr v \<and> ranged (- 5) 8 v \<and> wf_num v" if ?r
  proof -
    let ?x = "num_add (bucket_signal b (estimates task)) (shared_score relevance task)"
    have "ranged (- 5) 8 ?x"
      using ranged_add [OF bucket_signal_ranged [of "estimates task" b] shared_score_ranged]
        that assms component_relevance_unit by simp
    from roundScore_ranged [OF this] obtain v where "roundScore ?x = Inr v" "ranged (- 5) 8 v" "wf_num v"
      by auto
    then show ?thesis using that by (simp add: scoreTask_def validateRelevance_ok)
  qed
  have l: ?r if "scoreTask task b relevance = Inr w" for w
  proof -
    have e: "\<forall>v \<in> set (estimate_values (estimates task)). unit_value v"
      using that by (simp add: scoreTask_def split: if_splits)
    then have "relevance_ok relevance"
      "roundScore (num_add (bucket_signal b (estimates task)) (shared_score relevance task)) = Inr w"
      using that unfolding scoreTask_def if_not_P [OF bex_not_unit [OF e]] and_then_Inr validateRelevance_ok
      by blast+
    then show ?thesis using e by (auto simp: roundScore_def shared_score_NaN split: if_splits)
  qed
  show "?l \<longleftrightarrow> ?r" using r l by blast
  show "ranged (- 5) 8 v \<and> wf_num v" if "scoreTask task b relevance = Inr v"
    using r [OF l [OF that]] that by simp
qed

subsection \<open>The order of the candidates\<close>

text \<open>
  What the sort needs of \<open>localeCompare\<close>: on lowercase hexadecimal digests it is a strict
  total order.
\<close>

definition collation_law :: "host \<Rightarrow> bool" where
  "collation_law h \<longleftrightarrow> strict_comparator (locale_compare h) {s. is_sha256 s}"

definition candidate_ok :: "candidate \<Rightarrow> bool" where
  "candidate_ok c \<longleftrightarrow> is_finite (candidate_score c) \<and> wf_num (candidate_score c) \<and>
     is_sha256 (taskId (candidate_task c))"

definition by_score :: "candidate \<Rightarrow> candidate \<Rightarrow> int" where
  "by_score l r = num_sgn (num_sub (candidate_score r) (candidate_score l))"

definition by_last :: "candidate \<Rightarrow> candidate \<Rightarrow> int" where
  "by_last l r =
     (case (lastExperiment (exposure (candidate_task l)), lastExperiment (exposure (candidate_task r))) of
        (None, None) \<Rightarrow> 0 | (None, Some _) \<Rightarrow> - 1 | (Some _, None) \<Rightarrow> 1 | (Some a, Some b) \<Rightarrow> a - b)"

lemma compareCandidates_lex:
  "compareCandidates h = (\<lambda>l r. if by_score l r \<noteq> 0 then by_score l r
     else if by_last l r \<noteq> 0 then by_last l r
     else if total (exposure (candidate_task l)) - total (exposure (candidate_task r)) \<noteq> 0
       then total (exposure (candidate_task l)) - total (exposure (candidate_task r))
     else locale_compare h (taskId (candidate_task l)) (taskId (candidate_task r)))"
  unfolding compareCandidates_def by_score_def by_last_def Let_def
  by (intro ext) (auto split: option.splits)

lemma by_score_sgn:
  assumes "candidate_ok l" "candidate_ok r"
  obtains a b where "candidate_score l = Fin a" "candidate_score r = Fin b"
    "by_score l r = (if a < b then 1 else if b < a then - 1 else 0)"
proof -
  obtain a b where "candidate_score l = Fin a" "candidate_score r = Fin b"
    using assms unfolding candidate_ok_def by (metis is_finite.elims(2))
  then show thesis using assms that num_sgn_sub [of a b] by (simp add: by_score_def candidate_ok_def)
qed

lemma by_score_comparator: "comparator by_score {c. candidate_ok c}"
proof
  fix a b assume ab: "a \<in> {c. candidate_ok c}" "b \<in> {c. candidate_ok c}"
  obtain x y where 1: "candidate_score a = Fin x" "candidate_score b = Fin y"
    "by_score a b = (if x < y then 1 else if y < x then - 1 else 0)"
    using ab by (auto elim: by_score_sgn)
  moreover have "by_score b a = (if y < x then 1 else if x < y then - 1 else 0)"
    using by_score_sgn [of b a] ab 1(1,2) by (metis mem_Collect_eq number.inject)
  ultimately show "sgn (by_score a b) = - sgn (by_score b a)" by simp
next
  fix a b c assume abc: "a \<in> {c. candidate_ok c}" "b \<in> {c. candidate_ok c}" "c \<in> {c. candidate_ok c}"
    "by_score a b \<le> 0" "by_score b c \<le> 0"
  have le: "\<exists>x y. candidate_score l = Fin x \<and> candidate_score r = Fin y \<and> (by_score l r \<le> 0 \<longleftrightarrow> y \<le> x)"
    if "candidate_ok l" "candidate_ok r" for l r
    using that by (rule by_score_sgn) (auto split: if_splits)
  show "by_score a c \<le> 0"
    using le [of a b] le [of b c] le [of a c] abc by auto
qed

lemma by_last_comparator: "comparator by_last carrier"
proof -
  define key where "key = (\<lambda>c :: candidate. lastExperiment (exposure (candidate_task c)))"
  show ?thesis
    unfolding by_last_def key_def [symmetric]
    by unfold_locales (auto simp: sgn_if split: option.splits)
qed

lemma candidates_comparator:
  assumes "collation_law h" shows "comparator (compareCandidates h) {c. candidate_ok c}"
proof -
  have "comparator (\<lambda>l r. locale_compare h (taskId (candidate_task l)) (taskId (candidate_task r)))
      {c. candidate_ok c}"
  proof (rule comparator_image)
    show "comparator (locale_compare h) {s. is_sha256 s}"
      using assms unfolding collation_law_def strict_comparator_def by blast
  qed (auto simp: candidate_ok_def)
  from comparator.tie_break [OF by_score_comparator comparator.tie_break [OF by_last_comparator
        comparator.tie_break [OF int_key_comparator this]]]
  show ?thesis unfolding compareCandidates_lex .
qed

lemma candidates_strict:
  assumes "collation_law h" "C \<subseteq> {c. candidate_ok c}" "inj_on (\<lambda>c. taskId (candidate_task c)) C"
  shows "strict_comparator (compareCandidates h) C"
proof (intro strict_comparator.intro strict_comparator_axioms.intro)
  show "comparator (compareCandidates h) C"
    using candidates_comparator [OF assms(1)] assms(2) by (rule comparator_subset)
  fix a b assume ab: "a \<in> C" "b \<in> C" "compareCandidates h a b = 0"
  then have "locale_compare h (taskId (candidate_task a)) (taskId (candidate_task b)) = 0"
    unfolding compareCandidates_lex by (simp split: if_splits)
  moreover have "is_sha256 (taskId (candidate_task a))" "is_sha256 (taskId (candidate_task b))"
    using ab(1,2) assms(2) by (auto simp: candidate_ok_def)
  ultimately have "taskId (candidate_task a) = taskId (candidate_task b)"
    using strict_comparator.cmp_eq [OF assms(1) [unfolded collation_law_def]] by simp
  then show "a = b" using assms(3) ab(1,2) by (auto dest: inj_onD)
qed

subsection \<open>One bucket\<close>

lemma scored_ok:
  "map_result (score_candidate relevance b) ts = Inr cs \<longleftrightarrow>
     map candidate_task cs = ts \<and> (\<forall>c \<in> set cs. scoreTask (candidate_task c) b relevance = Inr (candidate_score c))"
proof (induction ts arbitrary: cs)
  case (Cons t ts)
  show ?case
  proof (cases cs)
    case (Cons c cs')
    then show ?thesis
      using Cons.IH [of cs'] by (cases c) (auto simp: score_candidate_def)
  qed (auto simp: score_candidate_def)
qed auto

definition open_candidates ::
    "hidden_task list \<Rightarrow> selected_task list \<Rightarrow> selection_bucket \<Rightarrow> hidden_task list" where
  "open_candidates tasks selected b =
     filter (\<lambda>task. b \<in> set (buckets task) \<and> taskId task \<notin> selected_id ` set selected) tasks"

definition chosen :: "selection_bucket \<Rightarrow> candidate \<Rightarrow> selected_task" where
  "chosen b c = \<lparr>selected_id = taskId (candidate_task c), selected_bucket = b, selected_score = candidate_score c\<rparr>"

lemma chosen_simps [simp]:
  "selected_id (chosen b c) = taskId (candidate_task c)" "selected_bucket (chosen b c) = b"
  "selected_score (chosen b c) = candidate_score c"
  by (simp_all add: chosen_def)

lemma select_bucket_ok:
  "select_bucket h tasks q relevance selected b = Inr selected' \<longleftrightarrow>
     safe_int (q b) \<and> 0 \<le> q b \<and>
     (\<exists>cs. map candidate_task cs = open_candidates tasks selected b \<and>
        (\<forall>c \<in> set cs. scoreTask (candidate_task c) b relevance = Inr (candidate_score c)) \<and>
        q b \<le> int (length cs) \<and>
        selected' = selected @ map (chosen b) (take (nat (q b)) (sort_by (compareCandidates h) cs)))"
  unfolding select_bucket_def chosen_def [symmetric]
  by (auto simp: scored_ok open_candidates_def Let_def not_less not_le split: if_splits)

text \<open>What is kept while the buckets are filled: identities differ, and come from the tasks.\<close>

definition picked_from :: "hidden_task list \<Rightarrow> relevance \<Rightarrow> selected_task list \<Rightarrow> bool" where
  "picked_from tasks relevance sel \<longleftrightarrow>
     distinct (map selected_id sel) \<and>
     (\<forall>s \<in> set sel. \<exists>t \<in> set tasks. taskId t = selected_id s \<and> selected_bucket s \<in> set (buckets t) \<and>
        scoreTask t (selected_bucket s) relevance = Inr (selected_score s))"

lemma select_bucket_picked:
  assumes "select_bucket h tasks q relevance sel b = Inr sel'" "picked_from tasks relevance sel"
    and "distinct (map taskId tasks)"
  shows "picked_from tasks relevance sel'"
proof -
  obtain cs where cs: "map candidate_task cs = open_candidates tasks sel b"
    "\<forall>c \<in> set cs. scoreTask (candidate_task c) b relevance = Inr (candidate_score c)"
    and sel': "sel' = sel @ map (chosen b) (take (nat (q b)) (sort_by (compareCandidates h) cs))" (is "_ = _ @ map _ ?top")
    using assms(1) unfolding select_bucket_ok by blast
  have in_cs: "c \<in> set cs" if "c \<in> set ?top" for c
    using in_set_takeD [OF that] by simp
  have task: "candidate_task c \<in> set (open_candidates tasks sel b)" if "c \<in> set ?top" for c
    using in_cs [OF that] cs(1) by (metis image_eqI list.set_map)
  have "distinct (map (taskId \<circ> candidate_task) cs)"
    using assms(3) cs(1) unfolding map_map [symmetric] open_candidates_def
    by (simp add: distinct_map_filter)
  then have "distinct (map (taskId \<circ> candidate_task) (sort_by (compareCandidates h) cs))"
    by (simp add: distinct_map)
  then have "distinct (map (taskId \<circ> candidate_task) ?top)"
    by (simp add: distinct_take take_map [symmetric])
  moreover have "taskId (candidate_task c) \<notin> selected_id ` set sel" if "c \<in> set ?top" for c
    using task [OF that] by (simp add: open_candidates_def)
  ultimately have "distinct (map selected_id sel')"
    using assms(2) unfolding sel' picked_from_def by (auto simp: comp_def) (metis imageI)
  moreover have "\<exists>t \<in> set tasks. taskId t = selected_id s \<and> selected_bucket s \<in> set (buckets t) \<and>
      scoreTask t (selected_bucket s) relevance = Inr (selected_score s)" if s: "s \<in> set sel'" for s
  proof (cases "s \<in> set sel")
    case True
    then show ?thesis using assms(2) by (simp add: picked_from_def)
  next
    case False
    then obtain c where c: "c \<in> set ?top" "s = chosen b c" using s unfolding sel' by auto
    then show ?thesis using task [OF c(1)] in_cs [OF c(1)] cs(2) by (auto simp: open_candidates_def)
  qed
  ultimately show ?thesis by (simp add: picked_from_def)
qed

lemma selectByQuota_picked:
  assumes "selectByQuota h tasks q relevance = Inr sel" "distinct (map taskId tasks)"
  shows "picked_from tasks relevance sel"
  using assms(1) unfolding selectByQuota_def
proof (rule fold_result_invariant)
  show "picked_from tasks relevance []" by (simp add: picked_from_def)
  show "picked_from tasks relevance s'"
    if "picked_from tasks relevance s" "select_bucket h tasks q relevance s b = Inr s'" for s b s'
    using that select_bucket_picked assms(2) by blast
qed

definition bucket_count :: "selection_bucket \<Rightarrow> selected_task list \<Rightarrow> int" where
  "bucket_count b sel = int (length (filter (\<lambda>s. selected_bucket s = b) sel))"

lemma select_bucket_count:
  assumes "select_bucket h tasks q relevance sel b = Inr sel'"
  shows "bucket_count c sel' = bucket_count c sel + (if c = b then q b else 0)" and "0 \<le> q b"
proof -
  obtain cs where cs: "q b \<le> int (length cs)" "0 \<le> q b"
    and sel': "sel' = sel @ map (chosen b) (take (nat (q b)) (sort_by (compareCandidates h) cs))"
    using assms unfolding select_bucket_ok by blast
  then have "length (take (nat (q b)) (sort_by (compareCandidates h) cs)) = nat (q b)" by simp
  then show "bucket_count c sel' = bucket_count c sel + (if c = b then q b else 0)" "0 \<le> q b"
    using cs(2) unfolding sel' bucket_count_def by (auto simp: filter_map comp_def)
qed

lemma fold_bucket_count:
  "fold_result (select_bucket h tasks q relevance) sel bs = Inr sel' \<Longrightarrow> distinct bs \<Longrightarrow>
   bucket_count c sel' = bucket_count c sel + (if c \<in> set bs then q c else 0)"
  by (induction bs arbitrary: sel) (auto simp: select_bucket_count)

lemma selectByQuota_count:
  "selectByQuota h tasks q relevance = Inr sel \<Longrightarrow> bucket_count c sel = q c"
  using fold_bucket_count [of h tasks q relevance "[]" BUCKETS sel c]
  by (simp add: selectByQuota_def bucket_count_def)

lemma length_buckets:
  "int (length sel) = bucket_count Hard sel + bucket_count Uncertain sel + bucket_count Easy sel + bucket_count Coverage sel"
proof (induction sel)
  case (Cons s sel)
  then show ?case by (cases "selected_bucket s") (simp_all add: bucket_count_def)
qed (simp add: bucket_count_def)

text \<open>Of the tasks of a bucket that stay out of the panel, none scores above one it chose.\<close>

definition best_of :: "hidden_task list \<Rightarrow> relevance \<Rightarrow> selected_task list \<Rightarrow> bool" where
  "best_of tasks relevance sel \<longleftrightarrow>
     (\<forall>s \<in> set sel. \<forall>t \<in> set tasks.
        selected_bucket s \<in> set (buckets t) \<longrightarrow> taskId t \<notin> selected_id ` set sel \<longrightarrow>
        (\<exists>v. scoreTask t (selected_bucket s) relevance = Inr v \<and> num_le v (selected_score s)))"

definition tasks_ok :: "hidden_task list \<Rightarrow> bool" where
  "tasks_ok tasks \<longleftrightarrow> distinct (map taskId tasks) \<and>
     (\<forall>t \<in> set tasks. is_sha256 (taskId t) \<and> 0 \<le> consecutiveExperiments (exposure t))"

lemma scored_candidate_ok:
  assumes "scoreTask (candidate_task c) b relevance = Inr (candidate_score c)"
    "candidate_task c \<in> set tasks" "tasks_ok tasks"
  shows "candidate_ok c"
proof -
  have t: "is_sha256 (taskId (candidate_task c))" "0 \<le> consecutiveExperiments (exposure (candidate_task c))"
    using assms(2,3) by (simp_all add: tasks_ok_def)
  then have "ranged (- 5) 8 (candidate_score c) \<and> wf_num (candidate_score c)"
    using scoreTask_ok(2) assms(1) by blast
  then show ?thesis using t(1) by (auto simp: candidate_ok_def ranged_def)
qed

lemma compare_score:
  assumes "compareCandidates h l r \<le> 0" "candidate_ok l" "candidate_ok r"
  shows "num_le (candidate_score r) (candidate_score l)"
proof -
  have "by_score l r \<le> 0"
    using assms(1) unfolding compareCandidates_lex by (simp split: if_splits)
  then show ?thesis using assms(2,3) by (auto elim: by_score_sgn split: if_splits)
qed

lemma select_bucket_best:
  assumes ok: "select_bucket h tasks q relevance sel b = Inr sel'" and best: "best_of tasks relevance sel"
    and tasks: "tasks_ok tasks" and "collation_law h"
  shows "best_of tasks relevance sel'"
proof -
  obtain cs where cs: "map candidate_task cs = open_candidates tasks sel b"
    "\<forall>c \<in> set cs. scoreTask (candidate_task c) b relevance = Inr (candidate_score c)"
    and sel': "sel' = sel @ map (chosen b) (take (nat (q b)) (sort_by (compareCandidates h) cs))"
    using ok unfolding select_bucket_ok by blast
  let ?sorted = "sort_by (compareCandidates h) cs" and ?n = "nat (q b)"
  have task: "candidate_task c \<in> set (open_candidates tasks sel b)" if "c \<in> set cs" for c
    using that cs(1) by (metis image_eqI list.set_map)
  have cok: "candidate_ok c" if "c \<in> set cs" for c
    using scored_candidate_ok cs(2) task [OF that] tasks that by (auto simp: open_candidates_def)
  have new: "\<exists>v. scoreTask t b relevance = Inr v \<and> num_le v (candidate_score c)"
    if c: "c \<in> set (take ?n ?sorted)" and t: "t \<in> set tasks" "b \<in> set (buckets t)"
      "taskId t \<notin> selected_id ` set sel'" for c t
  proof -
    have "t \<in> set (open_candidates tasks sel b)"
      using t unfolding sel' open_candidates_def by auto
    then obtain d where d: "d \<in> set cs" "candidate_task d = t"
      using cs(1) by (metis imageE list.set_map)
    have "d \<notin> set (take ?n ?sorted)"
    proof
      assume "d \<in> set (take ?n ?sorted)"
      then have "chosen b d \<in> set sel'" unfolding sel' by simp
      then show False using t(3) d(2) by (metis chosen_simps(1) imageI)
    qed
    moreover have "set ?sorted = set (take ?n ?sorted) \<union> set (drop ?n ?sorted)"
      by (metis append_take_drop_id set_append)
    ultimately have "d \<in> set (drop ?n ?sorted)" using d(1) by auto
    then have "compareCandidates h c d \<le> 0"
      using comparator.prefix_first [OF candidates_comparator [OF assms(4)] _ c] cok by blast
    moreover have "c \<in> set cs" using in_set_takeD [OF c] by simp
    ultimately have "num_le (candidate_score d) (candidate_score c)"
      using cok d(1) by (intro compare_score)
    then show ?thesis using cs(2) d by auto
  qed
  show ?thesis
    unfolding best_of_def
  proof (intro ballI impI)
    fix s t assume s: "s \<in> set sel'" and t: "t \<in> set tasks" "selected_bucket s \<in> set (buckets t)"
      "taskId t \<notin> selected_id ` set sel'"
    show "\<exists>v. scoreTask t (selected_bucket s) relevance = Inr v \<and> num_le v (selected_score s)"
    proof (cases "s \<in> set sel")
      case True
      moreover have "taskId t \<notin> selected_id ` set sel" using t(3) unfolding sel' by auto
      ultimately show ?thesis using best t(1,2) unfolding best_of_def by blast
    next
      case False
      then obtain c where "c \<in> set (take ?n ?sorted)" "s = chosen b c" using s unfolding sel' by auto
      then show ?thesis using new t by simp
    qed
  qed
qed

lemma selectByQuota_best:
  assumes "selectByQuota h tasks q relevance = Inr sel" "tasks_ok tasks" "collation_law h"
  shows "best_of tasks relevance sel"
  using assms(1) unfolding selectByQuota_def
proof (rule fold_result_invariant)
  show "best_of tasks relevance []" by (simp add: best_of_def)
  show "best_of tasks relevance s'"
    if "best_of tasks relevance s" "select_bucket h tasks q relevance s b = Inr s'" for s b s'
    using that select_bucket_best assms(2,3) by blast
qed

text \<open>The order in which the tasks are listed does not matter.\<close>

lemma select_bucket_perm:
  assumes ok: "select_bucket h tasks q relevance sel b = Inr sel'"
    and tasks: "tasks_ok tasks" and "collation_law h" and perm: "mset tasks = mset tasks'"
  shows "select_bucket h tasks' q relevance sel b = Inr sel'"
proof -
  obtain cs where cs: "map candidate_task cs = open_candidates tasks sel b"
    "\<forall>c \<in> set cs. scoreTask (candidate_task c) b relevance = Inr (candidate_score c)"
    "q b \<le> int (length cs)" "safe_int (q b)" "0 \<le> q b"
    and sel': "sel' = sel @ map (chosen b) (take (nat (q b)) (sort_by (compareCandidates h) cs))"
    using ok unfolding select_bucket_ok by blast
  have task: "candidate_task c \<in> set (open_candidates tasks sel b)" if "c \<in> set cs" for c
    using that cs(1) by (metis image_eqI list.set_map)
  define score where "score = (\<lambda>t. projr (scoreTask t b relevance))"
  define ds where "ds = map (\<lambda>t. \<lparr>candidate_task = t, candidate_score = score t\<rparr>) (open_candidates tasks' sel b)"
  have "cs = map (\<lambda>t. \<lparr>candidate_task = t, candidate_score = score t\<rparr>) (map candidate_task cs)"
    unfolding map_map comp_def by (rule map_idI [symmetric]) (use cs(2) in \<open>simp add: score_def\<close>)
  then have "mset cs = mset ds"
    unfolding ds_def cs(1) open_candidates_def by (metis (no_types, lifting) mset_filter mset_map perm)
  moreover have "strict_comparator (compareCandidates h) (set cs)"
  proof (rule candidates_strict [OF assms(3)])
    show "set cs \<subseteq> {c. candidate_ok c}"
    proof
      fix c assume c: "c \<in> set cs"
      then have "candidate_ok c"
        using cs(2) task [OF c] tasks
        by (intro scored_candidate_ok [of c b relevance tasks]) (simp_all add: open_candidates_def)
      then show "c \<in> {c. candidate_ok c}" by simp
    qed
    have "distinct (map taskId (map candidate_task cs))"
      using tasks unfolding cs(1) open_candidates_def by (simp add: tasks_ok_def distinct_map_filter)
    then show "inj_on (\<lambda>c. taskId (candidate_task c)) (set cs)"
      by (simp add: distinct_map comp_def)
  qed
  ultimately have sorted: "sort_by (compareCandidates h) cs = sort_by (compareCandidates h) ds"
    by (intro strict_comparator.sort_by_perm) auto
  have "set cs = set ds" "length cs = length ds"
    using \<open>mset cs = mset ds\<close> by (auto dest: mset_eq_setD mset_eq_length)
  moreover have "map candidate_task ds = open_candidates tasks' sel b"
    by (simp add: ds_def comp_def)
  ultimately show ?thesis
    using cs(2-5) unfolding select_bucket_ok sel' sorted
    by (intro conjI exI [of _ ds]) simp_all
qed

lemma fold_perm:
  assumes "tasks_ok tasks" "collation_law h" "mset tasks = mset tasks'"
  shows "fold_result (select_bucket h tasks q relevance) sel bs = Inr sel' \<Longrightarrow>
    fold_result (select_bucket h tasks' q relevance) sel bs = Inr sel'"
proof (induction bs arbitrary: sel)
  case (Cons b bs)
  then obtain s where s: "select_bucket h tasks q relevance sel b = Inr s"
    and rest: "fold_result (select_bucket h tasks q relevance) s bs = Inr sel'" by auto
  show ?case
    using select_bucket_perm [OF s assms] Cons.IH [OF rest] by simp
qed simp

lemma tasks_ok_filter: "tasks_ok tasks \<Longrightarrow> tasks_ok (filter P tasks)"
  by (auto simp: tasks_ok_def distinct_map_filter)
end
