(* ===== verification/Selection_Panels.thy ===== *)
theory Selection_Panels
  imports Selection
begin

text \<open>
  Panels of hidden tasks as a whole: the count of the fresh panels that are left
  (\<open>countFreshValidationPanels\<close> of \<open>src/evaluation/selection.ts\<close>, with its termination), that
  only selection errors are thrown, that enough tasks always give a panel, and the
  properties of the selection.
\<close>
subsection \<open>Panels\<close>

lemma selectValidationPanel_ok:
  "selectValidationPanel h tasks ctx = Inr (p, c') \<longleftrightarrow>
     (\<exists>a sel. allocateValidationQuotas (carry_in ctx) = Inr a \<and>
        selectByQuota h (fresh_candidates tasks ctx) (quota a) (changedComponentRelevance ctx) = Inr sel \<and>
        p = \<lparr>selection_stage = Validation, selection_tasks = sel, selection_quota = quota a,
             selection_policy = SELECTION_POLICY_VERSION\<rparr> \<and> c' = nextCarry a)"
  by (auto simp: selectValidationPanel_def)

lemma allocation_valid:
  assumes "allocateValidationQuotas c = Inr a"
  shows "fair_allocation c a" "validateCarry (nextCarry a) = Inr ()" "validateCarry c = Inr ()"
proof -
  show v: "validateCarry c = Inr ()" using assms by (auto simp: allocateValidationQuotas_def)
  show "fair_allocation c a" "validateCarry (nextCarry a) = Inr ()"
    using assms by (auto intro: allocation_ok [OF v])
qed

lemma panel_size:
  assumes "selectValidationPanel h tasks ctx = Inr (p, c')"
  shows "length (selection_tasks p) = 12" "bucket_count b (selection_tasks p) = selection_quota p b"
proof -
  obtain a sel where a: "allocateValidationQuotas (carry_in ctx) = Inr a"
    and sel: "selectByQuota h (fresh_candidates tasks ctx) (quota a) (changedComponentRelevance ctx) = Inr sel"
    and p: "selection_tasks p = sel" "selection_quota p = quota a"
    using assms unfolding selectValidationPanel_ok by auto
  show "bucket_count b (selection_tasks p) = selection_quota p b"
    using selectByQuota_count [OF sel] p by simp
  have "int (length sel) = 12"
    using allocation_valid(1) [OF a] by (simp add: length_buckets selectByQuota_count [OF sel] fair_allocation_def)
  then show "length (selection_tasks p) = 12" using p by simp
qed

lemma select_bucket_members:
  assumes "select_bucket h tasks q relevance sel b = Inr sel'"
  shows "selected_id ` set sel' \<subseteq> selected_id ` set sel \<union> taskId ` set tasks"
proof -
  obtain cs where cs: "map candidate_task cs = open_candidates tasks sel b"
    and sel': "sel' = sel @ map (chosen b) (take (nat (q b)) (sort_by (compareCandidates h) cs))"
    using assms unfolding select_bucket_ok by blast
  have "candidate_task c \<in> set tasks" if "c \<in> set (take n (sort_by (compareCandidates h) cs))" for c n
  proof -
    have "c \<in> set cs" using in_set_takeD [OF that] by simp
    then have "candidate_task c \<in> set (open_candidates tasks sel b)"
      using cs by (metis image_eqI list.set_map)
    then show ?thesis by (simp add: open_candidates_def)
  qed
  then show ?thesis unfolding sel' by auto
qed

lemma panel_members:
  assumes "selectValidationPanel h tasks ctx = Inr (p, c')"
  shows "panel_ids p \<subseteq> taskId ` set (fresh_candidates tasks ctx)"
proof -
  obtain a :: quota_allocation and sel where sel: "fold_result (select_bucket h (fresh_candidates tasks ctx) (quota a)
      (changedComponentRelevance ctx)) [] BUCKETS = Inr sel" and p: "selection_tasks p = sel"
    using assms unfolding selectValidationPanel_ok selectByQuota_def by auto
  let ?I = "\<lambda>sel. selected_id ` set sel \<subseteq> taskId ` set (fresh_candidates tasks ctx)"
  have "?I sel"
  proof (rule fold_result_invariant [where I = ?I, OF sel])
    fix u b v
    assume u: "?I u" and v: "select_bucket h (fresh_candidates tasks ctx) (quota a) (changedComponentRelevance ctx) u b = Inr v"
    show "?I v"
      using select_bucket_members [OF v] Un_least [OF u order_refl] by (rule order_trans)
  qed simp
  then show ?thesis by (simp add: panel_ids_def p)
qed

lemma panel_removes:
  assumes "selectValidationPanel h tasks ctx = Inr (p, c')"
  shows "length (filter (\<lambda>t. taskId t \<notin> panel_ids p) tasks) < length tasks"
proof -
  have "selection_tasks p \<noteq> []" using panel_size(1) [OF assms] by auto
  then have "panel_ids p \<noteq> {}" by (simp add: panel_ids_def)
  then obtain t where "t \<in> set tasks" "taskId t \<in> panel_ids p"
    using panel_members [OF assms] by (auto simp: fresh_candidates_def)
  then show ?thesis by (intro length_filter_less [of t]) simp_all
qed

definition capacity_context :: "carry \<Rightarrow> validation_context" where
  "capacity_context carry = \<lparr>currentExperiment = 0, changedComponentRelevance = [],
     frozenHypothesisDigest = ''capacity-audit'', repairTaskIds = {}, carry_in = carry\<rparr>"

function count_panels :: "host \<Rightarrow> hidden_task list \<Rightarrow> carry \<Rightarrow> int \<Rightarrow> int result" where
  "count_panels h available carry found =
     (if length available < 12 then Inr found
      else case selectValidationPanel h available (capacity_context carry) of
             Inl (SelectionError m) \<Rightarrow> Inr found
           | Inl e \<Rightarrow> Inl e
           | Inr (selected, next) \<Rightarrow>
               count_panels h (filter (\<lambda>task. taskId task \<notin> panel_ids selected) available) next (found + 1))"
  by pat_completeness auto

termination count_panels
  by (relation "measure (\<lambda>(h, available, carry, found). length available)") (auto dest: panel_removes)

declare count_panels.simps [simp del]

definition countFreshValidationPanels :: "host \<Rightarrow> hidden_task list \<Rightarrow> carry \<Rightarrow> int result" where
  "countFreshValidationPanels h tasks carry = count_panels h tasks carry 0"

subsection \<open>Only selection errors are thrown\<close>

definition selection_errors :: "'a result \<Rightarrow> bool" where
  "selection_errors r \<longleftrightarrow> (\<forall>e. r = Inl e \<longrightarrow> (\<exists>m. e = SelectionError m))"

lemma selection_errors_simps [simp]:
  "selection_errors (Inr a)" "selection_errors (Inl (SelectionError m))"
  by (simp_all add: selection_errors_def)

lemma selection_errors_then:
  "selection_errors r \<Longrightarrow> (\<And>a. r = Inr a \<Longrightarrow> selection_errors (f a)) \<Longrightarrow> selection_errors (and_then r f)"
  by (cases r) (auto simp: selection_errors_def)

lemma selection_errors_map: "(\<And>x. selection_errors (f x)) \<Longrightarrow> selection_errors (map_result f xs)"
  by (induction xs) (auto intro!: selection_errors_then)

lemma selection_errors_check: "(\<And>x. selection_errors (f x)) \<Longrightarrow> selection_errors (check_all f xs)"
  by (induction xs) (auto intro!: selection_errors_then)

lemma selection_errors_fold:
  "(\<And>s x. selection_errors (f s x)) \<Longrightarrow> selection_errors (fold_result f s xs)"
  by (induction xs arbitrary: s) (auto intro!: selection_errors_then)

lemma scoreTask_errors: "selection_errors (scoreTask task b relevance)"
  unfolding scoreTask_def validateChangedComponentRelevance_def roundScore_def
  by (auto intro!: selection_errors_then selection_errors_check)

lemma selectByQuota_errors: "selection_errors (selectByQuota h tasks q relevance)"
  unfolding selectByQuota_def select_bucket_def score_candidate_def Let_def
  by (intro selection_errors_fold)
    (auto intro!: selection_errors_then selection_errors_map scoreTask_errors)

lemma allocate_errors: "selection_errors (allocateValidationQuotas c)"
  unfolding allocateValidationQuotas_def validateCarry_def Let_def
  by (auto intro!: selection_errors_then split: prod.split)

lemma panel_errors: "selection_errors (selectValidationPanel h tasks ctx)"
  unfolding selectValidationPanel_def
  by (intro selection_errors_then allocate_errors selectByQuota_errors) simp

lemma panel_picked:
  assumes "selectValidationPanel h tasks ctx = Inr (p, c')" "distinct (map taskId tasks)"
  shows "picked_from (fresh_candidates tasks ctx) (changedComponentRelevance ctx) (selection_tasks p)"
proof -
  have "distinct (map taskId (fresh_candidates tasks ctx))"
    using assms(2) by (simp add: fresh_candidates_def distinct_map_filter)
  then show ?thesis
    using assms(1) selectByQuota_picked unfolding selectValidationPanel_ok by auto
qed

lemma panel_card:
  assumes "selectValidationPanel h tasks ctx = Inr (p, c')" "distinct (map taskId tasks)"
  shows "card (panel_ids p) = 12"
  using panel_picked [OF assms] panel_size(1) [OF assms(1)] distinct_card [of "map selected_id (selection_tasks p)"]
  by (simp add: picked_from_def panel_ids_def)

lemma removed_panel:
  assumes "selectValidationPanel h tasks ctx = Inr (p, c')" "distinct (map taskId tasks)"
  shows "length (filter (\<lambda>t. taskId t \<notin> panel_ids p) tasks) + 12 = length tasks"
proof -
  have "panel_ids p \<subseteq> taskId ` set tasks"
    using panel_members [OF assms(1)] by (auto simp: fresh_candidates_def)
  then have "taskId ` set (filter (\<lambda>t. taskId t \<in> panel_ids p) tasks) = panel_ids p" by auto
  then have "length (filter (\<lambda>t. taskId t \<in> panel_ids p) tasks) = 12"
    using panel_card [OF assms] distinct_card [OF distinct_map_filter [OF assms(2)]]
    by (metis length_map list.set_map)
  then show ?thesis using sum_length_filter_compl [of "\<lambda>t. taskId t \<in> panel_ids p" tasks] by simp
qed

lemma count_panels_bound:
  "distinct (map taskId available) \<Longrightarrow>
   \<exists>n. count_panels h available carry found = Inr n \<and> found \<le> n \<and> 12 * (n - found) \<le> int (length available)"
proof (induction h available carry found rule: count_panels.induct)
  case (1 h available carry found)
  show ?case
  proof (cases "length available < 12")
    case True
    then show ?thesis by (simp add: count_panels.simps)
  next
    case False
    show ?thesis
    proof (cases "selectValidationPanel h available (capacity_context carry)")
      case (Inl e)
      then obtain m where "e = SelectionError m"
        using panel_errors [of h available "capacity_context carry"] unfolding selection_errors_def by blast
      then show ?thesis using False Inl by (simp add: count_panels.simps)
    next
      case (Inr r)
      obtain p c' where r: "r = (p, c')" by (cases r)
      let ?rest = "filter (\<lambda>t. taskId t \<notin> panel_ids p) available"
      have "distinct (map taskId ?rest)" using 1(2) by (rule distinct_map_filter)
      then obtain n where "count_panels h ?rest c' (found + 1) = Inr n" "found + 1 \<le> n"
        "12 * (n - (found + 1)) \<le> int (length ?rest)"
        using 1(1) [OF False Inr r [symmetric]] by blast
      moreover have "int (length ?rest) + 12 = int (length available)"
        using removed_panel [OF Inr [unfolded r] 1(2)] by linarith
      ultimately show ?thesis
        using False Inr r by (simp add: count_panels.simps [of h available]) 
    qed
  qed
qed

subsection \<open>Enough tasks always give a panel\<close>

lemma map_result_total: "(\<And>x. x \<in> set xs \<Longrightarrow> \<exists>y. f x = Inr y) \<Longrightarrow> \<exists>ys. map_result f xs = Inr ys"
proof (induction xs)
  case (Cons x xs)
  obtain y where "f x = Inr y" using Cons.prems [of x] by auto
  moreover obtain ys where "map_result f xs = Inr ys" using Cons by auto
  ultimately show ?case by simp
qed simp

lemma length_filter_ids:
  assumes "distinct (map f xs)" "finite A"
  shows "length xs \<le> length (filter (\<lambda>x. f x \<notin> A) xs) + card A"
proof -
  have "length (filter (\<lambda>x. f x \<in> A) xs) = card (f ` set (filter (\<lambda>x. f x \<in> A) xs))"
    using distinct_card [OF distinct_map_filter [OF assms(1), of "\<lambda>x. f x \<in> A"]] by simp
  also have "\<dots> \<le> card A" using assms(2) by (intro card_mono) auto
  finally show ?thesis using sum_length_filter_compl [of "\<lambda>x. f x \<in> A" xs] by simp
qed

lemma select_bucket_total:
  assumes "distinct (map taskId tasks)" "\<forall>t \<in> set tasks. \<exists>v. scoreTask t b relevance = Inr v"
    and "12 \<le> length (filter (\<lambda>t. b \<in> set (buckets t)) tasks)"
    and "0 \<le> q b" "int (length sel) + q b \<le> 12"
  obtains sel' where "select_bucket h tasks q relevance sel b = Inr sel'"
    "int (length sel') = int (length sel) + q b"
proof -
  let ?open = "open_candidates tasks sel b"
  obtain cs where cs: "map_result (score_candidate relevance b) ?open = Inr cs"
    using assms(2) map_result_total [of ?open "score_candidate relevance b"]
    by (fastforce simp: score_candidate_def open_candidates_def)
  have split: "?open = filter (\<lambda>t. taskId t \<notin> selected_id ` set sel) (filter (\<lambda>t. b \<in> set (buckets t)) tasks)"
    unfolding open_candidates_def filter_filter by (rule arg_cong [of _ _ "\<lambda>P. filter P tasks"]) auto
  have "length (filter (\<lambda>t. b \<in> set (buckets t)) tasks) \<le> length ?open + card (selected_id ` set sel)"
    unfolding split by (rule length_filter_ids [OF distinct_map_filter [OF assms(1)]]) simp
  then have "12 \<le> length ?open + card (selected_id ` set sel)" using assms(3) by linarith
  moreover have "card (selected_id ` set sel) \<le> length sel"
    by (metis card_length length_map list.set_map)
  moreover have "length cs = length ?open" using cs by (metis length_map scored_ok)
  ultimately have enough: "q b \<le> int (length cs)" using assms(5) by linarith
  have safe: "safe_int (q b)" using assms(4,5) by (simp add: safe_int_def max_safe_def)
  let ?sel = "sel @ map (chosen b) (take (nat (q b)) (sort_by (compareCandidates h) cs))"
  have "select_bucket h tasks q relevance sel b = Inr ?sel"
    using cs enough safe assms(4) unfolding select_bucket_ok scored_ok by blast
  moreover have "int (length ?sel) = int (length sel) + q b" using enough assms(4) by simp
  ultimately show thesis by (rule that)
qed

lemma fold_total:
  assumes "distinct (map taskId tasks)" "\<forall>t \<in> set tasks. \<forall>b. \<exists>v. scoreTask t b relevance = Inr v"
    and "\<forall>b. 12 \<le> length (filter (\<lambda>t. b \<in> set (buckets t)) tasks)" "\<forall>b. 0 \<le> q b"
  shows "int (length sel) + sum_list (map q bs) \<le> 12 \<Longrightarrow>
    \<exists>sel'. fold_result (select_bucket h tasks q relevance) sel bs = Inr sel'"
proof (induction bs arbitrary: sel)
  case (Cons b bs)
  have "0 \<le> sum_list (map q bs)" using assms(4) by (induction bs) auto
  then obtain sel' where s: "select_bucket h tasks q relevance sel b = Inr sel'"
    "int (length sel') = int (length sel) + q b"
    using Cons.prems assms by (auto intro: select_bucket_total [of tasks b relevance q sel h])
  then show ?case using Cons.IH [of sel'] Cons.prems by simp
qed simp

lemma panel_exists:
  assumes "validateCarry (carry_in ctx) = Inr ()" "tasks_ok tasks"
    and "relevance_ok (changedComponentRelevance ctx)"
    and "\<forall>t \<in> set (fresh_candidates tasks ctx). (\<forall>v \<in> set (estimate_values (estimates t)). unit_value v) \<and>
      component_relevance (changedComponentRelevance ctx) t \<noteq> NaN"
    and "\<forall>b. 12 \<le> length (filter (\<lambda>t. b \<in> set (buckets t)) (fresh_candidates tasks ctx))"
  shows "\<exists>p c'. selectValidationPanel h tasks ctx = Inr (p, c')"
proof -
  obtain a where a: "allocateValidationQuotas (carry_in ctx) = Inr a" "fair_allocation (carry_in ctx) a"
    using assms(1) by (rule allocation_ok)
  let ?fresh = "fresh_candidates tasks ctx"
  have ok: "tasks_ok ?fresh" unfolding fresh_candidates_def using assms(2) by (rule tasks_ok_filter)
  then have "\<forall>t \<in> set ?fresh. \<forall>b. \<exists>v. scoreTask t b (changedComponentRelevance ctx) = Inr v"
    using assms(3,4) scoreTask_ok(1) unfolding tasks_ok_def by blast
  moreover have "sum_list (map (quota a) BUCKETS) = 12" "\<forall>b. 0 \<le> quota a b"
    using a(2) unfolding fair_allocation_def sum_buckets by blast+
  ultimately obtain sel where "selectByQuota h ?fresh (quota a) (changedComponentRelevance ctx) = Inr sel"
    using fold_total [of ?fresh "changedComponentRelevance ctx" "quota a" "[]" BUCKETS h] ok assms(5)
    unfolding selectByQuota_def tasks_ok_def by auto
  then show ?thesis using a(1) unfolding selectValidationPanel_ok by blast
qed

text \<open>Tasks that lie in every bucket, for the witnesses.\<close>

definition ordered_host :: host where
  "ordered_host = simple_host\<lparr>locale_compare := \<lambda>a b. if a = b then 0 else if a < b then - 1 else 1\<rparr>"

lemma ordered_collation: "collation_law ordered_host"
  unfolding collation_law_def ordered_host_def
  by unfold_locales (auto simp: sgn_if split: if_splits)

definition plain_task :: "bool \<Rightarrow> char \<times> char \<Rightarrow> hidden_task" where
  "plain_task released i = (case i of (c, d) \<Rightarrow>
     \<lparr>taskId = replicate 62 CHR ''a'' @ [c, d], taskRevisionDigest = sixty_four CHR ''0'',
      capabilityStratum = ''io'', difficultyStratum = ''easy'', buckets = BUCKETS,
      estimates = \<lparr>championFailureProbability = Fin 0, baselineFailureProbability = Fin 0,
        leaderboardFailureProbability = Fin 0, recentFailureProbability = Fin 0,
        outcomeUncertainty = Fin 0, discrimination = Fin 0, componentRelevance = Fin 0,
        underexposure = Fin 0, missingCapabilityCoverage = Fin 0, normalizedCost = Fin 0,
        impossibleProbability = Fin 0\<rparr>,
      exposure = \<lparr>total = 0, consecutiveExperiments = 0, lastExperiment = None,
        feedbackReleased = released, positiveValidationConsumed = False,
        taskCooldownThroughExperiment = None, informedHypothesisDigests = []\<rparr>,
      shadowReserved = False, regressionCanary = False, infrastructureValid = True,
      discriminating = True\<rparr>)"

definition sample_ids :: "(char \<times> char) list" where
  "sample_ids = List.product ''abc'' ''0123456789ab''"

lemma sample_ids_facts: "distinct sample_ids" "length sample_ids = 36"
    "\<forall>i \<in> set sample_ids. lower_hex (fst i) \<and> lower_hex (snd i)"
  by (simp_all add: sample_ids_def lower_hex_def)

definition plain_tasks :: "bool \<Rightarrow> hidden_task list" where
  "plain_tasks released = map (plain_task released) sample_ids"

lemma plain_task_simps [simp]:
  "taskId (plain_task f i) = replicate 62 CHR ''a'' @ [fst i, snd i]"
  "buckets (plain_task f i) = BUCKETS" "capabilityStratum (plain_task f i) = ''io''"
  "consecutiveExperiments (exposure (plain_task f i)) = 0"
  "feedbackReleased (exposure (plain_task f i)) = f"
  "\<forall>v \<in> set (estimate_values (estimates (plain_task f i))). unit_value v"
  by (simp_all add: plain_task_def unit_value_def estimate_values_def split: prod.split del: replicate.simps)

lemma plain_tasks_ok: "tasks_ok (plain_tasks f)"
proof -
  have "is_sha256 (taskId (plain_task f i))" if "i \<in> set sample_ids" for i
    using that sample_ids_facts(3) by (auto simp: is_sha256_def list_all_iff lower_hex_def simp del: replicate.simps)
  moreover have "distinct (map taskId (plain_tasks f))"
    unfolding plain_tasks_def map_map
    by (simp add: distinct_map sample_ids_facts inj_on_def prod_eq_iff del: replicate.simps)
  ultimately show ?thesis
    unfolding tasks_ok_def plain_tasks_def by (auto simp del: replicate.simps plain_task_simps(1))
qed

definition plain_context :: "string \<Rightarrow> string set \<Rightarrow> carry \<Rightarrow> validation_context" where
  "plain_context digest ids c = \<lparr>currentExperiment = 0, changedComponentRelevance = [],
     frozenHypothesisDigest = digest, repairTaskIds = ids, carry_in = c\<rparr>"

lemma plain_context_simps [simp]:
  "carry_in (plain_context d ids c) = c" "changedComponentRelevance (plain_context d ids c) = []"
  "repairTaskIds (plain_context d ids c) = ids" "frozenHypothesisDigest (plain_context d ids c) = d"
  "currentExperiment (plain_context d ids c) = 0"
  by (simp_all add: plain_context_def)

lemma plain_fresh:
  "fresh_candidates (plain_tasks False) (plain_context d ids c) =
     filter (\<lambda>t. taskId t \<notin> ids) (plain_tasks False)"
  unfolding fresh_candidates_def plain_tasks_def
  by (rule filter_cong) (auto simp: eligibleForValidation_def plain_task_def)

lemma plain_relevant: "t \<in> set (plain_tasks f) \<Longrightarrow> component_relevance [] t \<noteq> NaN"
proof -
  have "''io'' \<notin> set INHERITED_MEMBERS" by (simp add: INHERITED_MEMBERS_def OBJECT_PROTOTYPE_def)
  then show "t \<in> set (plain_tasks f) \<Longrightarrow> component_relevance [] t \<noteq> NaN"
    by (auto simp: plain_tasks_def component_relevance_def) (auto simp: plain_task_def)
qed

lemma initial_carry_ok: "validateCarry initialValidationQuotaCarry = Inr ()"
  by (simp add: validateCarry_ok initialValidationQuotaCarry_def)

lemma plain_enough:
  assumes "finite ids" "card ids \<le> 12"
  shows "12 \<le> length (filter (\<lambda>t. b \<in> set (buckets t)) (fresh_candidates (plain_tasks False) (plain_context d ids c)))"
proof -
  have "filter (\<lambda>t. b \<in> set (buckets t)) (filter (\<lambda>t. taskId t \<notin> ids) (plain_tasks False)) =
      filter (\<lambda>t. taskId t \<notin> ids) (plain_tasks False)"
    by (rule filter_True) (auto simp: plain_tasks_def)
  moreover have "length (plain_tasks False) = 36" by (simp add: plain_tasks_def sample_ids_facts)
  ultimately show ?thesis
    unfolding plain_fresh
    using length_filter_ids [of taskId "plain_tasks False" ids] plain_tasks_ok assms by (simp add: tasks_ok_def)
qed

lemma plain_panel:
  assumes "finite ids" "card ids \<le> 12" "validateCarry c = Inr ()"
  shows "\<exists>p c'. selectValidationPanel ordered_host (plain_tasks False) (plain_context d ids c) = Inr (p, c')"
proof (rule panel_exists)
  show "\<forall>b. 12 \<le> length (filter (\<lambda>t. b \<in> set (buckets t)) (fresh_candidates (plain_tasks False) (plain_context d ids c)))"
    using plain_enough assms(1,2) by simp
  show "\<forall>t \<in> set (fresh_candidates (plain_tasks False) (plain_context d ids c)).
      (\<forall>v \<in> set (estimate_values (estimates t)). unit_value v) \<and>
      component_relevance (changedComponentRelevance (plain_context d ids c)) t \<noteq> NaN"
    using plain_relevant unfolding plain_fresh by (auto simp: plain_tasks_def)
qed (simp_all add: assms(3) plain_tasks_ok relevance_ok_def)

subsection \<open>Properties\<close>

text \<open>The quotas of successive fresh panels, each with the carry the previous one left.\<close>

fun allocate_panels :: "nat \<Rightarrow> carry \<Rightarrow> ((selection_bucket \<Rightarrow> int) list \<times> carry) result" where
  "allocate_panels 0 carry = Inr ([], carry)"
| "allocate_panels (Suc n) carry =
     and_then (allocateValidationQuotas carry) (\<lambda>a.
       and_then (allocate_panels n (nextCarry a)) (\<lambda>(qs, c). Inr (quota a # qs, c)))"

text \<open>
  C35. The quotas are fair in the long run: from any valid carry the allocation always
  succeeds, every panel gets exactly twelve slots, no quota is negative, and after any
  number of panels each bucket has received its target share (6, 2, 1 and 1 tenths of all
  slots) up to less than two slots, the difference being exactly the carry.
\<close>

theorem quotas_fair:
  assumes "validateCarry c = Inr ()"
  shows "\<exists>qs c'. allocate_panels n c = Inr (qs, c') \<and> length qs = n \<and>
    (\<forall>q \<in> set qs. q Hard + q Uncertain + q Easy + q Coverage = 12 \<and> (\<forall>b. 0 \<le> q b)) \<and>
    (\<forall>b. 10 * sum_list (map (\<lambda>q. q b) qs) = 12 * int n * TARGET_UNITS b + c b - c' b \<and>
      \<bar>10 * sum_list (map (\<lambda>q. q b) qs) - 12 * int n * TARGET_UNITS b\<bar> \<le> 18)"
proof -
  have "\<exists>qs c'. allocate_panels n c = Inr (qs, c') \<and> length qs = n \<and> validateCarry c' = Inr () \<and>
    (\<forall>q \<in> set qs. q Hard + q Uncertain + q Easy + q Coverage = 12 \<and> (\<forall>b. 0 \<le> q b)) \<and>
    (\<forall>b. 10 * sum_list (map (\<lambda>q. q b) qs) = 12 * int n * TARGET_UNITS b + c b - c' b)"
    using assms
  proof (induction n arbitrary: c)
    case (Suc n)
    obtain a where a: "allocateValidationQuotas c = Inr a" "fair_allocation c a"
      "validateCarry (nextCarry a) = Inr ()" using Suc.prems by (rule allocation_ok)
    from Suc.IH [OF a(3)] obtain qs c' where r: "allocate_panels n (nextCarry a) = Inr (qs, c')"
      "length qs = n" "validateCarry c' = Inr ()"
      "\<forall>q \<in> set qs. q Hard + q Uncertain + q Easy + q Coverage = 12 \<and> (\<forall>b. 0 \<le> q b)"
      "\<forall>b. 10 * sum_list (map (\<lambda>q. q b) qs) = 12 * int n * TARGET_UNITS b + nextCarry a b - c' b" by blast
    have "10 * (quota a b + sum_list (map (\<lambda>q. q b) qs)) = 12 * int (Suc n) * TARGET_UNITS b + c b - c' b" for b
    proof -
      have "10 * quota a b + nextCarry a b = 12 * TARGET_UNITS b + c b"
        using a(2) unfolding fair_allocation_def by blast
      then show ?thesis using r(5) [rule_format, of b] by (simp add: algebra_simps)
    qed
    then show ?case
      using a r(1-4) by (intro exI [of _ "quota a # qs"] exI [of _ c']) (simp add: fair_allocation_def)
  qed simp
  then obtain qs c' where r: "allocate_panels n c = Inr (qs, c')" "length qs = n" "validateCarry c' = Inr ()"
    "\<forall>q \<in> set qs. q Hard + q Uncertain + q Easy + q Coverage = 12 \<and> (\<forall>b. 0 \<le> q b)"
    "\<forall>b. 10 * sum_list (map (\<lambda>q. q b) qs) = 12 * int n * TARGET_UNITS b + c b - c' b" by blast
  have "\<bar>c b - c' b\<bar> \<le> 18" for b
    using assms r(3) unfolding validateCarry_ok by (smt (verit))
  then show ?thesis using r by (intro exI [of _ qs] exI [of _ c']) simp
qed

theorem quotas_fair_witness:
  "\<exists>qs c'. allocate_panels 5 initialValidationQuotaCarry = Inr (qs, c') \<and>
     \<bar>10 * sum_list (map (\<lambda>q. q Easy) qs) - 60\<bar> \<le> 18"
proof -
  have "validateCarry initialValidationQuotaCarry = Inr ()"
    by (simp add: validateCarry_ok initialValidationQuotaCarry_def)
  then obtain qs c' where "allocate_panels 5 initialValidationQuotaCarry = Inr (qs, c')"
    "\<bar>10 * sum_list (map (\<lambda>q. q Easy) qs) - 12 * int 5 * TARGET_UNITS Easy\<bar> \<le> 18"
    using quotas_fair by blast
  then show ?thesis by (intro exI [of _ qs] exI [of _ c']) simp
qed

text \<open>
  C36. A fresh panel is sound: it has exactly twelve distinct tasks, as many of each bucket
  as the quota, each of them listed in the bucket it stands for and carrying its score, and
  every one of them is eligible: valid, discriminating, not reserved, never released or
  consumed, not informing the frozen hypothesis, not in a third experiment in a row unless it is a
  canary, and not among the repair tasks.
\<close>

theorem validation_panel_sound:
  assumes "selectValidationPanel h tasks ctx = Inr (p, c')" "distinct (map taskId tasks)"
  shows "selection_stage p = Validation \<and> length (selection_tasks p) = 12 \<and>
    distinct (map selected_id (selection_tasks p)) \<and>
    (\<forall>b. bucket_count b (selection_tasks p) = selection_quota p b) \<and>
    (\<forall>s \<in> set (selection_tasks p). \<exists>t \<in> set tasks. taskId t = selected_id s \<and>
       selected_bucket s \<in> set (buckets t) \<and>
       scoreTask t (selected_bucket s) (changedComponentRelevance ctx) = Inr (selected_score s) \<and>
       infrastructureValid t \<and> discriminating t \<and> \<not> shadowReserved t \<and>
       \<not> feedbackReleased (exposure t) \<and> \<not> positiveValidationConsumed (exposure t) \<and>
       frozenHypothesisDigest ctx \<notin> set (informedHypothesisDigests (exposure t)) \<and>
       (consecutiveExperiments (exposure t) < 2 \<or> regressionCanary t) \<and> 0 \<le> currentExperiment ctx \<and>
       taskId t \<notin> repairTaskIds ctx)"
proof -
  have picked: "picked_from (fresh_candidates tasks ctx) (changedComponentRelevance ctx) (selection_tasks p)"
    using assms by (rule panel_picked)
  have "selection_stage p = Validation" using assms(1) unfolding selectValidationPanel_ok by auto
  then show ?thesis
    using picked panel_size [OF assms(1)]
    by (fastforce simp: picked_from_def fresh_candidates_def eligibleForValidation_def)
qed

theorem validation_panel_sound_witness:
  "\<exists>p c'. selectValidationPanel ordered_host (plain_tasks False)
       (plain_context ''h'' {} initialValidationQuotaCarry) = Inr (p, c') \<and>
     length (selection_tasks p) = 12 \<and> distinct (map selected_id (selection_tasks p))"
proof -
  obtain p c' where p: "selectValidationPanel ordered_host (plain_tasks False)
      (plain_context ''h'' {} initialValidationQuotaCarry) = Inr (p, c')"
    using plain_panel initial_carry_ok by fastforce
  have "distinct (map taskId (plain_tasks False))" using plain_tasks_ok by (simp add: tasks_ok_def)
  from validation_panel_sound [OF p this] p show ?thesis by blast
qed

text \<open>
  C37. A fresh panel is the best one: no eligible task that lies in a bucket and was left out
  of the panel scores above a task the panel chose for that bucket.
\<close>

theorem validation_panel_best:
  assumes "selectValidationPanel h tasks ctx = Inr (p, c')" "tasks_ok tasks" "collation_law h"
    and "s \<in> set (selection_tasks p)" "t \<in> set (fresh_candidates tasks ctx)"
    and "selected_bucket s \<in> set (buckets t)" "taskId t \<notin> panel_ids p"
  shows "\<exists>v. scoreTask t (selected_bucket s) (changedComponentRelevance ctx) = Inr v \<and>
    num_le v (selected_score s)"
proof -
  have ok: "tasks_ok (fresh_candidates tasks ctx)"
    unfolding fresh_candidates_def using assms(2) by (rule tasks_ok_filter)
  have "best_of (fresh_candidates tasks ctx) (changedComponentRelevance ctx) (selection_tasks p)"
    using assms(1) selectByQuota_best [OF _ ok assms(3)] unfolding selectValidationPanel_ok by auto
  then show ?thesis using assms(4-7) by (simp add: best_of_def panel_ids_def)
qed

theorem validation_panel_best_witness:
  "\<exists>p c' s t v. selectValidationPanel ordered_host (plain_tasks False)
       (plain_context ''h'' {} initialValidationQuotaCarry) = Inr (p, c') \<and>
     s \<in> set (selection_tasks p) \<and> t \<in> set (plain_tasks False) \<and> taskId t \<notin> panel_ids p \<and>
     scoreTask t (selected_bucket s) [] = Inr v \<and> num_le v (selected_score s)"
proof -
  let ?ctx = "plain_context ''h'' {} initialValidationQuotaCarry"
  obtain p c' where p: "selectValidationPanel ordered_host (plain_tasks False) ?ctx = Inr (p, c')"
    using plain_panel initial_carry_ok by fastforce
  have d: "distinct (map taskId (plain_tasks False))" using plain_tasks_ok by (simp add: tasks_ok_def)
  obtain s where s: "s \<in> set (selection_tasks p)" using panel_size(1) [OF p] by (cases "selection_tasks p") auto
  have "length (filter (\<lambda>t. taskId t \<notin> panel_ids p) (plain_tasks False)) \<noteq> 0"
    using removed_panel [OF p d] by (simp add: plain_tasks_def sample_ids_facts)
  then obtain t where t: "t \<in> set (plain_tasks False)" "taskId t \<notin> panel_ids p"
    by (metis (mono_tags, lifting) filter_False length_0_conv)
  then have f: "t \<in> set (fresh_candidates (plain_tasks False) ?ctx)" unfolding plain_fresh by simp
  have b: "selected_bucket s \<in> set (buckets t)" using t(1) by (auto simp: plain_tasks_def)
  from validation_panel_best [OF p plain_tasks_ok ordered_collation s f b t(2)] p s t
  show ?thesis unfolding plain_context_simps by blast
qed

text \<open>
  C38. The selection is deterministic in the set of tasks: listing the tasks in another order
  gives the same panel, task by task, and the same carry.
\<close>

theorem selection_order_independent:
  assumes "selectValidationPanel h tasks ctx = Inr r" "tasks_ok tasks" "collation_law h"
    and "mset tasks = mset tasks'"
  shows "selectValidationPanel h tasks' ctx = Inr r"
proof -
  obtain p c' where r: "r = (p, c')" by (cases r)
  have ok: "tasks_ok (fresh_candidates tasks ctx)"
    unfolding fresh_candidates_def using assms(2) by (rule tasks_ok_filter)
  have perm: "mset (fresh_candidates tasks ctx) = mset (fresh_candidates tasks' ctx)"
    unfolding fresh_candidates_def by (simp add: assms(4))
  show ?thesis
    using assms(1) fold_perm [OF ok assms(3) perm]
    unfolding r selectValidationPanel_ok selectByQuota_def by blast
qed

theorem selection_order_independent_witness:
  "selectValidationPanel ordered_host (rev (plain_tasks False)) (plain_context ''h'' {} initialValidationQuotaCarry) =
   selectValidationPanel ordered_host (plain_tasks False) (plain_context ''h'' {} initialValidationQuotaCarry)"
proof -
  obtain p c' where p: "selectValidationPanel ordered_host (plain_tasks False)
      (plain_context ''h'' {} initialValidationQuotaCarry) = Inr (p, c')"
    using plain_panel initial_carry_ok by fastforce
  show ?thesis
    using p selection_order_independent [OF p plain_tasks_ok ordered_collation, of "rev (plain_tasks False)"]
    by simp
qed

text \<open>
  A fresh panel can be selected whenever there are enough tasks: if the carry is valid,
  every eligible task has valid estimates and relevance, and each bucket lists at least
  twelve eligible tasks, the selection succeeds.
\<close>

theorem panel_available:
  assumes "validateCarry (carry_in ctx) = Inr ()" "tasks_ok tasks"
    and "relevance_ok (changedComponentRelevance ctx)"
    and "\<forall>t \<in> set (fresh_candidates tasks ctx). (\<forall>v \<in> set (estimate_values (estimates t)). unit_value v) \<and>
      component_relevance (changedComponentRelevance ctx) t \<noteq> NaN"
    and "\<forall>b. 12 \<le> length (filter (\<lambda>t. b \<in> set (buckets t)) (fresh_candidates tasks ctx))"
  shows "\<exists>p c'. selectValidationPanel h tasks ctx = Inr (p, c')"
  using assms by (rule panel_exists)

theorem panel_available_witness:
  "\<exists>p c'. selectValidationPanel ordered_host (plain_tasks False)
     (plain_context ''h'' {} initialValidationQuotaCarry) = Inr (p, c')"
proof (rule panel_available)
  show "\<forall>b. 12 \<le> length (filter (\<lambda>t. b \<in> set (buckets t))
      (fresh_candidates (plain_tasks False) (plain_context ''h'' {} initialValidationQuotaCarry)))"
    using plain_enough by simp
  show "\<forall>t \<in> set (fresh_candidates (plain_tasks False) (plain_context ''h'' {} initialValidationQuotaCarry)).
      (\<forall>v \<in> set (estimate_values (estimates t)). unit_value v) \<and>
      component_relevance (changedComponentRelevance (plain_context ''h'' {} initialValidationQuotaCarry)) t \<noteq> NaN"
    using plain_relevant unfolding plain_fresh by (auto simp: plain_tasks_def)
qed (simp_all add: initial_carry_ok plain_tasks_ok relevance_ok_def)
text \<open>
  A repair panel has exactly five distinct tasks, three hard, one uncertain, and one easy
  or one coverage task as the epoch is even or odd, all of them eligible for repair at the
  current experiment.
\<close>

theorem repair_panel_sound:
  assumes "selectRepairPanel h tasks ctx epoch = Inr p" "distinct (map taskId tasks)"
  shows "selection_stage p = Repair \<and> length (selection_tasks p) = 5 \<and>
    distinct (map selected_id (selection_tasks p)) \<and>
    bucket_count Hard (selection_tasks p) = 3 \<and> bucket_count Uncertain (selection_tasks p) = 1 \<and>
    bucket_count Easy (selection_tasks p) = (if even epoch then 1 else 0) \<and>
    (\<forall>s \<in> set (selection_tasks p). \<exists>t \<in> set tasks. taskId t = selected_id s \<and>
       selected_bucket s \<in> set (buckets t) \<and> eligibleForRepair (currentExperiment ctx) t)"
proof -
  let ?eligible = "filter (eligibleForRepair (currentExperiment ctx)) tasks"
  have e: "0 \<le> epoch"
    and sel: "selectByQuota h ?eligible (repair_quota epoch) (changedComponentRelevance ctx) = Inr (selection_tasks p)"
    and stage: "selection_stage p = Repair"
    using assms(1) unfolding selectRepairPanel_def selectRepairPanelByEligibility_def
    by (auto split: if_splits)
  have parity: "js_rem epoch 2 = 0 \<longleftrightarrow> even epoch"
    using e by (cases "epoch = 0") (auto simp: js_rem_def)
  have "distinct (map taskId ?eligible)" using assms(2) by (rule distinct_map_filter)
  then have "picked_from ?eligible (changedComponentRelevance ctx) (selection_tasks p)"
    using sel by (intro selectByQuota_picked)
  moreover have "bucket_count b (selection_tasks p) = repair_quota epoch b" for b
    using selectByQuota_count [OF sel] .
  ultimately show ?thesis
    using stage parity length_buckets [of "selection_tasks p"]
    by (auto simp: picked_from_def repair_quota_def Let_def)
qed

theorem repair_panel_sound_witness:
  "\<exists>p. selectRepairPanel ordered_host (plain_tasks True)
       \<lparr>currentExperiment = 3, changedComponentRelevance = []\<rparr> 4 = Inr p \<and>
     length (selection_tasks p) = 5 \<and> bucket_count Easy (selection_tasks p) = 1"
proof -
  have all: "filter (eligibleForRepair 3) (plain_tasks True) = plain_tasks True"
    by (rule filter_True) (auto simp: plain_tasks_def eligibleForRepair_def plain_task_def)
  have d: "distinct (map taskId (plain_tasks True))" using plain_tasks_ok by (simp add: tasks_ok_def)
  have "\<forall>t \<in> set (plain_tasks True). \<forall>b. \<exists>v. scoreTask t b [] = Inr v"
  proof (intro ballI allI)
    fix t b assume t: "t \<in> set (plain_tasks True)"
    then obtain i where "t = plain_task True i" by (auto simp: plain_tasks_def)
    then show "\<exists>v. scoreTask t b [] = Inr v"
      using scoreTask_ok(1) [of t b "[]"] plain_relevant [OF t] by (simp add: relevance_ok_def)
  qed
  moreover have "\<forall>b. 12 \<le> length (filter (\<lambda>t. b \<in> set (buckets t)) (plain_tasks True))"
    by (simp add: plain_tasks_def filter_map comp_def sample_ids_facts)
  moreover have "\<forall>b. 0 \<le> repair_quota 4 b" "sum_list (map (repair_quota 4) BUCKETS) \<le> 12"
    by (simp_all add: repair_quota_def js_rem_def sum_buckets split: selection_bucket.split)
  ultimately obtain sel where sel: "selectByQuota ordered_host (plain_tasks True) (repair_quota 4) [] = Inr sel"
    using fold_total [OF d, of "[]" "repair_quota 4" "[]" BUCKETS ordered_host] unfolding selectByQuota_def by auto
  then obtain p where p: "selectRepairPanel ordered_host (plain_tasks True)
      \<lparr>currentExperiment = 3, changedComponentRelevance = []\<rparr> 4 = Inr p"
    by (simp add: selectRepairPanel_def selectRepairPanelByEligibility_def all safe_int_def max_safe_def)
  show ?thesis using p repair_panel_sound [OF p d] by auto
qed

lemma repair_panel_members:
  assumes "selectRepairPanelByEligibility h eligible ctx epoch = Inr p" "distinct (map taskId eligible)"
  shows "panel_ids p \<subseteq> taskId ` set eligible"
proof -
  have "selectByQuota h eligible (repair_quota epoch) (changedComponentRelevance ctx) = Inr (selection_tasks p)"
    using assms(1) by (auto simp: selectRepairPanelByEligibility_def split: if_splits)
  from selectByQuota_picked [OF this assms(2)] show ?thesis by (force simp: picked_from_def panel_ids_def)
qed

text \<open>
  C39. The shadow reservation sets aside two disjoint slices of twelve tasks, marking them
  never fails and marks exactly these 24 tasks, and no panel selected from the marked tasks
  afterwards contains one of them: no fresh validation panel, no repair panel and no repair panel from a
  source, whatever the context.
\<close>

theorem shadow_tasks_reserved:
  assumes "reserveShadowSlices h tasks c = Inr r" "distinct (map taskId tasks)"
  shows "\<exists>marked. markShadowReservations tasks r = Inr marked \<and>
    panel_ids (first_slice r) \<inter> panel_ids (second_slice r) = {} \<and>
    card (panel_ids (first_slice r)) = 12 \<and> card (panel_ids (second_slice r)) = 12 \<and>
    map taskId marked = map taskId tasks \<and>
    (\<forall>t \<in> set marked. taskId t \<in> reserved_ids r \<longrightarrow> shadowReserved t) \<and>
    (\<forall>t \<in> set tasks. taskId t \<notin> reserved_ids r \<longrightarrow> t \<in> set marked) \<and>
    (\<forall>ctx p c'. selectValidationPanel h marked ctx = Inr (p, c') \<longrightarrow> panel_ids p \<inter> reserved_ids r = {}) \<and>
    (\<forall>ctx epoch p. selectRepairPanel h marked ctx epoch = Inr p \<longrightarrow> panel_ids p \<inter> reserved_ids r = {}) \<and>
    (\<forall>ctx epoch p. selectRepairPanelFromSource h marked ctx epoch = Inr p \<longrightarrow> panel_ids p \<inter> reserved_ids r = {}) \<and>
    (\<forall>ctx t. t \<in> set marked \<longrightarrow> taskId t \<in> reserved_ids r \<longrightarrow> \<not> eligibleForRepair ctx t)"
proof -
  let ?ctx = "\<lambda>ids c. \<lparr>currentExperiment = 0, changedComponentRelevance = [],
     frozenHypothesisDigest = ''shadow-reservation'', repairTaskIds = ids, carry_in = c\<rparr>"
  obtain p c1 q c2 where p: "selectValidationPanel h tasks (?ctx {} c) = Inr (p, c1)"
    and q: "selectValidationPanel h tasks (?ctx (panel_ids p) c1) = Inr (q, c2)"
    and r: "first_slice r = p\<lparr>selection_stage := Shadow_stage\<rparr>" "second_slice r = q\<lparr>selection_stage := Shadow_stage\<rparr>"
    using assms(1) unfolding reserveShadowSlices_def Let_def by auto
  have ids: "panel_ids (first_slice r) = panel_ids p" "panel_ids (second_slice r) = panel_ids q"
    by (simp_all add: panel_ids_def r)
  have card: "card (panel_ids p) = 12" "card (panel_ids q) = 12"
    using panel_card [OF p assms(2)] panel_card [OF q assms(2)] by simp_all
  have disjoint: "panel_ids p \<inter> panel_ids q = {}"
    using panel_members [OF q] by (auto simp: fresh_candidates_def)
  have "card (reserved_ids r) = 24"
    unfolding reserved_ids_def ids using card disjoint by (subst card_Un_disjoint) (auto simp: panel_ids_def)
  moreover define marked where
    "marked = map (\<lambda>t. if taskId t \<in> reserved_ids r then t\<lparr>shadowReserved := True\<rparr> else t) tasks"
  ultimately have mark: "markShadowReservations tasks r = Inr marked"
    by (simp add: markShadowReservations_def)
  have reserved: "shadowReserved t" if "t \<in> set marked" "taskId t \<in> reserved_ids r" for t
    using that unfolding marked_def by (auto split: if_splits)
  have names: "map taskId marked = map taskId tasks" by (simp add: marked_def)
  have kept: "t \<in> set marked" if "t \<in> set tasks" "taskId t \<notin> reserved_ids r" for t
    using that unfolding marked_def by (force simp: image_iff)
  have later: "panel_ids p' \<inter> reserved_ids r = {}" if "selectValidationPanel h marked ctx = Inr (p', c')" for ctx p' c'
    using panel_members [OF that] reserved by (auto simp: fresh_candidates_def eligibleForValidation_def)
  have ids_marked: "distinct (map taskId marked)" using assms(2) by (simp only: names)
  have repair: "panel_ids p' \<inter> reserved_ids r = {}"
    if "selectRepairPanelByEligibility h (filter P marked) ctx epoch = Inr p'" "\<And>t. P t \<Longrightarrow> \<not> shadowReserved t" for P ctx epoch p'
    using repair_panel_members [OF that(1) distinct_map_filter [OF ids_marked]] reserved that(2) by auto
  have "panel_ids p' \<inter> reserved_ids r = {}" if "selectRepairPanel h marked ctx epoch = Inr p'" for ctx epoch p'
    using that unfolding selectRepairPanel_def by (rule repair) (simp add: eligibleForRepair_def)
  moreover have "panel_ids p' \<inter> reserved_ids r = {}" if "selectRepairPanelFromSource h marked ctx epoch = Inr p'" for ctx epoch p'
    using that unfolding selectRepairPanelFromSource_def by (rule repair) simp
  ultimately show ?thesis
    using mark card disjoint names reserved kept later unfolding ids
    by (intro exI [of _ marked]) (auto simp: eligibleForRepair_def)
qed

theorem shadow_tasks_reserved_witness:
  "\<exists>r marked. reserveShadowSlices ordered_host (plain_tasks False) initialValidationQuotaCarry = Inr r \<and>
     markShadowReservations (plain_tasks False) r = Inr marked \<and>
     panel_ids (first_slice r) \<inter> panel_ids (second_slice r) = {}"
proof -
  have d: "distinct (map taskId (plain_tasks False))" using plain_tasks_ok by (simp add: tasks_ok_def)
  obtain p c1 where p: "selectValidationPanel ordered_host (plain_tasks False)
      (plain_context ''shadow-reservation'' {} initialValidationQuotaCarry) = Inr (p, c1)"
    using plain_panel initial_carry_ok by fastforce
  then have "validateCarry c1 = Inr ()"
    unfolding selectValidationPanel_ok using allocation_valid(2) by blast
  then obtain q c2 where q: "selectValidationPanel ordered_host (plain_tasks False)
      (plain_context ''shadow-reservation'' (panel_ids p) c1) = Inr (q, c2)"
    using plain_panel [of "panel_ids p" c1 "''shadow-reservation''"] panel_card [OF p d]
    by (auto simp: panel_ids_def)
  obtain r where r: "reserveShadowSlices ordered_host (plain_tasks False) initialValidationQuotaCarry = Inr r"
    using p q by (simp add: reserveShadowSlices_def plain_context_def)
  show ?thesis using r shadow_tasks_reserved [OF r d] by blast
qed

text \<open>
  Counting the fresh panels always ends with a number (running out of tasks or of quota
  ends the count, no error escapes), and the panels counted fit in the tasks: twelve tasks
  each.
\<close>

theorem fresh_panels_counted:
  assumes "distinct (map taskId tasks)"
  shows "\<exists>n. countFreshValidationPanels h tasks c = Inr n \<and> 0 \<le> n \<and> 12 * n \<le> int (length tasks)"
  using count_panels_bound [OF assms, of h c 0] by (simp add: countFreshValidationPanels_def)

theorem fresh_panels_counted_witness:
  "\<exists>n. countFreshValidationPanels ordered_host (plain_tasks False) initialValidationQuotaCarry = Inr n \<and>
     0 \<le> n \<and> n \<le> 3"
proof -
  have d: "distinct (map taskId (plain_tasks False))" using plain_tasks_ok by (simp add: tasks_ok_def)
  obtain n where "countFreshValidationPanels ordered_host (plain_tasks False) initialValidationQuotaCarry = Inr n"
    "0 \<le> n" "12 * n \<le> int (length (plain_tasks False))"
    using fresh_panels_counted [OF d] by blast
  then show ?thesis by (intro exI [of _ n]) (simp add: plain_tasks_def sample_ids_facts)
qed

text \<open>
  A score exists exactly for normalized estimates and relevance, and it is bounded: no
  rounding or overflow takes it outside the interval from -5 to 8.
\<close>

theorem scores_bounded:
  assumes "0 \<le> consecutiveExperiments (exposure task)"
  shows "((\<exists>v. scoreTask task b relevance = Inr v) \<longleftrightarrow>
      (\<forall>v \<in> set (estimate_values (estimates task)). unit_value v) \<and> relevance_ok relevance \<and>
      component_relevance relevance task \<noteq> NaN) \<and>
    (\<forall>v. scoreTask task b relevance = Inr v \<longrightarrow> num_le (Fin (- 5)) v \<and> num_le v (Fin 8))"
proof -
  have "num_le (Fin (- 5)) v \<and> num_le v (Fin 8)" if "scoreTask task b relevance = Inr v" for v
    using scoreTask_ok(2) [OF assms that] by (auto simp: ranged_def)
  then show ?thesis using scoreTask_ok(1) [OF assms] by blast
qed

theorem scores_bounded_witness:
  "\<exists>v. scoreTask (plain_task False (CHR ''a'', CHR ''b'')) Hard [(''io'', Fin 1)] = Inr v \<and> num_le v (Fin 8)"
proof -
  let ?t = "plain_task False (CHR ''a'', CHR ''b'')"
  have "relevance_ok [(''io'', Fin 1)]" "component_relevance [(''io'', Fin 1)] ?t \<noteq> NaN"
    by (simp_all add: relevance_ok_def unit_value_def component_relevance_def)
  then show ?thesis using scores_bounded [of ?t Hard "[(''io'', Fin 1)]"] by auto
qed

text \<open>
  A task whose capability stratum is the name of a member of \<open>Object.prototype\<close> cannot
  be scored in a context that does not mention the stratum: the lookup finds the inherited
  member instead of falling back to the estimate.
\<close>

theorem inherited_stratum_not_scored:
  assumes "capabilityStratum task \<in> set INHERITED_MEMBERS" "0 \<le> consecutiveExperiments (exposure task)"
    and "map_of relevance (capabilityStratum task) = None"
  shows "\<exists>m. scoreTask task b relevance = Inl (SelectionError m)"
proof -
  have "component_relevance relevance task = NaN" using assms by (simp add: component_relevance_def)
  then have "\<nexists>v. scoreTask task b relevance = Inr v" using scoreTask_ok(1) [OF assms(2)] by blast
  then obtain e where "scoreTask task b relevance = Inl e" by (metis sum.exhaust)
  then show ?thesis using scoreTask_errors unfolding selection_errors_def by blast
qed

theorem inherited_stratum_not_scored_witness:
  "\<exists>m. scoreTask (plain_task False (CHR ''a'', CHR ''b'')\<lparr>capabilityStratum := ''constructor''\<rparr>) Hard [] =
     Inl (SelectionError m)"
  by (rule inherited_stratum_not_scored)
    (simp_all add: INHERITED_MEMBERS_def OBJECT_PROTOTYPE_def del: replicate.simps)

end
