(* ===== verification/Statistics.thy ===== *)
theory Statistics
  imports Machines
begin

text \<open>
  The Jeffreys posteriors, the seedless quadrature and the online error budget of
  \<open>src/evaluation/statistics.ts\<close>. Arithmetic is the rounded arithmetic of the language, in
  the order of the code; \<open>Math.log\<close>, \<open>log1p\<close>, \<open>exp\<close>, \<open>sin\<close> and the power operator, whose values
  the language leaves to the platform, are the record \<open>math\<close>. Loop counters are integers.
\<close>

record math =
  math_log :: "number \<Rightarrow> number"
  math_log1p :: "number \<Rightarrow> number"
  math_exp :: "number \<Rightarrow> number"
  math_sin :: "number \<Rightarrow> number"
  math_pow :: "number \<Rightarrow> number \<Rightarrow> number"

definition MATH_PI :: number where
  "MATH_PI = num_of (3141592653589793 / 10 ^ 15)"

definition EPSILON :: number where
  "EPSILON = Fin (1 / 2 ^ 52)"

text \<open>\<open>values[i]\<close>, undefined past the end.\<close>

definition js_at :: "'a list \<Rightarrow> int \<Rightarrow> 'a option" where
  "js_at xs i = (if 0 \<le> i \<and> nat i < length xs then Some (xs ! nat i) else None)"

subsection \<open>Posteriors\<close>

record beta_posterior =
  alpha :: number
  beta :: number

record interval =
  lower :: number
  upper :: number
  width :: number

record weighted_difference =
  wd_candidate :: beta_posterior
  wd_champion :: beta_posterior
  wd_weight :: number

record difference_summary =
  probabilityGreaterThanThreshold :: number
  threshold :: number
  median :: number
  interval95 :: interval
  integrationPoints :: int

record category_counts =
  bothPass :: int
  challengerOnlyPass :: int
  championOnlyPass :: int
  bothFail :: int

record paired_stratum =
  ps_counts :: category_counts
  ps_weight :: number

record paired_summary = difference_summary +
  stratumProbabilityBelowMinusPointOne :: "number list"

definition assertCount :: "int \<Rightarrow> unit result" where
  "assertCount v =
     (if \<not> safe_int v \<or> v < 0 then Inl (Error ''count must be a non-negative safe integer'') else Inr ())"

definition validatePosterior :: "beta_posterior \<Rightarrow> unit result" where
  "validatePosterior p =
     (if \<not> is_finite (alpha p) \<or> \<not> is_finite (beta p) \<or> num_le (alpha p) (Fin 0) \<or> num_le (beta p) (Fin 0)
      then Inl (Error ''Beta posterior parameters must be finite and positive'') else Inr ())"

definition num_sum :: "number list \<Rightarrow> number" where
  "num_sum xs = foldl num_add (Fin 0) xs"

definition validateWeights :: "number list \<Rightarrow> unit result" where
  "validateWeights weights =
     (if weights = [] \<or> (\<exists>w \<in> set weights. \<not> is_finite w \<or> num_le w (Fin 0)) \<or>
         num_less (num_of (1 / 10 ^ 9)) (num_abs (num_sub (num_sum weights) (Fin 1)))
      then Inl (Error ''Posterior weights must be positive and sum to one'') else Inr ())"

definition validateIntegrationPoints :: "int \<Rightarrow> unit result" where
  "validateIntegrationPoints points =
     (if \<not> safe_int points \<or> points < 256 \<or> 65536 < points
      then Inl (Error ''Integration points must be an integer in [256, 65536]'') else Inr ())"

definition validateCategoryCounts :: "category_counts \<Rightarrow> unit result" where
  "validateCategoryCounts c =
     and_then (assertCount (bothPass c)) (\<lambda>_.
     and_then (assertCount (challengerOnlyPass c)) (\<lambda>_.
     and_then (assertCount (championOnlyPass c)) (\<lambda>_.
     and_then (assertCount (bothFail c)) (\<lambda>_.
       if bothPass c + challengerOnlyPass c + championOnlyPass c + bothFail c = 0
       then Inl (Error ''A paired stratum must contain at least one task'') else Inr ()))))"

definition jeffreysPosterior :: "int \<Rightarrow> int \<Rightarrow> beta_posterior result" where
  "jeffreysPosterior passes failures =
     and_then (assertCount passes) (\<lambda>_. and_then (assertCount failures) (\<lambda>_.
       Inr \<lparr>alpha = num_add (num_of_int passes) (Fin (1 / 2)),
            beta = num_add (num_of_int failures) (Fin (1 / 2))\<rparr>))"

subsection \<open>The incomplete beta function\<close>

definition LANCZOS :: "rat list" where
  "LANCZOS = [6765203681218851 / 10 ^ 13, - 12591392167224028 / 10 ^ 13, 7713234287776531 / 10 ^ 13,
     - 1766150291621406 / 10 ^ 13, 12507343278686905 / 10 ^ 15, - 13857109526572012 / 10 ^ 17,
     9984369578019572 / 10 ^ 21, 15056327351493116 / 10 ^ 23]"

definition lanczos_series :: "number \<Rightarrow> number" where
  "lanczos_series shifted =
     foldl (\<lambda>series (index, coefficient).
         num_add series (num_div (num_of coefficient)
           (num_add (num_add shifted (num_of_int (int index))) (Fin 1))))
       (num_of (9999999999998099 / 10 ^ 16)) (enumerate 0 LANCZOS)"

definition log_gamma_shifted :: "math \<Rightarrow> number \<Rightarrow> number" where
  "log_gamma_shifted m v =
     (let shifted = num_sub v (Fin 1);
          t = num_sub (num_add shifted (Fin 8)) (Fin (1 / 2))
      in num_add (num_sub (num_add
           (num_mul (Fin (1 / 2)) (math_log m (num_mul (Fin 2) MATH_PI)))
           (num_mul (num_add shifted (Fin (1 / 2))) (math_log m t))) t)
         (math_log m (lanczos_series shifted)))"

text \<open>
  The reflection recurses at most once, on a number above one half: \<open>1 - value\<close> of a value
  below one half.
\<close>

definition logGamma :: "math \<Rightarrow> number \<Rightarrow> number" where
  "logGamma m v =
     (if num_less v (Fin (1 / 2))
      then num_sub (num_sub (math_log m MATH_PI) (math_log m (math_sin m (num_mul MATH_PI v))))
        (log_gamma_shifted m (num_sub (Fin 1) v))
      else log_gamma_shifted m v)"

definition clamp_small :: "number \<Rightarrow> number" where
  "clamp_small v = (let minimum = num_of (1 / 10 ^ 300) in if num_less (num_abs v) minimum then minimum else v)"

text \<open>The loop of the continued fraction from \<open>iteration\<close> on; it throws after 200 rounds.\<close>

function fraction_loop ::
    "number \<Rightarrow> number \<Rightarrow> number \<Rightarrow> int \<Rightarrow> number \<Rightarrow> number \<Rightarrow> number \<Rightarrow> number result" where
  "fraction_loop x a b iteration c d result =
     (if 200 < iteration then Inl (Error ''Incomplete beta continued fraction did not converge'')
      else
        let i = num_of_int iteration;
            qab = num_add a b; qap = num_add a (Fin 1); qam = num_sub a (Fin 1);
            two_i = num_mul (Fin 2) i;
            evenNumerator = num_div (num_mul (num_mul i (num_sub b i)) x)
              (num_mul (num_add qam two_i) (num_add a two_i));
            d1 = num_div (Fin 1) (clamp_small (num_add (Fin 1) (num_mul evenNumerator d)));
            c1 = clamp_small (num_add (Fin 1) (num_div evenNumerator c));
            result1 = num_mul result (num_mul d1 c1);
            oddNumerator = num_div (num_mul (num_mul (num_neg (num_add a i)) (num_add qab i)) x)
              (num_mul (num_add a two_i) (num_add qap two_i));
            d2 = num_div (Fin 1) (clamp_small (num_add (Fin 1) (num_mul oddNumerator d1)));
            c2 = clamp_small (num_add (Fin 1) (num_div oddNumerator c1));
            delta = num_mul d2 c2;
            result2 = num_mul result1 delta
        in if num_less (num_abs (num_sub delta (Fin 1))) (num_of (3 / 10 ^ 14)) then Inr result2
           else fraction_loop x a b (iteration + 1) c2 d2 result2)"
  by pat_completeness auto

termination fraction_loop
  by (relation "measure (\<lambda>(x, a, b, iteration, c, d, result). nat (201 - iteration))") auto

declare fraction_loop.simps [simp del]

text \<open>\<open>Math.sign(d || 1)\<close>\<close>

definition sign_or_one :: "number \<Rightarrow> number" where
  "sign_or_one d = (if d = Fin 0 \<or> d = NaN then Fin 1 else num_of_int (num_sgn d))"

definition betaContinuedFraction :: "number \<Rightarrow> number \<Rightarrow> number \<Rightarrow> number result" where
  "betaContinuedFraction x a b =
     (let d0 = num_sub (Fin 1) (num_div (num_mul (num_add a b) x) (num_add a (Fin 1)));
          d = num_mul (num_div (Fin 1) (num_max (num_abs d0) (num_of (1 / 10 ^ 300)))) (sign_or_one d0)
      in fraction_loop x a b 1 (Fin 1) d d)"

definition regularizedIncompleteBeta :: "math \<Rightarrow> number \<Rightarrow> number \<Rightarrow> number \<Rightarrow> number result" where
  "regularizedIncompleteBeta m x a b =
     and_then (validatePosterior \<lparr>alpha = a, beta = b\<rparr>) (\<lambda>_.
       if num_le x (Fin 0) then Inr (Fin 0)
       else if num_le (Fin 1) x then Inr (Fin 1)
       else
         let logFactor = num_add (num_add (num_sub (num_sub (logGamma m (num_add a b)) (logGamma m a))
               (logGamma m b)) (num_mul a (math_log m x))) (num_mul b (math_log1p m (num_neg x)));
             factor = math_exp m logFactor
         in if num_less x (num_div (num_add a (Fin 1)) (num_add (num_add a b) (Fin 2)))
            then and_then (betaContinuedFraction x a b) (\<lambda>f. Inr (num_div (num_mul factor f) a))
            else and_then (betaContinuedFraction (num_sub (Fin 1) x) b a)
              (\<lambda>f. Inr (num_sub (Fin 1) (num_div (num_mul factor f) b))))"

fun bisect :: "math \<Rightarrow> number \<Rightarrow> number \<Rightarrow> number \<Rightarrow> nat \<Rightarrow> number \<Rightarrow> number \<Rightarrow> (number \<times> number) result" where
  "bisect m p a b 0 lo hi = Inr (lo, hi)"
| "bisect m p a b (Suc n) lo hi =
     (let midpoint = num_div (num_add lo hi) (Fin 2)
      in and_then (regularizedIncompleteBeta m midpoint a b) (\<lambda>v.
           if num_less v p then bisect m p a b n midpoint hi else bisect m p a b n lo midpoint))"

definition inverseRegularizedBeta :: "math \<Rightarrow> number \<Rightarrow> number \<Rightarrow> number \<Rightarrow> number result" where
  "inverseRegularizedBeta m p a b =
     and_then (validatePosterior \<lparr>alpha = a, beta = b\<rparr>) (\<lambda>_.
       if num_le p (Fin 0) then Inr (Fin 0)
       else if num_le (Fin 1) p then Inr (Fin 1)
       else and_then (bisect m p a b 72 (Fin 0) (Fin 1))
         (\<lambda>(lo, hi). Inr (num_div (num_add lo hi) (Fin 2))))"

definition betaCredibleInterval :: "math \<Rightarrow> beta_posterior \<Rightarrow> number \<Rightarrow> interval result" where
  "betaCredibleInterval m p mass =
     and_then (validatePosterior p) (\<lambda>_.
       if \<not> (num_less (Fin 0) mass \<and> num_less mass (Fin 1))
       then Inl (Error ''Credible interval mass must be in (0, 1)'')
       else let tail = num_div (num_sub (Fin 1) mass) (Fin 2)
            in and_then (inverseRegularizedBeta m tail (alpha p) (beta p)) (\<lambda>lo.
               and_then (inverseRegularizedBeta m (num_sub (Fin 1) tail) (alpha p) (beta p)) (\<lambda>hi.
                 Inr \<lparr>lower = lo, upper = hi, width = num_sub hi lo\<rparr>)))"

subsection \<open>The quadrature points\<close>

function no_divisor :: "int \<Rightarrow> int \<Rightarrow> bool" where
  "no_divisor v divisor =
     (if divisor * divisor \<le> v then (if v mod divisor = 0 then False else no_divisor v (divisor + 1))
      else True)"
  by pat_completeness auto

lemma square_le: "(d :: int) * d \<le> v \<Longrightarrow> d \<le> v"
  by (smt (verit) mult_le_cancel_left1 mult_nonneg_nonneg)

termination no_divisor
  by (relation "measure (\<lambda>(v, d). nat (v + 1 - d))") (auto dest: square_le)

declare no_divisor.simps [simp del]

definition isPrime :: "int \<Rightarrow> bool" where
  "isPrime v \<longleftrightarrow> (if v < 2 then False else no_divisor v 2)"

definition smaller_divisor :: "int \<Rightarrow> bool" where
  "smaller_divisor v \<longleftrightarrow> (\<exists>e. 2 \<le> e \<and> e < v \<and> e dvd v)"

lemma no_divisor_iff:
  "1 \<le> d \<Longrightarrow> no_divisor v d \<longleftrightarrow> (\<forall>e. d \<le> e \<longrightarrow> e * e \<le> v \<longrightarrow> \<not> e dvd v)"
proof (induction v d rule: no_divisor.induct)
  case (1 v d)
  show ?case
  proof (cases "d * d \<le> v")
    case True
    have split: "(\<forall>e. d \<le> e \<longrightarrow> e * e \<le> v \<longrightarrow> \<not> e dvd v) \<longleftrightarrow>
        \<not> d dvd v \<and> (\<forall>e. d + 1 \<le> e \<longrightarrow> e * e \<le> v \<longrightarrow> \<not> e dvd v)"
      using True by (metis add1_zle_eq le_less)
    have "no_divisor v d \<longleftrightarrow> \<not> d dvd v \<and> (\<not> d dvd v \<longrightarrow> no_divisor v (d + 1))"
      using True by (subst no_divisor.simps) (simp add: dvd_eq_mod_eq_0)
    then show ?thesis using 1 True unfolding split by (auto simp: dvd_eq_mod_eq_0)
  next
    case False
    have "\<not> e * e \<le> v" if "d \<le> e" for e
      using False that 1(2) mult_mono [of d e d e] by linarith
    then show ?thesis using False by (subst no_divisor.simps) auto
  qed
qed

text \<open>The trial division up to the root decides primality.\<close>

lemma isPrime_iff: "isPrime v \<longleftrightarrow> 2 \<le> v \<and> \<not> smaller_divisor v"
proof (cases "2 \<le> v")
  case True
  have "smaller_divisor v" if e: "2 \<le> e" "e * e \<le> v" "e dvd v" for e
  proof -
    have "e * 1 < e * e" using e(1) by (intro mult_strict_left_mono) simp_all
    then have "e < v" using e(2) by simp
    then show ?thesis using e by (auto simp: smaller_divisor_def)
  qed
  moreover have "\<exists>e \<ge> 2. e * e \<le> v \<and> e dvd v" if d: "2 \<le> d" "d < v" "d dvd v" for d
  proof -
    obtain k where k: "v = d * k" using d(3) by (auto elim: dvdE)
    have "2 \<le> k" using d k True by (smt (verit) mult_le_0_iff mult_cancel_left1)
    then show ?thesis
    proof (cases "d \<le> k")
      case True
      then have "d * d \<le> v" using k d by (simp add: mult_left_mono)
      then show ?thesis using d by blast
    next
      case False
      then have "k * k \<le> v" using k \<open>2 \<le> k\<close> by (simp add: mult_right_mono)
      moreover have "k dvd v" by (simp add: k)
      ultimately show ?thesis using \<open>2 \<le> k\<close> by blast
    qed
  qed
  ultimately show ?thesis
    using True by (auto simp: isPrime_def no_divisor_iff smaller_divisor_def)
qed (simp add: isPrime_def)

lemma prime_beyond: "\<exists>p. c < p \<and> isPrime p"
proof -
  define n where "n = nat c"
  define N where "N = (fact n + 1 :: nat)"
  define q where "q = (LEAST q. 2 \<le> q \<and> q dvd N)"
  have "2 \<le> N" by (simp add: N_def)
  then have "2 \<le> N \<and> N dvd N" by simp
  then have "2 \<le> q \<and> q dvd N" unfolding q_def by (rule LeastI)
  then have q: "2 \<le> q" "q dvd N" by blast+
  have least: "q \<le> r" if "2 \<le> r" "r dvd N" for r unfolding q_def using that by (intro Least_le) simp
  have "isPrime (int q)"
  proof -
    have "\<not> (2 \<le> e \<and> e < int q \<and> e dvd int q)" for e
    proof
      assume e: "2 \<le> e \<and> e < int q \<and> e dvd int q"
      then obtain r where r: "e = int r" by (metis zero_le_imp_eq_int order_trans zero_le_numeral)
      then have "r dvd N" using e q(2) by (metis dvd_trans int_dvd_int_iff)
      then show False using least [of r] e r by simp
    qed
    then show ?thesis using q(1) by (auto simp: isPrime_iff smaller_divisor_def)
  qed
  moreover have "c < int q"
  proof (rule ccontr)
    assume "\<not> c < int q"
    then have "q dvd fact n" using q(1) by (intro dvd_fact) (simp_all add: n_def)
    then have "q dvd 1" using q(2) unfolding N_def by (simp only: dvd_add_right_iff)
    then show False using q(1) by simp
  qed
  ultimately show ?thesis by blast
qed

definition prime_distance :: "int \<Rightarrow> nat" where
  "prime_distance c = (LEAST n. isPrime (c + 1 + int n))"

lemma prime_distance_less:
  assumes "\<not> isPrime (c + 1)" shows "prime_distance (c + 1) < prime_distance c"
proof -
  obtain p where "c < p" "isPrime p" using prime_beyond by blast
  then have "isPrime (c + 1 + int (nat (p - c - 1)))" by simp
  then have d: "isPrime (c + 1 + int (prime_distance c))"
    unfolding prime_distance_def by (rule LeastI)
  then have "prime_distance c \<noteq> 0" using assms by (cases "prime_distance c") auto
  then obtain k where k: "prime_distance c = Suc k" by (cases "prime_distance c") auto
  then have "isPrime (c + 1 + 1 + int k)" using d by (simp add: add.assoc)
  then have "prime_distance (c + 1) \<le> k" unfolding prime_distance_def by (rule Least_le)
  then show ?thesis by (simp add: k)
qed

text \<open>The search for the prime of an index; it ends because there is always another prime.\<close>

function prime_loop :: "int \<Rightarrow> int \<Rightarrow> int \<Rightarrow> int" where
  "prime_loop index found candidate =
     (if found < index
      then prime_loop index (if isPrime (candidate + 1) then found + 1 else found) (candidate + 1)
      else candidate)"
  by pat_completeness auto

termination prime_loop
  by (relation "measures [\<lambda>(index, found, candidate). nat (index - found),
      \<lambda>(index, found, candidate). prime_distance candidate]")
    (auto simp: prime_distance_less)

declare prime_loop.simps [simp del]

definition primeAt :: "int \<Rightarrow> int" where
  "primeAt index = prime_loop index (- 1) 1"

text \<open>
  The van der Corput point. The remainder and the base are integers below \<open>2 ^ 17\<close>, on
  which \<open>Math.floor(remainder / base)\<close> is the integer quotient; bases are primes, so that
  the second condition never ends the loop.
\<close>

function radical_loop :: "int \<Rightarrow> int \<Rightarrow> number \<Rightarrow> number \<Rightarrow> number" where
  "radical_loop base remainder point factor =
     (if 0 < remainder \<and> 2 \<le> base
      then radical_loop base (remainder div base)
        (num_add point (num_mul factor (num_of_int (remainder mod base))))
        (num_div factor (num_of_int base))
      else point)"
  by pat_completeness auto

termination radical_loop
  by (relation "measure (\<lambda>(base, remainder, point, factor). nat remainder)") (auto simp: int_div_less_self)

declare radical_loop.simps [simp del]

definition radicalInverse :: "int \<Rightarrow> int \<Rightarrow> number" where
  "radicalInverse index base =
     num_min (num_sub (Fin 1) EPSILON)
       (num_max EPSILON (radical_loop base index (Fin 0) (num_div (Fin 1) (num_of_int base))))"

subsection \<open>Summaries\<close>

definition numeric_compare :: "number \<Rightarrow> number \<Rightarrow> int" where
  "numeric_compare left right = num_sgn (num_sub left right)"

definition quantileFromSorted :: "number list \<Rightarrow> number \<Rightarrow> number result" where
  "quantileFromSorted values probability =
     (if values = [] then Inl (Error ''Cannot compute a quantile of an empty sample'')
      else let position = num_mul probability (num_of_int (int (length values) - 1))
           in case position of
                Fin x \<Rightarrow>
                  (case (js_at values \<lfloor>x\<rfloor>, js_at values \<lceil>x\<rceil>) of
                     (Some lo, Some hi) \<Rightarrow>
                       Inr (num_add lo (num_mul (num_sub hi lo) (num_sub position (num_of_int \<lfloor>x\<rfloor>))))
                   | _ \<Rightarrow> Inl (Error ''Internal quantile index error''))
              | _ \<Rightarrow> Inl (Error ''Internal quantile index error''))"

definition summarizeSamples :: "number list \<Rightarrow> number \<Rightarrow> difference_summary result" where
  "summarizeSamples samples thr =
     (let sorted = sort_by numeric_compare samples;
          greater = int (length (filter (\<lambda>s. num_less thr s) sorted));
          size = int (length sorted)
      in and_then (quantileFromSorted sorted (Fin (1 / 2))) (\<lambda>med.
         and_then (quantileFromSorted sorted (num_of (25 / 1000))) (\<lambda>lo.
         and_then (quantileFromSorted sorted (num_of (975 / 1000))) (\<lambda>hi.
           Inr \<lparr>probabilityGreaterThanThreshold = num_div (num_of_int greater) (num_of_int size),
                threshold = thr, median = med,
                interval95 = \<lparr>lower = lo, upper = hi, width = num_sub hi lo\<rparr>,
                integrationPoints = size\<rparr>))))"

definition quadrature_bases :: "nat \<Rightarrow> int list" where
  "quadrature_bases n = map (\<lambda>index. primeAt (int index)) [0..<n * 2]"

text \<open>The two bases of a term; the array has twice as many as there are terms.\<close>

definition bases_of :: "int list \<Rightarrow> nat \<Rightarrow> (int \<times> int) result" where
  "bases_of bases i =
     (case (js_at bases (int i * 2), js_at bases (int i * 2 + 1)) of
        (Some c, Some d) \<Rightarrow> Inr (c, d)
      | _ \<Rightarrow> Inl (Error ''Internal quadrature dimension error''))"

definition weighted_term ::
    "math \<Rightarrow> int list \<Rightarrow> int \<Rightarrow> number \<Rightarrow> nat \<times> weighted_difference \<Rightarrow> number result" where
  "weighted_term m bases sample delta = (\<lambda>(i, t).
     and_then (bases_of bases i) (\<lambda>(cb, hb).
     and_then (inverseRegularizedBeta m (radicalInverse sample cb) (alpha (wd_candidate t)) (beta (wd_candidate t)))
       (\<lambda>candidate.
     and_then (inverseRegularizedBeta m (radicalInverse sample hb) (alpha (wd_champion t)) (beta (wd_champion t)))
       (\<lambda>champion.
         Inr (num_add delta (num_mul (wd_weight t) (num_sub candidate champion)))))))"

definition sample_points :: "int \<Rightarrow> int list" where
  "sample_points points = map int [1..<Suc (nat points)]"

definition summarizeWeightedBetaDifference ::
    "math \<Rightarrow> weighted_difference list \<Rightarrow> number \<Rightarrow> int \<Rightarrow> difference_summary result" where
  "summarizeWeightedBetaDifference m terms thr points =
     and_then (validateIntegrationPoints points) (\<lambda>_.
     and_then (validateWeights (map wd_weight terms)) (\<lambda>_.
     and_then (check_all (\<lambda>t. and_then (validatePosterior (wd_candidate t))
        (\<lambda>_. validatePosterior (wd_champion t))) terms) (\<lambda>_.
       let bases = quadrature_bases (length terms)
       in and_then (map_result (\<lambda>sample.
            fold_result (weighted_term m bases sample) (Fin 0) (enumerate 0 terms)) (sample_points points))
          (\<lambda>samples. summarizeSamples samples thr))))"

text \<open>The accuracy difference of one stratum at a sample point: \<open>s * (2 * r - 1)\<close>.\<close>

definition stratum_delta ::
    "math \<Rightarrow> int list \<Rightarrow> int \<Rightarrow> nat \<Rightarrow> category_counts \<Rightarrow> number result" where
  "stratum_delta m bases sample i c =
     and_then (bases_of bases i) (\<lambda>(db, sb).
     and_then (inverseRegularizedBeta m (radicalInverse sample db)
         (num_add (num_add (num_of_int (challengerOnlyPass c)) (num_of_int (championOnlyPass c))) (Fin 1))
         (num_add (num_add (num_of_int (bothPass c)) (num_of_int (bothFail c))) (Fin 1))) (\<lambda>discordantMass.
     and_then (inverseRegularizedBeta m (radicalInverse sample sb)
         (num_add (num_of_int (challengerOnlyPass c)) (Fin (1 / 2)))
         (num_add (num_of_int (championOnlyPass c)) (Fin (1 / 2)))) (\<lambda>challengerShare.
       Inr (num_mul discordantMass (num_sub (num_mul (Fin 2) challengerShare) (Fin 1))))))"

text \<open>One stratum of one sample: the weighted sum so far and the counts below minus 0.1.\<close>

definition paired_term ::
    "math \<Rightarrow> int list \<Rightarrow> int \<Rightarrow> number \<times> int list \<Rightarrow> nat \<times> paired_stratum \<Rightarrow> (number \<times> int list) result" where
  "paired_term m bases sample = (\<lambda>(combined, below) (i, s).
     and_then (stratum_delta m bases sample i (ps_counts s)) (\<lambda>delta.
       let below' = (if num_less delta (num_neg (num_of (1 / 10))) then below[i := below ! i + 1] else below)
       in Inr (num_add combined (num_mul (ps_weight s) delta), below')))"

definition paired_sample ::
    "math \<Rightarrow> int list \<Rightarrow> paired_stratum list \<Rightarrow> number list \<times> int list \<Rightarrow> int \<Rightarrow> (number list \<times> int list) result" where
  "paired_sample m bases strata = (\<lambda>(samples, below) sample.
     and_then (fold_result (paired_term m bases sample) (Fin 0, below) (enumerate 0 strata))
       (\<lambda>(combined, below'). Inr (samples @ [combined], below')))"

definition summarizePairedDirichletJeffreys ::
    "math \<Rightarrow> paired_stratum list \<Rightarrow> number \<Rightarrow> int \<Rightarrow> paired_summary result" where
  "summarizePairedDirichletJeffreys m strata thr points =
     and_then (validateIntegrationPoints points) (\<lambda>_.
     and_then (validateWeights (map ps_weight strata)) (\<lambda>_.
     and_then (check_all (\<lambda>s. validateCategoryCounts (ps_counts s)) strata) (\<lambda>_.
       let bases = quadrature_bases (length strata)
       in and_then (fold_result (paired_sample m bases strata)
              ([], replicate (length strata) 0) (sample_points points)) (\<lambda>(samples, below).
          and_then (summarizeSamples samples thr) (\<lambda>summary.
            Inr (difference_summary.extend summary (paired_summary.fields
              (map (\<lambda>n. num_div (num_of_int n) (num_of_int points)) below))))))))"

end
