(* ===== verification/Posterior_Properties.thy ===== *)
theory Posterior_Properties
  imports Statistics
begin

text \<open>
  What the posteriors of \<open>src/evaluation/statistics.ts\<close> promise whatever the platform computes
  for \<open>Math.log\<close> and \<open>Math.exp\<close>: the bisection stays in the unit interval and is monotone in
  the probability, so credible intervals are ordered; the prime search enumerates the primes
  in order; the quadrature points stay inside the unit interval; and a summary does not
  depend on the order of its samples.
\<close>

subsection \<open>Halving\<close>

lemma is_f64_mantissa:
  assumes "is_f64 x"
  obtains n e where "x = of_int n * 2 powi e" "\<bar>n\<bar> < 2 ^ 53" "- 1074 \<le> e"
proof (cases "x = 0")
  case True
  then show thesis using that [of 0 0] by simp
next
  case False
  let ?n = "round_half_even (x / 2 powi ulp_exp x)" and ?e = "ulp_exp x"
  have x: "x = of_int ?n * 2 powi ?e" using assms False unfolding is_f64_def round64_def by simp
  have n: "\<bar>?n\<bar> \<le> 2 ^ 53" using False by (rule round64_mantissa_le)
  have e: "- 1074 \<le> ?e" by (simp add: ulp_exp_def)
  show thesis
  proof (cases "\<bar>?n\<bar> = 2 ^ 53")
    case True
    define s where "s = sgn ?n"
    have "?n = s * 2 ^ 53" using True by (simp add: s_def) (metis abs_mult_sgn mult.commute)
    then have "x = of_int (s * 2 ^ 52) * 2 powi (?e + 1)"
      using x by (simp add: power_int_add)
    moreover have "\<bar>s * 2 ^ 52\<bar> < 2 ^ 53" by (simp add: s_def abs_mult sgn_if)
    ultimately show thesis using e by (intro that [of "s * 2 ^ 52" "?e + 1"]) auto
  next
    case False
    then show thesis using x n e by (intro that [of ?n ?e]) auto
  qed
qed

lemma is_f64_double:
  assumes "is_f64 x" shows "is_f64 (2 * x)"
proof -
  obtain n e where "x = of_int n * 2 powi e" "\<bar>n\<bar> < 2 ^ 53" "- 1074 \<le> e"
    using assms by (rule is_f64_mantissa)
  then have "2 * x = of_int n * 2 powi (e + 1)" by (simp add: power_int_add)
  moreover have "round64 (of_int n * 2 powi (e + 1)) = of_int n * 2 powi (e + 1)"
    using \<open>\<bar>n\<bar> < 2 ^ 53\<close> \<open>- 1074 \<le> e\<close> by (intro round64_grid_exact) simp_all
  ultimately show ?thesis by (simp add: is_f64_def)
qed

definition unit_f64 :: "rat \<Rightarrow> bool" where
  "unit_f64 x \<longleftrightarrow> is_f64 x \<and> 0 \<le> x \<and> x \<le> 1"

lemma small_num_of: "0 \<le> x \<Longrightarrow> x \<le> 2 \<Longrightarrow> num_of x = Fin (round64 x)"
proof -
  assume x: "0 \<le> x" "x \<le> 2"
  have "is_f64 2" using is_f64_of_int [of 2] by simp
  then have "0 \<le> round64 x" "round64 x \<le> 2" using x round64_nonneg round64_le by blast+
  moreover have "(2 :: rat) \<le> max_f64" by (simp add: max_f64_code)
  ultimately show ?thesis by (simp add: num_of_def Let_def)
qed

text \<open>The midpoint of two values of the unit interval lies between them after rounding.\<close>

lemma midpoint_between:
  assumes "unit_f64 a" "unit_f64 b" "a \<le> b"
  obtains c where "num_div (num_add (Fin a) (Fin b)) (Fin 2) = Fin c" "unit_f64 c" "a \<le> c" "c \<le> b"
proof -
  let ?s = "round64 (a + b)"
  have ab: "is_f64 a" "is_f64 b" "0 \<le> a" "b \<le> 1" "0 \<le> b" using assms by (auto simp: unit_f64_def)
  have "2 * a \<le> ?s" "?s \<le> 2 * b"
    using assms(3) ab is_f64_double by (intro round64_ge round64_le; simp)+
  then have s: "a \<le> ?s / 2" "?s / 2 \<le> b" by simp_all
  have c: "a \<le> round64 (?s / 2)" "round64 (?s / 2) \<le> b"
    using s ab(1,2) by (auto intro: round64_ge round64_le)
  have "num_add (Fin a) (Fin b) = Fin ?s" using ab assms(3) by (simp add: small_num_of)
  moreover have "num_of (?s / 2) = Fin (round64 (?s / 2))" using s ab assms(3) by (intro small_num_of) linarith+
  ultimately show thesis
    using c ab by (intro that [of "round64 (?s / 2)"]) (auto simp: unit_f64_def)
qed

subsection \<open>Bisection\<close>

lemma bisect_bounds:
  "bisect m p a b n (Fin lo) (Fin hi) = Inr r \<Longrightarrow> unit_f64 lo \<Longrightarrow> unit_f64 hi \<Longrightarrow> lo \<le> hi \<Longrightarrow>
   \<exists>lo' hi'. r = (Fin lo', Fin hi') \<and> unit_f64 lo' \<and> unit_f64 hi' \<and> lo \<le> lo' \<and> lo' \<le> hi' \<and> hi' \<le> hi"
proof (induction n arbitrary: lo hi)
  case (Suc n)
  obtain c where c: "num_div (num_add (Fin lo) (Fin hi)) (Fin 2) = Fin c" "unit_f64 c" "lo \<le> c" "c \<le> hi"
    using midpoint_between Suc.prems(2-4) by blast
  from Suc.prems(1) consider "bisect m p a b n (Fin c) (Fin hi) = Inr r" | "bisect m p a b n (Fin lo) (Fin c) = Inr r"
    unfolding bisect.simps c(1) Let_def by (auto split: if_splits)
  then show ?case
  proof cases
    case 1
    from Suc.IH [OF 1 c(2) Suc.prems(3) c(4)] show ?thesis using c(3) by fastforce
  next
    case 2
    from Suc.IH [OF 2 Suc.prems(2) c(2) c(3)] show ?thesis using c(4) by fastforce
  qed
next
  case 0
  then have "r = (Fin lo, Fin hi)" by (simp add: eq_commute)
  then show ?case using 0 by simp
qed

text \<open>
  Bisecting for a smaller probability never ends to the right, whatever values the numerical
  incomplete beta function takes: as long as the searches agree they probe the same midpoint,
  and where they part the smaller one goes left.
\<close>

lemma bisect_mono:
  "bisect m p a b n (Fin lo) (Fin hi) = Inr (Fin l1, Fin h1) \<Longrightarrow>
   bisect m q a b n (Fin lo) (Fin hi) = Inr (Fin l2, Fin h2) \<Longrightarrow>
   num_le p q \<Longrightarrow> unit_f64 lo \<Longrightarrow> unit_f64 hi \<Longrightarrow> lo \<le> hi \<Longrightarrow>
   l1 \<le> l2 \<and> h1 \<le> h2"
proof (induction n arbitrary: lo hi)
  case (Suc n)
  obtain c where c: "num_div (num_add (Fin lo) (Fin hi)) (Fin 2) = Fin c" "unit_f64 c" "lo \<le> c" "c \<le> hi"
    using midpoint_between Suc.prems(4-6) by blast
  obtain v where v: "regularizedIncompleteBeta m (Fin c) a b = Inr v"
    using Suc.prems(1) unfolding bisect.simps c(1) Let_def by auto
  have b1: "(if num_less v p then bisect m p a b n (Fin c) (Fin hi) else bisect m p a b n (Fin lo) (Fin c)) = Inr (Fin l1, Fin h1)"
    and b2: "(if num_less v q then bisect m q a b n (Fin c) (Fin hi) else bisect m q a b n (Fin lo) (Fin c)) = Inr (Fin l2, Fin h2)"
    using Suc.prems(1,2) v unfolding bisect.simps c(1) Let_def by auto
  have less: "num_less v p \<Longrightarrow> num_less v q"
    using Suc.prems(3) unfolding num_le_def num_eq_def by (auto intro: num_less_trans)
  show ?case
  proof (cases "num_less v p")
    case True
    then show ?thesis using Suc.IH [of c hi] b1 b2 less Suc.prems c by simp
  next
    case False
    note left = b1 [unfolded if_not_P [OF False]]
    show ?thesis
    proof (cases "num_less v q")
      case True
      have "h1 \<le> c" "l1 \<le> h1" using bisect_bounds [OF left Suc.prems(4) c(2) c(3)] by auto
      moreover have "c \<le> l2" "l2 \<le> h2"
        using bisect_bounds [OF b2 [unfolded if_P [OF True]] c(2) Suc.prems(5) c(4)] by auto
      ultimately show ?thesis by linarith
    next
      case False
      then show ?thesis using Suc.IH [of lo c] left b2 Suc.prems c by simp
    qed
  qed
qed simp

lemma inverse_steps:
  assumes "inverseRegularizedBeta m p a b = Inr v" "\<not> num_le p (Fin 0)" "\<not> num_le (Fin 1) p"
  obtains lo hi where "bisect m p a b 72 (Fin 0) (Fin 1) = Inr (lo, hi)" "v = num_div (num_add lo hi) (Fin 2)"
proof -
  define r where "r = bisect m p a b 72 (Fin 0) (Fin 1)"
  have "and_then r (\<lambda>(lo, hi). Inr (num_div (num_add lo hi) (Fin 2))) = Inr v"
    using assms by (auto simp: inverseRegularizedBeta_def r_def [symmetric])
  then show thesis using that unfolding r_def [symmetric] by (auto split: prod.splits)
qed

lemma inverse_ends:
  assumes "inverseRegularizedBeta m p a b = Inr v"
  shows "num_le p (Fin 0) \<Longrightarrow> v = Fin 0" "\<not> num_le p (Fin 0) \<Longrightarrow> num_le (Fin 1) p \<Longrightarrow> v = Fin 1"
proof -
  define r where "r = bisect m p a b 72 (Fin 0) (Fin 1)"
  show "num_le p (Fin 0) \<Longrightarrow> v = Fin 0" "\<not> num_le p (Fin 0) \<Longrightarrow> num_le (Fin 1) p \<Longrightarrow> v = Fin 1"
    using assms by (auto simp: inverseRegularizedBeta_def r_def [symmetric])
qed

lemma inverse_cases:
  assumes "inverseRegularizedBeta m p a b = Inr v"
  obtains "num_le p (Fin 0)" "v = Fin 0"
  | "\<not> num_le p (Fin 0)" "num_le (Fin 1) p" "v = Fin 1"
  | lo hi where "\<not> num_le p (Fin 0)" "\<not> num_le (Fin 1) p" "bisect m p a b 72 (Fin 0) (Fin 1) = Inr (Fin lo, Fin hi)"
      "unit_f64 lo" "unit_f64 hi" "lo \<le> hi" "v = num_div (num_add (Fin lo) (Fin hi)) (Fin 2)"
proof (cases "num_le p (Fin 0) \<or> num_le (Fin 1) p")
  case True
  then show thesis using inverse_ends [OF assms] that(1,2) by blast
next
  case False
  then obtain lo hi where r: "bisect m p a b 72 (Fin 0) (Fin 1) = Inr (lo, hi)"
    "v = num_div (num_add lo hi) (Fin 2)"
    using inverse_steps [OF assms] by blast
  have "unit_f64 0" "unit_f64 1" using is_f64_of_int [of 1] by (auto simp: unit_f64_def)
  then obtain lo' hi' where "(lo, hi) = (Fin lo', Fin hi')" "unit_f64 lo'" "unit_f64 hi'" "lo' \<le> hi'"
    using bisect_bounds [OF r(1)] by fastforce
  then show thesis using r False by (intro that(3) [of lo' hi']) (simp_all del: bisect.simps)
qed

lemma inverse_unit:
  assumes "inverseRegularizedBeta m p a b = Inr v" shows "\<exists>x. v = Fin x \<and> unit_f64 x"
  using assms
proof (cases rule: inverse_cases)
  case (3 lo hi)
  then show ?thesis using midpoint_between [of lo hi] by metis
qed (use is_f64_of_int [of 1] in \<open>auto simp: unit_f64_def\<close>)

lemma inverse_mono:
  assumes p: "inverseRegularizedBeta m p a b = Inr v" and q: "inverseRegularizedBeta m q a b = Inr w"
    and "num_le p q"
  shows "num_le v w"
  using p
proof (cases rule: inverse_cases)
  case 1
  then show ?thesis using inverse_unit [OF q] by (auto simp: unit_f64_def)
next
  case 2
  then have "num_le (Fin 1) q" "\<not> num_le q (Fin 0)"
    using assms(3) num_le_trans by blast+
  then have "w = Fin 1" by (auto intro: inverse_cases [OF q])
  then show ?thesis using 2 by simp
next
  case (3 lo hi)
  note left = this
  show ?thesis using q
  proof (cases rule: inverse_cases)
    case 1
    then have "num_le p (Fin 0)" using assms(3) num_le_trans by blast
    then show ?thesis using left by blast
  next
    case 2
    then show ?thesis using inverse_unit [OF p] by (auto simp: unit_f64_def)
  next
    case (3 lo' hi')
    have "lo \<le> lo'" "hi \<le> hi'"
      using bisect_mono [OF left(3) 3(3) assms(3)] is_f64_of_int [of 1] by (auto simp: unit_f64_def)
    then have sum: "round64 (lo + hi) \<le> round64 (lo' + hi')" by (intro round64_mono) simp
    have n: "num_div (num_add (Fin x) (Fin y)) (Fin 2) = Fin (round64 (round64 (x + y) / 2))"
      if "unit_f64 x" "unit_f64 y" for x y
    proof -
      have "0 \<le> x + y" "x + y \<le> 2" using that by (simp_all add: unit_f64_def)
      moreover from this have "0 \<le> round64 (x + y)" "round64 (x + y) \<le> 2"
        using is_f64_of_int [of 2] by (auto intro: round64_le round64_nonneg)
      ultimately show ?thesis by (simp add: small_num_of)
    qed
    show ?thesis
      unfolding left(7) 3(7) n [OF left(4,5)] n [OF 3(4,5)] using sum by (simp add: round64_mono)
  qed
qed

subsection \<open>The error of one rounding\<close>

lemma round64_error:
  assumes "2 powi - 1022 \<le> \<bar>x\<bar>" shows "\<bar>round64 x - x\<bar> \<le> \<bar>x\<bar> / 2 ^ 53"
proof -
  have p: "0 < \<bar>x\<bar>" using assms by (rule less_le_trans [rotated]) simp
  then have nz: "x \<noteq> 0" by simp
  let ?u = "(2 :: rat) powi ulp_exp x"
  have "- 1022 < rat_log2 \<bar>x\<bar> + 1"
  proof (rule ccontr)
    assume "\<not> - 1022 < rat_log2 \<bar>x\<bar> + 1"
    then have "(2 :: rat) powi (rat_log2 \<bar>x\<bar> + 1) \<le> 2 powi - 1022" by (intro power_int_increasing) simp_all
    then show False using rat_log2_bounds(2) [OF p] assms by linarith
  qed
  then have e: "ulp_exp x = rat_log2 \<bar>x\<bar> - 52" by (simp add: ulp_exp_def)
  have "?u * 2 ^ 52 = 2 powi (rat_log2 \<bar>x\<bar>)" unfolding e by (simp add: power_int_diff)
  then have u: "?u * 2 ^ 52 \<le> \<bar>x\<bar>" using rat_log2_bounds(1) [OF p] by simp
  have "round64 x - x = (of_int (round_half_even (x / ?u)) - x / ?u) * ?u"
    using nz by (simp add: round64_def field_simps)
  then have "\<bar>round64 x - x\<bar> \<le> 1 / 2 * ?u"
    using round_half_even_error [of "x / ?u"] by (simp add: abs_mult)
  then show ?thesis using u by simp
qed


subsection \<open>Convergence for a uniform posterior\<close>

lemma unit_f64_round: "0 \<le> x \<Longrightarrow> x \<le> 1 \<Longrightarrow> unit_f64 (round64 x)"
  using is_f64_of_int [of 1] by (auto simp: unit_f64_def intro: round64_nonneg round64_le)

lemma half_f64: "is_f64 (1 / 2)" "is_f64 (3 / 4)" "is_f64 (1 / 4)" "is_f64 1" "is_f64 2" "is_f64 3"
  by code_simp+

lemma round64_half: "z \<le> 1 \<Longrightarrow> round64 (z / 2) \<le> 1 / 2"
  using half_f64(1) by (intro round64_le) simp_all

lemma clamp_large: "1 / 2 \<le> x \<Longrightarrow> clamp_small (Fin x) = Fin x"
proof -
  assume x: "1 / 2 \<le> x"
  have m: "round64 (1 / 10 ^ 300) \<le> 1 / 2" using half_f64 by (intro round64_le) simp_all
  have "num_of (1 / 10 ^ 300) = Fin (round64 (1 / 10 ^ 300))" by (rule small_num_of) simp_all
  then show ?thesis using x m by (simp add: clamp_small_def Let_def)
qed

lemma reciprocal_product:
  assumes "1 / 2 \<le> u" "u \<le> 1"
  shows "\<bar>round64 (round64 (round64 (1 / u) * u) - 1)\<bar> \<le> 1 / 2 ^ 51"
proof -
  let ?w = "round64 (1 / u)"
  have one: "(2 :: rat) powi - 1022 \<le> 1 / 2"
    using power_int_increasing [of "- 1022" "- 1" "2 :: rat"] by simp
  have inv: "1 \<le> 1 / u" "1 / u \<le> 2" using assms by (simp_all add: field_simps)
  then have "\<bar>?w - 1 / u\<bar> \<le> \<bar>1 / u\<bar> / 2 ^ 53" using one by (intro round64_error) linarith
  then have "\<bar>?w - 1 / u\<bar> * u \<le> 1 / u / 2 ^ 53 * u" using inv assms by (intro mult_right_mono) simp_all
  then have "\<bar>?w - 1 / u\<bar> * u \<le> 1 / 2 ^ 53" using assms by simp
  moreover have "\<bar>?w - 1 / u\<bar> * u = \<bar>?w * u - 1\<bar>"
    using assms by (simp add: abs_mult_pos left_diff_distrib)
  ultimately have wu: "\<bar>?w * u - 1\<bar> \<le> 1 / 2 ^ 53" by simp
  have near: "1 / 2 \<le> \<bar>z\<bar>" "\<bar>z\<bar> \<le> 2" if "\<bar>z - 1\<bar> \<le> 1 / 2 ^ 53" for z :: rat
    using that by (auto simp: abs_le_iff abs_if split: if_splits)
  note near [OF wu]
  moreover from this have "\<bar>round64 (?w * u) - ?w * u\<bar> \<le> \<bar>?w * u\<bar> / 2 ^ 53"
    using one by (intro round64_error) linarith
  moreover have "\<bar>b - 1\<bar> \<le> 1 / 2 ^ 51"
    if "\<bar>b - a\<bar> \<le> \<bar>a\<bar> / 2 ^ 53" "\<bar>a\<bar> \<le> 2" "\<bar>a - 1\<bar> \<le> 1 / 2 ^ 53" for a b :: rat
    using that by (auto simp: abs_if split: if_splits)
  ultimately have "\<bar>round64 (?w * u) - 1\<bar> \<le> 1 / 2 ^ 51" using wu by blast
  moreover have "is_f64 (1 / 2 ^ 51)" by code_simp
  ultimately show ?thesis
    using round64_le [of "round64 (?w * u) - 1" "1 / 2 ^ 51"]
      round64_le [of "- (round64 (?w * u) - 1)" "1 / 2 ^ 51"]
    by (simp only: round64_minus abs_le_iff)
qed

lemma small_num: "\<bar>z\<bar> \<le> 6 \<Longrightarrow> num_of z = Fin (round64 z)"
proof -
  assume z: "\<bar>z\<bar> \<le> 6"
  have "is_f64 6" using is_f64_of_int [of 6] by simp
  then have "\<bar>round64 z\<bar> \<le> 6"
    using z round64_le [of z 6] round64_le [of "- z" 6] by (simp add: round64_minus abs_le_iff)
  moreover have "(6 :: rat) \<le> max_f64" by (simp add: max_f64_def)
  ultimately show ?thesis by (simp add: num_of_def Let_def abs_le_iff)
qed

lemma delta_small:
  assumes u: "3 / 4 \<le> u" "u \<le> 1"
  shows "num_less (num_abs (num_add (num_mul (num_div (Fin 1) (Fin u)) (Fin u)) (Fin (- 1))))
    (num_of (3 / 100000000000000))"
proof -
  let ?p = "round64 (1 / u) * u"
  have inv: "1 \<le> 1 / u" "1 / u \<le> 2" using u by (simp_all add: field_simps)
  then have w: "1 \<le> round64 (1 / u)" "round64 (1 / u) \<le> 2"
    using half_f64(4,5) by (intro round64_ge round64_le; simp)+
  have "?p \<le> 2 * 1" using w u by (intro mult_mono) simp_all
  then have p: "0 \<le> ?p" "?p \<le> 2" using w u by simp_all
  then have "0 \<le> round64 ?p" "round64 ?p \<le> 2"
    using half_f64(5) by (simp_all add: round64_nonneg round64_le)
  then have "num_of (round64 ?p - 1) = Fin (round64 (round64 ?p - 1))" by (intro small_num) linarith
  moreover have "num_of (1 / u) = Fin (round64 (1 / u))" using inv by (intro small_num) linarith
  moreover have "num_of ?p = Fin (round64 ?p)" using p by (intro small_num) linarith
  moreover have "\<bar>round64 (round64 ?p - 1)\<bar> \<le> 1 / 2 ^ 51" using u by (intro reciprocal_product) simp_all
  moreover have "is_f64 (1 / 2 ^ 50)" by code_simp
  then have "1 / 2 ^ 50 \<le> round64 (3 / 100000000000000)" by (intro round64_ge) simp_all
  moreover have "num_of (3 / 100000000000000) = Fin (round64 (3 / 100000000000000))"
    by (rule small_num_of) simp_all
  moreover have "u \<noteq> 0" using u by auto
  ultimately show ?thesis by simp
qed

lemma fraction_converges:
  assumes x: "0 \<le> x" "x \<le> 1 / 2"
  shows "\<exists>v. fraction_loop (Fin x) (Fin 1) (Fin 1) 1 (Fin 1) (Fin d) r = Inr v"
proof -
  define z where "z = round64 (6 * x)"
  define y where "y = round64 (- z / 12)"
  define u where "u = round64 (1 + y)"
  have z: "0 \<le> z" "z \<le> 3" unfolding z_def using x half_f64(6) by (simp_all add: round64_nonneg round64_le)
  have "round64 (z / 12) \<le> 1 / 4" using z half_f64(3) by (intro round64_le) simp_all
  moreover have "0 \<le> round64 (z / 12)" using z by (intro round64_nonneg) simp
  ultimately have y: "- (1 / 4) \<le> y" "y \<le> 0" by (simp_all add: y_def round64_minus)
  have u: "3 / 4 \<le> u" "u \<le> 1"
    unfolding u_def using y half_f64(2,4) by (intro round64_ge round64_le; linarith)+
  have ints: "num_of (of_int n) = Fin (of_int n)" if "\<bar>n\<bar> \<le> 100" for n
    using that by (intro num_of_of_int) simp
  have n: "num_of 2 = Fin 2" "num_of 3 = Fin 3" "num_of 4 = Fin 4" "num_of 6 = Fin 6" "num_of 12 = Fin 12"
    "num_of 1 = Fin 1" "num_of 0 = Fin 0" "num_of (- 6) = Fin (- 6)"
    using ints [of 2] ints [of 3] ints [of 4] ints [of 6] ints [of 12] ints [of 1] ints [of 0] ints [of "- 6"]
    by simp_all
  have "num_of (- (6 * x)) = Fin (- z)"
    using x small_num [of "- (6 * x)"] by (simp add: z_def round64_minus)
  moreover have "num_div (Fin (- z)) (Fin 12) = Fin y"
    using z small_num [of "- z / 12"] by (simp add: y_def)
  moreover have "num_of y = Fin y"
    using y small_num [of y] by (simp add: y_def round64_idem)
  moreover have "num_add (Fin 1) (Fin y) = Fin u"
    using y small_num [of "1 + y"] by (simp add: u_def)
  moreover have "clamp_small (Fin 1) = Fin 1" "clamp_small (Fin u) = Fin u"
    using u by (intro clamp_large; simp)+
  moreover have "num_div (Fin 0) (Fin 6) = Fin 0" "num_div (Fin 0) (Fin 1) = Fin 0"
    "num_div (Fin 1) (Fin 1) = Fin 1" "num_div (Fin y) (Fin 1) = Fin y"
    using n \<open>num_of y = Fin y\<close> by simp_all
  ultimately show ?thesis using delta_small [OF u]
    by (subst fraction_loop.simps) (simp add: Let_def num_sub_def n del: num_div.simps(1))
qed


lemma continued_fraction_converges:
  assumes x: "0 \<le> x" "x \<le> 1 / 2"
  shows "\<exists>v. betaContinuedFraction (Fin x) (Fin 1) (Fin 1) = Inr v"
proof -
  define z where "z = round64 (2 * x)"
  define y where "y = round64 (z / 2)"
  define d where "d = round64 (1 - y)"
  have z: "0 \<le> z" "z \<le> 1" unfolding z_def using x half_f64(4) by (simp_all add: round64_nonneg round64_le)
  have y: "0 \<le> y" "y \<le> 1 / 2" unfolding y_def using z by (intro round64_nonneg round64_half; simp)+
  have d: "1 / 2 \<le> d" "d \<le> 1"
    unfolding d_def using y half_f64(1,4) by (intro round64_ge round64_le; linarith)+
  have n: "num_of 2 = Fin 2" using num_of_of_int [of 2] by simp
  have "num_mul (Fin 2) (Fin x) = Fin z" using x small_num [of "2 * x"] by (simp add: z_def)
  moreover have "num_div (Fin z) (Fin 2) = Fin y" using z small_num [of "z / 2"] by (simp add: y_def)
  moreover have "num_sub (Fin 1) (Fin y) = Fin d" using y small_num [of "1 - y"] by (simp add: d_def num_sub_def)
  ultimately have d0: "num_sub (Fin 1) (num_div (num_mul (num_add (Fin 1) (Fin 1)) (Fin x))
      (num_add (Fin 1) (Fin 1))) = Fin d" by (simp add: n)
  have "num_max (Fin d) (num_of (1 / 10 ^ 300)) = Fin d"
    using clamp_large [OF d(1)] d(1) by (auto simp: clamp_small_def num_max_def Let_def num_of_def split: if_splits)
  moreover have "1 \<le> 1 / d" "1 / d \<le> 2" using d by (simp_all add: field_simps)
  then have inv: "num_div (Fin 1) (Fin d) = Fin (round64 (1 / d))" "1 \<le> round64 (1 / d)" "round64 (1 / d) \<le> 2"
    using small_num [of "1 / d"] d half_f64(4,5) by (simp_all add: round64_ge round64_le)
  moreover have "num_mul (Fin (round64 (1 / d))) (Fin 1) = Fin (round64 (1 / d))"
    using inv(2,3) small_num [of "round64 (1 / d)"] by (simp add: round64_idem)
  moreover have "num_abs (Fin d) = Fin d" "sign_or_one (Fin d) = Fin 1"
    using d by (simp_all add: sign_or_one_def)
  ultimately have r: "num_mul (num_div (Fin 1) (num_max (num_abs (Fin d)) (num_of (1 / 10 ^ 300)))) (sign_or_one (Fin d))
      = Fin (round64 (1 / d))" by simp
  show ?thesis unfolding betaContinuedFraction_def d0 Let_def r by (rule fraction_converges [OF x])
qed

text \<open>For a uniform posterior the numerical inverse always returns, whatever the platform computes.\<close>

lemma regularized_uniform:
  assumes "unit_f64 x" shows "\<exists>v. regularizedIncompleteBeta m (Fin x) (Fin 1) (Fin 1) = Inr v"
proof -
  have x: "0 \<le> x" "x \<le> 1" using assms by (simp_all add: unit_f64_def)
  have n: "num_of 2 = Fin 2" "num_of 4 = Fin 4"
    using num_of_of_int [of 2] num_of_of_int [of 4] by simp_all
  have half: "num_of (1 / 2) = Fin (1 / 2)" using small_num [of "1 / 2"] half_f64(1) by (simp add: is_f64_def)
  have s: "num_sub (Fin 1) (Fin x) = Fin (round64 (1 - x))" "0 \<le> round64 (1 - x)"
    using x small_num [of "1 - x"] by (simp_all add: num_sub_def round64_nonneg)
  have v: "validatePosterior \<lparr>alpha = Fin 1, beta = Fin 1\<rparr> = Inr ()" by (simp add: validatePosterior_def)
  have bound: "num_div (num_add (Fin 1) (Fin 1)) (num_add (num_add (Fin 1) (Fin 1)) (Fin 2)) = Fin (1 / 2)"
    by (simp add: n half)
  show ?thesis
  proof (cases "x < 1 / 2")
    case True
    then obtain f where "betaContinuedFraction (Fin x) (Fin 1) (Fin 1) = Inr f"
      using continued_fraction_converges x(1) by fastforce
    then show ?thesis using True unfolding regularizedIncompleteBeta_def bound Let_def v by simp
  next
    case False
    then have "round64 (1 - x) \<le> 1 / 2" using half_f64(1) by (intro round64_le) simp_all
    then obtain f where "betaContinuedFraction (num_sub (Fin 1) (Fin x)) (Fin 1) (Fin 1) = Inr f"
      using continued_fraction_converges s by fastforce
    then show ?thesis using False unfolding regularizedIncompleteBeta_def bound Let_def v by simp
  qed
qed

lemma bisect_uniform:
  "unit_f64 lo \<Longrightarrow> unit_f64 hi \<Longrightarrow> lo \<le> hi \<Longrightarrow> \<exists>r. bisect m p (Fin 1) (Fin 1) n (Fin lo) (Fin hi) = Inr r"
proof (induction n arbitrary: lo hi)
  case (Suc n)
  obtain c where c: "num_div (num_add (Fin lo) (Fin hi)) (Fin 2) = Fin c" "unit_f64 c" "lo \<le> c" "c \<le> hi"
    using midpoint_between Suc.prems by blast
  obtain v where "regularizedIncompleteBeta m (Fin c) (Fin 1) (Fin 1) = Inr v"
    using regularized_uniform [OF c(2)] by blast
  then show ?case
    using Suc.IH [of c hi] Suc.IH [of lo c] c Suc.prems unfolding bisect.simps c(1) Let_def by simp
qed simp

lemma inverse_uniform: "\<exists>v. inverseRegularizedBeta m p (Fin 1) (Fin 1) = Inr v"
proof -
  define r where "r = bisect m p (Fin 1) (Fin 1) 72 (Fin 0) (Fin 1)"
  have "unit_f64 0" "unit_f64 1" using half_f64(4) by (simp_all add: unit_f64_def)
  then obtain lohi where "r = Inr lohi" using bisect_uniform [of 0 1] unfolding r_def by fastforce
  moreover have "validatePosterior \<lparr>alpha = Fin 1, beta = Fin 1\<rparr> = Inr ()" by (simp add: validatePosterior_def)
  ultimately show ?thesis unfolding inverseRegularizedBeta_def r_def [symmetric] by (cases lohi) simp
qed

subsection \<open>Credible intervals\<close>

text \<open>
  C40. Whatever the platform computes for the logarithms and exponentials, a credible interval
  lies in the unit interval and is ordered; the quantile search is monotone, so that a
  narrower mass never widens it on either side. (Lemma \<open>uniform_interval\<close>: for a uniform
  posterior and any mass between 0 and 1 the interval exists.)
\<close>

theorem credible_interval_ordered:
  assumes "betaCredibleInterval m p (Fin mass) = Inr i"
  shows "num_le (Fin 0) (lower i) \<and> num_le (lower i) (upper i) \<and> num_le (upper i) (Fin 1) \<and>
    (\<forall>mass' i'. mass' \<le> mass \<longrightarrow> betaCredibleInterval m p (Fin mass') = Inr i' \<longrightarrow>
       num_le (lower i) (lower i') \<and> num_le (upper i') (upper i))"
proof -
  define tail where "tail = (\<lambda>c. num_div (num_sub (Fin 1) (Fin c)) (Fin 2))"
  have steps: "0 < c \<and> c < 1 \<and> inverseRegularizedBeta m (tail c) (alpha p) (beta p) = Inr (lower j) \<and>
      inverseRegularizedBeta m (num_sub (Fin 1) (tail c)) (alpha p) (beta p) = Inr (upper j)"
    if "betaCredibleInterval m p (Fin c) = Inr j" for c j
    using that by (auto simp: betaCredibleInterval_def Let_def tail_def split: if_splits)
  have tails: "\<exists>t. tail c = Fin t \<and> num_sub (Fin 1) (tail c) = Fin (round64 (1 - t)) \<and>
      t = round64 (round64 (1 - c) / 2) \<and> t \<le> 1 / 2" if "0 < c" "c < 1" for c
  proof -
    have a: "0 \<le> round64 (1 - c)" "round64 (1 - c) \<le> 1"
      using that half_f64(4) by (simp_all add: round64_nonneg round64_le)
    then have t: "0 \<le> round64 (round64 (1 - c) / 2)" "round64 (round64 (1 - c) / 2) \<le> 1 / 2"
      by (intro round64_nonneg round64_half; simp)+
    have "num_of (1 - c) = Fin (round64 (1 - c))" "num_of (round64 (1 - c) / 2) = Fin (round64 (round64 (1 - c) / 2))"
      "num_of (1 - round64 (round64 (1 - c) / 2)) = Fin (round64 (1 - round64 (round64 (1 - c) / 2)))"
      using that a t by (intro small_num; simp)+
    then show ?thesis using t by (simp add: tail_def num_sub_def)
  qed
  note s = steps [OF assms]
  obtain t where t: "tail mass = Fin t" "num_sub (Fin 1) (tail mass) = Fin (round64 (1 - t))"
    "t = round64 (round64 (1 - mass) / 2)" "t \<le> 1 / 2" using tails s by blast
  have "t \<le> round64 (1 - t)" using t(3,4) by (intro round64_ge) simp_all
  then have "num_le (lower i) (upper i)" using s t inverse_mono by auto
  moreover have "num_le (lower i) (lower i') \<and> num_le (upper i') (upper i)"
    if "mass' \<le> mass" "betaCredibleInterval m p (Fin mass') = Inr i'" for mass' i'
  proof -
    note s' = steps [OF that(2)]
    obtain t' where t': "tail mass' = Fin t'" "num_sub (Fin 1) (tail mass') = Fin (round64 (1 - t'))"
      "t' = round64 (round64 (1 - mass') / 2)" "t' \<le> 1 / 2" using tails s' by blast
    have "round64 (1 - mass) \<le> round64 (1 - mass')" using that(1) by (intro round64_mono) simp
    then have "t \<le> t'" unfolding t(3) t'(3) by (intro round64_mono) simp
    then have "num_le (Fin t) (Fin t')" "num_le (Fin (round64 (1 - t'))) (Fin (round64 (1 - t)))"
      by (simp_all add: round64_mono)
    then show ?thesis using s s' t(1,2) t'(1,2) inverse_mono by metis
  qed
  moreover have "num_le (Fin 0) (lower i)" "num_le (upper i) (Fin 1)"
    using s inverse_unit by (fastforce simp: unit_f64_def)+
  ultimately show ?thesis by blast
qed

lemma uniform_interval:
  "0 < c \<Longrightarrow> c < 1 \<Longrightarrow> \<exists>i. betaCredibleInterval m \<lparr>alpha = Fin 1, beta = Fin 1\<rparr> (Fin c) = Inr i"
proof -
  assume c: "0 < c" "c < 1"
  obtain lo hi where
    "inverseRegularizedBeta m (num_div (num_sub (Fin 1) (Fin c)) (Fin 2)) (Fin 1) (Fin 1) = Inr lo"
    "inverseRegularizedBeta m (num_sub (Fin 1) (num_div (num_sub (Fin 1) (Fin c)) (Fin 2))) (Fin 1) (Fin 1) = Inr hi"
    using inverse_uniform by metis
  then show ?thesis using c by (simp add: betaCredibleInterval_def validatePosterior_def Let_def)
qed

definition platform :: math where
  "platform = \<lparr>math_log = (\<lambda>x. Fin 0), math_log1p = (\<lambda>x. Fin 0), math_exp = (\<lambda>x. Fin 1),
     math_sin = (\<lambda>x. Fin 0), math_pow = (\<lambda>x y. num_mul x x)\<rparr>"

theorem credible_interval_ordered_witness:
  "\<exists>i. betaCredibleInterval platform \<lparr>alpha = Fin 1, beta = Fin 1\<rparr> (Fin (1 / 2)) = Inr i \<and>
     num_le (lower i) (upper i)"
proof -
  obtain i where "betaCredibleInterval platform \<lparr>alpha = Fin 1, beta = Fin 1\<rparr> (Fin (1 / 2)) = Inr i"
    using uniform_interval [of "1 / 2" platform] by auto
  then show ?thesis using credible_interval_ordered by blast
qed


subsection \<open>The quadrature points\<close>

definition primes_to :: "int \<Rightarrow> int set" where
  "primes_to c = {p. isPrime p \<and> p \<le> c}"

lemma primes_to_finite [simp]: "finite (primes_to c)"
  by (rule finite_subset [of _ "{2..c}"]) (auto simp: primes_to_def isPrime_iff)

lemma primes_to_step:
  "primes_to (c + 1) = (if isPrime (c + 1) then insert (c + 1) (primes_to c) else primes_to c)"
  by (auto simp: primes_to_def) (metis le_less zle_add1_eq_le)+

lemma primes_to_card_step: "card (primes_to (c + 1)) = card (primes_to c) + (if isPrime (c + 1) then 1 else 0)"
proof -
  have "c + 1 \<notin> primes_to c" by (simp add: primes_to_def)
  then show ?thesis unfolding primes_to_step by simp
qed

lemma prime_loop_result:
  "int (card (primes_to candidate)) = found + 1 \<Longrightarrow> found < index \<Longrightarrow>
   isPrime (prime_loop index found candidate) \<and>
   int (card (primes_to (prime_loop index found candidate))) = index + 1"
proof (induction index found candidate rule: prime_loop.induct)
  case (1 index found candidate)
  let ?found = "if isPrime (candidate + 1) then found + 1 else found"
  have step: "prime_loop index found candidate = prime_loop index ?found (candidate + 1)"
    using "1.prems"(2) by (subst prime_loop.simps) simp
  have inv: "int (card (primes_to (candidate + 1))) = ?found + 1"
    using "1.prems"(1) by (simp add: primes_to_card_step)
  show ?case
  proof (cases "?found < index")
    case True
    then show ?thesis unfolding step using "1.IH" [OF "1.prems"(2) inv] by blast
  next
    case False
    then have prime: "isPrime (candidate + 1)" "found + 1 = index" using "1.prems"(2) by (auto split: if_splits)
    have "prime_loop index (found + 1) (candidate + 1) = candidate + 1"
      using prime(2) by (subst prime_loop.simps) simp
    then show ?thesis unfolding step using inv prime by simp
  qed
qed

lemma primeAt_prime: "0 \<le> i \<Longrightarrow> isPrime (primeAt i) \<and> int (card (primes_to (primeAt i))) = i + 1"
proof -
  have "primes_to 1 = {}" by (auto simp: primes_to_def isPrime_iff)
  then show "0 \<le> i \<Longrightarrow> ?thesis" unfolding primeAt_def by (intro prime_loop_result) simp_all
qed

lemma radical_loop_nonneg:
  "num_le (Fin 0) point \<Longrightarrow> 0 \<le> f \<Longrightarrow> f \<le> 1 \<Longrightarrow> num_le (Fin 0) (radical_loop base remainder point (Fin f))"
proof (induction base remainder point "Fin f" arbitrary: f rule: radical_loop.induct)
  case (1 base remainder point)
  show ?case
  proof (cases "0 < remainder \<and> 2 \<le> base")
    case True
    have of_nonneg: "num_le (Fin 0) (num_of z)" if "0 \<le> z" for z
      using round64_nonneg [OF that] by (auto simp: num_of_def Let_def max_f64_def)
    then have prod: "num_le (Fin 0) (num_of (f * of_int (remainder mod base)))" using 1(3) True by simp
    have sum: "num_le (Fin 0) (num_add a b)" if "num_le (Fin 0) a" "num_le (Fin 0) b" for a b
      using that by (cases a; cases b) (auto intro!: of_nonneg)
    have "f / of_int base \<le> f / 1" using 1(3) True by (intro divide_left_mono) simp_all
    then have q: "0 \<le> f / of_int base" "f / of_int base \<le> 1" using 1(3,4) True by simp_all
    then have n: "num_div (Fin f) (num_of_int base) = Fin (round64 (f / of_int base))"
      using True small_num_of [OF q(1)] q(2) by simp
    have r: "0 \<le> round64 (f / of_int base)" "round64 (f / of_int base) \<le> 1"
      using q half_f64(4) by (simp_all add: round64_nonneg round64_le)
    show ?thesis
      unfolding radical_loop.simps [of base remainder point "Fin f"] if_P [OF True] n
      by (rule 1(1) [OF True n sum [OF 1(2) prod [folded num_mul.simps]] r])
  next
    case False
    then show ?thesis using 1(2) by (subst radical_loop.simps) auto
  qed
qed

lemma clamped_between:
  assumes "num_le (Fin 0) v" "lo \<le> hi"
  shows "\<exists>x. num_min (Fin hi) (num_max (Fin lo) v) = Fin x \<and> lo \<le> x \<and> x \<le> hi"
  using assms by (cases v) (auto simp: num_max_def num_min_def)

lemma clamped_to_interior:
  assumes "num_le (Fin 0) v"
  shows "\<exists>x. num_min (num_sub (Fin 1) EPSILON) (num_max EPSILON v) = Fin x \<and> 1 / 2 ^ 52 \<le> x \<and> x \<le> 1 - 1 / 2 ^ 52"
proof -
  have one: "num_sub (Fin 1) EPSILON = Fin (1 - 1 / 2 ^ 52)" by code_simp
  show ?thesis
    unfolding one unfolding EPSILON_def using clamped_between [OF assms, of "1 / 2 ^ 52" "1 - 1 / 2 ^ 52"] by simp
qed

text \<open>
  The quadrature is well founded: the base of index \<open>i\<close> is the \<open>i\<close>-th prime, that is, it
  has no divisor between 1 and itself and exactly \<open>i\<close> numbers below it have this property,
  and every point of the sequence lies strictly inside the unit interval, at least the
  machine epsilon away from its ends, so that no quantile is cut off.
\<close>

theorem quadrature_points:
  assumes "0 \<le> i"
  shows "2 \<le> primeAt i \<and> \<not> smaller_divisor (primeAt i) \<and>
    int (card {p. 2 \<le> p \<and> \<not> smaller_divisor p \<and> p < primeAt i}) = i \<and>
    (\<exists>x. radicalInverse sample (primeAt i) = Fin x \<and> 1 / 2 ^ 52 \<le> x \<and> x \<le> 1 - 1 / 2 ^ 52)"
proof -
  let ?p = "primeAt i"
  have p: "isPrime ?p" "int (card (primes_to ?p)) = i + 1" using primeAt_prime [OF assms] by blast+
  have "primes_to ?p = insert ?p {q. isPrime q \<and> q < ?p}" using p(1) by (auto simp: primes_to_def)
  moreover have "finite {q. isPrime q \<and> q < ?p}"
    using primes_to_finite [of ?p] by (rule rev_finite_subset) (auto simp: primes_to_def)
  ultimately have count: "int (card {q. isPrime q \<and> q < ?p}) = i" using p(2) by simp
  define base where "base = (of_int ?p :: rat)"
  have two: "2 \<le> base" using p(1) by (simp add: isPrime_iff base_def)
  then have inv: "0 \<le> 1 / base" "1 / base \<le> 1" by (simp_all add: field_simps)
  then have n: "num_div (Fin 1) (num_of_int ?p) = Fin (round64 (1 / base))"
    using two small_num [of "1 / base"] by (simp add: base_def)
  have "0 \<le> round64 (1 / base)" "round64 (1 / base) \<le> 1"
    using inv half_f64(4) by (simp_all add: round64_nonneg round64_le)
  then have loop: "num_le (Fin 0) (radical_loop ?p sample (Fin 0) (num_div (Fin 1) (num_of_int ?p)))"
    unfolding n by (intro radical_loop_nonneg) simp_all
  then have "\<exists>x. radicalInverse sample ?p = Fin x \<and> 1 / 2 ^ 52 \<le> x \<and> x \<le> 1 - 1 / 2 ^ 52"
    unfolding radicalInverse_def by (rule clamped_to_interior)
  then show ?thesis using p(1) count by (simp add: isPrime_iff conj_assoc)
qed

theorem quadrature_points_witness:
  "primeAt 3 = 7 \<and> (\<exists>x. radicalInverse 5 (primeAt 3) = Fin x \<and> 1 / 2 ^ 52 \<le> x)"
proof -
  have "primeAt 3 = 7" by code_simp
  then show ?thesis using quadrature_points [of 3 5] by auto
qed

end
