(* ===== verification/Online_Budget.thy ===== *)
theory Online_Budget
  imports Posterior_Properties Validation_Decision
begin

text \<open>
  The online error budget of \<open>src/evaluation/statistics.ts\<close>: a campaign starts with a total
  error \<open>initialAlpha\<close> and every opened gate spends its share of a summable schedule, whatever
  the outcome. The lemmas show that in every history the rounded arithmetic neither overspends
  the budget nor loses track of it: the remaining error is exactly the rest.
\<close>

subsection \<open>The budget and its operations\<close>

record online_budget =
  policyVersion :: string
  nullCalibrationId :: string
  initialAlpha :: number
  remainingAlpha :: number
  spentAlpha :: number
  gatesSpent :: int

record gate_allocation =
  gate_authorized :: bool
  gate_alphaSpent :: number
  gate_requiredProbability :: number
  gate_nextState :: online_budget

definition ONLINE_POLICY :: string where
  "ONLINE_POLICY = ''online-alpha-spending-v1''"

definition MINIMUM_ONLINE_GATE_ALPHA :: number where
  "MINIMUM_ONLINE_GATE_ALPHA = num_of (1 / 10 ^ 6)"

text \<open>\<open>/^[a-z0-9][a-z0-9._-]{2,127}$/u\<close>\<close>

definition is_calibration_id :: "string \<Rightarrow> bool" where
  "is_calibration_id s \<longleftrightarrow>
     (case s of [] \<Rightarrow> False
      | c # cs \<Rightarrow> lower_alnum c \<and> 2 \<le> length cs \<and> length cs \<le> 127 \<and>
          list_all (\<lambda>d. lower_alnum d \<or> d \<in> set ''._-'') cs)"

definition createOnlineErrorBudget :: "number \<Rightarrow> string \<Rightarrow> online_budget result" where
  "createOnlineErrorBudget initial calibration =
     (if \<not> (num_less (Fin 0) initial \<and> num_le initial lit_005)
      then Inl (Error ''Initial online alpha must be in (0, 0.05]'')
      else if \<not> is_calibration_id calibration
      then Inl (Error ''A versioned null calibration ID is required'')
      else Inr \<lparr>policyVersion = ONLINE_POLICY, nullCalibrationId = calibration, initialAlpha = initial,
                remainingAlpha = initial, spentAlpha = Fin 0, gatesSpent = 0\<rparr>)"

definition assertOnlineErrorBudgetState :: "online_budget \<Rightarrow> unit result" where
  "assertOnlineErrorBudgetState s =
     (if policyVersion s \<noteq> ONLINE_POLICY \<or>
         \<not> (num_less (Fin 0) (initialAlpha s) \<and> num_le (initialAlpha s) lit_005) \<or>
         \<not> is_finite (remainingAlpha s) \<or> num_less (remainingAlpha s) (Fin 0) \<or>
         num_less (initialAlpha s) (remainingAlpha s) \<or>
         \<not> is_finite (spentAlpha s) \<or> num_less (spentAlpha s) (Fin 0) \<or>
         num_less (initialAlpha s) (spentAlpha s) \<or>
         num_less (num_of (1 / 10 ^ 12))
           (num_abs (num_sub (num_add (remainingAlpha s) (spentAlpha s)) (initialAlpha s))) \<or>
         \<not> is_calibration_id (nullCalibrationId s) \<or>
         \<not> safe_int (gatesSpent s) \<or> gatesSpent s < 0
      then Inl (Error ''Invalid online error-budget state'') else Inr ())"

definition scheduled_alpha :: "math \<Rightarrow> number \<Rightarrow> int \<Rightarrow> number" where
  "scheduled_alpha m initial gateNumber =
     num_div (num_mul initial (Fin 6))
       (num_mul (math_pow m MATH_PI (Fin 2)) (math_pow m (num_of_int gateNumber) (Fin 2)))"

definition allocateOnlineGate :: "math \<Rightarrow> online_budget \<Rightarrow> gate_allocation result" where
  "allocateOnlineGate m s =
     and_then (assertOnlineErrorBudgetState s) (\<lambda>_.
       let gateNumber = gatesSpent s + 1;
           scheduled = scheduled_alpha m (initialAlpha s) gateNumber;
           alphaSpent = num_min scheduled (remainingAlpha s);
           authorized = num_le MINIMUM_ONLINE_GATE_ALPHA alphaSpent;
           spent = (if authorized then alphaSpent else Fin 0);
           nextSpent = num_add (spentAlpha s) spent;
           nextRemaining = num_max (Fin 0) (num_sub (initialAlpha s) nextSpent)
       in Inr \<lparr>gate_authorized = authorized, gate_alphaSpent = spent,
               gate_requiredProbability =
                 (if authorized then num_max lit_095 (num_sub (Fin 1) spent) else Fin 1),
               gate_nextState = s\<lparr>remainingAlpha := nextRemaining, spentAlpha := nextSpent,
                 gatesSpent := (if authorized then gateNumber else gatesSpent s)\<rparr>\<rparr>)"

definition assertOnlineGateAllocation :: "math \<Rightarrow> online_budget \<Rightarrow> gate_allocation \<Rightarrow> unit result" where
  "assertOnlineGateAllocation m s a =
     and_then (allocateOnlineGate m s) (\<lambda>expected.
       if gate_authorized a \<noteq> gate_authorized expected \<or>
          \<not> num_eq (gate_alphaSpent a) (gate_alphaSpent expected) \<or>
          \<not> num_eq (gate_requiredProbability a) (gate_requiredProbability expected) \<or>
          policyVersion (gate_nextState a) \<noteq> policyVersion (gate_nextState expected) \<or>
          nullCalibrationId (gate_nextState a) \<noteq> nullCalibrationId (gate_nextState expected) \<or>
          \<not> num_eq (initialAlpha (gate_nextState a)) (initialAlpha (gate_nextState expected)) \<or>
          \<not> num_eq (remainingAlpha (gate_nextState a)) (remainingAlpha (gate_nextState expected)) \<or>
          \<not> num_eq (spentAlpha (gate_nextState a)) (spentAlpha (gate_nextState expected)) \<or>
          gatesSpent (gate_nextState a) \<noteq> gatesSpent (gate_nextState expected)
       then Inl (Error ''Reserved online gate does not match the deterministic spending schedule'')
       else Inr ())"

text \<open>The gates of a campaign, opened one after the other.\<close>

fun allocate_gates :: "math \<Rightarrow> nat \<Rightarrow> online_budget \<Rightarrow> (gate_allocation list \<times> online_budget) result" where
  "allocate_gates m 0 s = Inr ([], s)"
| "allocate_gates m (Suc n) s =
     and_then (allocateOnlineGate m s) (\<lambda>a.
       and_then (allocate_gates m n (gate_nextState a)) (\<lambda>(as, t). Inr (a # as, t)))"

subsection \<open>Exact differences\<close>

text \<open>The difference of two binary64 values at most a factor of two apart is exact.\<close>

lemma exact_difference:
  assumes "is_f64 a" "is_f64 b" "0 \<le> a" "a \<le> b" "b \<le> 2 * a"
  shows "is_f64 (b - a)"
proof -
  obtain n e where a: "a = of_int n * 2 powi e" "\<bar>n\<bar> < 2 ^ 53" "- 1074 \<le> e"
    using assms(1) by (rule is_f64_mantissa)
  obtain k f where b: "b = of_int k * 2 powi f" "\<bar>k\<bar> < 2 ^ 53" "- 1074 \<le> f"
    using assms(2) by (rule is_f64_mantissa)
  have fits: "is_f64 (b - a)"
    if "b - a = of_int d * 2 powi g" "b - a \<le> of_int c * 2 powi g" "\<bar>c\<bar> < 2 ^ 53" "- 1074 \<le> g" for c d g
  proof -
    have "of_int d * 2 powi g \<le> (of_int c * 2 powi g :: rat)" using that(1,2) by simp
    then have "d \<le> c" by (simp add: mult_le_cancel_right)
    have "0 \<le> of_int d * (2 :: rat) powi g" using assms(4) that(1) by simp
    moreover have "\<not> (2 :: rat) powi g \<le> 0" by (simp add: not_le)
    ultimately have "0 \<le> d" by (simp add: zero_le_mult_iff)
    with \<open>d \<le> c\<close> show ?thesis unfolding is_f64_def that(1) using that(3,4) by (intro round64_grid_exact) linarith+
  qed
  show ?thesis
  proof (cases "e \<le> f")
    case True
    obtain j where "(2 :: rat) powi f = of_int j * 2 powi e" using powi_as_grid [OF True] by blast
    then have "b - a = of_int (k * j - n) * 2 powi e" by (simp add: a(1) b(1) left_diff_distrib)
    moreover have "b - a \<le> of_int n * 2 powi e" using assms(5) a(1) by linarith
    ultimately show ?thesis using a(2,3) fits by blast
  next
    case False
    then have "f \<le> e" by simp
    from powi_as_grid [OF this] obtain j where "(2 :: rat) powi e = of_int j * 2 powi f" by blast
    then have "b - a = of_int (k - n * j) * 2 powi f" by (simp add: a(1) b(1) left_diff_distrib)
    moreover have "b - a \<le> of_int k * 2 powi f" using assms(3) b(1) by linarith
    ultimately show ?thesis using b(2,3) fits by blast
  qed
qed

text \<open>Relative bounds of one rounding, in the range of the budget.\<close>

lemma round64_near:
  assumes "1 / 10 ^ 9 \<le> x" shows "x * (999 / 1000) \<le> round64 x" "round64 x \<le> x * (1001 / 1000)"
proof -
  have "(2 :: rat) powi - 1022 \<le> 2 powi - 30" by (intro power_int_increasing) simp_all
  also have "\<dots> \<le> 1 / 10 ^ 9" by (simp add: power_int_minus)
  finally have "(2 :: rat) powi - 1022 \<le> \<bar>x\<bar>" using assms by linarith
  then have "\<bar>round64 x - x\<bar> \<le> \<bar>x\<bar> / 2 ^ 53" by (rule round64_error)
  moreover have "\<bar>x\<bar> / 2 ^ 53 \<le> x / 1000" "0 \<le> x" using assms by simp_all
  ultimately show "x * (999 / 1000) \<le> round64 x" "round64 x \<le> x * (1001 / 1000)"
    by (auto simp: abs_if split: if_splits)
qed


subsection \<open>The invariant of a budget\<close>

text \<open>
  What is asked of the platform's power operator: squares of numbers up to \<open>2 ^ 53\<close> are
  right to one percent. (The standard leaves the value to the implementation.)
\<close>

definition pow_accurate :: "math \<Rightarrow> bool" where
  "pow_accurate m \<longleftrightarrow>
     (\<forall>x. 1 \<le> x \<longrightarrow> x \<le> 2 ^ 53 \<longrightarrow>
        (\<exists>q. math_pow m (Fin x) (Fin 2) = Fin q \<and> x * x * (99 / 100) \<le> q \<and> q \<le> x * x * (101 / 100)))"

lemma pow_accurateD:
  assumes "pow_accurate m" "1 \<le> x" "x \<le> 2 ^ 53"
  obtains q where "math_pow m (Fin x) (Fin 2) = Fin q" "x * x * (99 / 100) \<le> q" "q \<le> x * x * (101 / 100)"
  using assms unfolding pow_accurate_def by blast

definition budget_amounts :: "online_budget \<Rightarrow> rat \<Rightarrow> rat \<Rightarrow> bool" where
  "budget_amounts s A S \<longleftrightarrow>
     initialAlpha s = Fin A \<and> spentAlpha s = Fin S \<and> remainingAlpha s = Fin (A - S) \<and>
     is_f64 A \<and> is_f64 S \<and> 0 < A \<and> num_le (Fin A) lit_005 \<and> 0 \<le> S \<and> S \<le> A \<and>
     (S = 0 \<and> gatesSpent s = 0 \<or> A \<le> 2 * S)"

definition budget_ok :: "online_budget \<Rightarrow> bool" where
  "budget_ok s \<longleftrightarrow> policyVersion s = ONLINE_POLICY \<and> is_calibration_id (nullCalibrationId s) \<and>
     0 \<le> gatesSpent s \<and> gatesSpent s \<le> 200 \<and> (\<exists>A S. budget_amounts s A S)"

lemma literal_bounds:
  "\<exists>v. num_of (1 / 10 ^ 12) = Fin v \<and> 0 < v"
  "\<exists>v. MINIMUM_ONLINE_GATE_ALPHA = Fin v \<and> 999 / 10 ^ 9 \<le> v"
  "\<exists>p. MATH_PI = Fin p \<and> 3141 / 1000 \<le> p \<and> p \<le> 3142 / 1000"
proof -
  have "is_f64 (1 / 2 ^ 40)" by code_simp
  then have "1 / 2 ^ 40 \<le> round64 (1 / 10 ^ 12)" by (intro round64_ge) simp_all
  then show "\<exists>v. num_of (1 / 10 ^ 12) = Fin v \<and> 0 < v"
    using small_num_of [of "1 / 10 ^ 12"] by (auto intro: less_le_trans [rotated])
  have "1 / 10 ^ 6 * (999 / 1000) \<le> round64 (1 / 10 ^ 6)" by (rule round64_near) simp
  then show "\<exists>v. MINIMUM_ONLINE_GATE_ALPHA = Fin v \<and> 999 / 10 ^ 9 \<le> v"
    using small_num_of [of "1 / 10 ^ 6"] by (simp add: MINIMUM_ONLINE_GATE_ALPHA_def)
  have "MATH_PI = Fin (884279719003555 / 281474976710656)" by code_simp
  then show "\<exists>p. MATH_PI = Fin p \<and> 3141 / 1000 \<le> p \<and> p \<le> 3142 / 1000"
    by (intro exI [of _ "884279719003555 / 281474976710656"] conjI) simp_all
qed

lemma budget_ok_accepted: "budget_ok s \<Longrightarrow> assertOnlineErrorBudgetState s = Inr ()"
proof -
  assume ok: "budget_ok s"
  then obtain A S where am: "budget_amounts s A S" by (auto simp: budget_ok_def)
  then have A: "is_f64 A" "0 < A" "A \<le> 1 / 16" "S \<le> A" "0 \<le> S"
    by (auto simp: budget_amounts_def literal_values)
  have "num_add (Fin (A - S)) (Fin S) = Fin A"
    using A small_num_of [of A] by (simp add: is_f64_def)
  moreover have "num_sub (Fin A) (Fin A) = Fin 0" using small_num_of [of 0] by (simp add: num_sub_def)
  moreover obtain v where "num_of (1 / 10 ^ 12) = Fin v" "0 < v" using literal_bounds(1) by blast
  ultimately show ?thesis
    using ok am A unfolding assertOnlineErrorBudgetState_def budget_amounts_def budget_ok_def
    by (simp add: safe_int_def max_safe_def)
qed

text \<open>The schedule: never above \<open>2 ^ -20\<close> from the 200th gate on, more than half of it at the first.\<close>

lemma schedule_bounds:
  assumes pow: "pow_accurate m" and A: "is_f64 A" "0 < A" "A \<le> 1 / 16" and n: "1 \<le> n" "n \<le> 201"
  obtains x where "scheduled_alpha m (Fin A) n = Fin x" "is_f64 x" "0 \<le> x"
    "200 \<le> n \<Longrightarrow> A \<le> 1 / 19 \<Longrightarrow> x \<le> 1 / 2 ^ 20" "n = 1 \<Longrightarrow> 1 / 10 ^ 7 \<le> A \<Longrightarrow> A \<le> 2 * x"
proof -
  obtain p where p: "MATH_PI = Fin p" "3141 / 1000 \<le> p" "p \<le> 3142 / 1000" using literal_bounds(3) by blast
  have pp: "3141 / 1000 * (3141 / 1000) \<le> p * p" "p * p \<le> 3142 / 1000 * (3142 / 1000)"
    using p by (intro mult_mono; simp)+
  obtain q where q: "math_pow m (Fin p) (Fin 2) = Fin q" "p * p * (99 / 100) \<le> q" "q \<le> p * p * (101 / 100)"
    using pow_accurateD [OF pow, of p] p by auto
  define N where "N = (of_int n :: rat)"
  have N: "1 \<le> N" "N \<le> 201" using n by (simp_all add: N_def)
  obtain r where r: "math_pow m (Fin N) (Fin 2) = Fin r" "N * N * (99 / 100) \<le> r" "r \<le> N * N * (101 / 100)"
    using pow_accurateD [OF pow, of N] N by auto
  have NN: "1 * 1 \<le> N * N" "N * N \<le> 201 * 201" using N by (intro mult_mono; simp)+
  have Q: "976 / 100 \<le> q" "q \<le> 998 / 100" using q pp by linarith+
  have R: "99 / 100 \<le> r" using r NN by linarith
  have qr: "976 / 100 * (N * N * (99 / 100)) \<le> q * r" "q * r \<le> 998 / 100 * (N * N * (101 / 100))"
    using Q R r NN by (intro mult_mono; simp)+
  define d where "d = round64 (q * r)"
  have qr1: "1 / 10 ^ 9 \<le> q * r" using qr NN by simp
  have d: "965 / 100 * (N * N) \<le> d" "d \<le> 1011 / 100 * (N * N)"
    using round64_near [OF qr1] qr NN unfolding d_def by linarith+
  have qr2: "\<bar>round64 (q * r)\<bar> \<le> max_f64"
  proof -
    have "d \<le> 1011 / 100 * (201 * 201)" "0 \<le> d" using d NN by linarith+
    moreover have "1011 / 100 * (201 * 201) \<le> max_f64" by (simp add: max_f64_def)
    ultimately show ?thesis by (simp add: d_def abs_le_iff)
  qed
  have den: "num_mul (Fin q) (Fin r) = Fin d" using qr2 by (simp add: num_of_def Let_def d_def abs_le_iff)
  define c where "c = round64 (A * 6)"
  have "0 \<le> A * 6" "A * 6 \<le> 1" using A by simp_all
  then have c: "num_mul (Fin A) (Fin 6) = Fin c" "0 \<le> c" "c \<le> 1"
    using half_f64(4) small_num_of [of "A * 6"] by (simp_all add: c_def round64_nonneg round64_le)
  have "965 / 100 \<le> d" using d NN by linarith
  have y: "0 \<le> c / d" "c / d \<le> 1" using c \<open>965 / 100 \<le> d\<close> by (simp_all add: field_simps)
  define x where "x = round64 (c / d)"
  have sched: "scheduled_alpha m (Fin A) n = Fin x"
    using small_num_of [OF y(1)] y(2) \<open>965 / 100 \<le> d\<close> p(1) q(1) r(1) den c(1)
    by (simp add: scheduled_alpha_def x_def N_def del: num_mul.simps) 
  have late: "x \<le> 1 / 2 ^ 20" if "200 \<le> n" "A \<le> 1 / 19"
  proof -
    have "200 * 200 \<le> N * N" using that by (intro mult_mono) (simp_all add: N_def)
    then have "965 / 100 * (200 * 200) \<le> d" using d by linarith
    moreover have "is_f64 (21 / 64)" by code_simp
    then have "c \<le> 21 / 64" unfolding c_def using that(2) by (intro round64_le) simp_all
    ultimately have "c / d \<le> (21 / 64) / (965 / 100 * (200 * 200))" using c(2) by (intro frac_le) simp_all
    also have "\<dots> \<le> 1 / 2 ^ 20" by simp
    finally have "c / d \<le> 1 / 2 ^ 20" .
    moreover have "is_f64 (1 / 2 ^ 20)" by code_simp
    ultimately show ?thesis unfolding x_def by (rule round64_le)
  qed
  have first: "A \<le> 2 * x" if "n = 1" "1 / 10 ^ 7 \<le> A"
  proof -
    have "d \<le> 1011 / 100" using d(2) that(1) by (simp add: N_def)
    moreover have "A * 6 * (999 / 1000) \<le> c" unfolding c_def using that by (intro round64_near) simp
    ultimately have "A * 6 * (999 / 1000) / (1011 / 100) \<le> c / d" using A \<open>965 / 100 \<le> d\<close> by (intro frac_le) simp_all
    then have cd: "A * (59 / 100) \<le> c / d" using A by simp
    have "1 / 10 ^ 9 \<le> A * (59 / 100)" using that(2) by simp
    then have "1 / 10 ^ 9 \<le> c / d" using cd by (rule order_trans)
    then have "c / d * (999 / 1000) \<le> x" unfolding x_def by (rule round64_near)
    moreover have "A * (59 / 100) * (999 / 1000) \<le> c / d * (999 / 1000)"
      using cd by (rule mult_right_mono) simp
    ultimately show ?thesis using A by simp
  qed
  show thesis
    using sched late first y by (intro that [of x]) (auto simp: x_def round64_nonneg)
qed


text \<open>One gate: it never fails, spends what is booked, and leaves a budget that is exact again.\<close>

definition gate_sound :: "rat \<Rightarrow> online_budget \<Rightarrow> gate_allocation \<Rightarrow> bool" where
  "gate_sound A s a \<longleftrightarrow>
     spentAlpha (gate_nextState a) = num_add (spentAlpha s) (gate_alphaSpent a) \<and>
     gatesSpent (gate_nextState a) = gatesSpent s + (if gate_authorized a then 1 else 0) \<and>
     num_le (Fin 0) (gate_alphaSpent a) \<and>
     num_le lit_095 (gate_requiredProbability a) \<and> num_le (gate_requiredProbability a) (Fin 1) \<and>
     (\<not> gate_authorized a \<longrightarrow> gate_alphaSpent a = Fin 0 \<and> gate_requiredProbability a = Fin 1 \<and> gate_nextState a = s)"

lemma allocate_step:
  assumes pow: "pow_accurate m" and ok: "budget_ok s" and am: "budget_amounts s A S"
  obtains a S' where "allocateOnlineGate m s = Inr a" "budget_ok (gate_nextState a)"
    "budget_amounts (gate_nextState a) A S'" "gate_sound A s a"
proof -
  define n where "n = gatesSpent s + 1"
  have n: "1 \<le> n" "n \<le> 201" using ok by (auto simp: budget_ok_def n_def)
  have A: "is_f64 A" "0 < A" "A \<le> 1 / 19" "0 \<le> S" "S \<le> A" "is_f64 S"
    and st: "initialAlpha s = Fin A" "spentAlpha s = Fin S" "remainingAlpha s = Fin (A - S)"
    and half: "S = 0 \<and> gatesSpent s = 0 \<or> A \<le> 2 * S"
    using am by (auto simp: budget_amounts_def literal_values)
  obtain x where x: "scheduled_alpha m (Fin A) n = Fin x" "is_f64 x" "0 \<le> x"
    "200 \<le> n \<Longrightarrow> A \<le> 1 / 19 \<Longrightarrow> x \<le> 1 / 2 ^ 20" "n = 1 \<Longrightarrow> 1 / 10 ^ 7 \<le> A \<Longrightarrow> A \<le> 2 * x"
    using schedule_bounds [OF pow A(1,2) _ n] A(3) by auto
  obtain \<mu> where \<mu>: "MINIMUM_ONLINE_GATE_ALPHA = Fin \<mu>" "999 / 10 ^ 9 \<le> \<mu>" using literal_bounds(2) by blast
  have "0 < \<mu>" using \<mu>(2) by (rule less_le_trans [rotated]) simp
  have rest: "is_f64 (A - S)" using half A exact_difference [of S A] by auto
  define w where "w = min x (A - S)"
  have w: "num_min (Fin x) (Fin (A - S)) = Fin w" "0 \<le> w" "S + w \<le> A" "is_f64 w"
    using x A rest by (auto simp: num_min_def w_def min_def)
  define authorized where "authorized \<longleftrightarrow> \<mu> \<le> w"
  define v where "v = (if authorized then w else 0)"
  have v: "0 \<le> v" "S + v \<le> A" "is_f64 v" using w A by (auto simp: v_def)
  define S' where "S' = round64 (S + v)"
  have add: "num_add (Fin S) (Fin v) = Fin S'" using v A by (simp add: S'_def small_num_of)
  have S': "S \<le> S'" "S' \<le> A" "is_f64 S'" "v \<le> S'"
    using v A by (auto simp: S'_def intro: round64_ge round64_le)
  have half': "authorized \<Longrightarrow> A \<le> 2 * S'"
  proof -
    assume au: "authorized"
    show "A \<le> 2 * S'"
    proof (cases "A \<le> 2 * S")
      case False
      then have z: "S = 0" "n = 1" using half by (simp_all add: n_def)
      have "\<mu> \<le> A" using au w z by (simp add: authorized_def)
      then have "999 / 10 ^ 9 \<le> A" using \<mu>(2) by linarith
      then have "1 / 10 ^ 7 \<le> A" by simp
      then have "A \<le> 2 * w" using x(5) z A by (simp add: w_def min_def)
      then show ?thesis using S'(4) au by (simp add: v_def)
    qed (use S'(1) in linarith)
  qed
  have half'': "S' = 0 \<and> \<not> authorized \<and> gatesSpent s = 0 \<or> A \<le> 2 * S'"
  proof (cases authorized)
    case False
    then have "S' = S" using A by (simp add: S'_def v_def is_f64_def)
    then show ?thesis using half False by auto
  qed (simp add: half')
  have rest': "is_f64 (A - S')" using half'' A S' exact_difference [of S' A] by auto
  then have sub: "num_max (Fin 0) (num_sub (Fin A) (Fin S')) = Fin (A - S')"
    using S' A small_num_of [of "A - S'"] by (simp add: num_sub_def num_max_def is_f64_def)
  have "\<not> (200 \<le> n \<and> authorized)"
  proof
    assume au: "200 \<le> n \<and> authorized"
    then have "x \<le> 1 / 2 ^ 20" using x(4) A by blast
    then have "\<mu> \<le> 1 / 2 ^ 20" using au by (simp add: authorized_def w_def)
    then show False using \<mu>(2) by simp
  qed
  then have bound: "authorized \<Longrightarrow> n \<le> 200" by linarith
  have req: "num_sub (Fin 1) (Fin v) = Fin (round64 (1 - v))" "round64 (1 - v) \<le> 1" "0 \<le> round64 (1 - v)"
    using v A half_f64(4) small_num_of [of "1 - v"] by (simp_all add: num_sub_def round64_le round64_nonneg)
  define required where "required = (if authorized then num_max lit_095 (Fin (round64 (1 - v))) else Fin 1)"
  have required: "num_le lit_095 required" "num_le required (Fin 1)"
    using req(2) by (auto simp: required_def literal_values num_max_def)
  let ?t = "s\<lparr>remainingAlpha := Fin (A - S'), spentAlpha := Fin S', gatesSpent := (if authorized then n else gatesSpent s)\<rparr>"
  let ?a = "\<lparr>gate_authorized = authorized, gate_alphaSpent = Fin v, gate_requiredProbability = required, gate_nextState = ?t\<rparr>"
  have "num_le MINIMUM_ONLINE_GATE_ALPHA (Fin w) \<longleftrightarrow> authorized" by (simp add: \<mu> authorized_def)
  moreover have "(if authorized then Fin w else Fin 0) = Fin v" by (simp add: v_def)
  ultimately have "allocateOnlineGate m s = Inr ?a"
    unfolding allocateOnlineGate_def Let_def budget_ok_accepted [OF ok] and_then_simps
      n_def [symmetric] st x(1) w(1)
    by (simp only: add sub req(1) required_def)
  moreover have "budget_amounts ?t A S'"
    using am S' A rest' half'' by (auto simp: budget_amounts_def n_def)
  moreover from this have "budget_ok ?t"
    unfolding budget_ok_def by (intro conjI exI [of _ A] exI [of _ S'])
      (use ok bound n in \<open>simp_all add: budget_ok_def\<close>)
  moreover have "gate_sound A s ?a"
  proof -
    have "S' = S" if "\<not> authorized" using that A by (simp add: S'_def v_def is_f64_def)
    then have "?t = s" if "\<not> authorized" using that st by simp
    then show ?thesis using add v required unfolding gate_sound_def
      by (auto simp: st n_def v_def required_def del: num_add.simps simp del: num_add.simps)
  qed
  ultimately show thesis by (intro that [of ?a S']) simp_all
qed


subsection \<open>Every history of a campaign\<close>

definition gates_sound :: "rat \<Rightarrow> online_budget \<Rightarrow> gate_allocation list \<Rightarrow> online_budget \<Rightarrow> bool" where
  "gates_sound A s as t \<longleftrightarrow>
     spentAlpha t = foldl num_add (spentAlpha s) (map gate_alphaSpent as) \<and>
     gatesSpent t = gatesSpent s + int (length (filter gate_authorized as)) \<and>
     (\<forall>a \<in> set as. num_le lit_095 (gate_requiredProbability a) \<and> num_le (gate_requiredProbability a) (Fin 1) \<and>
        (\<not> gate_authorized a \<longrightarrow> gate_alphaSpent a = Fin 0 \<and> gate_requiredProbability a = Fin 1)) \<and>
     sorted_wrt (\<lambda>a b. gate_authorized b \<longrightarrow> gate_authorized a) as"

lemma allocate_again:
  "allocateOnlineGate m s = Inr a \<Longrightarrow> gate_nextState a = s \<Longrightarrow>
   allocate_gates m n s = Inr (replicate n a, s)"
  by (induction n) simp_all

lemma allocate_gates_sound:
  "pow_accurate m \<Longrightarrow> budget_ok s \<Longrightarrow> budget_amounts s A S \<Longrightarrow>
   \<exists>as t S'. allocate_gates m n s = Inr (as, t) \<and> length as = n \<and> budget_ok t \<and> budget_amounts t A S' \<and>
     gates_sound A s as t"
proof (induction n arbitrary: s S)
  case 0
  then show ?case by (auto simp: gates_sound_def)
next
  case (Suc n)
  obtain a S1 where a: "allocateOnlineGate m s = Inr a" "budget_ok (gate_nextState a)"
    "budget_amounts (gate_nextState a) A S1" "gate_sound A s a"
    using allocate_step [OF Suc.prems] by blast
  show ?case
  proof (cases "gate_authorized a")
    case True
    obtain as t S' where as: "allocate_gates m n (gate_nextState a) = Inr (as, t)" "length as = n" "budget_ok t"
      "budget_amounts t A S'" "gates_sound A (gate_nextState a) as t"
      using Suc.IH [OF Suc.prems(1) a(2,3)] by blast
    have "gates_sound A s (a # as) t" using as(5) a(4) True by (auto simp: gates_sound_def gate_sound_def)
    then show ?thesis using as a(1) by auto
  next
    case False
    then have stay: "gate_nextState a = s" "gate_alphaSpent a = Fin 0" using a(4) by (simp_all add: gate_sound_def)
    then have same: "num_add (spentAlpha s) (Fin 0) = spentAlpha s" using a(4) by (simp add: gate_sound_def)
    have fold: "foldl num_add (spentAlpha s) (replicate k (Fin 0)) = spentAlpha s" for k
      by (induction k) (simp_all add: same)
    have "allocate_gates m (Suc n) s = Inr (replicate (Suc n) a, s)"
      using allocate_again [OF a(1) stay(1)] .
    moreover have "sorted_wrt (\<lambda>a b. gate_authorized b \<longrightarrow> gate_authorized a) (replicate k a)" for k
      by (induction k) auto
    then have "gates_sound A s (replicate (Suc n) a) s"
      using a(4) False fold [of "Suc n"] stay(2) unfolding gates_sound_def
      by (auto simp: gate_sound_def map_replicate simp del: replicate_Suc)
    ultimately show ?thesis using Suc.prems(2,3) by (metis length_replicate)
  qed
qed

lemma created_budget:
  assumes "createOnlineErrorBudget (Fin A) calibration = Inr s" "wf_num (Fin A)"
  shows "budget_ok s" "budget_amounts s A 0" "gatesSpent s = 0" "spentAlpha s = Fin 0"
  using assms by (auto simp: createOnlineErrorBudget_def budget_ok_def budget_amounts_def split: if_splits)

text \<open>
  C28. The online error of a campaign is bounded in every history: from a new budget any number
  of gates can be allocated, no allocation ever fails its own check, the rounded sum of
  what the gates spent never exceeds the initial error and is booked exactly (the
  remaining error is the exact difference), at most 200 gates are ever authorized and they
  come first, every gate requires a probability of at least 0.95 and at most 1, and a gate
  that is not authorized spends nothing and requires certainty.
\<close>

theorem online_error_bounded:
  assumes "createOnlineErrorBudget (Fin A) calibration = Inr s" "wf_num (Fin A)" "pow_accurate m"
  shows "\<exists>as t S. allocate_gates m n s = Inr (as, t) \<and> length as = n \<and>
    spentAlpha t = Fin S \<and> S \<le> A \<and> remainingAlpha t = Fin (A - S) \<and>
    spentAlpha t = foldl num_add (Fin 0) (map gate_alphaSpent as) \<and>
    gatesSpent t = int (length (filter gate_authorized as)) \<and> gatesSpent t \<le> 200 \<and>
    (\<forall>a \<in> set as. num_le lit_095 (gate_requiredProbability a) \<and> num_le (gate_requiredProbability a) (Fin 1) \<and>
       (\<not> gate_authorized a \<longrightarrow> gate_alphaSpent a = Fin 0 \<and> gate_requiredProbability a = Fin 1)) \<and>
    sorted_wrt (\<lambda>a b. gate_authorized b \<longrightarrow> gate_authorized a) as"
proof -
  note new = created_budget [OF assms(1,2)]
  obtain as t S where "allocate_gates m n s = Inr (as, t)" "length as = n" "budget_ok t" "budget_amounts t A S"
    "gates_sound A s as t"
    using allocate_gates_sound [OF assms(3) new(1,2)] by blast
  then show ?thesis
    using new by (intro exI [of _ as] exI [of _ t] exI [of _ S])
      (simp add: gates_sound_def budget_ok_def budget_amounts_def)
qed

lemma platform_pow: "pow_accurate platform"
  unfolding pow_accurate_def
proof (intro allI impI)
  fix x :: rat assume x: "1 \<le> x" "x \<le> 2 ^ 53"
  have xx: "1 * 1 \<le> x * x" "x * x \<le> 2 ^ 53 * 2 ^ 53" using x by (intro mult_mono; simp)+
  then have near: "x * x * (999 / 1000) \<le> round64 (x * x)" "round64 (x * x) \<le> x * x * (1001 / 1000)"
    by (intro round64_near; simp)+
  have "(2 :: rat) ^ 53 * 2 ^ 53 * 2 \<le> max_f64" by (simp add: max_f64_def)
  then have "num_of (x * x) = Fin (round64 (x * x))"
    using near xx by (simp add: num_of_def Let_def)
  then show "\<exists>q. math_pow platform (Fin x) (Fin 2) = Fin q \<and> x * x * (99 / 100) \<le> q \<and> q \<le> x * x * (101 / 100)"
    using near xx by (intro exI [of _ "round64 (x * x)"]) (simp add: platform_def)
qed

definition example_budget :: online_budget where
  "example_budget = \<lparr>policyVersion = ONLINE_POLICY, nullCalibrationId = ''null-v1'', initialAlpha = Fin (1 / 32),
     remainingAlpha = Fin (1 / 32), spentAlpha = Fin 0, gatesSpent = 0\<rparr>"

lemma example_budget_created: "createOnlineErrorBudget (Fin (1 / 32)) ''null-v1'' = Inr example_budget"
  by (simp add: createOnlineErrorBudget_def example_budget_def literal_values is_calibration_id_def lower_alnum_def)

theorem online_error_bounded_witness:
  "\<exists>as t. allocate_gates platform 1000 example_budget = Inr (as, t) \<and> length as = 1000 \<and>
     num_le (spentAlpha t) (Fin (1 / 32)) \<and> length (filter gate_authorized as) \<le> 200"
proof -
  have "wf_num (Fin (1 / 32))" by code_simp
  from online_error_bounded [OF example_budget_created this platform_pow, of 1000]
  show ?thesis by fastforce
qed

end
