(* ===== verification/Gates.thy ===== *)
theory Gates
  imports Hidden_Types Online_Budget
begin

text \<open>
  The evaluation gates of \<open>src/evaluation/gates.ts\<close>: the repair gate over five tasks, the fresh
  validation of twelve paired tasks, the shadow certification and the accounting of attempts.
  A weight table is an object read by its own members: an association list in the order the
  members were added. \<open>Map\<close>s of strata are association lists in order of first insertion.
\<close>

subsection \<open>Inputs and results\<close>

datatype evidence_source = Fresh | Cache

record champion_evidence =
  source :: evidence_source
  passes :: int
  failures :: int
  presealedFreshControl :: bool

record repair_task =
  rt_taskId :: string
  rt_bucket :: selection_bucket
  rt_stratum :: string
  candidatePass :: bool
  candidateObservationFresh :: bool
  candidateAttempts :: int
  championEvidence :: champion_evidence
  targetBehaviorImproved :: bool

text \<open>The bucket of the fifth task of a repair panel: \<open>"easy" | "coverage"\<close>.\<close>

datatype alternating_bucket = Alternate_easy | Alternate_coverage

fun bucket_of :: "alternating_bucket \<Rightarrow> selection_bucket" where
  "bucket_of Alternate_easy = Easy"
| "bucket_of Alternate_coverage = Coverage"

type_synonym weights = "(string \<times> number) list"

record repair_input =
  ri_tasks :: "repair_task list"
  alternatingBucket :: alternating_bucket
  ri_weights :: weights
  ri_integrityVeto :: bool
  ri_capabilityRegressionVeto :: bool
  costRegressionVeto :: bool
  latencyRegressionVeto :: bool
  ri_aggregateCostUsd :: number
  ri_integrationPoints :: "int option"

datatype evidence_route = Confirmed_transition | Target_behavior | No_route

record repair_result =
  rr_policyVersion :: string
  rr_disposition :: gate_disposition
  challengerCreated :: bool
  nonInferiorityProbability :: number
  evidenceRoute :: evidence_route
  repairHasPositivePromotionWeight :: bool
  cacheCanEstablishFailToPass :: bool
  rr_containsTaskIdentifiers :: bool

record released_repair_result =
  rel_policyVersion :: string
  rel_disposition :: gate_disposition
  integrityPassed :: bool
  rel_aggregateCostUsd :: number
  diagnosticEvidenceReleased :: bool
  rel_containsTaskIdentifiers :: bool

record validation_arm =
  arm_pass :: bool
  arm_fresh :: bool
  cacheUsed :: bool
  protocolHash :: string
  environmentFingerprintHash :: string
  startedAt :: string
  completedAt :: string

record validation_pair =
  vp_taskId :: string
  vp_stratum :: string
  vp_order :: arm_order
  vp_candidate :: validation_arm
  vp_champion :: validation_arm

record validation_input =
  pairs :: "validation_pair list"
  vi_weights :: weights
  expectedProtocolHash :: string
  candidateFrozenAt :: string
  panelSealedAt :: string
  vi_integrityVeto :: bool
  vi_correctnessVeto :: bool
  vi_capabilityRegressionVeto :: bool
  vi_costWithinGuardrail :: bool
  vi_latencyWithinGuardrail :: bool
  vi_accuracyTradeoffPredeclared :: bool
  onlineErrorBudget :: online_budget
  reservedOnlineGate :: "gate_allocation option"
  vi_integrationPoints :: "int option"

record validation_result =
  vr_policyVersion :: string
  vr_disposition :: disposition
  panelConsumed :: bool
  validPairCount :: int
  freshArmCount :: int
  cacheArmCount :: int
  probabilityAccuracyDeltaPositive :: number
  posteriorMedianAccuracyDelta :: number
  vr_interval95 :: "number \<times> number"
  vr_requiredPosteriorProbability :: number
  vr_onlineGateAuthorized :: bool
  onlineGateAlphaSpent :: number
  vr_stratumRegressionVeto :: bool
  onlineErrorBudgetAfter :: online_budget
  repairCacheHistoryPositiveWeight :: int
  vr_containsTaskIdentifiers :: bool

record shadow_input = validation_input +
  si_aggregateCostUsd :: number
  si_complianceFlagsPassed :: bool

datatype shadow_disposition = Certified | Not_certified | Shadow_inconclusive

record shadow_result =
  sr_policyVersion :: string
  sr_disposition :: shadow_disposition
  sr_panelConsumed :: bool
  sr_complianceFlagsPassed :: bool
  sr_aggregateCostUsd :: number
  scoreReleased :: bool
  diagnosticsReleased :: bool
  sr_containsTaskIdentifiers :: bool

record attempt_accounting =
  repairCandidateValidArms :: int
  repairChampionFreshValidArms :: int
  validationFreshValidArms :: int
  infrastructureReplacementAttempts :: int

datatype valid_arm_band = Band_24 | Band_25_29 | Band_30_34 | Arms_outside_budget

datatype replacement_band = Band_0 | Band_1_2 | Band_3_4 | Replacements_outside_budget

record attempt_budget_result =
  withinBudget :: bool
  validArmBand :: valid_arm_band
  replacementBand :: replacement_band
  hardMaximumAttempts :: int
  containsPerTaskAccounting :: bool

definition REPAIR_GATE_POLICY_VERSION :: string where
  "REPAIR_GATE_POLICY_VERSION = ''repair-gate-v1''"

definition VALIDATION_GATE_POLICY_VERSION :: string where
  "VALIDATION_GATE_POLICY_VERSION = ''fresh-paired-validation-v1''"

definition DEFAULT_INTEGRATION_POINTS :: int where
  "DEFAULT_INTEGRATION_POINTS = 4096"

definition points_of :: "int option \<Rightarrow> int" where
  "points_of p = (case p of None \<Rightarrow> DEFAULT_INTEGRATION_POINTS | Some n \<Rightarrow> n)"

subsection \<open>Strata\<close>

definition groupByStratum :: "('a \<Rightarrow> string) \<Rightarrow> 'a list \<Rightarrow> (string \<times> 'a list) list" where
  "groupByStratum stratum values =
     foldl (\<lambda>groups v.
         let group = (case map_of groups (stratum v) of None \<Rightarrow> [] | Some g \<Rightarrow> g)
         in AList.update (stratum v) (group @ [v]) groups)
       [] values"

text \<open>\<open>names.join("\u0000")\<close>\<close>

fun join_zero :: "string list \<Rightarrow> string" where
  "join_zero [] = []"
| "join_zero [s] = s"
| "join_zero (s # t # ss) = s @ CHR 0x00 # join_zero (t # ss)"

definition validateStratumWeights :: "string list \<Rightarrow> weights \<Rightarrow> unit result" where
  "validateStratumWeights strata weights =
     (let names = sort strata;
          weightNames = sort (map fst weights)
      in if names = [] \<or> join_zero names \<noteq> join_zero weightNames \<or>
            (\<exists>name \<in> set names. case map_of weights name of
               None \<Rightarrow> True | Some weight \<Rightarrow> \<not> is_finite weight \<or> num_le weight (Fin 0)) \<or>
            num_less (num_of (1 / 10 ^ 9))
              (num_abs (num_sub (foldl (\<lambda>sum name. num_add sum (case map_of weights name of
                  None \<Rightarrow> Fin 0 | Some weight \<Rightarrow> weight)) (Fin 0) names) (Fin 1)))
         then Inl (Error ''Presealed stratum weights must exactly cover strata and sum to one'')
         else Inr ())"

subsection \<open>The repair gate\<close>

definition countBuckets :: "repair_task list \<Rightarrow> selection_bucket \<Rightarrow> int" where
  "countBuckets tasks =
     foldl (\<lambda>counts task. counts(rt_bucket task := counts (rt_bucket task) + 1)) (\<lambda>_. 0) tasks"

definition repair_evidence_invalid :: "repair_task \<Rightarrow> bool" where
  "repair_evidence_invalid task \<longleftrightarrow>
     (let e = championEvidence task in
        \<not> candidateObservationFresh task \<or> candidateAttempts task \<noteq> 1 \<or>
        \<not> safe_int (passes e) \<or> passes e < 0 \<or> \<not> safe_int (failures e) \<or> failures e < 0 \<or>
        passes e + failures e < 1 \<or>
        (source e = Fresh \<and> passes e + failures e \<noteq> 1) \<or>
        (source e = Cache \<and> presealedFreshControl e))"

definition validateRepairPanel :: "repair_task list \<Rightarrow> alternating_bucket \<Rightarrow> unit result" where
  "validateRepairPanel tasks alternating =
     (if length tasks \<noteq> 5 \<or> card (set (map rt_taskId tasks)) \<noteq> 5
      then Inl (Error ''Repair requires exactly five distinct hidden tasks'')
      else
        let bucketCounts = countBuckets tasks
        in if bucketCounts Hard \<noteq> 3 \<or> bucketCounts Uncertain \<noteq> 1 \<or> bucketCounts (bucket_of alternating) \<noteq> 1 \<or>
              bucketCounts (if alternating = Alternate_easy then Coverage else Easy) \<noteq> 0
           then Inl (Error ''Repair panel must be 3 hard, 1 uncertain, and 1 alternating task'')
           else check_all (\<lambda>task. if repair_evidence_invalid task
                  then Inl (Error ''Invalid repair evidence'') else Inr ()) tasks)"

definition repair_term :: "number \<Rightarrow> nat \<Rightarrow> repair_task \<Rightarrow> weighted_difference result" where
  "repair_term stratumWeight group_size task =
     and_then (jeffreysPosterior (if candidatePass task then 1 else 0) (if candidatePass task then 0 else 1))
       (\<lambda>candidate.
     and_then (jeffreysPosterior (passes (championEvidence task)) (failures (championEvidence task)))
       (\<lambda>champion.
         Inr \<lparr>wd_candidate = candidate, wd_champion = champion,
              wd_weight = num_div stratumWeight (num_of_int (int group_size))\<rparr>))"

definition repair_terms :: "weights \<Rightarrow> string \<times> repair_task list \<Rightarrow> weighted_difference list result" where
  "repair_terms weights = (\<lambda>(stratum, tasks).
     case map_of weights stratum of
       None \<Rightarrow> Inl (Error ''Missing preregistered repair stratum weight'')
     | Some stratumWeight \<Rightarrow> map_result (repair_term stratumWeight (length tasks)) tasks)"

definition confirmed_transition :: "repair_task \<Rightarrow> bool" where
  "confirmed_transition task \<longleftrightarrow>
     (let e = championEvidence task in
        candidatePass task \<and> source e = Fresh \<and> presealedFreshControl e \<and> passes e = 0 \<and> failures e = 1)"

definition evidence_route_of :: "repair_task list \<Rightarrow> evidence_route" where
  "evidence_route_of tasks =
     (if \<exists>task \<in> set tasks. confirmed_transition task then Confirmed_transition
      else if 3 \<le> length (filter targetBehaviorImproved tasks) then Target_behavior else No_route)"

definition repair_hard_veto :: "repair_input \<Rightarrow> bool" where
  "repair_hard_veto i \<longleftrightarrow> ri_integrityVeto i \<or> ri_capabilityRegressionVeto i \<or> costRegressionVeto i \<or>
     latencyRegressionVeto i"

definition cost_invalid :: "number \<Rightarrow> bool" where
  "cost_invalid cost \<longleftrightarrow> \<not> is_finite cost \<or> num_less cost (Fin 0)"

definition evaluateRepairGate :: "math \<Rightarrow> repair_input \<Rightarrow> repair_result result" where
  "evaluateRepairGate m i =
     (if cost_invalid (ri_aggregateCostUsd i)
      then Inl (Error ''Repair aggregate cost must be finite and non-negative'')
      else
        and_then (validateRepairPanel (ri_tasks i) (alternatingBucket i)) (\<lambda>_.
        let strata = groupByStratum rt_stratum (ri_tasks i) in
        and_then (validateStratumWeights (map fst strata) (ri_weights i)) (\<lambda>_.
        and_then (map_result (repair_terms (ri_weights i)) strata) (\<lambda>termss.
        and_then (summarizeWeightedBetaDifference m (concat termss) (num_neg (num_of (1 / 10)))
          (points_of (ri_integrationPoints i))) (\<lambda>posterior.
          let probability = probabilityGreaterThanThreshold posterior;
              route = evidence_route_of (ri_tasks i);
              disposition =
                (if repair_hard_veto i \<or> num_le probability lit_005 \<or> route = No_route then Fail
                 else if num_le (num_of (8 / 10)) probability then Pass else Inconclusive_gate)
          in Inr \<lparr>rr_policyVersion = REPAIR_GATE_POLICY_VERSION, rr_disposition = disposition,
                  challengerCreated = (disposition = Pass), nonInferiorityProbability = probability,
                  evidenceRoute = route, repairHasPositivePromotionWeight = False,
                  cacheCanEstablishFailToPass = False, rr_containsTaskIdentifiers = False\<rparr>)))))"

definition makeReleaseSafeRepairGateResult :: "repair_result \<Rightarrow> repair_input \<Rightarrow> released_repair_result" where
  "makeReleaseSafeRepairGateResult hidden i =
     \<lparr>rel_policyVersion = rr_policyVersion hidden, rel_disposition = rr_disposition hidden,
      integrityPassed = (\<not> ri_integrityVeto i), rel_aggregateCostUsd = ri_aggregateCostUsd i,
      diagnosticEvidenceReleased = False, rel_containsTaskIdentifiers = False\<rparr>"


subsection \<open>Fresh validation\<close>

definition validateArm :: "host \<Rightarrow> validation_arm \<Rightarrow> string \<Rightarrow> int result" where
  "validateArm h arm protocol =
     (case (date_parse h (startedAt arm), date_parse h (completedAt arm)) of
        (Some started, Some completed) \<Rightarrow>
          if \<not> arm_fresh arm \<or> cacheUsed arm \<or> protocolHash arm \<noteq> protocol \<or>
             environmentFingerprintHash arm = [] \<or> completed < started
          then Inl (Error ''Validation arms must be fresh, valid, and protocol-matched'')
          else Inr started
      | _ \<Rightarrow> Inl (Error ''Validation arms must be fresh, valid, and protocol-matched''))"

definition DAY_MS :: int where
  "DAY_MS = 24 * 60 * 60 * 1000"

text \<open>One pair of the panel; its start times, the candidate's first.\<close>

definition validatePair :: "host \<Rightarrow> string \<Rightarrow> int \<Rightarrow> validation_pair \<Rightarrow> (int \<times> int) result" where
  "validatePair h protocol panelSealed pair =
     and_then (validateArm h (vp_candidate pair) protocol) (\<lambda>candidateStarted.
     and_then (validateArm h (vp_champion pair) protocol) (\<lambda>championStarted.
       if candidateStarted < panelSealed \<or> championStarted < panelSealed \<or>
          environmentFingerprintHash (vp_candidate pair) \<noteq> environmentFingerprintHash (vp_champion pair) \<or>
          DAY_MS < \<bar>candidateStarted - championStarted\<bar>
       then Inl (Error ''Fresh pair violates sealing, environment, or 24-hour matching'')
       else if vp_order pair = AB \<and> championStarted < candidateStarted \<or>
          vp_order pair = BA \<and> candidateStarted < championStarted
       then Inl (Error ''Observed validation arm order differs from the presealed order'')
       else Inr (candidateStarted, championStarted)))"

definition all_starts :: "(int \<times> int) list \<Rightarrow> int list" where
  "all_starts starts = concat (map (\<lambda>(c, k). [c, k]) starts)"

definition validateFreshValidation :: "host \<Rightarrow> ('a) validation_input_scheme \<Rightarrow> unit result" where
  "validateFreshValidation h i =
     (if length (pairs i) \<noteq> 12 \<or> card (set (map vp_taskId (pairs i))) \<noteq> 12
      then Inl (Error ''Validation requires exactly twelve distinct fresh pairs'')
      else
        let orderA = length (filter (\<lambda>p. vp_order p = AB) (pairs i))
        in if orderA \<noteq> 6 \<or> length (pairs i) - orderA \<noteq> 6
        then Inl (Error ''Validation arm order must be balanced six AB and six BA'')
        else
          case (date_parse h (candidateFrozenAt i), date_parse h (panelSealedAt i)) of
            (Some frozen, Some panelSealed) \<Rightarrow>
              if panelSealed < frozen
              then Inl (Error ''Candidate must be frozen before panel sealing'')
              else
                and_then (map_result (validatePair h (expectedProtocolHash i) panelSealed) (pairs i)) (\<lambda>starts.
                  let environments = set (map (\<lambda>p. environmentFingerprintHash (vp_candidate p)) (pairs i));
                      earliestStart = Min (set (all_starts starts));
                      latestStart = Max (set (all_starts starts))
                  in if card environments \<noteq> 1 \<or> DAY_MS < latestStart - earliestStart
                     then Inl (Error ''Validation panel must use one environment cohort inside 24 hours'')
                     else if card (set (map vp_stratum (pairs i))) < 2
                     then Inl (Error ''Validation requires at least two strata'')
                     else Inr ())
          | _ \<Rightarrow> Inl (Error ''Candidate must be frozen before panel sealing''))"

definition pairedCounts :: "validation_pair list \<Rightarrow> category_counts" where
  "pairedCounts ps =
     foldl (\<lambda>mutable pair.
         if arm_pass (vp_candidate pair) \<and> arm_pass (vp_champion pair) then mutable\<lparr>bothPass := bothPass mutable + 1\<rparr>
         else if arm_pass (vp_candidate pair) then mutable\<lparr>challengerOnlyPass := challengerOnlyPass mutable + 1\<rparr>
         else if arm_pass (vp_champion pair) then mutable\<lparr>championOnlyPass := championOnlyPass mutable + 1\<rparr>
         else mutable\<lparr>bothFail := bothFail mutable + 1\<rparr>)
       \<lparr>bothPass = 0, challengerOnlyPass = 0, championOnlyPass = 0, bothFail = 0\<rparr> ps"

definition validation_stratum :: "weights \<Rightarrow> string \<times> validation_pair list \<Rightarrow> paired_stratum result" where
  "validation_stratum weights = (\<lambda>(stratum, ps).
     case map_of weights stratum of
       None \<Rightarrow> Inl (Error ''Missing preregistered validation stratum weight'')
     | Some weight \<Rightarrow> Inr \<lparr>ps_counts = pairedCounts ps, ps_weight = weight\<rparr>)"

definition decision_inputs ::
    "('a) validation_input_scheme \<Rightarrow> paired_summary \<Rightarrow> gate_allocation \<Rightarrow> validation_inputs" where
  "decision_inputs i posterior gate =
     \<lparr>probabilityPositive = probabilityGreaterThanThreshold posterior,
      medianAccuracyDelta = median posterior,
      requiredPosteriorProbability = gate_requiredProbability gate,
      onlineGateAuthorized = gate_authorized gate,
      stratumRegressionVeto = (\<not> list_all (\<lambda>p. num_le p (num_of (8 / 10))) (stratumProbabilityBelowMinusPointOne posterior)),
      integrityVeto = vi_integrityVeto i, correctnessVeto = vi_correctnessVeto i,
      capabilityVeto = vi_capabilityRegressionVeto i,
      costWithinGuardrail = vi_costWithinGuardrail i, latencyWithinGuardrail = vi_latencyWithinGuardrail i,
      accuracyTradeoffPredeclared = vi_accuracyTradeoffPredeclared i\<rparr>"

definition evaluateFreshValidation :: "math \<Rightarrow> host \<Rightarrow> ('a) validation_input_scheme \<Rightarrow> validation_result result" where
  "evaluateFreshValidation m h i =
     and_then (validateFreshValidation h i) (\<lambda>_.
     let groups = groupByStratum vp_stratum (pairs i) in
     and_then (validateStratumWeights (map fst groups) (vi_weights i)) (\<lambda>_.
     and_then (map_result (validation_stratum (vi_weights i)) groups) (\<lambda>weightedStrata.
     and_then (summarizePairedDirichletJeffreys m weightedStrata (Fin 0) (points_of (vi_integrationPoints i)))
       (\<lambda>posterior.
     and_then (case reservedOnlineGate i of Some g \<Rightarrow> Inr g | None \<Rightarrow> allocateOnlineGate m (onlineErrorBudget i))
       (\<lambda>onlineGate.
     and_then (assertOnlineGateAllocation m (onlineErrorBudget i) onlineGate) (\<lambda>_.
     let inputs = decision_inputs i posterior onlineGate in
     and_then (reproduceFreshValidationDisposition inputs) (\<lambda>disposition.
       Inr \<lparr>vr_policyVersion = VALIDATION_GATE_POLICY_VERSION, vr_disposition = disposition,
            panelConsumed = True, validPairCount = 12, freshArmCount = 24, cacheArmCount = 0,
            probabilityAccuracyDeltaPositive = probabilityGreaterThanThreshold posterior,
            posteriorMedianAccuracyDelta = median posterior,
            vr_interval95 = (lower (interval95 posterior), upper (interval95 posterior)),
            vr_requiredPosteriorProbability = gate_requiredProbability onlineGate,
            vr_onlineGateAuthorized = gate_authorized onlineGate,
            onlineGateAlphaSpent = gate_alphaSpent onlineGate,
            vr_stratumRegressionVeto = stratumRegressionVeto inputs,
            onlineErrorBudgetAfter = gate_nextState onlineGate,
            repairCacheHistoryPositiveWeight = 0, vr_containsTaskIdentifiers = False\<rparr>)))))))"

text \<open>\<open>{...input, integrityVeto: input.integrityVeto || !input.complianceFlagsPassed}\<close>\<close>

definition evaluateShadowCertification :: "math \<Rightarrow> host \<Rightarrow> shadow_input \<Rightarrow> shadow_result result" where
  "evaluateShadowCertification m h i =
     (if cost_invalid (si_aggregateCostUsd i)
      then Inl (Error ''Shadow aggregate cost must be finite and non-negative'')
      else
        and_then (evaluateFreshValidation m h
            (i\<lparr>vi_integrityVeto := vi_integrityVeto i \<or> \<not> si_complianceFlagsPassed i\<rparr>)) (\<lambda>validation.
          Inr \<lparr>sr_policyVersion = ''feedback-dark-shadow-v1'',
               sr_disposition = (case vr_disposition validation of
                   Promote \<Rightarrow> Certified | Reject \<Rightarrow> Not_certified | Inconclusive_result \<Rightarrow> Shadow_inconclusive),
               sr_panelConsumed = True, sr_complianceFlagsPassed = si_complianceFlagsPassed i,
               sr_aggregateCostUsd = si_aggregateCostUsd i, scoreReleased = False,
               diagnosticsReleased = False, sr_containsTaskIdentifiers = False\<rparr>))"

subsection \<open>Attempt budgets\<close>

definition accounting_fields :: "attempt_accounting \<Rightarrow> int list" where
  "accounting_fields a = [repairCandidateValidArms a, repairChampionFreshValidArms a,
     validationFreshValidArms a, infrastructureReplacementAttempts a]"

definition validateExperimentAttemptBudget :: "attempt_accounting \<Rightarrow> attempt_budget_result result" where
  "validateExperimentAttemptBudget a =
     and_then (check_all (\<lambda>v. if \<not> safe_int v \<or> v < 0
         then Inl (Error ''Attempt accounting field must be a non-negative integer'') else Inr ())
       (accounting_fields a)) (\<lambda>_.
     let validArms = repairCandidateValidArms a + repairChampionFreshValidArms a + validationFreshValidArms a;
         total = validArms + infrastructureReplacementAttempts a;
         replacements = infrastructureReplacementAttempts a
     in Inr \<lparr>withinBudget =
               (repairCandidateValidArms a = 5 \<and> repairChampionFreshValidArms a \<le> 5 \<and>
                validationFreshValidArms a = 24 \<and> replacements \<le> 4 \<and> validArms \<le> 34 \<and> total \<le> 38),
             validArmBand =
               (if validArms = 24 then Band_24 else if 25 \<le> validArms \<and> validArms \<le> 29 then Band_25_29
                else if 30 \<le> validArms \<and> validArms \<le> 34 then Band_30_34 else Arms_outside_budget),
             replacementBand =
               (if replacements = 0 then Band_0 else if replacements \<le> 2 then Band_1_2
                else if replacements \<le> 4 then Band_3_4 else Replacements_outside_budget),
             hardMaximumAttempts = 38, containsPerTaskAccounting = False\<rparr>)"

definition validateShadowAttemptBudget :: "int \<Rightarrow> int \<Rightarrow> bool" where
  "validateShadowAttemptBudget freshValidArms replacements \<longleftrightarrow>
     safe_int freshValidArms \<and> safe_int replacements \<and> freshValidArms = 24 \<and>
     0 \<le> replacements \<and> replacements \<le> 4 \<and> freshValidArms + replacements \<le> 28"

end
