(* ===== verification/Gate_Properties.thy ===== *)
theory Gate_Properties
  imports Gates
begin

text \<open>
  What the gates of \<open>src/evaluation/gates.ts\<close> promise. The validation of a fresh panel is
  related to an abstract description of a sound panel (one window of 24 hours after the seal,
  one environment, balanced order), the strata to a reference grouping by filtering, and the
  online gate to the allocation its budget determines.
\<close>

subsection \<open>Reference grouping\<close>

lemma new_set_snoc: "new_set (ys @ [y]) = (if y \<in> set ys then new_set ys else new_set ys @ [y])"
  by (simp add: new_set_def)

lemma update_map_pairs:
  "AList.update k v (map (\<lambda>s. (s, g s)) ks) =
     (if k \<in> set ks then (if distinct ks then map (\<lambda>s. (s, if s = k then v else g s)) ks
        else AList.update k v (map (\<lambda>s. (s, g s)) ks))
      else map (\<lambda>s. (s, g s)) ks @ [(k, v)])"
  by (induction ks) auto

lemma groupByStratum_eq:
  "groupByStratum f xs = map (\<lambda>s. (s, filter (\<lambda>x. f x = s) xs)) (new_set (map f xs))"
proof (induction xs rule: rev_induct)
  case Nil
  then show ?case by (simp add: groupByStratum_def new_set_def)
next
  case (snoc x xs)
  let ?g = "\<lambda>s. filter (\<lambda>x. f x = s) xs"
  have group: "(case map_of (groupByStratum f xs) (f x) of None \<Rightarrow> [] | Some g \<Rightarrow> g) = ?g (f x)"
  proof -
    have "filter (\<lambda>y. f y = f x) xs = []" if "f x \<notin> f ` set xs" using that by (auto simp: filter_empty_conv) (metis imageI)
    then show ?thesis unfolding snoc.IH by (auto simp: map_of_map_restrict restrict_map_def split: option.splits)
  qed
  have "groupByStratum f (xs @ [x]) = AList.update (f x) (?g (f x) @ [x]) (groupByStratum f xs)"
    using group by (simp add: groupByStratum_def)
  also have "\<dots> = map (\<lambda>s. (s, filter (\<lambda>x. f x = s) (xs @ [x]))) (new_set (map f (xs @ [x])))"
    unfolding snoc.IH by (subst update_map_pairs)
      (auto simp: new_set_snoc intro!: map_cong)
  finally show ?case .
qed

definition count_outcomes :: "bool \<Rightarrow> bool \<Rightarrow> validation_pair list \<Rightarrow> int" where
  "count_outcomes candidate champion ps =
     int (length (filter (\<lambda>p. arm_pass (vp_candidate p) = candidate \<and> arm_pass (vp_champion p) = champion) ps))"

lemma pairedCounts_eq:
  "pairedCounts ps = \<lparr>bothPass = count_outcomes True True ps, challengerOnlyPass = count_outcomes True False ps,
     championOnlyPass = count_outcomes False True ps, bothFail = count_outcomes False False ps\<rparr>"
  by (induction ps rule: rev_induct) (simp_all add: pairedCounts_def count_outcomes_def)

text \<open>The strata of a panel, by filtering, with the presealed weight of each.\<close>

definition paired_strata :: "('a) validation_input_scheme \<Rightarrow> paired_stratum list" where
  "paired_strata i =
     map (\<lambda>s. let ps = filter (\<lambda>p. vp_stratum p = s) (pairs i)
              in \<lparr>ps_counts = \<lparr>bothPass = count_outcomes True True ps, challengerOnlyPass = count_outcomes True False ps,
                    championOnlyPass = count_outcomes False True ps, bothFail = count_outcomes False False ps\<rparr>,
                  ps_weight = the (map_of (vi_weights i) s)\<rparr>)
       (new_set (map vp_stratum (pairs i)))"

definition panel_strata :: "('a) validation_input_scheme \<Rightarrow> string list" where
  "panel_strata i = new_set (map vp_stratum (pairs i))"

lemma weights_cover:
  "validateStratumWeights strata w = Inr () \<Longrightarrow> s \<in> set strata \<Longrightarrow> \<exists>v. map_of w s = Some v"
  by (auto simp: validateStratumWeights_def Let_def split: if_splits option.splits)

lemma map_result_map: "(\<And>x. x \<in> set xs \<Longrightarrow> f x = Inr (g x)) \<Longrightarrow> map_result f xs = Inr (map g xs)"
  by (induction xs) auto

lemma strata_weighted:
  assumes "validateStratumWeights (panel_strata i) (vi_weights i) = Inr ()"
  shows "map_result (validation_stratum (vi_weights i)) (groupByStratum vp_stratum (pairs i)) = Inr (paired_strata i)"
proof -
  let ?g = "\<lambda>(s, ps). \<lparr>ps_counts = pairedCounts ps, ps_weight = the (map_of (vi_weights i) s)\<rparr>"
  have "map_result (validation_stratum (vi_weights i)) (groupByStratum vp_stratum (pairs i)) =
      Inr (map ?g (groupByStratum vp_stratum (pairs i)))"
    using weights_cover [OF assms]
    by (intro map_result_map) (force simp: validation_stratum_def groupByStratum_eq panel_strata_def)
  then show ?thesis by (simp add: groupByStratum_eq paired_strata_def pairedCounts_eq Let_def comp_def)
qed

lemma group_names: "map fst (groupByStratum vp_stratum (pairs i)) = panel_strata i"
  by (simp add: groupByStratum_eq panel_strata_def comp_def)


subsection \<open>The reserved gate\<close>

lemma allocation_fields:
  assumes "allocateOnlineGate m s = Inr a"
  shows "gate_alphaSpent a \<noteq> NaN" "gate_requiredProbability a \<noteq> NaN" "initialAlpha (gate_nextState a) \<noteq> NaN"
    "remainingAlpha (gate_nextState a) \<noteq> NaN" "spentAlpha (gate_nextState a) \<noteq> NaN"
proof -
  have ok: "assertOnlineErrorBudgetState s = Inr ()" using assms by (auto simp: allocateOnlineGate_def)
  then obtain A R S where st: "initialAlpha s = Fin A" "remainingAlpha s = Fin R" "spentAlpha s = Fin S"
    by (cases "initialAlpha s"; cases "remainingAlpha s"; cases "spentAlpha s")
      (auto simp: assertOnlineErrorBudgetState_def literal_values split: if_splits)
  define w where "w = num_min (scheduled_alpha m (Fin A) (gatesSpent s + 1)) (Fin R)"
  define v where "v = (if num_le MINIMUM_ONLINE_GATE_ALPHA w then w else Fin 0)"
  have v: "v \<noteq> NaN" by (auto simp: v_def)
  have addn: "num_add (Fin a) x \<noteq> NaN" if "x \<noteq> NaN" for a x
    using that by (cases x) (simp_all add: num_of_def Let_def)
  have subn: "num_sub (Fin a) x \<noteq> NaN" if "x \<noteq> NaN" for a x
    using that addn [of "num_neg x" a] by (cases x) (simp_all add: num_sub_def del: num_add.simps(1))
  have maxn: "num_max x y \<noteq> NaN" if "x \<noteq> NaN" "y \<noteq> NaN" for x y
    using that by (simp add: num_max_def)
  have lit: "lit_095 \<noteq> NaN" by (simp add: literal_values)
  have req: "(if b then num_max lit_095 (num_sub (Fin 1) v) else Fin 1) \<noteq> NaN" for b
    using v lit by (simp add: subn maxn)
  have "allocateOnlineGate m s = Inr \<lparr>gate_authorized = num_le MINIMUM_ONLINE_GATE_ALPHA w, gate_alphaSpent = v,
      gate_requiredProbability = (if num_le MINIMUM_ONLINE_GATE_ALPHA w then num_max lit_095 (num_sub (Fin 1) v) else Fin 1),
      gate_nextState = s\<lparr>remainingAlpha := num_max (Fin 0) (num_sub (Fin A) (num_add (Fin S) v)),
        spentAlpha := num_add (Fin S) v,
        gatesSpent := (if num_le MINIMUM_ONLINE_GATE_ALPHA w then gatesSpent s + 1 else gatesSpent s)\<rparr>\<rparr>"
    using ok st by (simp add: allocateOnlineGate_def Let_def w_def v_def del: num_add.simps num_less.simps)
  with assms show "gate_alphaSpent a \<noteq> NaN" "gate_requiredProbability a \<noteq> NaN" "initialAlpha (gate_nextState a) \<noteq> NaN"
    "remainingAlpha (gate_nextState a) \<noteq> NaN" "spentAlpha (gate_nextState a) \<noteq> NaN"
    using v st by (auto simp: addn subn maxn req simp del: num_add.simps)
qed

text \<open>A reservation is accepted exactly when it is the allocation its budget determines.\<close>

lemma assertOnlineGateAllocation_iff:
  "assertOnlineGateAllocation m s a = Inr () \<longleftrightarrow> allocateOnlineGate m s = Inr a"
proof
  assume "assertOnlineGateAllocation m s a = Inr ()"
  then obtain e where e: "allocateOnlineGate m s = Inr e" "gate_authorized a = gate_authorized e"
    "num_eq (gate_alphaSpent a) (gate_alphaSpent e)" "num_eq (gate_requiredProbability a) (gate_requiredProbability e)"
    "policyVersion (gate_nextState a) = policyVersion (gate_nextState e)"
    "nullCalibrationId (gate_nextState a) = nullCalibrationId (gate_nextState e)"
    "num_eq (initialAlpha (gate_nextState a)) (initialAlpha (gate_nextState e))"
    "num_eq (remainingAlpha (gate_nextState a)) (remainingAlpha (gate_nextState e))"
    "num_eq (spentAlpha (gate_nextState a)) (spentAlpha (gate_nextState e))"
    "gatesSpent (gate_nextState a) = gatesSpent (gate_nextState e)"
    unfolding assertOnlineGateAllocation_def by (auto split: if_splits)
  then have "gate_nextState a = gate_nextState e" by (intro online_budget.equality) (simp_all add: num_eq_def)
  with e have "a = e" by (intro gate_allocation.equality) (simp_all add: num_eq_def)
  then show "allocateOnlineGate m s = Inr a" using e(1) by simp
next
  assume "allocateOnlineGate m s = Inr a"
  then show "assertOnlineGateAllocation m s a = Inr ()"
    using allocation_fields [of m s a] by (simp add: assertOnlineGateAllocation_def num_eq_def)
qed

subsection \<open>A sound panel\<close>

definition arm_times :: "host \<Rightarrow> string \<Rightarrow> validation_arm \<Rightarrow> int \<Rightarrow> bool" where
  "arm_times h protocol arm t \<longleftrightarrow>
     arm_fresh arm \<and> \<not> cacheUsed arm \<and> protocolHash arm = protocol \<and> environmentFingerprintHash arm \<noteq> [] \<and>
     date_parse h (startedAt arm) = Some t \<and> (\<exists>done. date_parse h (completedAt arm) = Some done \<and> t \<le> done)"

text \<open>
  A sound panel: twelve distinct tasks in two or more strata, six run in each order, every
  arm fresh, of the protocol and of one environment, started after the panel was sealed
  (the candidate frozen before), and all arms within 24 hours of each other.
\<close>

definition pair_sound :: "host \<Rightarrow> ('a) validation_input_scheme \<Rightarrow> string \<Rightarrow> validation_pair \<Rightarrow> int \<Rightarrow> int \<Rightarrow> bool" where
  "pair_sound h i env p c k \<longleftrightarrow>
     arm_times h (expectedProtocolHash i) (vp_candidate p) c \<and>
     arm_times h (expectedProtocolHash i) (vp_champion p) k \<and>
     environmentFingerprintHash (vp_candidate p) = env \<and> environmentFingerprintHash (vp_champion p) = env \<and>
     (case vp_order p of AB \<Rightarrow> c \<le> k | BA \<Rightarrow> k \<le> c)"

definition fresh_panel :: "host \<Rightarrow> ('a) validation_input_scheme \<Rightarrow> bool" where
  "fresh_panel h i \<longleftrightarrow>
     length (pairs i) = 12 \<and> distinct (map vp_taskId (pairs i)) \<and>
     length (filter (\<lambda>p. vp_order p = AB) (pairs i)) = 6 \<and>
     2 \<le> card (vp_stratum ` set (pairs i)) \<and>
     (\<exists>frozen panelSealed env first starts.
        date_parse h (candidateFrozenAt i) = Some frozen \<and> date_parse h (panelSealedAt i) = Some panelSealed \<and>
        frozen \<le> panelSealed \<and> panelSealed \<le> first \<and>
        list_all2 (\<lambda>p (c, k). pair_sound h i env p c k \<and> first \<le> c \<and> first \<le> k \<and>
          c \<le> first + DAY_MS \<and> k \<le> first + DAY_MS) (pairs i) starts)"

lemma validateArm_ok: "validateArm h arm protocol = Inr t \<longleftrightarrow> arm_times h protocol arm t"
  by (auto simp: validateArm_def arm_times_def split: option.splits if_splits)

definition pair_checked :: "host \<Rightarrow> ('a) validation_input_scheme \<Rightarrow> int \<Rightarrow> validation_pair \<Rightarrow> int \<times> int \<Rightarrow> bool" where
  "pair_checked h i panelSealed p = (\<lambda>(c, k).
     (\<exists>env. pair_sound h i env p c k) \<and> panelSealed \<le> c \<and> panelSealed \<le> k \<and> \<bar>c - k\<bar> \<le> DAY_MS)"

lemma validatePair_ok:
  "validatePair h (expectedProtocolHash i) panelSealed p = Inr s \<longleftrightarrow> pair_checked h i panelSealed p s"
proof -
  obtain c k where s: "s = (c, k)" by (cases s)
  show ?thesis
    unfolding s pair_checked_def pair_sound_def validateArm_ok [symmetric] validatePair_def
    by (cases "validateArm h (vp_candidate p) (expectedProtocolHash i)";
        cases "validateArm h (vp_champion p) (expectedProtocolHash i)"; cases "vp_order p") auto
qed

lemma all_starts_pairs:
  "list_all2 P ps starts \<Longrightarrow> (\<And>p c k. P p (c, k) \<Longrightarrow> Q c \<and> Q k) \<Longrightarrow> t \<in> set (all_starts starts) \<Longrightarrow> Q t"
  by (induction ps starts rule: list_all2_induct) (auto simp: all_starts_def)

lemma all_starts_mem: "(c, k) \<in> set starts \<Longrightarrow> c \<in> set (all_starts starts) \<and> k \<in> set (all_starts starts)"
  by (force simp: all_starts_def)


lemma all_starts_bounds:
  "(\<forall>t \<in> set (all_starts starts). P t) \<longleftrightarrow> (\<forall>(c, k) \<in> set starts. P c \<and> P k)"
  by (auto simp: all_starts_def)

lemma window_iff:
  assumes "finite T" "T \<noteq> {}"
  shows "Max T - Min T \<le> (d :: int) \<longleftrightarrow> (\<exists>first. \<forall>t \<in> T. first \<le> t \<and> t \<le> first + d)"
proof
  assume "Max T - Min T \<le> d"
  then have "\<forall>t \<in> T. Min T \<le> t \<and> t \<le> Min T + d"
    using assms by (auto dest: Max_ge [OF assms(1)] intro: order_trans)
  then show "\<exists>first. \<forall>t \<in> T. first \<le> t \<and> t \<le> first + d" by blast
next
  assume "\<exists>first. \<forall>t \<in> T. first \<le> t \<and> t \<le> first + d"
  then obtain first where "\<forall>t \<in> T. first \<le> t \<and> t \<le> first + d" by blast
  then have "first \<le> Min T" "Max T \<le> first + d" using assms by simp_all
  then show "Max T - Min T \<le> d" by linarith
qed

lemma pairs_checked:
  "list_all2 (pair_checked h i panelSealed) ps starts \<Longrightarrow> (c, k) \<in> set starts \<Longrightarrow> panelSealed \<le> c \<and> panelSealed \<le> k"
  by (induction ps starts rule: list_all2_induct) (auto simp: pair_checked_def)

text \<open>The checks of the code accept exactly the sound panels.\<close>

lemma times_window:
  assumes "ps \<noteq> []"
  shows "(list_all2 (pair_checked h i panelSealed) ps starts \<and>
      card ((\<lambda>p. environmentFingerprintHash (vp_candidate p)) ` set ps) = 1 \<and>
      Max (set (all_starts starts)) - Min (set (all_starts starts)) \<le> DAY_MS) \<longleftrightarrow>
    (\<exists>env first. panelSealed \<le> first \<and>
      list_all2 (\<lambda>p (c, k). pair_sound h i env p c k \<and> first \<le> c \<and> first \<le> k \<and>
          c \<le> first + DAY_MS \<and> k \<le> first + DAY_MS) ps starts)"
    (is "?checked \<longleftrightarrow> ?sound")
proof
  assume checked: ?checked
  let ?T = "set (all_starts starts)"
  obtain env where env: "(\<lambda>p. environmentFingerprintHash (vp_candidate p)) ` set ps = {env}"
    using checked by (auto simp: card_1_singleton_iff)
  have "starts \<noteq> []" using checked assms by auto
  then have ne: "?T \<noteq> {}" by (cases starts) (auto simp: all_starts_def)
  define first where "first = Min ?T"
  have "first \<le> t \<and> t \<le> first + DAY_MS" if "t \<in> ?T" for t
  proof -
    have "Min ?T \<le> t" "t \<le> Max ?T" "Max ?T - Min ?T \<le> DAY_MS" using that checked by simp_all
    then show ?thesis unfolding first_def by linarith
  qed
  then have within_day: "first \<le> c \<and> first \<le> k \<and> c \<le> first + DAY_MS \<and> k \<le> first + DAY_MS"
    if "(c, k) \<in> set starts" for c k using all_starts_mem [OF that] by blast
  have "first \<in> ?T" unfolding first_def using ne by (intro Min_in) simp_all
  then obtain c k where ck: "(c, k) \<in> set starts" "first = c \<or> first = k" by (auto simp: all_starts_def)
  then have "panelSealed \<le> first" using pairs_checked checked by blast
  moreover have "list_all2 (\<lambda>p (c, k). pair_sound h i env p c k \<and> first \<le> c \<and> first \<le> k \<and>
      c \<le> first + DAY_MS \<and> k \<le> first + DAY_MS) ps starts"
  proof (rule list_all2_all_nthI)
    show "length ps = length starts" using checked list_all2_lengthD by blast
    fix n assume n: "n < length ps"
    then have n': "n < length starts" using checked list_all2_lengthD by metis
    obtain c k where ck: "starts ! n = (c, k)" by (cases "starts ! n")
    have "pair_checked h i panelSealed (ps ! n) (c, k)" using checked n ck list_all2_nthD by metis
    moreover have "environmentFingerprintHash (vp_candidate (ps ! n)) = env" using env n nth_mem by blast
    ultimately have "pair_sound h i env (ps ! n) c k" by (auto simp: pair_checked_def pair_sound_def)
    moreover have "(c, k) \<in> set starts" using n' ck nth_mem by metis
    ultimately show "(\<lambda>(c, k). pair_sound h i env (ps ! n) c k \<and> first \<le> c \<and> first \<le> k \<and>
        c \<le> first + DAY_MS \<and> k \<le> first + DAY_MS) (starts ! n)" using within_day ck by simp
  qed
  ultimately show ?sound by blast
next
  assume ?sound
  then obtain env first where s: "panelSealed \<le> first"
    "list_all2 (\<lambda>p (c, k). pair_sound h i env p c k \<and> first \<le> c \<and> first \<le> k \<and>
          c \<le> first + DAY_MS \<and> k \<le> first + DAY_MS) ps starts" by blast
  have "list_all2 (pair_checked h i panelSealed) ps starts"
    using s(2) by (rule list_all2_mono) (use s(1) in \<open>auto simp: pair_checked_def abs_le_iff split: prod.splits\<close>)
  moreover have "(\<lambda>p. environmentFingerprintHash (vp_candidate p)) ` set ps = {env}"
  proof -
    have "list_all2 (\<lambda>p s. environmentFingerprintHash (vp_candidate p) = env) ps starts"
      using s(2) by (rule list_all2_mono) (auto simp: pair_sound_def)
    then have "environmentFingerprintHash (vp_candidate p) = env" if "p \<in> set ps" for p
      using that by (auto simp: list_all2_conv_all_nth in_set_conv_nth)
    then show ?thesis using assms by (cases ps) auto
  qed
  moreover have "\<forall>t \<in> set (all_starts starts). first \<le> t \<and> t \<le> first + DAY_MS"
  proof
    fix t assume t: "t \<in> set (all_starts starts)"
    show "first \<le> t \<and> t \<le> first + DAY_MS"
      by (rule all_starts_pairs [OF s(2) _ t, where Q = "\<lambda>t. first \<le> t \<and> t \<le> first + DAY_MS"]) simp
  qed
  moreover have "starts \<noteq> []" using s(2) assms by auto
  then have "set (all_starts starts) \<noteq> {}" by (cases starts) (auto simp: all_starts_def)
  ultimately show ?checked using window_iff [of "set (all_starts starts)" DAY_MS] by auto
qed

lemma validateFreshValidation_ok: "validateFreshValidation h i = Inr () \<longleftrightarrow> fresh_panel h i"
proof (cases "length (pairs i) = 12 \<and> length (filter (\<lambda>p. vp_order p = AB) (pairs i)) = 6")
  case True
  then have ne: "pairs i \<noteq> []" by auto
  have ids: "card (set (map vp_taskId (pairs i))) = 12 \<longleftrightarrow> distinct (map vp_taskId (pairs i))"
    using True by (metis card_set_eq_length length_map)
  have starts: "map_result (validatePair h (expectedProtocolHash i) s) (pairs i) = Inr starts \<longleftrightarrow>
      list_all2 (pair_checked h i s) (pairs i) starts" for s starts
    by (simp add: map_result_list_all2 validatePair_ok)
  have "validateFreshValidation h i = Inr () \<longleftrightarrow>
      distinct (map vp_taskId (pairs i)) \<and> 2 \<le> card (vp_stratum ` set (pairs i)) \<and>
      (\<exists>frozen panelSealed starts.
        date_parse h (candidateFrozenAt i) = Some frozen \<and> date_parse h (panelSealedAt i) = Some panelSealed \<and>
        frozen \<le> panelSealed \<and>
        (list_all2 (pair_checked h i panelSealed) (pairs i) starts \<and>
          card ((\<lambda>p. environmentFingerprintHash (vp_candidate p)) ` set (pairs i)) = 1 \<and>
          Max (set (all_starts starts)) - Min (set (all_starts starts)) \<le> DAY_MS))"
    using True ids unfolding validateFreshValidation_def Let_def
    by (cases "date_parse h (candidateFrozenAt i)"; cases "date_parse h (panelSealedAt i)")
      (auto simp: starts not_less split: if_splits)
  also have "\<dots> \<longleftrightarrow> fresh_panel h i"
    unfolding times_window [OF ne] fresh_panel_def using True by blast
  finally show ?thesis .
next
  case False
  then show ?thesis by (auto simp: validateFreshValidation_def fresh_panel_def Let_def)
qed

text \<open>
  C26. A fresh validation returns a disposition exactly when its panel is sound (twelve distinct
  tasks of at least two strata, six in each order, every arm fresh, uncached, of the expected
  protocol and of one environment, started after the seal and all within 24 hours), the
  presealed weights cover the strata and sum to one, the posterior of the strata (each the
  outcome counts of its pairs and its weight) exists, a reserved gate is the one the error
  budget determines, and the preregistered rule gives this disposition on the posterior
  probability, the median and the vetoes; what it releases are these numbers and the budget
  the gate leaves.
\<close>

theorem fresh_validation_refines:
  "(\<exists>r. evaluateFreshValidation m h i = Inr r \<and> vr_disposition r = d \<and>
      probabilityAccuracyDeltaPositive r = p \<and> onlineErrorBudgetAfter r = b) \<longleftrightarrow>
   fresh_panel h i \<and> validateStratumWeights (panel_strata i) (vi_weights i) = Inr () \<and>
   (\<exists>posterior gate.
      summarizePairedDirichletJeffreys m (paired_strata i) (Fin 0) (points_of (vi_integrationPoints i)) = Inr posterior \<and>
      allocateOnlineGate m (onlineErrorBudget i) = Inr gate \<and> reservedOnlineGate i \<in> {None, Some gate} \<and>
      reproduceFreshValidationDisposition (decision_inputs i posterior gate) = Inr d \<and>
      p = probabilityGreaterThanThreshold posterior \<and> b = gate_nextState gate)"
  (is "?returns \<longleftrightarrow> ?spec")
proof -
  have gate: "(\<exists>g. (case reservedOnlineGate i of Some g \<Rightarrow> Inr g | None \<Rightarrow> allocateOnlineGate m (onlineErrorBudget i)) = Inr g \<and>
      assertOnlineGateAllocation m (onlineErrorBudget i) g = Inr () \<and> Q g) \<longleftrightarrow>
    (\<exists>g. allocateOnlineGate m (onlineErrorBudget i) = Inr g \<and> reservedOnlineGate i \<in> {None, Some g} \<and> Q g)" for Q
    by (cases "reservedOnlineGate i") (auto simp: assertOnlineGateAllocation_iff)
  have "?returns \<longleftrightarrow> fresh_panel h i \<and> validateStratumWeights (panel_strata i) (vi_weights i) = Inr () \<and>
      (\<exists>posterior. summarizePairedDirichletJeffreys m (paired_strata i) (Fin 0) (points_of (vi_integrationPoints i)) = Inr posterior \<and>
        (\<exists>g. (case reservedOnlineGate i of Some g \<Rightarrow> Inr g | None \<Rightarrow> allocateOnlineGate m (onlineErrorBudget i)) = Inr g \<and>
          assertOnlineGateAllocation m (onlineErrorBudget i) g = Inr () \<and>
          (reproduceFreshValidationDisposition (decision_inputs i posterior g) = Inr d \<and>
           p = probabilityGreaterThanThreshold posterior \<and> b = gate_nextState g)))"
    unfolding evaluateFreshValidation_def Let_def and_then_Inr ex_unit validateFreshValidation_ok group_names
    using strata_weighted [of i] by auto
  then show ?thesis unfolding gate by blast
qed


subsection \<open>The repair gate\<close>

definition bucket_count :: "repair_task list \<Rightarrow> selection_bucket \<Rightarrow> nat" where
  "bucket_count tasks b = length (filter (\<lambda>t. rt_bucket t = b) tasks)"

lemma countBuckets_eq: "countBuckets tasks b = int (bucket_count tasks b)"
proof (induction tasks arbitrary: b rule: rev_induct)
  case (snoc t ts)
  then have "countBuckets (ts @ [t]) b = countBuckets ts b + (if b = rt_bucket t then 1 else 0)"
    by (simp add: countBuckets_def)
  then show ?case using snoc.IH [of b] by (auto simp: bucket_count_def)
qed (simp add: countBuckets_def bucket_count_def)

definition repair_panel :: "repair_task list \<Rightarrow> alternating_bucket \<Rightarrow> bool" where
  "repair_panel tasks alternating \<longleftrightarrow>
     distinct (map rt_taskId tasks) \<and>
     bucket_count tasks Hard = 3 \<and> bucket_count tasks Uncertain = 1 \<and>
     bucket_count tasks (bucket_of alternating) = 1 \<and>
     length tasks = 5 \<and> list_all (\<lambda>t. \<not> repair_evidence_invalid t) tasks"

lemma bucket_counts_length:
  "bucket_count tasks Hard + bucket_count tasks Uncertain + bucket_count tasks Easy + bucket_count tasks Coverage =
   length tasks"
proof (induction tasks)
  case (Cons t tasks)
  then show ?case by (cases "rt_bucket t") (simp_all add: bucket_count_def)
qed (simp add: bucket_count_def)

lemma validateRepairPanel_ok: "validateRepairPanel tasks a = Inr () \<longleftrightarrow> repair_panel tasks a"
proof (cases "length tasks = 5")
  case True
  have ids: "card (set (map rt_taskId tasks)) = 5 \<longleftrightarrow> distinct (map rt_taskId tasks)"
    using True by (metis card_set_eq_length length_map)
  show ?thesis
    using True ids bucket_counts_length [of tasks]
    by (cases a) (auto simp: validateRepairPanel_def repair_panel_def countBuckets_eq guard_simps list_all_iff split: if_splits)
qed (auto simp: validateRepairPanel_def repair_panel_def)

text \<open>The posteriors of a task: one observation of the candidate, the champion's evidence.\<close>

definition repair_posteriors :: "number \<Rightarrow> nat \<Rightarrow> repair_task \<Rightarrow> weighted_difference" where
  "repair_posteriors w n t =
     \<lparr>wd_candidate = (if candidatePass t then \<lparr>alpha = num_add (Fin 1) (Fin (1 / 2)), beta = num_add (Fin 0) (Fin (1 / 2))\<rparr>
         else \<lparr>alpha = num_add (Fin 0) (Fin (1 / 2)), beta = num_add (Fin 1) (Fin (1 / 2))\<rparr>),
      wd_champion = \<lparr>alpha = num_add (num_of_int (passes (championEvidence t))) (Fin (1 / 2)),
         beta = num_add (num_of_int (failures (championEvidence t))) (Fin (1 / 2))\<rparr>,
      wd_weight = num_div w (num_of_int (int n))\<rparr>"

definition repair_strata :: "repair_input \<Rightarrow> weighted_difference list" where
  "repair_strata i =
     concat (map (\<lambda>s. let ts = filter (\<lambda>t. rt_stratum t = s) (ri_tasks i)
                      in map (repair_posteriors (the (map_of (ri_weights i) s)) (length ts)) ts)
       (new_set (map rt_stratum (ri_tasks i))))"

lemma repair_term_ok: "\<not> repair_evidence_invalid t \<Longrightarrow> repair_term w n t = Inr (repair_posteriors w n t)"
  by (auto simp: repair_term_def repair_posteriors_def jeffreysPosterior_def assertCount_def safe_int_def
      max_safe_def repair_evidence_invalid_def Let_def)

lemma repair_terms_ok:
  assumes "validateStratumWeights (new_set (map rt_stratum (ri_tasks i))) (ri_weights i) = Inr ()"
    and "repair_panel (ri_tasks i) a"
  shows "map_result (repair_terms (ri_weights i)) (groupByStratum rt_stratum (ri_tasks i)) = Inr tss \<longleftrightarrow>
    tss = map (\<lambda>s. let ts = filter (\<lambda>t. rt_stratum t = s) (ri_tasks i)
                   in map (repair_posteriors (the (map_of (ri_weights i) s)) (length ts)) ts)
            (new_set (map rt_stratum (ri_tasks i)))"
proof -
  let ?g = "\<lambda>(s, ts). map (repair_posteriors (the (map_of (ri_weights i) s)) (length ts)) ts"
  have valid: "\<not> repair_evidence_invalid t" if "t \<in> set (ri_tasks i)" for t
    using assms(2) that by (auto simp: repair_panel_def list_all_iff)
  have "map_result (repair_terms (ri_weights i)) (groupByStratum rt_stratum (ri_tasks i)) =
      Inr (map ?g (groupByStratum rt_stratum (ri_tasks i)))"
  proof (rule map_result_map)
    fix sg assume sg: "sg \<in> set (groupByStratum rt_stratum (ri_tasks i))"
    then obtain s where s: "sg = (s, filter (\<lambda>t. rt_stratum t = s) (ri_tasks i))" "s \<in> set (new_set (map rt_stratum (ri_tasks i)))"
      by (auto simp: groupByStratum_eq)
    obtain w where w: "map_of (ri_weights i) s = Some w" using weights_cover [OF assms(1) s(2)] by blast
    have "map_result (repair_term w n) (filter (\<lambda>t. rt_stratum t = s) (ri_tasks i)) =
        Inr (map (repair_posteriors w n) (filter (\<lambda>t. rt_stratum t = s) (ri_tasks i)))" for n
      by (rule map_result_map) (simp add: repair_term_ok valid)
    then show "repair_terms (ri_weights i) sg = Inr (?g sg)" using s w by (simp add: repair_terms_def)
  qed
  then show ?thesis by (auto simp: groupByStratum_eq Let_def comp_def)
qed

text \<open>What the gate demands of its input, and the conditions on evidence and posterior that decide.\<close>

definition repair_sound :: "repair_input \<Rightarrow> bool" where
  "repair_sound i \<longleftrightarrow> (\<exists>cost. ri_aggregateCostUsd i = Fin cost \<and> 0 \<le> cost) \<and> repair_panel (ri_tasks i) (alternatingBucket i) \<and>
     validateStratumWeights (new_set (map rt_stratum (ri_tasks i))) (ri_weights i) = Inr ()"

abbreviation repair_posterior :: "math \<Rightarrow> repair_input \<Rightarrow> difference_summary result" where
  "repair_posterior m i \<equiv> summarizeWeightedBetaDifference m (repair_strata i) (num_neg (num_of (1 / 10))) (points_of (ri_integrationPoints i))"

definition repair_evidence :: "repair_task list \<Rightarrow> bool" where
  "repair_evidence tasks \<longleftrightarrow>
     (\<exists>t \<in> set tasks. candidatePass t \<and> source (championEvidence t) = Fresh \<and>
       presealedFreshControl (championEvidence t) \<and> passes (championEvidence t) = 0 \<and> failures (championEvidence t) = 1) \<or>
     3 \<le> length (filter targetBehaviorImproved tasks)"

lemma repair_evidence_route: "repair_evidence tasks \<longleftrightarrow> evidence_route_of tasks \<noteq> No_route"
  by (simp add: repair_evidence_def evidence_route_of_def confirmed_transition_def Let_def)

lemma cost_valid: "\<not> cost_invalid c \<longleftrightarrow> (\<exists>x. c = Fin x \<and> 0 \<le> x)"
  by (cases c) (auto simp: cost_invalid_def)

lemma stratum_names: "map fst (groupByStratum rt_stratum ts) = new_set (map rt_stratum ts)"
  by (simp add: groupByStratum_eq comp_def)

lemma repair_gate_sound:
  assumes "repair_sound i"
  shows "evaluateRepairGate m i = and_then (repair_posterior m i) (\<lambda>posterior.
    let probability = probabilityGreaterThanThreshold posterior;
        disposition = (if repair_hard_veto i \<or> num_le probability lit_005 \<or> \<not> repair_evidence (ri_tasks i) then Fail
          else if num_le (num_of (8 / 10)) probability then Pass else Inconclusive_gate)
    in Inr \<lparr>rr_policyVersion = REPAIR_GATE_POLICY_VERSION, rr_disposition = disposition,
         challengerCreated = (disposition = Pass), nonInferiorityProbability = probability,
         evidenceRoute = evidence_route_of (ri_tasks i), repairHasPositivePromotionWeight = False,
         cacheCanEstablishFailToPass = False, rr_containsTaskIdentifiers = False\<rparr>)"
proof -
  have c: "\<not> cost_invalid (ri_aggregateCostUsd i)" using assms unfolding cost_valid repair_sound_def by blast
  have v: "validateRepairPanel (ri_tasks i) (alternatingBucket i) = Inr ()"
    and w: "validateStratumWeights (new_set (map rt_stratum (ri_tasks i))) (ri_weights i) = Inr ()"
    using assms unfolding validateRepairPanel_ok repair_sound_def by blast+
  then obtain tss where tss: "map_result (repair_terms (ri_weights i)) (groupByStratum rt_stratum (ri_tasks i)) = Inr tss"
      "concat tss = repair_strata i"
    using repair_terms_ok [of i "alternatingBucket i"] by (auto simp: repair_strata_def validateRepairPanel_ok)
  show ?thesis
    unfolding evaluateRepairGate_def Let_def if_not_P [OF c] v stratum_names w tss and_then_simps repair_evidence_route by simp
qed

lemma repair_gate_refuses: "evaluateRepairGate m i = Inr r \<Longrightarrow> repair_sound i"
proof -
  assume r: "evaluateRepairGate m i = Inr r"
  then have c: "\<not> cost_invalid (ri_aggregateCostUsd i)" by (rule contrapos_pn) (simp add: evaluateRepairGate_def)
  note steps = r [unfolded evaluateRepairGate_def Let_def if_not_P [OF c] and_then_Inr ex_unit]
  have "validateRepairPanel (ri_tasks i) (alternatingBucket i) = Inr ()"
    "validateStratumWeights (new_set (map rt_stratum (ri_tasks i))) (ri_weights i) = Inr ()"
    unfolding stratum_names [symmetric] using steps by blast+
  then show ?thesis using c unfolding repair_sound_def cost_valid validateRepairPanel_ok by blast
qed

text \<open>The error of an input the gate refuses: of the first demand it breaks.\<close>

lemma validateRepairPanel_error:
  assumes "validateRepairPanel tasks a = Inl e"
  shows "e = Error (if length tasks \<noteq> 5 \<or> \<not> distinct (map rt_taskId tasks) then ''Repair requires exactly five distinct hidden tasks''
    else if bucket_count tasks Hard \<noteq> 3 \<or> bucket_count tasks Uncertain \<noteq> 1 \<or> bucket_count tasks (bucket_of a) \<noteq> 1
    then ''Repair panel must be 3 hard, 1 uncertain, and 1 alternating task'' else ''Invalid repair evidence'')"
proof (cases "length tasks = 5")
  case True
  have ids: "card (set (map rt_taskId tasks)) = 5 \<longleftrightarrow> distinct (map rt_taskId tasks)"
    using True by (metis card_set_eq_length length_map)
  have evidence: "check_all (\<lambda>task. if repair_evidence_invalid task then Inl (Error ''Invalid repair evidence'') else Inr ()) ts = Inl e \<Longrightarrow>
      e = Error ''Invalid repair evidence''" for ts
    by (induction ts) (auto split: if_splits)
  show ?thesis using assms True ids bucket_counts_length [of tasks] evidence
    by (cases a) (auto simp: validateRepairPanel_def countBuckets_eq Let_def split: if_splits)
qed (use assms in \<open>simp add: validateRepairPanel_def\<close>)

definition repair_error :: "math \<Rightarrow> repair_input \<Rightarrow> error \<Rightarrow> bool" where
  "repair_error m i e \<longleftrightarrow>
     (if \<nexists>cost. ri_aggregateCostUsd i = Fin cost \<and> 0 \<le> cost then e = Error ''Repair aggregate cost must be finite and non-negative''
      else if length (ri_tasks i) \<noteq> 5 \<or> \<not> distinct (map rt_taskId (ri_tasks i))
      then e = Error ''Repair requires exactly five distinct hidden tasks''
      else if bucket_count (ri_tasks i) Hard \<noteq> 3 \<or> bucket_count (ri_tasks i) Uncertain \<noteq> 1 \<or>
        bucket_count (ri_tasks i) (bucket_of (alternatingBucket i)) \<noteq> 1
      then e = Error ''Repair panel must be 3 hard, 1 uncertain, and 1 alternating task''
      else if \<exists>t \<in> set (ri_tasks i). repair_evidence_invalid t then e = Error ''Invalid repair evidence''
      else case validateStratumWeights (new_set (map rt_stratum (ri_tasks i))) (ri_weights i) of Inl x \<Rightarrow> e = x | Inr _ \<Rightarrow> repair_posterior m i = Inl e)"

lemma repair_gate_error:
  assumes "evaluateRepairGate m i = Inl e" shows "repair_error m i e"
proof (cases "cost_invalid (ri_aggregateCostUsd i)")
  case True
  then have "e = Error ''Repair aggregate cost must be finite and non-negative''" "\<nexists>cost. ri_aggregateCostUsd i = Fin cost \<and> 0 \<le> cost"
    using assms cost_valid [of "ri_aggregateCostUsd i"] by (simp_all add: evaluateRepairGate_def)
  then show ?thesis unfolding repair_error_def by simp
next
  case False
  then have cost: "\<exists>cost. ri_aggregateCostUsd i = Fin cost \<and> 0 \<le> cost" unfolding cost_valid .
  show ?thesis
  proof (cases "validateRepairPanel (ri_tasks i) (alternatingBucket i)")
    case (Inl e')
    then have "e' = e" using assms by (simp add: evaluateRepairGate_def False)
    moreover have "\<not> repair_panel (ri_tasks i) (alternatingBucket i)" using Inl unfolding validateRepairPanel_ok [symmetric] by simp
    ultimately show ?thesis using validateRepairPanel_error [OF Inl] cost unfolding repair_error_def repair_panel_def
      by (auto simp: list_all_iff split: if_splits)
  next
    case (Inr u)
    then have panel: "repair_panel (ri_tasks i) (alternatingBucket i)" using validateRepairPanel_ok by auto
    have "case validateStratumWeights (new_set (map rt_stratum (ri_tasks i))) (ri_weights i) of Inl x \<Rightarrow> e = x | Inr _ \<Rightarrow> repair_posterior m i = Inl e"
    proof (cases "validateStratumWeights (new_set (map rt_stratum (ri_tasks i))) (ri_weights i)")
      case (Inl e')
      then show ?thesis using assms Inr by (simp add: evaluateRepairGate_def False stratum_names Let_def)
    next
      case (Inr v)
      then have "repair_sound i" using cost panel by (simp add: repair_sound_def)
      from assms [unfolded repair_gate_sound [OF this]] show ?thesis using Inr by (cases "repair_posterior m i") (simp_all add: Let_def)
    qed
    then show ?thesis using cost panel unfolding repair_error_def repair_panel_def by (auto simp: list_all_iff)
  qed
qed

definition gate_verdict :: "repair_input \<Rightarrow> number \<Rightarrow> gate_disposition" where
  "gate_verdict i probability =
     (if repair_hard_veto i \<or> num_le probability lit_005 \<or> \<not> repair_evidence (ri_tasks i) then Fail
      else if num_le (num_of (8 / 10)) probability then Pass else Inconclusive_gate)"

lemma gate_verdicts:
  "gate_verdict i p = Pass \<longleftrightarrow> \<not> repair_hard_veto i \<and> repair_evidence (ri_tasks i) \<and> num_le (num_of (8 / 10)) p"
  "gate_verdict i p = Fail \<longleftrightarrow> repair_hard_veto i \<or> \<not> repair_evidence (ri_tasks i) \<or> num_le p lit_005"
  "gate_verdict i p = Inconclusive_gate \<longleftrightarrow> \<not> repair_hard_veto i \<and> repair_evidence (ri_tasks i) \<and> \<not> num_le p lit_005 \<and>
     \<not> num_le (num_of (8 / 10)) p"
  "gate_verdict i p \<in> {Pass, Fail, Inconclusive_gate}"
proof -
  have "num_of (8 / 10) = Fin (3602879701896397 / 4503599627370496)" by code_simp
  then have "\<not> num_le p lit_005" if "num_le (num_of (8 / 10)) p"
    using that num_le_trans [of "num_of (8 / 10)" p lit_005] by (auto simp: literal_values)
  then show "gate_verdict i p = Pass \<longleftrightarrow> \<not> repair_hard_veto i \<and> repair_evidence (ri_tasks i) \<and> num_le (num_of (8 / 10)) p"
    by (auto simp: gate_verdict_def)
qed (auto simp: gate_verdict_def)

lemma repair_gate_result:
  assumes "evaluateRepairGate m i = Inr r"
  obtains p where "repair_sound i" "repair_posterior m i = Inr p" "rr_disposition r = gate_verdict i (probabilityGreaterThanThreshold p)"
    "challengerCreated r = (rr_disposition r = Pass)" "evidenceRoute r = evidence_route_of (ri_tasks i)"
proof -
  have s: "repair_sound i" using assms by (rule repair_gate_refuses)
  from assms [unfolded repair_gate_sound [OF s] Let_def and_then_Inr] s show thesis by (auto simp: gate_verdict_def intro: that)
qed

lemma repair_gate_outcome:
  "(\<exists>r. evaluateRepairGate m i = Inr r \<and> rr_disposition r = d) \<longleftrightarrow>
   repair_sound i \<and> (\<exists>p. repair_posterior m i = Inr p \<and> gate_verdict i (probabilityGreaterThanThreshold p) = d)"
proof
  assume "repair_sound i \<and> (\<exists>p. repair_posterior m i = Inr p \<and> gate_verdict i (probabilityGreaterThanThreshold p) = d)"
  then obtain p where p: "repair_sound i" "repair_posterior m i = Inr p" "gate_verdict i (probabilityGreaterThanThreshold p) = d" by blast
  then obtain r where r: "evaluateRepairGate m i = Inr r" by (auto simp: repair_gate_sound Let_def)
  with p show "\<exists>r. evaluateRepairGate m i = Inr r \<and> rr_disposition r = d" by (auto elim!: repair_gate_result)
qed (auto elim!: repair_gate_result)

text \<open>
  C27. The outcome of the repair gate is decided by what it demands (a finite, non-negative cost; five distinct tasks, three hard,
  one uncertain and one of the alternating bucket, each with one fresh observation of the candidate and valid champion
  evidence; weights that cover the strata), by the vetoes, by the posterior probability of losing less than 0.1 and by
  the evidence: a task the champion failed in a fresh presealed control and the candidate passed, or three tasks
  of improved target behaviour, so cached champion evidence alone never establishes a transition. It passes without a veto, with evidence
  and a probability of at least 0.8; it fails with a veto, without evidence or with a probability of at most 0.05;
  it is inconclusive in between. An error is that of the first demand the input breaks, or of the quadrature.
\<close>

theorem repair_gate_characterized:
  "((\<exists>r. evaluateRepairGate m i = Inr r \<and> rr_disposition r = Pass) \<longleftrightarrow>
     repair_sound i \<and> \<not> repair_hard_veto i \<and> repair_evidence (ri_tasks i) \<and>
     (\<exists>p. repair_posterior m i = Inr p \<and> num_le (num_of (8 / 10)) (probabilityGreaterThanThreshold p))) \<and>
   ((\<exists>r. evaluateRepairGate m i = Inr r \<and> rr_disposition r = Fail) \<longleftrightarrow>
     repair_sound i \<and> (\<exists>p. repair_posterior m i = Inr p \<and>
       (if repair_evidence (ri_tasks i) then repair_hard_veto i \<or> num_le (probabilityGreaterThanThreshold p) lit_005 else True))) \<and>
   ((\<exists>r. evaluateRepairGate m i = Inr r \<and> rr_disposition r = Inconclusive_gate) \<longleftrightarrow>
     repair_sound i \<and> \<not> repair_hard_veto i \<and> repair_evidence (ri_tasks i) \<and>
     (\<exists>p. repair_posterior m i = Inr p \<and> \<not> num_le (probabilityGreaterThanThreshold p) lit_005 \<and>
       \<not> num_le (num_of (8 / 10)) (probabilityGreaterThanThreshold p))) \<and>
   (case evaluateRepairGate m i of
      Inr r \<Rightarrow> rr_disposition r \<in> {Pass, Fail, Inconclusive_gate} \<and> challengerCreated r = (rr_disposition r = Pass) \<and>
        (evidenceRoute r = No_route \<longleftrightarrow> \<not> repair_evidence (ri_tasks i))
    | Inl e \<Rightarrow> repair_error m i e)"
proof (intro conjI)
  show "case evaluateRepairGate m i of
      Inr r \<Rightarrow> rr_disposition r \<in> {Pass, Fail, Inconclusive_gate} \<and> challengerCreated r = (rr_disposition r = Pass) \<and>
        (evidenceRoute r = No_route \<longleftrightarrow> \<not> repair_evidence (ri_tasks i))
    | Inl e \<Rightarrow> repair_error m i e"
  proof (cases "evaluateRepairGate m i")
    case (Inr r)
    obtain p :: difference_summary where "rr_disposition r = gate_verdict i (probabilityGreaterThanThreshold p)"
      "challengerCreated r = (rr_disposition r = Pass)" "evidenceRoute r = evidence_route_of (ri_tasks i)"
      by (rule repair_gate_result [OF Inr]) (rule that)
    then show ?thesis
      using Inr gate_verdicts(4) [of i "probabilityGreaterThanThreshold p"] by (simp only: repair_evidence_route not_not sum.case simp_thms)
  qed (simp add: repair_gate_error)
qed (unfold repair_gate_outcome gate_verdicts if_bool_eq_conj, blast+)

text \<open>An experiment within its budget counts at most 38 attempts, 29 to 34 of them valid.\<close>

lemma within_budget_attempts:
  "validateExperimentAttemptBudget a = Inr r \<Longrightarrow> withinBudget r \<Longrightarrow>
   sum_list (accounting_fields a) \<le> 38 \<and> validArmBand r \<in> {Band_25_29, Band_30_34} \<and>
   replacementBand r \<noteq> Replacements_outside_budget"
  by (auto simp: validateExperimentAttemptBudget_def guard_simps accounting_fields_def Let_def split: if_splits)

end
