(* ===== verification/Local_Panel.thy ===== *)
theory Local_Panel
  imports Machines Canonical_Json Statistics
begin

text \<open>
  The panel policy of the local deployment: \<open>src/local/real/panel.ts\<close>. A campaign screens
  panels of five tasks with the current champion; the policy state counts the screens the
  champion saturated, the selection draws a panel by weighted sampling from a hash stream,
  and the assessment accepts a panel on which the champion leaves room. Records carry the
  numbers of the language; ordinals and counters are integers.
\<close>

subsection \<open>Tasks, state and options\<close>

definition LOCAL_PANEL_POLICY_VERSION :: string where
  "LOCAL_PANEL_POLICY_VERSION = ''local-deterministic-adaptive-panel-v1''"

definition LOCAL_PANEL_STATE_SCHEMA_VERSION :: int where
  "LOCAL_PANEL_STATE_SCHEMA_VERSION = 1"

definition LOCAL_PANEL_SIZE :: nat where "LOCAL_PANEL_SIZE = 5"
definition LOCAL_PANEL_REPETITIONS :: nat where "LOCAL_PANEL_REPETITIONS = 3"
definition LOCAL_PANEL_MAX_CHAMPION_MEAN :: number where "LOCAL_PANEL_MAX_CHAMPION_MEAN = num_of (95 / 100)"
definition LOCAL_PANEL_MIN_TASK_HEADROOM :: number where "LOCAL_PANEL_MIN_TASK_HEADROOM = num_of (1 / 100)"
definition LOCAL_PANEL_SATURATION_WINDOW :: nat where "LOCAL_PANEL_SATURATION_WINDOW = 20"
definition MAX_SELECTION_REDRAWS :: nat where "MAX_SELECTION_REDRAWS = 4096"
definition MAX_CATALOG_TASKS :: nat where "MAX_CATALOG_TASKS = 10000"
definition MAX_TASK_ID_LENGTH :: nat where "MAX_TASK_ID_LENGTH = 1024"
definition MAX_SEED_LENGTH :: nat where "MAX_SEED_LENGTH = 4096"
definition METRIC_SCALE :: number where "METRIC_SCALE = num_of_int 1000000000000"

datatype local_difficulty = Easy_task | Medium_task | Hard_task

record catalog_task =
  lt_taskId :: string
  lt_revision :: string
  lt_difficulty :: local_difficulty
  baseWeight :: number

record policy_state =
  ps_schemaVersion :: int
  ps_policyVersion :: string
  totalScreens :: int
  saturatedScreens :: int
  consecutiveSaturatedScreens :: int
  recentSaturation :: "bool list"

record selection_options =
  seed :: string
  screenOrdinal :: int
  so_state :: policy_state
  excludedTaskIds :: "string list option"
  excludedPanelDigests :: "string list option"

record panel_task = catalog_task +
  effectiveWeight :: number
  samplingScore :: number

record local_selection =
  ls_policyVersion :: string
  seedDigest :: string
  ls_screenOrdinal :: int
  redrawOrdinal :: nat
  saturationPressure :: number
  panelDigest :: string
  ls_tasks :: "panel_task list"

record champion_observation =
  co_taskId :: string
  co_repetition :: int
  co_reward :: number
  co_infrastructureValid :: bool

record task_assessment =
  ta_taskId :: string
  ta_championMeanReward :: number
  theoreticalHeadroom :: number
  canProduceTaskWin :: bool

datatype panel_status = Accepted | Saturated | Infrastructure_invalid

datatype panel_reason =
    Surpassable | Aggregate_and_task_headroom | Aggregate_headroom | Task_headroom | Reason_infrastructure

record panel_assessment =
  pa_policyVersion :: string
  pa_status :: panel_status
  pa_reason :: panel_reason
  pa_championMeanReward :: number
  theoreticalAggregateHeadroom :: number
  aggregateThresholdSatisfied :: bool
  everyTaskCanProduceWin :: bool
  fullyPerfect :: bool
  taskAssessments :: "task_assessment list"

abbreviation policy_error :: "string \<Rightarrow> 'a result" where
  "policy_error m \<equiv> Inl (LocalPanelPolicyError m)"

definition rounded :: "number \<Rightarrow> number" where
  "rounded v = num_div (num_round (num_mul v METRIC_SCALE)) METRIC_SCALE"

definition mean_of :: "number list \<Rightarrow> number result" where
  "mean_of values =
     (if values = [] then policy_error ''Cannot calculate the mean of an empty collection''
      else Inr (num_div (num_sum values) (num_of_int (int (length values)))))"

subsection \<open>The policy state\<close>

definition assertLocalPanelPolicyState :: "policy_state \<Rightarrow> unit result" where
  "assertLocalPanelPolicyState s =
     (if ps_schemaVersion s \<noteq> LOCAL_PANEL_STATE_SCHEMA_VERSION \<or>
         ps_policyVersion s \<noteq> LOCAL_PANEL_POLICY_VERSION \<or>
         \<not> safe_int (totalScreens s) \<or> totalScreens s < 0 \<or>
         \<not> safe_int (saturatedScreens s) \<or> saturatedScreens s < 0 \<or> totalScreens s < saturatedScreens s \<or>
         \<not> safe_int (consecutiveSaturatedScreens s) \<or> consecutiveSaturatedScreens s < 0 \<or>
         totalScreens s < consecutiveSaturatedScreens s \<or>
         LOCAL_PANEL_SATURATION_WINDOW < length (recentSaturation s) \<or>
         totalScreens s < int (length (recentSaturation s)) \<or>
         saturatedScreens s < int (length (filter id (recentSaturation s)))
      then policy_error ''Panel policy state is invalid'' else Inr ())"

definition initialLocalPanelPolicyState :: policy_state where
  "initialLocalPanelPolicyState =
     \<lparr>ps_schemaVersion = LOCAL_PANEL_STATE_SCHEMA_VERSION, ps_policyVersion = LOCAL_PANEL_POLICY_VERSION,
      totalScreens = 0, saturatedScreens = 0, consecutiveSaturatedScreens = 0, recentSaturation = []\<rparr>"

definition localPanelSaturationPressure :: "policy_state \<Rightarrow> number result" where
  "localPanelSaturationPressure s =
     and_then (assertLocalPanelPolicyState s) (\<lambda>_.
       if recentSaturation s = [] then Inr (Fin 0)
       else Inr (rounded (num_div (num_of_int (int (length (filter id (recentSaturation s)))))
              (num_of_int (int (length (recentSaturation s)))))))"

text \<open>\<open>xs.slice(-n)\<close>\<close>

definition slice_last :: "nat \<Rightarrow> 'a list \<Rightarrow> 'a list" where
  "slice_last n xs = drop (length xs - n) xs"

definition advanceLocalPanelPolicyState :: "policy_state \<Rightarrow> bool \<Rightarrow> policy_state result" where
  "advanceLocalPanelPolicyState s saturated =
     and_then (assertLocalPanelPolicyState s) (\<lambda>_.
       let next =
         \<lparr>ps_schemaVersion = LOCAL_PANEL_STATE_SCHEMA_VERSION, ps_policyVersion = LOCAL_PANEL_POLICY_VERSION,
          totalScreens = totalScreens s + 1,
          saturatedScreens = saturatedScreens s + (if saturated then 1 else 0),
          consecutiveSaturatedScreens = (if saturated then consecutiveSaturatedScreens s + 1 else 0),
          recentSaturation = slice_last LOCAL_PANEL_SATURATION_WINDOW (recentSaturation s @ [saturated])\<rparr>
       in and_then (assertLocalPanelPolicyState next) (\<lambda>_. Inr next))"

subsection \<open>Selection\<close>

definition contains_zero :: "string \<Rightarrow> bool" where
  "contains_zero s \<longleftrightarrow> CHR 0x00 \<in> set s"

definition validateTaskIdentity :: "string \<Rightarrow> string \<Rightarrow> unit result" where
  "validateTaskIdentity task revision =
     (if task = [] \<or> MAX_TASK_ID_LENGTH < length task \<or> contains_zero task \<or>
         revision = [] \<or> MAX_TASK_ID_LENGTH < length revision \<or> contains_zero revision
      then policy_error ''Task identity is invalid'' else Inr ())"

definition validateCatalog :: "catalog_task list \<Rightarrow> unit result" where
  "validateCatalog catalog =
     (if length catalog < LOCAL_PANEL_SIZE \<or> MAX_CATALOG_TASKS < length catalog \<or>
         card (set (map lt_taskId catalog)) \<noteq> length catalog
      then policy_error ''Task catalog must contain between five and ten thousand distinct tasks''
      else check_all (\<lambda>task. and_then (validateTaskIdentity (lt_taskId task) (lt_revision task)) (\<lambda>_.
             if \<not> is_finite (baseWeight task) \<or> num_le (baseWeight task) (Fin 0)
             then policy_error ''Catalog task difficulty and base weight must be valid'' else Inr ())) catalog)"

definition validateSelectionOptions :: "selection_options \<Rightarrow> unit result" where
  "validateSelectionOptions options =
     (if seed options = [] \<or> MAX_SEED_LENGTH < length (seed options) \<or> contains_zero (seed options) \<or>
         \<not> safe_int (screenOrdinal options) \<or> screenOrdinal options < 1
      then policy_error ''Panel seed and screen ordinal are invalid''
      else and_then (assertLocalPanelPolicyState (so_state options)) (\<lambda>_.
        let excludedTasks = (case excludedTaskIds options of None \<Rightarrow> [] | Some xs \<Rightarrow> xs) in
        if card (set excludedTasks) \<noteq> length excludedTasks \<or>
           (\<exists>t \<in> set excludedTasks. t = [] \<or> MAX_TASK_ID_LENGTH < length t \<or> contains_zero t)
        then policy_error ''Excluded task identifiers are invalid''
        else
          let excludedPanels = (case excludedPanelDigests options of None \<Rightarrow> [] | Some xs \<Rightarrow> xs) in
          if card (set excludedPanels) \<noteq> length excludedPanels \<or> (\<exists>d \<in> set excludedPanels. \<not> is_sha256 d)
          then policy_error ''Excluded panel digests are invalid'' else Inr ()))"

definition difficultyFactor :: "local_difficulty \<Rightarrow> number" where
  "difficultyFactor d = (case d of Easy_task \<Rightarrow> Fin 0 | Medium_task \<Rightarrow> Fin 1 | Hard_task \<Rightarrow> Fin 3)"

definition effectiveTaskWeight :: "catalog_task \<Rightarrow> number \<Rightarrow> number" where
  "effectiveTaskWeight task pressure =
     num_mul (baseWeight task) (num_add (Fin 1) (num_mul pressure (difficultyFactor (lt_difficulty task))))"

text \<open>The value of a lowercase hexadecimal numeral.\<close>

definition hex_value :: "string \<Rightarrow> int" where
  "hex_value s = foldl (\<lambda>n c. 16 * n + (if digit c then of_char c - 48 else of_char c - 87)) 0 s"

text \<open>
  \<open>digest.readBigUInt64BE(0) >> 11n\<close>: the first eight bytes, sixteen characters of the
  digest in hexadecimal, without the last eleven bits.
\<close>

definition digest_mantissa :: "string \<Rightarrow> int" where
  "digest_mantissa d = hex_value (take 16 d) div 2 ^ 11"

definition weightedSamplingScore :: "math \<Rightarrow> host \<Rightarrow> string \<Rightarrow> int \<Rightarrow> nat \<Rightarrow> panel_task \<Rightarrow> number" where
  "weightedSamplingScore m h sd ordinal redraw task =
     (let digest = sha256 h (join [CHR 0x00] [LOCAL_PANEL_POLICY_VERSION, sd, int_text ordinal, decimal redraw,
            lt_taskId task, lt_revision task]);
          uniform = num_div (num_add (num_of_int (digest_mantissa digest)) (Fin (1 / 2)))
            (math_pow m (Fin 2) (Fin 53))
      in num_div (math_log m uniform) (effectiveWeight task))"

definition compareTaskIdentity :: "host \<Rightarrow> ('a) catalog_task_scheme \<Rightarrow> ('a) catalog_task_scheme \<Rightarrow> int" where
  "compareTaskIdentity h left right =
     (let idOrder = locale_compare h (lt_taskId left) (lt_taskId right)
      in if idOrder = 0 then locale_compare h (lt_revision left) (lt_revision right) else idOrder)"

definition compareSamplingCandidates :: "host \<Rightarrow> panel_task \<Rightarrow> panel_task \<Rightarrow> int" where
  "compareSamplingCandidates h left right =
     (let scoreDelta = num_sub (samplingScore right) (samplingScore left)
      in if num_eq scoreDelta (Fin 0) then compareTaskIdentity h left right else num_sgn scoreDelta)"

text \<open>\<open>JSON.stringify({domain, tasks})\<close> of the sorted identities.\<close>

definition identity_text :: "string \<times> string \<Rightarrow> string" where
  "identity_text = (\<lambda>(task, revision).
     CHR 0x7B # serializeString ''taskId'' @ '':'' @ serializeString task @ '','' @
     serializeString ''revision'' @ '':'' @ serializeString revision @ [CHR 0x7D])"

definition panel_text :: "(string \<times> string) list \<Rightarrow> string" where
  "panel_text identities =
     CHR 0x7B # serializeString ''domain'' @ '':'' @ serializeString LOCAL_PANEL_POLICY_VERSION @ '','' @
     serializeString ''tasks'' @ '':'' @ ''['' @ join '','' (map identity_text identities) @ '']'' @ [CHR 0x7D]"

definition compare_identities :: "host \<Rightarrow> string \<times> string \<Rightarrow> string \<times> string \<Rightarrow> int" where
  "compare_identities h = (\<lambda>(t, r) (t', r').
     let idOrder = locale_compare h t t' in if idOrder = 0 then locale_compare h r r' else idOrder)"

definition localPanelDigest :: "host \<Rightarrow> ('a) catalog_task_scheme list \<Rightarrow> string result" where
  "localPanelDigest h tasks =
     (if length tasks \<noteq> LOCAL_PANEL_SIZE \<or> card (set (map lt_taskId tasks)) \<noteq> LOCAL_PANEL_SIZE
      then policy_error ''A panel digest requires five distinct tasks''
      else and_then (check_all (\<lambda>task. validateTaskIdentity (lt_taskId task) (lt_revision task)) tasks) (\<lambda>_.
        let identities = sort_by (compare_identities h) (map (\<lambda>task. (lt_taskId task, lt_revision task)) tasks)
        in Inr (sha256 h (panel_text identities))))"

text \<open>An eligible task has no sampling score yet; every draw sets it.\<close>

definition weigh :: "number \<Rightarrow> catalog_task \<Rightarrow> panel_task" where
  "weigh pressure task = catalog_task.extend task (panel_task.fields (effectiveTaskWeight task pressure) NaN)"

definition eligible_tasks :: "host \<Rightarrow> catalog_task list \<Rightarrow> string set \<Rightarrow> number \<Rightarrow> panel_task list" where
  "eligible_tasks h catalog excluded pressure =
     sort_by (compareTaskIdentity h)
       (map (weigh pressure) (filter (\<lambda>task. lt_taskId task \<notin> excluded) catalog))"

definition draw :: "math \<Rightarrow> host \<Rightarrow> string \<Rightarrow> int \<Rightarrow> panel_task list \<Rightarrow> nat \<Rightarrow> panel_task list" where
  "draw m h sd ordinal eligible redraw =
     map (\<lambda>task. task\<lparr>effectiveWeight := rounded (effectiveWeight task), samplingScore := rounded (samplingScore task)\<rparr>)
       (take LOCAL_PANEL_SIZE (sort_by (compareSamplingCandidates h)
         (map (\<lambda>task. task\<lparr>samplingScore := weightedSamplingScore m h sd ordinal redraw task\<rparr>) eligible)))"

text \<open>The redraws from \<open>redraw\<close> on, of \<open>fuel\<close> that are left before the limit.\<close>

fun redraw_loop ::
    "math \<Rightarrow> host \<Rightarrow> string \<Rightarrow> int \<Rightarrow> panel_task list \<Rightarrow> string set \<Rightarrow> number \<Rightarrow> nat \<Rightarrow> nat \<Rightarrow> local_selection result" where
  "redraw_loop m h sd ordinal eligible excluded pressure redraw 0 =
     policy_error ''Unable to select a panel outside the persisted panel exclusions''"
| "redraw_loop m h sd ordinal eligible excluded pressure redraw (Suc fuel) =
     (let tasks = draw m h sd ordinal eligible redraw in
      and_then (localPanelDigest h tasks) (\<lambda>digest.
        if digest \<notin> excluded
        then Inr \<lparr>ls_policyVersion = LOCAL_PANEL_POLICY_VERSION, seedDigest = sd, ls_screenOrdinal = ordinal,
               redrawOrdinal = redraw, saturationPressure = pressure, panelDigest = digest, ls_tasks = tasks\<rparr>
        else redraw_loop m h sd ordinal eligible excluded pressure (Suc redraw) fuel))"

definition selectDeterministicWeightedPanel ::
    "math \<Rightarrow> host \<Rightarrow> catalog_task list \<Rightarrow> selection_options \<Rightarrow> local_selection result" where
  "selectDeterministicWeightedPanel m h catalog options =
     and_then (validateCatalog catalog) (\<lambda>_.
     and_then (validateSelectionOptions options) (\<lambda>_.
     and_then (localPanelSaturationPressure (so_state options)) (\<lambda>pressure.
       let excludedTasks = set (case excludedTaskIds options of None \<Rightarrow> [] | Some xs \<Rightarrow> xs);
           eligible = eligible_tasks h catalog excludedTasks pressure
       in if length eligible < LOCAL_PANEL_SIZE
          then policy_error ''At least five eligible tasks are required after task exclusions''
          else
            let excludedPanels = set (case excludedPanelDigests options of None \<Rightarrow> [] | Some xs \<Rightarrow> xs);
                redrawLimit = min MAX_SELECTION_REDRAWS (max 64 ((card excludedPanels + 1) * 32))
            in redraw_loop m h (sha256 h (seed options)) (screenOrdinal options) eligible excludedPanels
                 pressure 0 redrawLimit)))"


subsection \<open>Assessment of the champion\<close>

fun observation_identities :: "string set \<Rightarrow> (string \<times> int) list \<Rightarrow> champion_observation list \<Rightarrow> unit result" where
  "observation_identities selected identities [] = Inr ()"
| "observation_identities selected identities (ob # obs) =
     (if co_taskId ob \<notin> selected \<or> co_repetition ob \<notin> {1, 2, 3} \<or> \<not> is_finite (co_reward ob) \<or>
         num_less (co_reward ob) (Fin 0) \<or> num_less (Fin 1) (co_reward ob) \<or>
         (co_taskId ob, co_repetition ob) \<in> set identities
      then policy_error ''Champion panel observations are malformed or detached from the selection''
      else observation_identities selected ((co_taskId ob, co_repetition ob) # identities) obs)"

definition validateAssessmentEvidence :: "panel_task list \<Rightarrow> champion_observation list \<Rightarrow> unit result" where
  "validateAssessmentEvidence tasks observations =
     (if length tasks \<noteq> LOCAL_PANEL_SIZE \<or> card (set (map lt_taskId tasks)) \<noteq> LOCAL_PANEL_SIZE \<or>
         length observations \<noteq> LOCAL_PANEL_SIZE * LOCAL_PANEL_REPETITIONS
      then policy_error ''Champion panel assessment requires five tasks and fifteen observations''
      else and_then (observation_identities (set (map lt_taskId tasks)) [] observations) (\<lambda>_.
        check_all (\<lambda>task.
            if length (filter (\<lambda>ob. co_taskId ob = lt_taskId task) observations) \<noteq> LOCAL_PANEL_REPETITIONS
            then policy_error ''Every selected task requires exactly three champion observations'' else Inr ())
          tasks))"

definition task_observations :: "panel_task \<Rightarrow> champion_observation list \<Rightarrow> champion_observation list" where
  "task_observations task observations =
     sort_by (\<lambda>l r. co_repetition l - co_repetition r)
       (filter (\<lambda>ob. co_taskId ob = lt_taskId task) observations)"

definition assess_task :: "champion_observation list \<Rightarrow> panel_task \<Rightarrow> task_assessment result" where
  "assess_task observations task =
     and_then (mean_of (map co_reward (task_observations task observations))) (\<lambda>average.
       let championMean = rounded average;
           headroom = rounded (num_sub (Fin 1) championMean)
       in Inr \<lparr>ta_taskId = lt_taskId task, ta_championMeanReward = championMean, theoreticalHeadroom = headroom,
               canProduceTaskWin = num_less LOCAL_PANEL_MIN_TASK_HEADROOM headroom\<rparr>)"

definition assessLocalChampionPanel :: "panel_task list \<Rightarrow> champion_observation list \<Rightarrow> panel_assessment result" where
  "assessLocalChampionPanel tasks observations =
     and_then (validateAssessmentEvidence tasks observations) (\<lambda>_.
     and_then (map_result (assess_task observations) tasks) (\<lambda>assessments.
     and_then (mean_of (map co_reward observations)) (\<lambda>average.
       let championMean = rounded average;
           within_threshold = num_le championMean LOCAL_PANEL_MAX_CHAMPION_MEAN;
           assessment = (\<lambda>status reason.
             \<lparr>pa_policyVersion = LOCAL_PANEL_POLICY_VERSION, pa_status = status, pa_reason = reason,
              pa_championMeanReward = championMean,
              theoreticalAggregateHeadroom = rounded (num_sub (Fin 1) championMean),
              aggregateThresholdSatisfied = within_threshold,
              everyTaskCanProduceWin = list_all canProduceTaskWin assessments,
              fullyPerfect = list_all (\<lambda>ob. num_eq (co_reward ob) (Fin 1)) observations,
              taskAssessments = assessments\<rparr>)
       in if \<exists>ob \<in> set observations. \<not> co_infrastructureValid ob
          then Inr (assessment Infrastructure_invalid Reason_infrastructure)
          else if within_threshold then Inr (assessment Accepted Surpassable)
          else Inr (assessment Saturated Aggregate_headroom))))"

end
