(* ===== verification/Local_Decision.thy ===== *)
theory Local_Decision
  imports Local_Panel
begin

text \<open>
  The comparison of a candidate with the champion on a local panel:
  \<open>src/local/real/decision.ts\<close>. The power operator of the sign test is the platform's.
\<close>

definition LOCAL_REAL_REPETITIONS :: nat where "LOCAL_REAL_REPETITIONS = 3"
definition LOCAL_REAL_TASKS_PER_PANEL :: nat where "LOCAL_REAL_TASKS_PER_PANEL = 5"
definition LOCAL_REAL_OBSERVATIONS_PER_ARM :: nat where "LOCAL_REAL_OBSERVATIONS_PER_ARM = 15"

record local_observation =
  taskName :: string
  repetition :: int
  reward :: number
  ob_infrastructureValid :: bool

record arm_receipt =
  ar_revision :: string
  observations :: "local_observation list"
  infrastructureValid :: bool

datatype local_disposition = Local_promote | Local_reject | Local_inconclusive

datatype local_reason =
    Candidate_superior | Candidate_inferior | Effect_too_small | Insufficient_confidence
  | Local_infrastructure_invalid | Candidate_invalid

record local_decision =
  experimentId :: string
  ld_disposition :: local_disposition
  ld_reason :: local_reason
  candidateMeanReward :: "number option"
  ld_championMeanReward :: number
  meanRewardDelta :: "number option"
  taskWins :: int
  taskLosses :: int
  taskTies :: int
  confidenceCandidateBetter :: number
  minimumAggregateDelta :: number
  requiredConfidence :: number
  decidedAt :: string
  containsSecrets :: bool

definition decision_rounded :: "number \<Rightarrow> number" where
  "decision_rounded v = num_div (num_round (num_mul v (num_of_int 1000000))) (num_of_int 1000000)"

definition sample_mean :: "number list \<Rightarrow> number result" where
  "sample_mean values =
     (if values = [] then Inl (Error ''Cannot average an empty local real sample'')
      else Inr (num_div (num_sum values) (num_of_int (int (length values)))))"

definition group_rewards :: "local_observation list \<Rightarrow> (string \<times> number list) list" where
  "group_rewards obs =
     foldl (\<lambda>values ob.
         let task = (case map_of values (taskName ob) of None \<Rightarrow> [] | Some rs \<Rightarrow> rs)
         in AList.update (taskName ob) (task @ [reward ob]) values)
       [] obs"

definition observationsByTask :: "arm_receipt \<Rightarrow> (string \<times> number list) list result" where
  "observationsByTask receipt =
     (let values = group_rewards (observations receipt)
      in if length values \<noteq> LOCAL_REAL_TASKS_PER_PANEL \<or>
            (\<exists>(task, rewards) \<in> set values. length rewards \<noteq> LOCAL_REAL_REPETITIONS)
         then Inl (Error ''Local real arm must contain three observations for each of five tasks'')
         else Inr values)"

text \<open>\<open>result = (result * (n - boundedK + index)) / index\<close> from \<open>index = 1\<close> on.\<close>

definition binomialCoefficient :: "int \<Rightarrow> int \<Rightarrow> number" where
  "binomialCoefficient n k =
     (let boundedK = min k (n - k)
      in foldl (\<lambda>result index. num_div (num_mul result (num_of_int (n - boundedK + index))) (num_of_int index))
           (Fin 1) [1..boundedK])"

definition binomialUpperTail :: "math \<Rightarrow> int \<Rightarrow> int \<Rightarrow> number" where
  "binomialUpperTail m trials minimumSuccesses =
     foldl (\<lambda>probability successes. num_add probability
         (num_mul (binomialCoefficient trials successes) (math_pow m (Fin (1 / 2)) (num_of_int trials))))
       (Fin 0) [minimumSuccesses..trials]"

definition directionalConfidence :: "math \<Rightarrow> int \<Rightarrow> int \<Rightarrow> number" where
  "directionalConfidence m wins losses =
     (let discordant = wins + losses
      in if discordant = 0 then Fin (1 / 2)
         else if wins \<le> losses
         then num_max (Fin 0) (num_sub (Fin 1) (binomialUpperTail m discordant wins))
         else num_sub (Fin 1) (binomialUpperTail m discordant wins))"

definition task_delta ::
    "(string \<times> number list) list \<Rightarrow> (string \<times> number list) list \<Rightarrow> string \<Rightarrow> number result" where
  "task_delta candidate champion name =
     (let rewards = (\<lambda>values. case map_of values name of None \<Rightarrow> [] | Some rs \<Rightarrow> rs) in
      and_then (sample_mean (rewards candidate)) (\<lambda>c.
      and_then (sample_mean (rewards champion)) (\<lambda>k. Inr (num_sub c k))))"

definition local_verdict :: "math \<Rightarrow> bool \<Rightarrow> number \<Rightarrow> int \<Rightarrow> int \<Rightarrow> local_disposition \<times> local_reason" where
  "local_verdict m valid delta wins losses =
     (if \<not> valid then (Local_inconclusive, Local_infrastructure_invalid)
      else if num_le (num_of (5 / 100)) delta \<and> losses < wins \<and>
        num_le (num_of (95 / 100)) (directionalConfidence m wins losses)
      then (Local_promote, Candidate_superior)
      else if num_le delta (num_neg (num_of (5 / 100))) \<and> wins < losses \<and>
        num_le (num_of (95 / 100)) (directionalConfidence m losses wins)
      then (Local_reject, Candidate_inferior)
      else if num_less (num_abs delta) (num_of (5 / 100)) then (Local_inconclusive, Effect_too_small)
      else (Local_inconclusive, Insufficient_confidence))"

definition local_result ::
    "math \<Rightarrow> string \<Rightarrow> string \<Rightarrow> bool \<Rightarrow> int \<Rightarrow> int \<Rightarrow> number \<Rightarrow> number \<Rightarrow> local_decision" where
  "local_result m experiment decided valid wins losses candidateMean championMean =
     (let delta = num_sub candidateMean championMean;
          verdict = local_verdict m valid delta wins losses
      in \<lparr>experimentId = experiment, ld_disposition = fst verdict, ld_reason = snd verdict,
          candidateMeanReward = Some (decision_rounded candidateMean),
          ld_championMeanReward = decision_rounded championMean,
          meanRewardDelta = Some (decision_rounded delta),
          taskWins = wins, taskLosses = losses,
          taskTies = int LOCAL_REAL_TASKS_PER_PANEL - wins - losses,
          confidenceCandidateBetter = decision_rounded (directionalConfidence m wins losses),
          minimumAggregateDelta = num_of (5 / 100), requiredConfidence = num_of (95 / 100),
          decidedAt = decided, containsSecrets = False\<rparr>)"

definition decideLocalRealComparison ::
    "math \<Rightarrow> string \<Rightarrow> arm_receipt \<Rightarrow> arm_receipt \<Rightarrow> string \<Rightarrow> local_decision result" where
  "decideLocalRealComparison m experiment champion_arm candidate_arm decided =
     and_then (observationsByTask champion_arm) (\<lambda>champion.
     and_then (observationsByTask candidate_arm) (\<lambda>candidate.
     let taskNames = sort (map fst champion) in
     if length taskNames \<noteq> LOCAL_REAL_TASKS_PER_PANEL \<or> length candidate \<noteq> LOCAL_REAL_TASKS_PER_PANEL \<or>
        (\<exists>name \<in> set taskNames. map_of candidate name = None)
     then Inl (Error ''Local real comparison requires the same five tasks in both arms'')
     else
       let valid = infrastructureValid champion_arm \<and> infrastructureValid candidate_arm \<and>
             length (observations champion_arm) = LOCAL_REAL_OBSERVATIONS_PER_ARM \<and>
             length (observations candidate_arm) = LOCAL_REAL_OBSERVATIONS_PER_ARM
       in and_then (map_result (task_delta candidate champion) taskNames) (\<lambda>deltas.
          let hundredth = num_of (1 / 100);
              wins = int (length (filter (\<lambda>d. num_less hundredth d) deltas));
              losses = int (length (filter (\<lambda>d. num_less d (num_neg hundredth)) deltas))
          in and_then (sample_mean (map reward (observations candidate_arm))) (\<lambda>candidateMean.
             and_then (sample_mean (map reward (observations champion_arm))) (\<lambda>championMean.
               Inr (local_result m experiment decided valid wins losses candidateMean championMean))))))"

definition invalidLocalRealCandidateDecision :: "string \<Rightarrow> arm_receipt \<Rightarrow> string \<Rightarrow> local_decision result" where
  "invalidLocalRealCandidateDecision experiment champion_arm decided =
     and_then (sample_mean (map reward (observations champion_arm))) (\<lambda>championMean.
       Inr \<lparr>experimentId = experiment, ld_disposition = Local_reject, ld_reason = Candidate_invalid,
            candidateMeanReward = None, ld_championMeanReward = decision_rounded championMean,
            meanRewardDelta = None, taskWins = 0, taskLosses = 0,
            taskTies = int LOCAL_REAL_TASKS_PER_PANEL, confidenceCandidateBetter = Fin (1 / 2),
            minimumAggregateDelta = num_of (5 / 100), requiredConfidence = num_of (95 / 100),
            decidedAt = decided, containsSecrets = False\<rparr>)"

end
