(* ===== verification/Local_Properties.thy ===== *)
theory Local_Properties
  imports Local_Decision Posterior_Properties
begin

text \<open>
  What the local campaign promises: the panel selection is a function of the set of catalog
  tasks, respects the exclusions and always ends; the policy state stays valid; a promotion
  needs a win on all five tasks, so that a panel with a perfect task of the champion can be
  accepted although no candidate can be promoted on it.
\<close>

subsection \<open>The sign test\<close>

text \<open>Powers of one half are exact on the platform, up to the five tasks of a panel.\<close>

definition pow_half :: "math \<Rightarrow> bool" where
  "pow_half m \<longleftrightarrow> (\<forall>n. 1 \<le> n \<longrightarrow> n \<le> 5 \<longrightarrow> math_pow m (Fin (1 / 2)) (Fin (of_nat n)) = Fin (1 / 2 ^ n))"

lemma pow_half_values:
  assumes "pow_half m"
  shows "math_pow m (Fin (1 / 2)) (num_of_int 1) = Fin (1 / 2)" "math_pow m (Fin (1 / 2)) (num_of_int 2) = Fin (1 / 4)"
    "math_pow m (Fin (1 / 2)) (num_of_int 3) = Fin (1 / 8)" "math_pow m (Fin (1 / 2)) (num_of_int 4) = Fin (1 / 16)"
    "math_pow m (Fin (1 / 2)) (num_of_int 5) = Fin (1 / 32)"
proof -
  have p: "math_pow m (Fin (1 / 2)) (Fin (of_nat n)) = Fin (1 / 2 ^ n)" if "1 \<le> n" "n \<le> 5" for n :: nat
    using assms that unfolding pow_half_def by blast
  show "math_pow m (Fin (1 / 2)) (num_of_int 1) = Fin (1 / 2)" "math_pow m (Fin (1 / 2)) (num_of_int 2) = Fin (1 / 4)"
    "math_pow m (Fin (1 / 2)) (num_of_int 3) = Fin (1 / 8)" "math_pow m (Fin (1 / 2)) (num_of_int 4) = Fin (1 / 16)"
    "math_pow m (Fin (1 / 2)) (num_of_int 5) = Fin (1 / 32)"
    using p [of 1] p [of 2] p [of 3] p [of 4] p [of 5] by simp_all
qed

definition tail_with :: "number \<Rightarrow> int \<Rightarrow> int \<Rightarrow> number" where
  "tail_with p trials k =
     foldl (\<lambda>probability successes. num_add probability (num_mul (binomialCoefficient trials successes) p))
       (Fin 0) [k..trials]"

text \<open>Multiples of \<open>2 ^ -10\<close> are values, so that their arithmetic is exact.\<close>

lemma num_dyadic: "x * 1024 = of_int \<lfloor>x * 1024\<rfloor> \<Longrightarrow> \<bar>x\<bar> \<le> 2 ^ 40 \<Longrightarrow> num_of x = Fin x"
proof -
  assume x: "x * 1024 = of_int \<lfloor>x * 1024\<rfloor>" "\<bar>x\<bar> \<le> 2 ^ 40"
  let ?k = "\<lfloor>x * 1024\<rfloor>"
  have "\<bar>x * 1024\<bar> \<le> 2 ^ 50" using x(2) by (simp add: abs_mult)
  then have "\<bar>of_int ?k\<bar> \<le> (2 ^ 50 :: rat)" using x(1) by simp
  then have "of_int \<bar>?k\<bar> \<le> (of_int (2 ^ 50) :: rat)" by simp
  then have "\<bar>?k\<bar> \<le> 2 ^ 50" by (simp only: of_int_le_iff)
  then have "is_f64 (of_int ?k * 2 powi - 10)" unfolding is_f64_def by (intro round64_grid_exact) simp_all
  moreover have "of_int ?k * 2 powi - 10 = x" unfolding x(1) [symmetric] by (simp add: power_int_minus)
  ultimately have "is_f64 x" by (simp only:)
  moreover have "(2 :: rat) ^ 40 \<le> max_f64" by (simp add: max_f64_def)
  ultimately show ?thesis using x(2) by (intro num_of_exact) linarith+
qed

lemma tails:
  "num_sub (Fin 1) (tail_with (Fin (1 / 2)) 1 1) = Fin (1 / 2)"
  "num_sub (Fin 1) (tail_with (Fin (1 / 4)) 2 2) = Fin (3 / 4)"
  "num_sub (Fin 1) (tail_with (Fin (1 / 8)) 3 3) = Fin (7 / 8)"
  "num_sub (Fin 1) (tail_with (Fin (1 / 8)) 3 2) = Fin (1 / 2)"
  "num_sub (Fin 1) (tail_with (Fin (1 / 16)) 4 4) = Fin (15 / 16)"
  "num_sub (Fin 1) (tail_with (Fin (1 / 16)) 4 3) = Fin (11 / 16)"
  "num_sub (Fin 1) (tail_with (Fin (1 / 32)) 5 4) = Fin (13 / 16)"
  "num_sub (Fin 1) (tail_with (Fin (1 / 32)) 5 3) = Fin (1 / 2)"
  by (simp_all add: tail_with_def binomialCoefficient_def upto.simps num_sub_def num_dyadic)

lemma literal_95: "num_of (95 / 100) = Fin (8556839292003942 / 9007199254740992)"
  by code_simp

lemma confidence_small:
  assumes "pow_half m" "0 \<le> losses" "losses < wins" "wins + losses \<le> 5" "wins \<noteq> 5"
  shows "num_le (directionalConfidence m wins losses) (Fin (15 / 16))"
proof -
  have tail: "binomialUpperTail m n k = tail_with (math_pow m (Fin (1 / 2)) (num_of_int n)) n k" for n k
    by (simp add: binomialUpperTail_def tail_with_def)
  have conf: "directionalConfidence m wins losses =
      num_sub (Fin 1) (tail_with (math_pow m (Fin (1 / 2)) (num_of_int (wins + losses))) (wins + losses) wins)"
    using assms(2,3) by (simp add: directionalConfidence_def tail)
  have "losses = 0 \<or> losses = 1 \<or> losses = 2" using assms(2-4) by presburger
  moreover have "wins = 1 \<or> wins = 2 \<or> wins = 3 \<or> wins = 4" using assms(2-5) by presburger
  ultimately show ?thesis unfolding conf using assms(3,4)
    by (elim disjE) (simp_all add: pow_half_values [OF assms(1), simplified] tails)
qed


subsection \<open>Task clusters\<close>

lemma AList_update_keys: "map fst (AList.update k v xs) = (if k \<in> fst ` set xs then map fst xs else map fst xs @ [k])"
  by (induction xs) auto

definition cluster :: "string \<Rightarrow> local_observation list \<Rightarrow> number list" where
  "cluster task obs = map reward (filter (\<lambda>ob. taskName ob = task) obs)"

lemma group_rewards_snoc:
  "group_rewards (obs @ [ob]) = AList.update (taskName ob)
     ((case map_of (group_rewards obs) (taskName ob) of None \<Rightarrow> [] | Some rs \<Rightarrow> rs) @ [reward ob]) (group_rewards obs)"
  by (simp add: group_rewards_def)

lemma group_rewards_lookup:
  "map_of (group_rewards obs) task = (if task \<in> taskName ` set obs then Some (cluster task obs) else None)"
proof (induction obs arbitrary: task rule: rev_induct)
  case (snoc ob obs)
  have "cluster t obs = []" if "t \<notin> taskName ` set obs" for t
    using that by (auto simp: cluster_def filter_empty_conv)
  then show ?case using snoc.IH by (auto simp: group_rewards_snoc cluster_def)
qed (simp add: group_rewards_def)

lemma group_rewards_keys:
  "distinct (map fst (group_rewards obs)) \<and> set (map fst (group_rewards obs)) = taskName ` set obs"
proof (induction obs rule: rev_induct)
  case (snoc ob obs)
  have keys: "set (map fst (AList.update k v xs)) = insert k (set (map fst xs))"
    "distinct (map fst xs) \<Longrightarrow> distinct (map fst (AList.update k v xs))" for k and v :: "number list" and xs
    unfolding AList_update_keys by auto
  show ?case using snoc.IH unfolding group_rewards_snoc keys(1) by (simp add: keys(2))
qed (simp add: group_rewards_def)

lemma observationsByTask_ok:
  assumes "observationsByTask r = Inr values"
  shows "values = group_rewards (observations r)" "length values = 5" "distinct (map fst values)"
    "set (map fst values) = taskName ` set (observations r)"
    "task \<in> taskName ` set (observations r) \<Longrightarrow> map_of values task = Some (cluster task (observations r))"
    "task \<in> taskName ` set (observations r) \<Longrightarrow> length (cluster task (observations r)) = 3"
proof -
  show v: "values = group_rewards (observations r)" "length values = 5"
    using assms by (auto simp: observationsByTask_def Let_def LOCAL_REAL_TASKS_PER_PANEL_def split: if_splits)
  show "distinct (map fst values)" "set (map fst values) = taskName ` set (observations r)"
    unfolding v(1) using group_rewards_keys by blast+
  show m: "task \<in> taskName ` set (observations r) \<Longrightarrow> map_of values task = Some (cluster task (observations r))"
    unfolding v(1) by (simp add: group_rewards_lookup)
  assume "task \<in> taskName ` set (observations r)"
  then have "(task, cluster task (observations r)) \<in> set values" using m map_of_SomeD by metis
  then show "length (cluster task (observations r)) = 3"
    using assms by (auto simp: observationsByTask_def Let_def LOCAL_REAL_REPETITIONS_def split: if_splits)
qed

lemma filter_disjoint: "(\<And>x. \<not> (P x \<and> Q x)) \<Longrightarrow> length (filter P xs) + length (filter Q xs) \<le> length xs"
  by (induction xs) auto

text \<open>A promotion needs a win on each of the five tasks.\<close>

lemma promotion_all_wins:
  assumes "decideLocalRealComparison m e champion candidate t = Inr d" "ld_disposition d = Local_promote" "pow_half m"
  shows "taskWins d = 5 \<and> taskLosses d = 0 \<and> ld_reason d = Candidate_superior \<and>
    (\<forall>task \<in> taskName ` set (observations champion). \<exists>c k.
       sample_mean (cluster task (observations candidate)) = Inr c \<and>
       sample_mean (cluster task (observations champion)) = Inr k \<and> num_less (num_of (1 / 100)) (num_sub c k))"
proof -
  obtain K C where K: "observationsByTask champion = Inr K" and C: "observationsByTask candidate = Inr C"
    using assms(1) by (auto simp: decideLocalRealComparison_def)
  note k = observationsByTask_ok [OF K] and c = observationsByTask_ok [OF C]
  have names: "\<not> (length (sort (map fst K)) \<noteq> LOCAL_REAL_TASKS_PER_PANEL \<or> length C \<noteq> LOCAL_REAL_TASKS_PER_PANEL \<or>
      (\<exists>name \<in> set (sort (map fst K)). map_of C name = None))"
    by (rule notI) (use assms(1) K C in \<open>simp add: decideLocalRealComparison_def Let_def\<close>)
  note r = assms(1) [unfolded decideLocalRealComparison_def K C and_then_simps Let_def if_not_P [OF names] and_then_Inr]
  obtain deltas where deltas: "map_result (task_delta C K) (sort (map fst K)) = Inr deltas"
    using r by blast
  define wins where "wins = int (length (filter (num_less (num_of (1 / 100))) deltas))"
  define losses where "losses = int (length (filter (\<lambda>d. num_less d (num_neg (num_of (1 / 100)))) deltas))"
  have "\<exists>valid delta. (ld_disposition d, ld_reason d) = local_verdict m valid delta wins losses \<and>
      taskWins d = wins \<and> taskLosses d = losses"
  proof -
    obtain valid x y where "d = local_result m e t valid wins losses x y"
      using r deltas unfolding wins_def losses_def by (metis sum.inject(2))
    then show ?thesis by (intro exI [of _ valid] exI [of _ "num_sub x y"]) (simp add: local_result_def Let_def)
  qed
  then obtain valid delta where verdict: "(ld_disposition d, ld_reason d) = local_verdict m valid delta wins losses"
    "taskWins d = wins" "taskLosses d = losses" by blast
  then have d: "losses < wins" "ld_reason d = Candidate_superior"
    "num_le (num_of (95 / 100)) (directionalConfidence m wins losses)"
    using assms(2) by (auto simp: local_verdict_def split: if_splits)
  have all2: "list_all2 (\<lambda>name delta. task_delta C K name = Inr delta) (sort (map fst K)) deltas"
    using deltas by (simp add: map_result_list_all2)
  then have len: "length deltas = 5" using k(2) list_all2_lengthD by fastforce
  have disjoint: "\<not> (num_less (num_of (1 / 100)) x \<and> num_less x (num_neg (num_of (1 / 100))))" for x
  proof
    assume "num_less (num_of (1 / 100)) x \<and> num_less x (num_neg (num_of (1 / 100)))"
    then have "num_less (num_of (1 / 100)) (num_neg (num_of (1 / 100)))" using num_less_trans by blast
    moreover have "num_of (1 / 100) = Fin (round64 (1 / 100))" "0 \<le> round64 (1 / 100)"
      by (simp_all add: small_num_of round64_nonneg)
    ultimately show False by simp
  qed
  have "wins + losses \<le> 5"
  proof -
    have "length (filter (num_less (num_of (1 / 100))) deltas) +
        length (filter (\<lambda>d. num_less d (num_neg (num_of (1 / 100)))) deltas) \<le> length deltas"
      using disjoint by (rule filter_disjoint)
    then show ?thesis using len by (simp add: wins_def losses_def)
  qed
  have "wins = 5"
  proof (rule ccontr)
    assume "wins \<noteq> 5"
    then have "num_le (directionalConfidence m wins losses) (Fin (15 / 16))"
      using confidence_small [OF assms(3)] d(1) \<open>wins + losses \<le> 5\<close> by (simp add: losses_def)
    then have "num_le (num_of (95 / 100)) (Fin (15 / 16))" using d(3) num_le_trans by blast
    then show False unfolding literal_95 by simp
  qed
  then have "losses = 0" using \<open>wins + losses \<le> 5\<close> by (simp add: losses_def)
  have all_win: "\<forall>x \<in> set deltas. num_less (num_of (1 / 100)) x"
  proof (rule ccontr)
    assume "\<not> (\<forall>x \<in> set deltas. num_less (num_of (1 / 100)) x)"
    then obtain x where "x \<in> set deltas" "\<not> num_less (num_of (1 / 100)) x" by blast
    then have "length (filter (num_less (num_of (1 / 100))) deltas) < length deltas" by (rule length_filter_less)
    then show False using \<open>wins = 5\<close> len by (simp add: wins_def)
  qed
  have "\<exists>c k. sample_mean (cluster task (observations candidate)) = Inr c \<and>
       sample_mean (cluster task (observations champion)) = Inr k \<and> num_less (num_of (1 / 100)) (num_sub c k)"
    if task: "task \<in> taskName ` set (observations champion)" for task
  proof -
    have mem: "task \<in> set (sort (map fst K))" using task k(4) by simp
    then obtain i where i: "i < length (sort (map fst K))" "sort (map fst K) ! i = task"
      by (auto simp: in_set_conv_nth simp del: set_sort length_sort)
    then have "task_delta C K task = Inr (deltas ! i)" using all2 list_all2_nthD by fastforce
    moreover have "deltas ! i \<in> set deltas" using i(1) all2 list_all2_lengthD by fastforce
    moreover obtain rs where "map_of C task = Some rs" using names mem by auto
    then have "task \<in> taskName ` set (observations candidate)" "rs = cluster task (observations candidate)"
      unfolding c(1) by (auto simp: group_rewards_lookup split: if_splits)
    ultimately show ?thesis
      using all_win k(5) [OF task] c(5) by (auto simp: task_delta_def Let_def)
  qed
  then show ?thesis using d verdict \<open>wins = 5\<close> \<open>losses = 0\<close> by simp
qed


subsection \<open>Perfect clusters\<close>

definition unit_rewards :: "local_observation list \<Rightarrow> bool" where
  "unit_rewards obs \<longleftrightarrow> (\<forall>ob \<in> set obs. \<exists>x. reward ob = Fin x \<and> 0 \<le> x \<and> x \<le> 1)"

lemma sum_step: "0 \<le> s \<Longrightarrow> s \<le> of_nat n \<Longrightarrow> n \<le> 2 \<Longrightarrow> 0 \<le> x \<Longrightarrow> x \<le> 1 \<Longrightarrow>
  \<exists>t. num_add (Fin s) (Fin x) = Fin t \<and> 0 \<le> t \<and> t \<le> of_nat (Suc n)"
proof -
  assume a: "0 \<le> s" "s \<le> of_nat n" "n \<le> 2" "0 \<le> x" "x \<le> 1"
  then have "s + x \<le> of_nat (Suc n)" "0 \<le> s + x" by simp_all
  moreover have "is_f64 (of_nat (Suc n))" using a(3) is_f64_of_int [of "int (Suc n)"] by simp
  ultimately have "round64 (s + x) \<le> of_nat (Suc n)" "0 \<le> round64 (s + x)"
    by (simp_all only: round64_le round64_nonneg)
  moreover have "(of_nat n :: rat) \<le> 2" using a(3) by (metis of_nat_le_iff of_nat_numeral)
  then have "num_add (Fin s) (Fin x) = Fin (round64 (s + x))" using a by (simp add: small_num)
  ultimately show ?thesis by simp
qed

text \<open>The mean of three unit rewards is at most one, and is one for three perfect rewards.\<close>

lemma mean_three:
  assumes "sample_mean [Fin a, Fin b, Fin c] = Inr v" "0 \<le> a" "a \<le> 1" "0 \<le> b" "b \<le> 1" "0 \<le> c" "c \<le> 1"
  shows "\<exists>x. v = Fin x \<and> 0 \<le> x \<and> x \<le> 1"
proof -
  obtain s1 where s1: "num_add (Fin 0) (Fin a) = Fin s1" "0 \<le> s1" "s1 \<le> of_nat 1"
    using sum_step [of 0 0 a] assms by auto
  obtain s2 where s2: "num_add (Fin s1) (Fin b) = Fin s2" "0 \<le> s2" "s2 \<le> of_nat 2"
    using sum_step [of s1 1 b] s1 assms by auto
  obtain s3 where s3: "num_add (Fin s2) (Fin c) = Fin s3" "0 \<le> s3" "s3 \<le> of_nat 3"
    using sum_step [of s2 2 c] s2 assms by auto
  have "v = num_div (Fin s3) (Fin 3)"
    using assms(1) s1(1) s2(1) s3(1) by (simp add: sample_mean_def num_sum_def del: num_add.simps num_div.simps)
  moreover have "0 \<le> s3 / 3" "s3 / 3 \<le> 1" using s3 by simp_all
  ultimately show ?thesis using small_num [of "s3 / 3"] half_f64(4) by (simp add: round64_nonneg round64_le)
qed

lemma mean_perfect: "sample_mean [Fin 1, Fin 1, Fin 1] = Inr (Fin 1)"
  by (simp add: sample_mean_def num_sum_def num_dyadic)

lemma length_three: "length xs = 3 \<Longrightarrow> \<exists>a b c. xs = [a, b, c]"
  by (metis length_0_conv length_Suc_conv numeral_3_eq_3)

text \<open>
  C30. A panel on which the champion already has a task with three perfect rewards can never
  promote: whatever the candidate earns (rewards in the unit interval), the comparison
  demands a win by more than 0.01 on all five tasks and so is never a promotion. The
  witness is such a panel which the acceptance policy, that only looks at the mean of the
  champion, takes for surpassable.
\<close>

theorem perfect_cluster_blocks_promotion:
  assumes "pow_half m" "unit_rewards (observations candidate)"
    and "task \<in> taskName ` set (observations champion)"
    and "\<forall>ob \<in> set (observations champion). taskName ob = task \<longrightarrow> reward ob = Fin 1"
  shows "\<not> (\<exists>d. decideLocalRealComparison m e champion candidate t = Inr d \<and> ld_disposition d = Local_promote)"
proof
  assume "\<exists>d. decideLocalRealComparison m e champion candidate t = Inr d \<and> ld_disposition d = Local_promote"
  then obtain d where d: "decideLocalRealComparison m e champion candidate t = Inr d" "ld_disposition d = Local_promote"
    by blast
  obtain c k where ck: "sample_mean (cluster task (observations candidate)) = Inr c"
    "sample_mean (cluster task (observations champion)) = Inr k" "num_less (num_of (1 / 100)) (num_sub c k)"
    using promotion_all_wins [OF d assms(1)] assms(3) by blast
  obtain K C where K: "observationsByTask champion = Inr K" and C: "observationsByTask candidate = Inr C"
    using d(1) by (auto simp: decideLocalRealComparison_def)
  have "length (cluster task (observations champion)) = 3" by (rule observationsByTask_ok(6) [OF K assms(3)])
  moreover have "set (cluster task (observations champion)) \<subseteq> {Fin 1}" using assms(4) by (auto simp: cluster_def)
  ultimately have "cluster task (observations champion) = [Fin 1, Fin 1, Fin 1]"
    using length_three by fastforce
  then have k: "k = Fin 1" using ck(2) mean_perfect by simp
  have "cluster task (observations candidate) \<noteq> []" using ck(1) by (auto simp: sample_mean_def)
  then have "task \<in> taskName ` set (observations candidate)" by (auto simp: cluster_def filter_empty_conv)
  then have "length (cluster task (observations candidate)) = 3" by (rule observationsByTask_ok(6) [OF C])
  then obtain a b f where three: "cluster task (observations candidate) = [a, b, f]" using length_three by blast
  have unit: "\<exists>x. r = Fin x \<and> 0 \<le> x \<and> x \<le> 1" if "r \<in> set (cluster task (observations candidate))" for r
    using that assms(2) by (auto simp: cluster_def unit_rewards_def)
  obtain a' b' f' where "a = Fin a'" "b = Fin b'" "f = Fin f'" "0 \<le> a'" "a' \<le> 1" "0 \<le> b'" "b' \<le> 1" "0 \<le> f'" "f' \<le> 1"
    using unit [of a] unit [of b] unit [of f] three by auto
  then obtain x where x: "c = Fin x" "0 \<le> x" "x \<le> 1" using mean_three ck(1) unfolding three by blast
  then have "num_sub c k = Fin (round64 (x - 1))" using small_num [of "x - 1"] by (simp add: k num_sub_def)
  moreover have "round64 (x - 1) \<le> 0" using x by (intro round64_le) simp_all
  moreover have "num_of (1 / 100) = Fin (round64 (1 / 100))" "0 \<le> round64 (1 / 100)"
    by (simp_all add: small_num_of round64_nonneg)
  ultimately show False using ck(3) by simp
qed


text \<open>Two perfect tasks, a middling one and two hopeless ones: accepted, although no candidate can win.\<close>

definition example_rewards :: "(string \<times> int \<times> number) list" where
  "example_rewards = concat (map (\<lambda>(t, r). [(t, 1, r), (t, 2, r), (t, 3, r)])
     [(''a'', Fin 1), (''b'', Fin 1), (''c'', Fin (1 / 2)), (''d'', Fin 0), (''e'', Fin 0)])"

definition example_champion :: arm_receipt where
  "example_champion = \<lparr>ar_revision = ''r'', observations =
     map (\<lambda>(t, n, r). \<lparr>taskName = t, repetition = n, reward = r, ob_infrastructureValid = True\<rparr>) example_rewards,
     infrastructureValid = True\<rparr>"

definition example_screen :: "champion_observation list" where
  "example_screen = map (\<lambda>(t, n, r). \<lparr>co_taskId = t, co_repetition = n, co_reward = r, co_infrastructureValid = True\<rparr>)
     example_rewards"

definition example_panel :: "panel_task list" where
  "example_panel = map (\<lambda>t. \<lparr>lt_taskId = t, lt_revision = ''r'', lt_difficulty = Medium_task, baseWeight = Fin 1,
     effectiveWeight = Fin 1, samplingScore = Fin 0\<rparr>) [''a'', ''b'', ''c'', ''d'', ''e'']"

definition exact_powers :: math where
  "exact_powers = platform\<lparr>math_pow := \<lambda>x y. (case y of Fin r \<Rightarrow> Fin (1 / 2 ^ nat \<lfloor>r\<rfloor>) | _ \<Rightarrow> NaN)\<rparr>"

lemma exact_powers_half: "pow_half exact_powers"
  by (simp add: pow_half_def exact_powers_def)

lemma example_validated: "validateAssessmentEvidence example_panel example_screen = Inr ()"
  by (simp add: validateAssessmentEvidence_def example_panel_def example_screen_def example_rewards_def
      LOCAL_PANEL_SIZE_def LOCAL_PANEL_REPETITIONS_def)

lemma example_means:
  "map_result (\<lambda>task. mean_of (map co_reward (task_observations task example_screen))) example_panel =
     Inr [Fin 1, Fin 1, Fin (1 / 2), Fin 0, Fin 0]"
  "mean_of (map co_reward example_screen) = Inr (Fin (1 / 2))"
  by (simp_all add: example_panel_def example_screen_def example_rewards_def task_observations_def mean_of_def
      num_sum_def num_dyadic)

lemma example_accepted: "\<exists>a. assessLocalChampionPanel example_panel example_screen = Inr a \<and> pa_status a = Accepted"
proof -
  have assessments: "\<exists>as. map_result (assess_task obs) tasks = Inr as"
    if "map_result (\<lambda>task. mean_of (map co_reward (task_observations task obs))) tasks = Inr ms" for obs tasks ms
    using that by (induction tasks arbitrary: ms) (auto simp: assess_task_def Let_def)
  obtain as where "map_result (assess_task example_screen) example_panel = Inr as"
    using assessments [OF example_means(1)] by blast
  moreover have "\<lfloor>1000000000001 / 2 :: rat\<rfloor> = 500000000000" by (simp add: floor_eq_iff)
  then have "rounded (Fin (1 / 2)) = Fin (1 / 2)" by (simp add: rounded_def METRIC_SCALE_def num_dyadic)
  moreover have "num_le (Fin (1 / 2)) LOCAL_PANEL_MAX_CHAMPION_MEAN"
    unfolding LOCAL_PANEL_MAX_CHAMPION_MEAN_def literal_95 by simp
  moreover have "list_all co_infrastructureValid example_screen" by (simp add: example_screen_def example_rewards_def)
  ultimately show ?thesis
    using example_validated example_means(2) by (auto simp: assessLocalChampionPanel_def Let_def list_all_iff)
qed

theorem perfect_cluster_blocks_promotion_witness:
  "(\<exists>a. assessLocalChampionPanel example_panel example_screen = Inr a \<and> pa_status a = Accepted) \<and>
   \<not> (\<exists>d. decideLocalRealComparison exact_powers ''000001-x'' example_champion
        (example_champion\<lparr>observations := map (\<lambda>ob. ob\<lparr>reward := Fin 1\<rparr>) (observations example_champion)\<rparr>) ''now'' = Inr d \<and>
      ld_disposition d = Local_promote)"
proof -
  have "unit_rewards (map (\<lambda>ob. ob\<lparr>reward := Fin 1\<rparr>) (observations example_champion))"
    by (auto simp: unit_rewards_def)
  moreover have "''a'' \<in> taskName ` set (observations example_champion)"
    "\<forall>ob \<in> set (observations example_champion). taskName ob = ''a'' \<longrightarrow> reward ob = Fin 1"
    by (simp_all add: example_champion_def example_rewards_def)
  moreover have "\<exists>a. assessLocalChampionPanel example_panel example_screen = Inr a \<and> pa_status a = Accepted"
    by (rule example_accepted)
  ultimately show ?thesis
    using perfect_cluster_blocks_promotion [OF exact_powers_half, of
        "example_champion\<lparr>observations := map (\<lambda>ob. ob\<lparr>reward := Fin 1\<rparr>) (observations example_champion)\<rparr>"
        "''a''" example_champion "''000001-x''" "''now''"] by simp
qed


subsection \<open>Selection\<close>

definition identity_collation :: "host \<Rightarrow> string set \<Rightarrow> bool" where
  "identity_collation h ids \<longleftrightarrow> strict_comparator (locale_compare h) ids \<and> (\<forall>s. locale_compare h s s = 0)"

lemma identity_strict:
  assumes "identity_collation h (lt_taskId ` T)" "inj_on lt_taskId T"
  shows "strict_comparator (compareTaskIdentity h) T"
proof -
  have law: "strict_comparator (locale_compare h) (lt_taskId ` T)"
    using assms(1) by (simp add: identity_collation_def)
  then have order: "comparator (locale_compare h) (lt_taskId ` T)" unfolding strict_comparator_def by blast
  have refl: "locale_compare h s s = 0" for s using assms(1) by (simp add: identity_collation_def)
  have same: "a = b" if "a \<in> T" "b \<in> T" "locale_compare h (lt_taskId a) (lt_taskId b) = 0" for a b
    using that strict_comparator.cmp_eq [OF law] inj_onD [OF assms(2)] by blast
  show ?thesis
  proof
    fix a b c assume abc: "a \<in> T" "b \<in> T" "c \<in> T"
    show "sgn (compareTaskIdentity h a b) = - sgn (compareTaskIdentity h b a)"
    proof (cases "locale_compare h (lt_taskId a) (lt_taskId b) = 0")
      case True
      then have "a = b" using abc same by blast
      then show ?thesis by (simp add: compareTaskIdentity_def refl)
    next
      case False
      have "sgn (locale_compare h (lt_taskId a) (lt_taskId b)) = - sgn (locale_compare h (lt_taskId b) (lt_taskId a))"
        using abc by (intro comparator.cmp_sgn [OF order]) simp_all
      then show ?thesis using False by (auto simp: compareTaskIdentity_def Let_def sgn_0_0)
    qed
    show "compareTaskIdentity h a b = 0 \<Longrightarrow> a = b"
      using same [OF abc(1,2)] unfolding compareTaskIdentity_def Let_def by presburger
    assume le: "compareTaskIdentity h a b \<le> 0" "compareTaskIdentity h b c \<le> 0"
    have id_le: "locale_compare h (lt_taskId x) (lt_taskId y) \<le> 0" if "compareTaskIdentity h x y \<le> 0" for x y
      using that unfolding compareTaskIdentity_def Let_def by presburger
    have ac: "locale_compare h (lt_taskId a) (lt_taskId c) \<le> 0"
      by (rule comparator.cmp_trans [OF order _ _ _ id_le [OF le(1)] id_le [OF le(2)]])
        (rule imageI, rule abc)+
    show "compareTaskIdentity h a c \<le> 0"
    proof (cases "locale_compare h (lt_taskId a) (lt_taskId c) = 0")
      case True
      then have "a = c" using same abc by blast
      then show ?thesis by (simp add: compareTaskIdentity_def refl)
    qed (use ac in \<open>simp add: compareTaskIdentity_def Let_def\<close>)
  qed
qed

lemma weigh_fields [simp]: "lt_taskId (weigh p t) = lt_taskId t" "lt_revision (weigh p t) = lt_revision t"
  by (simp_all add: weigh_def panel_task.fields_def catalog_task.extend_def)

lemma eligible_set: "set (eligible_tasks h catalog X p) = weigh p ` {t \<in> set catalog. lt_taskId t \<notin> X}"
  by (simp add: eligible_tasks_def)

lemma map_weigh_ids: "map lt_taskId (map (weigh p) xs) = map lt_taskId xs"
  by simp

lemma eligible_distinct: "distinct (map lt_taskId catalog) \<Longrightarrow> distinct (map lt_taskId (eligible_tasks h catalog X p))"
proof -
  assume d: "distinct (map lt_taskId catalog)"
  let ?xs = "map (weigh p) (filter (\<lambda>task. lt_taskId task \<notin> X) catalog)"
  have "distinct (map lt_taskId (filter (\<lambda>task. lt_taskId task \<notin> X) catalog))" using d by (rule distinct_map_filter)
  then have "distinct (map lt_taskId ?xs)" by (simp only: map_weigh_ids)
  moreover have "mset (map lt_taskId (sort_by cmp ys)) = mset (map lt_taskId ys)" for cmp and ys :: "panel_task list"
    by simp
  then have "mset (map lt_taskId (eligible_tasks h catalog X p)) = mset (map lt_taskId ?xs)"
    unfolding eligible_tasks_def .
  ultimately show ?thesis by (metis mset_eq_imp_distinct_iff)
qed

definition identities :: "('a) catalog_task_scheme list \<Rightarrow> (string \<times> string) list" where
  "identities tasks = map (\<lambda>t. (lt_taskId t, lt_revision t)) tasks"

lemma draw_identities:
  "identities (draw m h sd ordinal eligible redraw) =
     take 5 (identities (sort_by (compareSamplingCandidates h)
       (map (\<lambda>task. task\<lparr>samplingScore := weightedSamplingScore m h sd ordinal redraw task\<rparr>) eligible)))"
  by (simp add: identities_def draw_def LOCAL_PANEL_SIZE_def take_map comp_def)

lemma draw_sound:
  assumes "distinct (map lt_taskId eligible)" "5 \<le> length eligible"
  shows "length (draw m h sd ordinal eligible redraw) = 5" "distinct (map lt_taskId (draw m h sd ordinal eligible redraw))"
    "set (identities (draw m h sd ordinal eligible redraw)) \<subseteq> set (identities eligible)"
proof -
  let ?scored = "map (\<lambda>task. task\<lparr>samplingScore := weightedSamplingScore m h sd ordinal redraw task\<rparr>) eligible"
  let ?sorted = "sort_by (compareSamplingCandidates h) ?scored"
  show "length (draw m h sd ordinal eligible redraw) = 5" using assms(2) by (simp add: draw_def LOCAL_PANEL_SIZE_def)
  have ids: "map lt_taskId (map (\<lambda>task. task\<lparr>samplingScore := f task\<rparr>) ts) = map lt_taskId ts" for f and ts :: "panel_task list"
    by (induction ts) simp_all
  have perm: "mset (map lt_taskId (sort_by cmp ys)) = mset (map lt_taskId ys)" for cmp and ys :: "panel_task list"
    by simp
  have "mset (map lt_taskId ?sorted) = mset (map lt_taskId eligible)" unfolding perm ids ..
  then have "distinct (map lt_taskId ?sorted)" using assms(1) mset_eq_imp_distinct_iff by blast
  then have "distinct (take 5 (map lt_taskId ?sorted))" by (rule distinct_take)
  moreover have "map lt_taskId (draw m h sd ordinal eligible redraw) = take 5 (map lt_taskId ?sorted)"
    by (simp add: draw_def LOCAL_PANEL_SIZE_def take_map comp_def)
  ultimately show "distinct (map lt_taskId (draw m h sd ordinal eligible redraw))" by simp
  have "set (identities ?sorted) = set (identities eligible)" by (auto simp: identities_def image_iff)
  then show "set (identities (draw m h sd ordinal eligible redraw)) \<subseteq> set (identities eligible)"
    unfolding draw_identities using set_take_subset by fastforce
qed

lemma redraw_loop_result:
  assumes "redraw_loop m h sd ordinal eligible excluded p redraw fuel = Inr s"
    and "distinct (map lt_taskId eligible)" "5 \<le> length eligible"
  shows "length (ls_tasks s) = 5 \<and> distinct (map lt_taskId (ls_tasks s)) \<and>
    set (identities (ls_tasks s)) \<subseteq> set (identities eligible) \<and>
    localPanelDigest h (ls_tasks s) = Inr (panelDigest s) \<and> panelDigest s \<notin> excluded \<and>
    redrawOrdinal s < redraw + fuel"
  using assms(1)
proof (induction fuel arbitrary: redraw)
  case (Suc fuel)
  let ?tasks = "draw m h sd ordinal eligible redraw"
  obtain digest where digest: "localPanelDigest h ?tasks = Inr digest" using Suc.prems by (auto simp: Let_def)
  show ?case
  proof (cases "digest \<in> excluded")
    case True
    then have "redraw_loop m h sd ordinal eligible excluded p (Suc redraw) fuel = Inr s"
      using Suc.prems digest by simp
    from Suc.IH [OF this] show ?thesis by simp
  next
    case False
    then have "s = \<lparr>ls_policyVersion = LOCAL_PANEL_POLICY_VERSION, seedDigest = sd, ls_screenOrdinal = ordinal,
        redrawOrdinal = redraw, saturationPressure = p, panelDigest = digest, ls_tasks = ?tasks\<rparr>"
      using Suc.prems digest by (simp add: Let_def)
    then show ?thesis using False digest draw_sound [OF assms(2,3)] by simp
  qed
qed simp


lemma select_steps:
  assumes "selectDeterministicWeightedPanel m h catalog options = Inr s"
  obtains p where "validateCatalog catalog = Inr ()" "validateSelectionOptions options = Inr ()"
    "localPanelSaturationPressure (so_state options) = Inr p"
    "5 \<le> length (eligible_tasks h catalog (set (case excludedTaskIds options of None \<Rightarrow> [] | Some xs \<Rightarrow> xs)) p)"
    "redraw_loop m h (sha256 h (seed options)) (screenOrdinal options)
       (eligible_tasks h catalog (set (case excludedTaskIds options of None \<Rightarrow> [] | Some xs \<Rightarrow> xs)) p)
       (set (case excludedPanelDigests options of None \<Rightarrow> [] | Some xs \<Rightarrow> xs)) p 0
       (min MAX_SELECTION_REDRAWS (max 64 ((card (set (case excludedPanelDigests options of None \<Rightarrow> [] | Some xs \<Rightarrow> xs)) + 1) * 32)))
     = Inr s"
proof -
  obtain p where p: "validateCatalog catalog = Inr ()" "validateSelectionOptions options = Inr ()"
    "localPanelSaturationPressure (so_state options) = Inr p"
    using assms unfolding selectDeterministicWeightedPanel_def and_then_Inr ex_unit by blast
  note r = assms [unfolded selectDeterministicWeightedPanel_def p and_then_simps Let_def]
  show thesis using that [OF p] r by (simp add: LOCAL_PANEL_SIZE_def not_less split: if_splits)
qed

lemma catalog_distinct: "validateCatalog catalog = Inr () \<Longrightarrow> distinct (map lt_taskId catalog)"
  by (intro card_distinct) (auto simp: validateCatalog_def split: if_splits)

lemma catalog_permuted:
  assumes "validateCatalog catalog = Inr ()" "mset catalog' = mset catalog"
  shows "validateCatalog catalog' = Inr ()"
proof -
  have "length catalog' = length catalog" "set catalog' = set catalog"
    using assms(2) by (metis size_mset, metis set_mset_mset)
  then show ?thesis using assms(1) by (auto simp: validateCatalog_def guard_simps split: if_splits)
qed

lemma eligible_permuted:
  assumes "identity_collation h (lt_taskId ` set catalog)" "distinct (map lt_taskId catalog)" "mset catalog' = mset catalog"
  shows "eligible_tasks h catalog' X p = eligible_tasks h catalog X p"
proof -
  let ?xs = "\<lambda>c. map (weigh p) (filter (\<lambda>task. lt_taskId task \<notin> X) c)"
  have inj: "inj_on lt_taskId (set catalog)" using assms(2) by (simp add: distinct_map)
  have "lt_taskId ` set (?xs catalog) \<subseteq> lt_taskId ` set catalog" by auto
  then have "identity_collation h (lt_taskId ` set (?xs catalog))"
    using assms(1) unfolding identity_collation_def strict_comparator_def strict_comparator_axioms_def
    by (meson comparator_subset subset_iff)
  moreover have "inj_on lt_taskId (set (?xs catalog))"
    using inj by (auto simp: inj_on_def)
  ultimately have "strict_comparator (compareTaskIdentity h) (set (?xs catalog))" by (rule identity_strict)
  moreover have "mset (?xs catalog) = mset (?xs catalog')"
    using assms(3) by (simp add: mset_map mset_filter)
  ultimately show ?thesis unfolding eligible_tasks_def by (rule strict_comparator.sort_by_perm [OF _ order_refl, symmetric])
qed

text \<open>
  C29. A selected local panel has five distinct tasks of the catalog, none of them excluded; its
  digest is the digest of its identities and not an excluded one; the draw it stems from is
  below the limit of 4096; and it does not depend on the order of the catalog: any other
  listing of the same tasks gives the same panel, draw and digest.
\<close>

theorem local_panel_selection:
  assumes "selectDeterministicWeightedPanel m h catalog options = Inr s"
    and "identity_collation h (lt_taskId ` set catalog)"
  shows "length (ls_tasks s) = 5 \<and> distinct (map lt_taskId (ls_tasks s)) \<and>
    set (identities (ls_tasks s)) \<subseteq> set (identities catalog) \<and>
    (\<forall>xs. excludedTaskIds options = Some xs \<longrightarrow> lt_taskId ` set (ls_tasks s) \<inter> set xs = {}) \<and>
    localPanelDigest h (ls_tasks s) = Inr (panelDigest s) \<and>
    (\<forall>ds. excludedPanelDigests options = Some ds \<longrightarrow> panelDigest s \<notin> set ds) \<and>
    redrawOrdinal s < 4096 \<and>
    (\<forall>catalog'. mset catalog' = mset catalog \<longrightarrow> selectDeterministicWeightedPanel m h catalog' options = Inr s)"
proof -
  define X where "X = set (case excludedTaskIds options of None \<Rightarrow> [] | Some xs \<Rightarrow> xs)"
  define D where "D = set (case excludedPanelDigests options of None \<Rightarrow> [] | Some xs \<Rightarrow> xs)"
  obtain p where p: "validateCatalog catalog = Inr ()" "validateSelectionOptions options = Inr ()"
    "localPanelSaturationPressure (so_state options) = Inr p"
    and five: "5 \<le> length (eligible_tasks h catalog X p)"
    and loop: "redraw_loop m h (sha256 h (seed options)) (screenOrdinal options) (eligible_tasks h catalog X p) D p 0
      (min MAX_SELECTION_REDRAWS (max 64 ((card D + 1) * 32))) = Inr s"
    using select_steps [OF assms(1)] unfolding X_def D_def by blast
  note dist = catalog_distinct [OF p(1)]
  note r = redraw_loop_result [OF loop eligible_distinct [OF dist] five]
  have ids: "set (identities (eligible_tasks h catalog X p)) = {x \<in> set (identities catalog). fst x \<notin> X}"
    by (auto simp: identities_def eligible_set image_iff Bex_def)
      (metis weigh_fields)+
  have "selectDeterministicWeightedPanel m h catalog' options = Inr s" if "mset catalog' = mset catalog" for catalog'
    using loop five p(2,3) catalog_permuted [OF p(1) that]
    unfolding selectDeterministicWeightedPanel_def X_def D_def
    by (simp add: Let_def LOCAL_PANEL_SIZE_def not_less eligible_permuted [OF assms(2) dist that])
  moreover have "lt_taskId t \<notin> X" if "t \<in> set (ls_tasks s)" for t
  proof -
    have "(lt_taskId t, lt_revision t) \<in> set (identities (ls_tasks s))" using that by (auto simp: identities_def)
    then show ?thesis using r ids by auto
  qed
  moreover have "redrawOrdinal s < 4096" using r by (simp add: MAX_SELECTION_REDRAWS_def)
  ultimately show ?thesis using r ids by (auto simp: X_def D_def)
qed

text \<open>A selection without exclusions of panels always succeeds when five tasks are eligible.\<close>

lemma local_panel_available:
  assumes "validateCatalog catalog = Inr ()" "validateSelectionOptions options = Inr ()"
    and "excludedTaskIds options = None" "excludedPanelDigests options = None"
  shows "\<exists>s. selectDeterministicWeightedPanel m h catalog options = Inr s"
proof -
  have "assertLocalPanelPolicyState (so_state options) = Inr ()"
    using assms(2) by (auto simp: validateSelectionOptions_def split: if_splits)
  then obtain p where p: "localPanelSaturationPressure (so_state options) = Inr p"
    by (cases "recentSaturation (so_state options) = []") (simp_all add: localPanelSaturationPressure_def)
  note dist = catalog_distinct [OF assms(1)]
  let ?el = "eligible_tasks h catalog {} p"
  have len: "5 \<le> length ?el" using assms(1)
    by (auto simp: eligible_tasks_def validateCatalog_def LOCAL_PANEL_SIZE_def split: if_splits)
  define tasks where "tasks = draw m h (sha256 h (seed options)) (screenOrdinal options) ?el 0"
  have tasks: "length tasks = 5" "distinct (map lt_taskId tasks)" "set (identities tasks) \<subseteq> set (identities ?el)"
    unfolding tasks_def by (rule draw_sound [OF eligible_distinct [OF dist] len])+
  have valid: "validateTaskIdentity (lt_taskId t) (lt_revision t) = Inr ()" if "t \<in> set catalog" for t
    using assms(1) that by (auto simp: validateCatalog_def guard_simps split: if_splits)
  have "validateTaskIdentity (lt_taskId t) (lt_revision t) = Inr ()" if "t \<in> set tasks" for t
  proof -
    have "(lt_taskId t, lt_revision t) \<in> set (identities ?el)" using tasks(3) that by (auto simp: identities_def)
    then obtain t' where "t' \<in> set catalog" "lt_taskId t = lt_taskId t'" "lt_revision t = lt_revision t'"
      by (auto simp: identities_def eligible_set)
    then show ?thesis using valid by simp
  qed
  moreover have "card (set (map lt_taskId tasks)) = 5" using tasks(1,2) by (metis distinct_card length_map)
  ultimately obtain d where d: "localPanelDigest h tasks = Inr d"
    using tasks(1) by (auto simp: localPanelDigest_def LOCAL_PANEL_SIZE_def guard_simps Let_def)
  have "\<exists>s. redraw_loop m h (sha256 h (seed options)) (screenOrdinal options) ?el {} p 0 n = Inr s" if "0 < n" for n
    using that by (cases n) (simp_all add: tasks_def [symmetric] d)
  from this [of 64] show ?thesis
    using len unfolding selectDeterministicWeightedPanel_def assms p
    by (simp add: Let_def LOCAL_PANEL_SIZE_def not_less MAX_SELECTION_REDRAWS_def)
qed

definition ordered_host :: host where
  "ordered_host = simple_host\<lparr>locale_compare := (\<lambda>a b. if a = b then 0 else if a < b then - 1 else 1)\<rparr>"

lemma local_ordered_collation: "identity_collation ordered_host ids"
  unfolding identity_collation_def by (intro conjI strict_comparator.intro comparator.intro strict_comparator_axioms.intro)
    (auto simp: ordered_host_def split: if_splits)

definition example_options :: selection_options where
  "example_options = \<lparr>seed = ''s'', screenOrdinal = 1, so_state = initialLocalPanelPolicyState, excludedTaskIds = None,
     excludedPanelDigests = None\<rparr>"

definition example_catalog :: "catalog_task list" where
  "example_catalog = map (\<lambda>t. \<lparr>lt_taskId = t, lt_revision = ''r'', lt_difficulty = Medium_task, baseWeight = Fin 1\<rparr>)
     [''a'', ''b'', ''c'', ''d'', ''e'', ''f'']"

theorem local_panel_selection_witness:
  "\<exists>s. selectDeterministicWeightedPanel platform ordered_host example_catalog example_options = Inr s \<and>
     length (ls_tasks s) = 5 \<and> selectDeterministicWeightedPanel platform ordered_host (rev example_catalog) example_options = Inr s"
proof -
  have "validateCatalog example_catalog = Inr ()"
    by (simp add: validateCatalog_def example_catalog_def LOCAL_PANEL_SIZE_def MAX_CATALOG_TASKS_def
        validateTaskIdentity_def MAX_TASK_ID_LENGTH_def contains_zero_def)
  moreover have "validateSelectionOptions example_options = Inr ()"
    by (simp add: validateSelectionOptions_def example_options_def initialLocalPanelPolicyState_def
        assertLocalPanelPolicyState_def MAX_SEED_LENGTH_def contains_zero_def safe_int_def max_safe_def)
  ultimately obtain s where s: "selectDeterministicWeightedPanel platform ordered_host example_catalog example_options = Inr s"
    using local_panel_available [of example_catalog example_options platform ordered_host]
    by (auto simp: example_options_def)
  show ?thesis using local_panel_selection [OF s local_ordered_collation] s by (intro exI [of _ s]) simp
qed

end
