(* ===== verification/Cache.thy ===== *)
theory Cache
  imports Machines Canonical_Json Validation_Decision Posterior_Properties
begin

text \<open>
  The champion cache of \<open>evaluation/cache.ts\<close>: the key an observation is valid for, the reuse of
  the signed observations of an entry, the anchors that are run again to detect drift and the
  exact tail test on them. The verifier of signatures is a parameter: a predicate on the
  observation and its signature (where the call throws, the code takes it as \<open>false\<close>). The
  code's checks that a typed value has the right runtime type are the types here.
\<close>

definition CACHE_POLICY_VERSION :: string where
  "CACHE_POLICY_VERSION = ''champion-cache-v1''"

definition CACHE_MAX_AGE_MS :: int where
  "CACHE_MAX_AGE_MS = 7 * 24 * 60 * 60 * 1000"

datatype freshness_band = Fresh_day | Fresh_three_days | Fresh_week

datatype reuse_status =
    Eligible | Hard_miss | Expired | No_valid_observations | Too_uncertain | Environment_mismatch

record cache_key =
  ck_taskRevisionDigest :: string
  harnessCommit :: string
  harnessConfigurationHash :: string
  modelId :: string
  modelProviderVersion :: string
  reasoningSettingsHash :: string
  samplingSettingsHash :: string
  contextSettingsHash :: string
  datasetVersion :: string
  harborVersion :: string
  sandboxProvider :: string
  imageDigest :: string
  architecture :: string
  resourceHash :: string
  regionClass :: string
  networkPolicyHash :: string
  ck_protocolHash :: string

record observation_signature =
  keyId :: string
  signedAt :: string
  signature :: string

record cache_observation =
  co_taskId :: string
  co_taskRevisionDigest :: string
  co_cacheKeyDigest :: string
  co_attemptDigest :: string
  co_observedAt :: string
  co_pass :: bool
  co_reward :: number
  co_infrastructureValid :: bool
  co_environmentFingerprintHash :: string
  latencyMs :: number
  tokenCount :: int
  co_costUsd :: number

record signed_observation = cache_observation +
  evaluatorSignature :: observation_signature

type_synonym verifier = "cache_observation \<Rightarrow> observation_signature \<Rightarrow> bool"

record cache_entry =
  ce_taskId :: string
  ce_key :: cache_key
  ce_observations :: "signed_observation list"

record distribution =
  validAttempts :: int
  cd_passes :: int
  cd_failures :: int
  passRate :: number
  rewardMean :: number
  rewardVariance :: number
  cd_interval95 :: interval
  oldestFreshnessBand :: freshness_band
  freshnessBands :: "freshness_band list"
  firstObservationAt :: string
  lastObservationAt :: string
  latencyMeanMs :: number
  tokenMean :: number
  costMeanUsd :: number

record cache_evaluation =
  reuse :: reuse_status
  eligibleObservations :: "signed_observation list"
  cv_distribution :: "distribution option"

subsection \<open>Keys\<close>

definition key_fields :: "cache_key \<Rightarrow> string list" where
  "key_fields k =
     [ck_taskRevisionDigest k, harnessCommit k, harnessConfigurationHash k, modelId k, modelProviderVersion k,
      reasoningSettingsHash k, samplingSettingsHash k, contextSettingsHash k, datasetVersion k, harborVersion k,
      sandboxProvider k, imageDigest k, architecture k, resourceHash k, regionClass k, networkPolicyHash k,
      ck_protocolHash k]"

definition validateCacheKey :: "cache_key \<Rightarrow> unit result" where
  "validateCacheKey k = guards
     [(\<not> list_all (\<lambda>v. v \<noteq> [] \<and> length v \<le> 512) (key_fields k),
       Error ''Cache key field must be a bounded nonempty string''),
      (\<not> list_all is_sha256 [ck_taskRevisionDigest k, harnessConfigurationHash k, reasoningSettingsHash k,
         samplingSettingsHash k, contextSettingsHash k, resourceHash k, networkPolicyHash k, ck_protocolHash k],
       Error ''Cache key field must be a lowercase SHA-256 digest''),
      (\<not> is_git_oid (harnessCommit k),
       Error ''Cache key field harnessCommit must be an exact lowercase Git commit (40 or 64 hex characters)''),
      (\<not> (take 7 (imageDigest k) = ''sha256:'' \<and> is_sha256 (drop 7 (imageDigest k))),
       Error ''Cache key field imageDigest must be a lowercase OCI sha256 digest'')]"

text \<open>\<open>JSON.stringify\<close> of a list of strings.\<close>

definition string_array :: "string list \<Rightarrow> string" where
  "string_array xs = ''['' @ join '','' (map serializeString xs) @ '']''"

definition canonicalCacheKey :: "cache_key \<Rightarrow> string" where
  "canonicalCacheKey k = string_array (key_fields k)"

definition cacheKeyDigest :: "host \<Rightarrow> cache_key \<Rightarrow> string result" where
  "cacheKeyDigest h k = and_then (validateCacheKey k) (\<lambda>_. Inr (sha256 h (canonicalCacheKey k)))"

subsection \<open>Observations\<close>

text \<open>\<open>/^\d{4}-\d{2}-\d{2}T\d{2}:\d{2}:\d{2}(?:\.\d{3})?Z$/u\<close>\<close>

definition matches_template :: "string \<Rightarrow> string \<Rightarrow> bool" where
  "matches_template pattern s \<longleftrightarrow>
     list_all2 (\<lambda>p c. if p = CHR ''d'' then digit c else c = p) pattern s"

definition is_utc_time :: "string \<Rightarrow> bool" where
  "is_utc_time s \<longleftrightarrow>
     matches_template ''dddd-dd-ddTdd:dd:ddZ'' s \<or> matches_template ''dddd-dd-ddTdd:dd:dd.dddZ'' s"

text \<open>\<open>/^[A-Za-z0-9_-]+={0,2}$/u\<close>\<close>

definition is_base64url :: "string \<Rightarrow> bool" where
  "is_base64url s \<longleftrightarrow>
     (let body = takeWhile (\<lambda>c. alnum c \<or> c \<in> set ''_-'') s; rest = drop (length body) s
      in body \<noteq> [] \<and> rest \<in> {[], ''='', ''==''})"

definition isCacheObservationSignature :: "observation_signature \<Rightarrow> bool" where
  "isCacheObservationSignature s \<longleftrightarrow>
     is_token 127 (keyId s) \<and> 86 \<le> length (signature s) \<and> length (signature s) \<le> 128 \<and> is_base64url (signature s)"

definition validateObservation :: "host \<Rightarrow> signed_observation \<Rightarrow> unit result" where
  "validateObservation h ob =
     (let invalid = Inl (Error ''Invalid signed cache observation'') in
      if \<not> isCacheObservationSignature (evaluatorSignature ob) then invalid
      else case (date_parse h (co_observedAt ob), date_parse h (signedAt (evaluatorSignature ob))) of
        (Some observedAt, Some signed) \<Rightarrow>
          if signed < observedAt \<or> 5 * 60000 < signed - observedAt \<or>
             \<not> is_utc_time (co_observedAt ob) \<or> \<not> is_utc_time (signedAt (evaluatorSignature ob)) \<or>
             \<not> is_sha256 (co_taskId ob) \<or> \<not> is_sha256 (co_taskRevisionDigest ob) \<or>
             \<not> is_sha256 (co_cacheKeyDigest ob) \<or> \<not> is_sha256 (co_attemptDigest ob) \<or>
             \<not> is_sha256 (co_environmentFingerprintHash ob) \<or>
             \<not> is_finite (co_reward ob) \<or> num_less (co_reward ob) (Fin 0) \<or> num_less (Fin 1) (co_reward ob) \<or>
             \<not> is_finite (latencyMs ob) \<or> num_less (latencyMs ob) (Fin 0) \<or>
             \<not> safe_int (tokenCount ob) \<or> tokenCount ob < 0 \<or>
             \<not> is_finite (co_costUsd ob) \<or> num_less (co_costUsd ob) (Fin 0)
          then invalid else Inr ()
      | _ \<Rightarrow> invalid)"

definition unsigned :: "signed_observation \<Rightarrow> cache_observation" where
  "unsigned ob = cache_observation.truncate ob"

definition verifyObservationSignature :: "verifier \<Rightarrow> signed_observation \<Rightarrow> bool" where
  "verifyObservationSignature verify ob = verify (unsigned ob) (evaluatorSignature ob)"

definition sameObservation :: "signed_observation \<Rightarrow> signed_observation \<Rightarrow> bool" where
  "sameObservation l r \<longleftrightarrow>
     co_taskId l = co_taskId r \<and> co_taskRevisionDigest l = co_taskRevisionDigest r \<and>
     co_cacheKeyDigest l = co_cacheKeyDigest r \<and> co_attemptDigest l = co_attemptDigest r \<and>
     co_observedAt l = co_observedAt r \<and> co_pass l = co_pass r \<and> num_eq (co_reward l) (co_reward r) \<and>
     co_infrastructureValid l = co_infrastructureValid r \<and>
     keyId (evaluatorSignature l) = keyId (evaluatorSignature r) \<and>
     signedAt (evaluatorSignature l) = signedAt (evaluatorSignature r) \<and>
     signature (evaluatorSignature l) = signature (evaluatorSignature r) \<and>
     co_environmentFingerprintHash l = co_environmentFingerprintHash r \<and>
     num_eq (latencyMs l) (latencyMs r) \<and> tokenCount l = tokenCount r \<and> num_eq (co_costUsd l) (co_costUsd r)"

subsection \<open>The distribution of the eligible observations\<close>

definition freshnessBand :: "int \<Rightarrow> freshness_band" where
  "freshnessBand ageMs =
     (if ageMs \<le> 24 * 60 * 60 * 1000 then Fresh_day
      else if ageMs \<le> 3 * 24 * 60 * 60 * 1000 then Fresh_three_days else Fresh_week)"

fun freshnessRank :: "freshness_band \<Rightarrow> int" where
  "freshnessRank Fresh_day = 0"
| "freshnessRank Fresh_three_days = 1"
| "freshnessRank Fresh_week = 2"

definition compareBands :: "freshness_band \<Rightarrow> freshness_band \<Rightarrow> int" where
  "compareBands left right = freshnessRank left - freshnessRank right"

definition cache_mean :: "number list \<Rightarrow> number result" where
  "cache_mean values =
     (if values = [] then Inl (Error ''Cannot compute a mean of no values'')
      else Inr (num_div (num_sum values) (num_of_int (int (length values)))))"

definition reward_variance :: "math \<Rightarrow> number list \<Rightarrow> number \<Rightarrow> number" where
  "reward_variance m rewards average =
     (if length rewards < 2 then Fin 0
      else num_div (foldl (\<lambda>sum reward. num_add sum (math_pow m (num_sub reward average) (Fin 2))) (Fin 0) rewards)
        (num_of_int (int (length rewards) - 1)))"

text \<open>The time of an observation; every observation here has passed \<open>validateObservation\<close>.\<close>

definition observed_time :: "host \<Rightarrow> signed_observation \<Rightarrow> int" where
  "observed_time h ob = (case date_parse h (co_observedAt ob) of Some t \<Rightarrow> t | None \<Rightarrow> 0)"

definition buildDistribution :: "math \<Rightarrow> host \<Rightarrow> signed_observation list \<Rightarrow> int \<Rightarrow> distribution result" where
  "buildDistribution m h observations nowMs =
     (let passes = int (length (filter co_pass observations));
          n = int (length observations);
          rewards = map co_reward observations;
          bands = map (\<lambda>ob. freshnessBand (nowMs - observed_time h ob)) observations
      in and_then (cache_mean rewards) (\<lambda>average.
         if observations = [] then Inl (Error ''A cache distribution requires observations'')
         else and_then (jeffreysPosterior passes (n - passes)) (\<lambda>posterior.
         and_then (betaCredibleInterval m posterior lit_095) (\<lambda>interval.
         and_then (cache_mean (map latencyMs observations)) (\<lambda>latency.
         and_then (cache_mean (map (\<lambda>ob. num_of_int (tokenCount ob)) observations)) (\<lambda>tokens.
         and_then (cache_mean (map co_costUsd observations)) (\<lambda>cost.
           Inr \<lparr>validAttempts = n, cd_passes = passes, cd_failures = n - passes,
             passRate = num_div (num_of_int passes) (num_of_int n), rewardMean = average,
             rewardVariance = reward_variance m rewards average, cd_interval95 = interval,
             oldestFreshnessBand =
               foldl (\<lambda>oldest band. if freshnessRank oldest < freshnessRank band then band else oldest)
                 (hd bands) (tl bands),
             freshnessBands = sort_by compareBands (new_set bands),
             firstObservationAt = co_observedAt (hd observations),
             lastObservationAt = co_observedAt (last observations),
             latencyMeanMs = latency, tokenMean = tokens, costMeanUsd = cost\<rparr>)))))))"

subsection \<open>Evaluation of an entry\<close>

record cache_scan =
  signedAttempts :: "(string \<times> signed_observation) list"
  deduplicated :: "(string \<times> signed_observation) list"
  sawExpired :: bool
  sawEnvironmentMismatch :: bool

definition scan_observation ::
    "host \<Rightarrow> verifier \<Rightarrow> cache_entry \<Rightarrow> string \<Rightarrow> string \<Rightarrow> int \<Rightarrow> cache_scan \<Rightarrow> signed_observation \<Rightarrow> cache_scan result" where
  "scan_observation h verify entry expectedDigest environment nowMs s ob =
     and_then (validateObservation h ob) (\<lambda>_.
       if \<not> verifyObservationSignature verify ob \<or> \<not> co_infrastructureValid ob then Inr s
       else if co_taskId ob \<noteq> ce_taskId entry
       then Inl (Error ''Signed cache observation is detached from its entry task'')
       else if co_taskRevisionDigest ob \<noteq> ck_taskRevisionDigest (ce_key entry)
       then Inl (Error ''Signed cache observation is detached from its entry task revision'')
       else if co_cacheKeyDigest ob \<noteq> expectedDigest
       then Inl (Error ''Signed cache observation is detached from its entry key'')
       else if (case map_of (signedAttempts s) (co_attemptDigest ob) of
                  None \<Rightarrow> False | Some duplicate \<Rightarrow> \<not> sameObservation duplicate ob)
       then Inl (Error ''Conflicting observations share a signed attempt digest'')
       else
         let s' = s\<lparr>signedAttempts := AList.update (co_attemptDigest ob) ob (signedAttempts s)\<rparr>;
             age = nowMs - observed_time h ob
         in if age < 0 \<or> CACHE_MAX_AGE_MS < age then Inr (s'\<lparr>sawExpired := True\<rparr>)
            else if co_environmentFingerprintHash ob \<noteq> environment then Inr (s'\<lparr>sawEnvironmentMismatch := True\<rparr>)
            else if map_of (deduplicated s) (co_attemptDigest ob) = None
            then Inr (s'\<lparr>deduplicated := AList.update (co_attemptDigest ob) ob (deduplicated s)\<rparr>)
            else Inr s')"

definition empty_scan :: cache_scan where
  "empty_scan = \<lparr>signedAttempts = [], deduplicated = [], sawExpired = False, sawEnvironmentMismatch = False\<rparr>"

definition compareTimes :: "host \<Rightarrow> signed_observation \<Rightarrow> signed_observation \<Rightarrow> int" where
  "compareTimes h left right = observed_time h left - observed_time h right"

definition conclude_scan :: "math \<Rightarrow> host \<Rightarrow> int \<Rightarrow> cache_scan \<Rightarrow> cache_evaluation result" where
  "conclude_scan m h nowMs s =
     (let eligible = sort_by (compareTimes h) (map snd (deduplicated s)) in
      if eligible = []
      then Inr \<lparr>reuse = (if sawEnvironmentMismatch s then Environment_mismatch
                  else if sawExpired s then Expired else No_valid_observations),
                eligibleObservations = [], cv_distribution = None\<rparr>
      else and_then (buildDistribution m h eligible nowMs) (\<lambda>distribution.
        Inr \<lparr>reuse = (if num_less (num_of (9 / 10)) (width (cd_interval95 distribution))
                        then Too_uncertain else Eligible),
             eligibleObservations = eligible, cv_distribution = Some distribution\<rparr>))"

text \<open>\<open>now\<close> is \<open>None\<close> where \<open>now.getTime()\<close> is NaN.\<close>

definition evaluateCacheEntry ::
    "math \<Rightarrow> host \<Rightarrow> cache_entry \<Rightarrow> cache_key \<Rightarrow> string \<Rightarrow> int option \<Rightarrow> verifier \<Rightarrow> cache_evaluation result" where
  "evaluateCacheEntry m h entry expectedKey environment now verify =
     and_then (cacheKeyDigest h expectedKey) (\<lambda>expectedDigest.
     if \<not> is_sha256 environment
     then Inl (Error ''Expected environment fingerprint must be a SHA-256 digest'')
     else if \<not> is_sha256 (ce_taskId entry)
     then Inl (Error ''Cache entry task ID must be a lowercase SHA-256 digest'')
     else and_then (cacheKeyDigest h (ce_key entry)) (\<lambda>digest.
       if digest \<noteq> expectedDigest
       then Inr \<lparr>reuse = Hard_miss, eligibleObservations = [], cv_distribution = None\<rparr>
       else case now of
         None \<Rightarrow> Inl (Error ''Cache evaluation time must be valid'')
       | Some nowMs \<Rightarrow>
           and_then (fold_result (scan_observation h verify entry expectedDigest environment nowMs) empty_scan
             (ce_observations entry)) (conclude_scan m h nowMs)))"

subsection \<open>Drift anchors\<close>

record cache_hit =
  ch_taskId :: string
  ch_key :: cache_key
  ch_distribution :: distribution
  exposureAge :: int
  difficultyStratum :: string
  capabilityStratum :: string

record drift_cohort =
  cohortDigest :: string
  anchors :: "cache_hit list"
  cohort_hits :: "cache_hit list"

definition cohort_members :: "cache_hit \<Rightarrow> (string \<times> string) list" where
  "cohort_members hit =
     (let key = ch_key hit in
      [(''harnessCommit'', harnessCommit key), (''harnessConfigurationHash'', harnessConfigurationHash key),
       (''modelId'', modelId key), (''modelProviderVersion'', modelProviderVersion key),
       (''reasoningSettingsHash'', reasoningSettingsHash key), (''samplingSettingsHash'', samplingSettingsHash key),
       (''contextSettingsHash'', contextSettingsHash key), (''datasetVersion'', datasetVersion key),
       (''harborVersion'', harborVersion key), (''sandboxProvider'', sandboxProvider key),
       (''imageDigest'', imageDigest key), (''architecture'', architecture key), (''resourceHash'', resourceHash key),
       (''regionClass'', regionClass key), (''networkPolicyHash'', networkPolicyHash key),
       (''protocolHash'', ck_protocolHash key), (''difficultyStratum'', difficultyStratum hit),
       (''capabilityStratum'', capabilityStratum hit)])"

text \<open>\<open>JSON.stringify\<close> of an object whose members are strings.\<close>

definition string_object :: "(string \<times> string) list \<Rightarrow> string" where
  "string_object members =
     CHR 0x7B # join '','' (map (\<lambda>(key, v). serializeString key @ '':'' @ serializeString v) members) @ [CHR 0x7D]"

definition driftCohortDigest :: "host \<Rightarrow> cache_hit \<Rightarrow> string" where
  "driftCohortDigest h hit = sha256 h (string_object (cohort_members hit))"

definition add_hit ::
    "host \<Rightarrow> (string \<times> cache_hit list) list \<Rightarrow> cache_hit \<Rightarrow> (string \<times> cache_hit list) list result" where
  "add_hit h grouped hit =
     (if \<not> safe_int (exposureAge hit) \<or> exposureAge hit < 0 \<or> difficultyStratum hit = [] \<or> capabilityStratum hit = []
      then Inl (Error ''Invalid hidden cache-hit cohort metadata'')
      else let digest = driftCohortDigest h hit;
               group = (case map_of grouped digest of None \<Rightarrow> [] | Some hits \<Rightarrow> hits)
           in Inr (AList.update digest (group @ [hit]) grouped))"

definition compareHits :: "host \<Rightarrow> cache_hit \<Rightarrow> cache_hit \<Rightarrow> int" where
  "compareHits h left right =
     (let stalenessDelta = freshnessRank (oldestFreshnessBand (ch_distribution right)) -
            freshnessRank (oldestFreshnessBand (ch_distribution left))
      in if stalenessDelta \<noteq> 0 then stalenessDelta
         else if exposureAge left \<noteq> exposureAge right then exposureAge right - exposureAge left
         else locale_compare h (ch_taskId left) (ch_taskId right))"

text \<open>The product with 0.25 is exact, so \<open>Math.ceil\<close> rounds the true quarter up.\<close>

definition anchor_count :: "nat \<Rightarrow> nat" where
  "anchor_count n = max 1 (nat \<lceil>of_nat n * (1 / 4 :: rat)\<rceil>)"

definition make_cohort :: "host \<Rightarrow> string \<times> cache_hit list \<Rightarrow> drift_cohort" where
  "make_cohort h = (\<lambda>(digest, hits).
     let sorted = sort_by (compareHits h) hits
     in \<lparr>cohortDigest = digest, anchors = take (anchor_count (length sorted)) sorted, cohort_hits = sorted\<rparr>)"

definition selectDriftAnchors :: "host \<Rightarrow> cache_hit list \<Rightarrow> drift_cohort list result" where
  "selectDriftAnchors h hits =
     and_then (fold_result (add_hit h) [] hits) (\<lambda>grouped.
       Inr (map (make_cohort h) (sort_by (\<lambda>(left, _) (right, _). locale_compare h left right) grouped)))"

subsection \<open>The exact tail test\<close>

record anchor_observation =
  predictedPassProbability :: number
  freshPass :: bool
  environmentFingerprintMatches :: bool

datatype drift_reason = Within_tolerance | Predictive_tail | Drift_environment_mismatch

record drift_result =
  drift_passes :: bool
  exactTailProbability :: number
  observedSurprisal :: "number option"
  drift_reason :: drift_reason

text \<open>The checks run anchor by anchor: \<open>True\<close> where an environment differs.\<close>

fun check_anchors :: "anchor_observation list \<Rightarrow> bool result" where
  "check_anchors [] = Inr False"
| "check_anchors (a # as) =
     (let p = predictedPassProbability a in
      if \<not> is_finite p \<or> num_le p (Fin 0) \<or> num_le (Fin 1) p
      then Inl (Error ''Predictive probabilities must be strictly between zero and one'')
      else if \<not> environmentFingerprintMatches a then Inr True
      else check_anchors as)"

definition outcome_probability :: "anchor_observation \<Rightarrow> bool \<Rightarrow> number" where
  "outcome_probability a passed =
     (if passed then predictedPassProbability a else num_sub (Fin 1) (predictedPassProbability a))"

text \<open>The surprisal and the probability of a list of outcomes, in the order of the loop.\<close>

definition surprisal :: "math \<Rightarrow> (anchor_observation \<times> bool) list \<Rightarrow> number" where
  "surprisal m outcomes =
     foldl (\<lambda>sum (a, passed). num_sub sum (math_log m (outcome_probability a passed))) (Fin 0) outcomes"

definition joint_probability :: "(anchor_observation \<times> bool) list \<Rightarrow> number" where
  "joint_probability outcomes =
     foldl (\<lambda>product (a, passed). num_mul product (outcome_probability a passed)) (Fin 1) outcomes"

definition mask_outcomes :: "anchor_observation list \<Rightarrow> nat \<Rightarrow> (anchor_observation \<times> bool) list" where
  "mask_outcomes as bits = map (\<lambda>(index, a). (a, bit bits index)) (enumerate 0 as)"

definition tail_probability :: "math \<Rightarrow> anchor_observation list \<Rightarrow> number \<Rightarrow> number" where
  "tail_probability m as observed =
     foldl (\<lambda>total bits.
         if num_le observed (num_add (surprisal m (mask_outcomes as bits)) (num_of (1 / 10 ^ 12)))
         then num_add total (joint_probability (mask_outcomes as bits)) else total)
       (Fin 0) [0 ..< 2 ^ length as]"

definition evaluateDrift :: "math \<Rightarrow> anchor_observation list \<Rightarrow> number \<Rightarrow> drift_result result" where
  "evaluateDrift m as limit =
     (if as = [] then Inl (Error ''A nonempty drift cohort is required'')
      else if 20 < length as
      then Inl (Error ''Exact drift-tail enumeration is limited to twenty anchors'')
      else if \<not> (num_less (Fin 0) limit \<and> num_less limit (Fin 1))
      then Inl (Error ''Drift threshold must be in (0, 1)'')
      else and_then (check_anchors as) (\<lambda>mismatch.
        if mismatch
        then Inr \<lparr>drift_passes = False, exactTailProbability = Fin 0, observedSurprisal = None,
          drift_reason = Drift_environment_mismatch\<rparr>
        else
          let observed = surprisal m (map (\<lambda>a. (a, freshPass a)) as);
              tail = tail_probability m as observed;
              failed = num_le tail limit
          in Inr \<lparr>drift_passes = \<not> failed, exactTailProbability = tail, observedSurprisal = Some observed,
               drift_reason = (if failed then Predictive_tail else Within_tolerance)\<rparr>))"

subsection \<open>Attestation\<close>

datatype cache_use = No_cache_use | Eligible_cohorts | Cohort_invalidated

datatype drift_status = Drift_not_required | Drift_pass | Drift_fail

record cache_attestation =
  ca_policyVersion :: string
  cacheUse :: cache_use
  driftStatus :: drift_status
  ca_freshnessBands :: "freshness_band list"
  smallCountSuppressed :: bool
  withinRepairBudget :: bool
  ca_aggregateCostUsd :: number
  containsTaskKeys :: bool
  containsPerTaskOutcomes :: bool

definition makeReleaseSafeCacheAttestation ::
    "cache_use \<Rightarrow> drift_status \<Rightarrow> freshness_band list \<Rightarrow> bool \<Rightarrow> number \<Rightarrow> cache_attestation result" where
  "makeReleaseSafeCacheAttestation use drift bands within_budget cost =
     (if \<not> is_finite cost \<or> num_less cost (Fin 0)
      then Inl (Error ''Aggregate cache cost must be finite and non-negative'')
      else Inr \<lparr>ca_policyVersion = CACHE_POLICY_VERSION, cacheUse = use, driftStatus = drift,
        ca_freshnessBands = sort_by compareBands (new_set bands), smallCountSuppressed = True,
        withinRepairBudget = within_budget, ca_aggregateCostUsd = cost, containsTaskKeys = False,
        containsPerTaskOutcomes = False\<rparr>)"

end
