(* ===== verification/Cache_Properties.thy ===== *)
theory Cache_Properties
  imports Cache Gate_Properties
begin

text \<open>
  What the champion cache promises: the observations an entry reuses are exactly the valid,
  signed, recent ones of its task, key and environment, each attempt once; the anchors of a
  drift cohort are a quarter of its hits; and the tail of the drift test contains the outcome
  that was observed.
\<close>

subsection \<open>Keys\<close>

lemma serializeString_first: "serializeString s \<noteq> [] \<and> hd (serializeString s) = CHR 0x22"
  by (simp add: serializeString_def)

lemma string_array_inject: "string_array xs = string_array ys \<longleftrightarrow> xs = ys"
proof
  assume eq: "string_array xs = string_array ys"
  have "join '','' (map serializeString xs) @ CHR '']'' # [] = join '','' (map serializeString ys) @ CHR '']'' # []"
    using eq by (simp add: string_array_def)
  then show "xs = ys"
    by (rule join_code [THEN conjunct1, rotated -1])
      (auto simp: serializeString_first dest: string_code)
qed simp

lemma key_fields_inject: "key_fields k = key_fields l \<longleftrightarrow> k = l"
  by (cases k; cases l) (simp add: key_fields_def)

lemma canonicalCacheKey_inject: "canonicalCacheKey k = canonicalCacheKey l \<longleftrightarrow> k = l"
  by (simp add: canonicalCacheKey_def string_array_inject key_fields_inject)

subsection \<open>The scan of an entry\<close>

lemma sameObservation_eq:
  assumes "sameObservation l r" shows "l = r"
proof -
  have "evaluatorSignature l = evaluatorSignature r"
    using assms by (intro observation_signature.equality) (simp_all add: sameObservation_def)
  then show ?thesis using assms
    by (intro signed_observation.equality) (simp_all add: sameObservation_def num_eq_def)
qed

text \<open>An observation the verifier accepts, of a trial whose infrastructure was valid.\<close>

definition accepted :: "verifier \<Rightarrow> signed_observation \<Rightarrow> bool" where
  "accepted verify ob \<longleftrightarrow> verifyObservationSignature verify ob \<and> co_infrastructureValid ob"

definition recent :: "host \<Rightarrow> int \<Rightarrow> signed_observation \<Rightarrow> bool" where
  "recent h nowMs ob \<longleftrightarrow> observed_time h ob \<le> nowMs \<and> nowMs - observed_time h ob \<le> CACHE_MAX_AGE_MS"

definition counted :: "host \<Rightarrow> verifier \<Rightarrow> string \<Rightarrow> int \<Rightarrow> signed_observation \<Rightarrow> bool" where
  "counted h verify environment nowMs ob \<longleftrightarrow>
     accepted verify ob \<and> recent h nowMs ob \<and> co_environmentFingerprintHash ob = environment"

text \<open>What the scan knows after the observations \<open>xs\<close>.\<close>

definition scanned ::
    "host \<Rightarrow> verifier \<Rightarrow> cache_entry \<Rightarrow> string \<Rightarrow> string \<Rightarrow> int \<Rightarrow> signed_observation list \<Rightarrow> cache_scan \<Rightarrow> bool" where
  "scanned h verify entry digest environment nowMs xs s \<longleftrightarrow>
     (\<forall>ob \<in> set xs. validateObservation h ob = Inr ()) \<and>
     (\<forall>ob \<in> set xs. accepted verify ob \<longrightarrow> co_taskId ob = ce_taskId entry \<and>
        co_taskRevisionDigest ob = ck_taskRevisionDigest (ce_key entry) \<and> co_cacheKeyDigest ob = digest \<and>
        map_of (signedAttempts s) (co_attemptDigest ob) = Some ob) \<and>
     snd ` set (deduplicated s) = {ob \<in> set xs. counted h verify environment nowMs ob} \<and>
     (\<forall>(d, ob) \<in> set (deduplicated s). d = co_attemptDigest ob) \<and> distinct (map fst (deduplicated s)) \<and>
     (sawExpired s \<longleftrightarrow> (\<exists>ob \<in> set xs. accepted verify ob \<and> \<not> recent h nowMs ob)) \<and>
     (sawEnvironmentMismatch s \<longleftrightarrow>
        (\<exists>ob \<in> set xs. accepted verify ob \<and> recent h nowMs ob \<and> co_environmentFingerprintHash ob \<noteq> environment))"

lemma update_new_key: "map_of xs k = None \<Longrightarrow> AList.update k v xs = xs @ [(k, v)]"
  by (induction xs) (auto split: if_splits)

lemma scan_step:
  assumes s: "scanned h verify entry digest environment nowMs xs s"
    and step: "scan_observation h verify entry digest environment nowMs s ob = Inr s'"
  shows "scanned h verify entry digest environment nowMs (xs @ [ob]) s'"
proof (cases "accepted verify ob")
  case False
  then have "s' = s" "validateObservation h ob = Inr ()"
    using step by (auto simp: scan_observation_def accepted_def split: if_splits)
  then show ?thesis using s False by (auto simp: scanned_def counted_def)
next
  case True
  note acc = True [unfolded accepted_def]
  have valid: "validateObservation h ob = Inr ()"
    and bound: "co_taskId ob = ce_taskId entry" "co_taskRevisionDigest ob = ck_taskRevisionDigest (ce_key entry)"
      "co_cacheKeyDigest ob = digest"
    and same: "\<And>o'. map_of (signedAttempts s) (co_attemptDigest ob) = Some o' \<Longrightarrow> o' = ob"
    using step acc by (auto simp: scan_observation_def split: if_splits option.splits dest: sameObservation_eq)
  let ?s1 = "s\<lparr>signedAttempts := AList.update (co_attemptDigest ob) ob (signedAttempts s)\<rparr>"
  have signed: "\<forall>o' \<in> set (xs @ [ob]). accepted verify o' \<longrightarrow> co_taskId o' = ce_taskId entry \<and>
        co_taskRevisionDigest o' = ck_taskRevisionDigest (ce_key entry) \<and> co_cacheKeyDigest o' = digest \<and>
        map_of (AList.update (co_attemptDigest ob) ob (signedAttempts s)) (co_attemptDigest o') = Some o'"
  proof (intro ballI impI)
    fix o'
    assume o': "o' \<in> set (xs @ [ob])" "accepted verify o'"
    show "co_taskId o' = ce_taskId entry \<and>
        co_taskRevisionDigest o' = ck_taskRevisionDigest (ce_key entry) \<and> co_cacheKeyDigest o' = digest \<and>
        map_of (AList.update (co_attemptDigest ob) ob (signedAttempts s)) (co_attemptDigest o') = Some o'"
    proof (cases "o' = ob")
      case True
      then show ?thesis using bound by simp
    next
      case False
      then have "o' \<in> set xs" using o' by simp
      then have "map_of (signedAttempts s) (co_attemptDigest o') = Some o'" and rest: "co_taskId o' = ce_taskId entry"
        "co_taskRevisionDigest o' = ck_taskRevisionDigest (ce_key entry)" "co_cacheKeyDigest o' = digest"
        using s o'(2) unfolding scanned_def by blast+
      moreover have "co_attemptDigest o' \<noteq> co_attemptDigest ob" using same calculation(1) False by metis
      ultimately show ?thesis by simp
    qed
  qed
  have age: "recent h nowMs ob \<longleftrightarrow>
      \<not> (nowMs - observed_time h ob < 0 \<or> CACHE_MAX_AGE_MS < nowMs - observed_time h ob)"
    by (auto simp: recent_def)
  have known: "ob \<in> snd ` set (deduplicated s)" if present: "map_of (deduplicated s) (co_attemptDigest ob) \<noteq> None"
  proof -
    obtain o' where "map_of (deduplicated s) (co_attemptDigest ob) = Some o'" using present by blast
    then have o': "(co_attemptDigest ob, o') \<in> set (deduplicated s)" by (rule map_of_SomeD)
    have vals: "snd ` set (deduplicated s) = {ob \<in> set xs. counted h verify environment nowMs ob}"
      and keys: "\<forall>(d, ob) \<in> set (deduplicated s). d = co_attemptDigest ob"
      using s unfolding scanned_def by blast+
    have "o' \<in> snd ` set (deduplicated s)" using o' by (rule image_eqI [rotated]) simp
    then have "o' \<in> set xs" "accepted verify o'" unfolding vals counted_def by simp_all
    moreover have "co_attemptDigest o' = co_attemptDigest ob" using bspec [OF keys o'] by simp
    moreover have "\<forall>ob \<in> set xs. accepted verify ob \<longrightarrow> map_of (signedAttempts s) (co_attemptDigest ob) = Some ob"
      using s unfolding scanned_def by blast
    ultimately have "map_of (signedAttempts s) (co_attemptDigest ob) = Some o'" by metis
    then show ?thesis using o' same by force
  qed
  let ?new = "counted h verify environment nowMs ob \<and> map_of (deduplicated s) (co_attemptDigest ob) = None"
  have s': "signedAttempts s' = AList.update (co_attemptDigest ob) ob (signedAttempts s)"
    "deduplicated s' = (if ?new then deduplicated s @ [(co_attemptDigest ob, ob)] else deduplicated s)"
    "sawExpired s' \<longleftrightarrow> sawExpired s \<or> \<not> recent h nowMs ob"
    "sawEnvironmentMismatch s' \<longleftrightarrow>
       sawEnvironmentMismatch s \<or> recent h nowMs ob \<and> co_environmentFingerprintHash ob \<noteq> environment"
    using step acc bound unfolding counted_def accepted_def age scan_observation_def
    by (auto simp: Let_def update_new_key split: if_splits)
  have parts: "\<forall>ob \<in> set xs. validateObservation h ob = Inr ()"
    "snd ` set (deduplicated s) = {ob \<in> set xs. counted h verify environment nowMs ob}"
    "\<forall>(d, ob) \<in> set (deduplicated s). d = co_attemptDigest ob" "distinct (map fst (deduplicated s))"
    "sawExpired s \<longleftrightarrow> (\<exists>ob \<in> set xs. accepted verify ob \<and> \<not> recent h nowMs ob)"
    "sawEnvironmentMismatch s \<longleftrightarrow>
      (\<exists>ob \<in> set xs. accepted verify ob \<and> recent h nowMs ob \<and> co_environmentFingerprintHash ob \<noteq> environment)"
    using s unfolding scanned_def by blast+
  show ?thesis unfolding scanned_def s'(1,3,4)
  proof (intro conjI signed)
    show "\<forall>ob \<in> set (xs @ [ob]). validateObservation h ob = Inr ()" using parts(1) valid by simp
    show "snd ` set (deduplicated s') = {ob' \<in> set (xs @ [ob]). counted h verify environment nowMs ob'}"
    proof (cases ?new)
      case True
      then show ?thesis unfolding s'(2) using parts(2) by auto
    next
      case False
      then have "counted h verify environment nowMs ob \<Longrightarrow> ob \<in> snd ` set (deduplicated s)" using known by blast
      then show ?thesis unfolding s'(2) parts(2) using False parts(2) by auto
    qed
    show "\<forall>(d, ob) \<in> set (deduplicated s'). d = co_attemptDigest ob" using parts(3) unfolding s'(2) by auto
    show "distinct (map fst (deduplicated s'))"
      using parts(4) unfolding s'(2) by (auto simp: map_of_eq_None_iff)
    show "sawExpired s \<or> \<not> recent h nowMs ob \<longleftrightarrow>
        (\<exists>ob \<in> set (xs @ [ob]). accepted verify ob \<and> \<not> recent h nowMs ob)"
      using parts(5) True by auto
    show "sawEnvironmentMismatch s \<or> recent h nowMs ob \<and> co_environmentFingerprintHash ob \<noteq> environment \<longleftrightarrow>
        (\<exists>ob \<in> set (xs @ [ob]). accepted verify ob \<and> recent h nowMs ob \<and>
           co_environmentFingerprintHash ob \<noteq> environment)"
      using parts(6) True by auto
  qed
qed

lemma scan_all:
  assumes "fold_result (scan_observation h verify entry digest environment nowMs) empty_scan xs = Inr s"
  shows "scanned h verify entry digest environment nowMs xs s"
  using assms
proof (induction xs arbitrary: s rule: rev_induct)
  case Nil
  then have "s = empty_scan" by simp
  then show ?case by (simp add: scanned_def empty_scan_def)
next
  case (snoc ob xs)
  then obtain t where "fold_result (scan_observation h verify entry digest environment nowMs) empty_scan xs = Inr t"
    "scan_observation h verify entry digest environment nowMs t ob = Inr s"
    by (auto simp: fold_result_append)
  then show ?case using snoc.IH scan_step by blast
qed

subsection \<open>The reuse of an entry\<close>

lemma compareTimes_comparator: "comparator (compareTimes h) carrier"
  unfolding compareTimes_def by (rule int_key_comparator)

interpretation cache_times: comparator "compareTimes h" UNIV for h
  by (rule compareTimes_comparator)

lemma buildDistribution_counts:
  assumes "buildDistribution m h obs nowMs = Inr d"
  shows "validAttempts d = int (length obs) \<and> cd_passes d = int (length (filter co_pass obs)) \<and>
    cd_failures d = int (length (filter (\<lambda>ob. \<not> co_pass ob) obs)) \<and>
    set (freshnessBands d) = (\<lambda>ob. freshnessBand (nowMs - observed_time h ob)) ` set obs"
proof -
  have "int (length obs) - int (length (filter co_pass obs)) = int (length (filter (\<lambda>ob. \<not> co_pass ob) obs))"
    using sum_length_filter_compl [of co_pass obs] by linarith
  then show ?thesis using assms by (auto simp: buildDistribution_def Let_def split: if_splits)
qed

lemma conclude_scan_result:
  assumes "scanned h verify entry digest environment nowMs obs s" "conclude_scan m h nowMs s = Inr r"
  defines "used \<equiv> {ob \<in> set obs. counted h verify environment nowMs ob}"
  shows "set (eligibleObservations r) = used" "distinct (map co_attemptDigest (eligibleObservations r))"
    "sorted_wrt (\<lambda>a b. observed_time h a \<le> observed_time h b) (eligibleObservations r)"
    "reuse r \<in> {Eligible, Too_uncertain} \<longleftrightarrow> used \<noteq> {}"
    "\<forall>d. cv_distribution r = Some d \<longrightarrow> buildDistribution m h (eligibleObservations r) nowMs = Inr d \<and>
       (reuse r = Eligible \<longleftrightarrow> \<not> num_less (num_of (9 / 10)) (width (cd_interval95 d)))"
    "cv_distribution r = None \<longleftrightarrow> used = {}" "reuse r \<noteq> Hard_miss"
proof -
  let ?es = "map snd (deduplicated s)"
  let ?sorted = "sort_by (compareTimes h) ?es"
  have es: "set ?es = used" using assms(1) by (simp add: scanned_def used_def)
  have keys: "map co_attemptDigest ?es = map fst (deduplicated s)"
    using assms(1) unfolding scanned_def map_map by (intro map_cong) auto
  have "distinct (map co_attemptDigest ?es)" unfolding keys using assms(1) by (simp add: scanned_def)
  moreover have "mset (map co_attemptDigest ?sorted) = mset (map co_attemptDigest ?es)" by (simp only: mset_map mset_sort_by)
  ultimately have dist: "distinct (map co_attemptDigest ?sorted)" using mset_eq_imp_distinct_iff by blast
  have sorted: "sorted_wrt (\<lambda>a b. observed_time h a \<le> observed_time h b) ?sorted"
    using cache_times.sorted_sort_by [of ?es h] by (simp add: compareTimes_def)
  have empty: "?sorted = [] \<longleftrightarrow> used = {}" using es by (metis set_empty set_sort_by)
  have el: "eligibleObservations r = ?sorted"
    using assms(2) by (auto simp: conclude_scan_def Let_def split: if_splits)
  show "set (eligibleObservations r) = used" unfolding el by (simp only: set_sort_by es)
  show "distinct (map co_attemptDigest (eligibleObservations r))" unfolding el by (rule dist)
  show "sorted_wrt (\<lambda>a b. observed_time h a \<le> observed_time h b) (eligibleObservations r)"
    unfolding el by (rule sorted)
  show "reuse r \<in> {Eligible, Too_uncertain} \<longleftrightarrow> used \<noteq> {}"
    "\<forall>d. cv_distribution r = Some d \<longrightarrow> buildDistribution m h (eligibleObservations r) nowMs = Inr d \<and>
       (reuse r = Eligible \<longleftrightarrow> \<not> num_less (num_of (9 / 10)) (width (cd_interval95 d)))"
    "cv_distribution r = None \<longleftrightarrow> used = {}" "reuse r \<noteq> Hard_miss"
    using assms(2) empty by (auto simp: conclude_scan_def Let_def split: if_splits)
qed

text \<open>
  C18. The cache reuses exactly what it may: unless the key differs, the eligible observations of
  an entry are precisely those that verify, come from a trial with valid infrastructure and
  the expected environment and are between zero and seven days old; each attempt counts once,
  they are in the order of time, all belong to the entry's task, revision and key, and the
  distribution counts them. The entry is a hard miss exactly when its key is another one
  (if SHA-256 does not collide on the two keys), and only an entry with a counted observation and
  an interval of width at most 0.9 is eligible.
\<close>

theorem cache_reuse_exact:
  assumes "evaluateCacheEntry m h entry key environment (Some nowMs) verify = Inr r"
    and "inj_on (sha256 h) {canonicalCacheKey (ce_key entry), canonicalCacheKey key}"
  shows "(reuse r = Hard_miss \<longleftrightarrow> ce_key entry \<noteq> key) \<and>
    (ce_key entry = key \<longrightarrow>
       set (eligibleObservations r) = {ob \<in> set (ce_observations entry). counted h verify environment nowMs ob} \<and>
       distinct (map co_attemptDigest (eligibleObservations r)) \<and>
       sorted_wrt (\<lambda>a b. observed_time h a \<le> observed_time h b) (eligibleObservations r) \<and>
       (\<forall>ob \<in> set (eligibleObservations r). co_taskId ob = ce_taskId entry \<and>
          co_taskRevisionDigest ob = ck_taskRevisionDigest key \<and> cacheKeyDigest h key = Inr (co_cacheKeyDigest ob)) \<and>
       (reuse r = Eligible \<longleftrightarrow> (\<exists>d. cv_distribution r = Some d \<and>
          \<not> num_less (num_of (9 / 10)) (width (cd_interval95 d)))) \<and>
       (\<forall>d. cv_distribution r = Some d \<longrightarrow> validAttempts d = int (length (eligibleObservations r)) \<and>
          0 < validAttempts d \<and> cd_passes d + cd_failures d = validAttempts d \<and>
          cd_passes d = int (length (filter co_pass (eligibleObservations r)))))"
proof (cases "ce_key entry = key")
  case False
  then have "sha256 h (canonicalCacheKey (ce_key entry)) \<noteq> sha256 h (canonicalCacheKey key)"
    using assms(2) canonicalCacheKey_inject by (auto simp: inj_on_def)
  then have "reuse r = Hard_miss"
    using assms(1) by (auto simp: evaluateCacheEntry_def cacheKeyDigest_def split: if_splits)
  then show ?thesis using False by simp
next
  case True
  obtain digest s where digest: "cacheKeyDigest h key = Inr digest"
    and s: "fold_result (scan_observation h verify entry digest environment nowMs) empty_scan (ce_observations entry) = Inr s"
      "conclude_scan m h nowMs s = Inr r"
    using assms(1) True by (auto simp: evaluateCacheEntry_def split: if_splits)
  note scan = scan_all [OF s(1)]
  note r = conclude_scan_result [OF scan s(2)]
  have bound: "co_taskId ob = ce_taskId entry \<and> co_taskRevisionDigest ob = ck_taskRevisionDigest key \<and>
      cacheKeyDigest h key = Inr (co_cacheKeyDigest ob)" if "ob \<in> set (eligibleObservations r)" for ob
    using that scan True digest unfolding r(1) scanned_def counted_def by auto
  have dist: "validAttempts d = int (length (eligibleObservations r)) \<and> 0 < validAttempts d \<and>
      cd_passes d + cd_failures d = validAttempts d \<and>
      cd_passes d = int (length (filter co_pass (eligibleObservations r)))" if "cv_distribution r = Some d" for d
  proof -
    have "eligibleObservations r \<noteq> []" using r(1,6) that by auto
    then show ?thesis using buildDistribution_counts [of m h "eligibleObservations r" nowMs d] r(5) that
        sum_length_filter_compl [of co_pass "eligibleObservations r"] by auto
  qed
  have "reuse r = Eligible \<longleftrightarrow> (\<exists>d. cv_distribution r = Some d \<and> \<not> num_less (num_of (9 / 10)) (width (cd_interval95 d)))"
  proof (cases "cv_distribution r")
    case None
    then show ?thesis using r(4,6) by auto
  next
    case (Some d)
    then show ?thesis using r(5) by simp
  qed
  then show ?thesis using r(1,2,3,7) bound dist unfolding True by blast
qed

text \<open>An entry with one observation of another environment, checked with a verifier that accepts it.\<close>

definition cache_host :: host where
  "cache_host = simple_host\<lparr>date_parse := (\<lambda>_. Some 0)\<rparr>"

definition example_key :: cache_key where
  "example_key = \<lparr>ck_taskRevisionDigest = sixty_four CHR ''a'', harnessCommit = sixty_four CHR ''b'',
     harnessConfigurationHash = sixty_four CHR ''a'', modelId = ''m'', modelProviderVersion = ''v'',
     reasoningSettingsHash = sixty_four CHR ''a'', samplingSettingsHash = sixty_four CHR ''a'',
     contextSettingsHash = sixty_four CHR ''a'', datasetVersion = ''d'', harborVersion = ''h'',
     sandboxProvider = ''p'', imageDigest = ''sha256:'' @ sixty_four CHR ''c'', architecture = ''x'',
     resourceHash = sixty_four CHR ''a'', regionClass = ''r'', networkPolicyHash = sixty_four CHR ''a'',
     ck_protocolHash = sixty_four CHR ''a''\<rparr>"

definition example_observation :: "char \<Rightarrow> signed_observation" where
  "example_observation environment = \<lparr>co_taskId = sixty_four CHR ''d'', co_taskRevisionDigest = sixty_four CHR ''a'',
     co_cacheKeyDigest = sixty_four CHR ''0'', co_attemptDigest = sixty_four CHR ''e'',
     co_observedAt = ''2026-01-01T00:00:00Z'', co_pass = True, co_reward = Fin 1, co_infrastructureValid = True,
     co_environmentFingerprintHash = sixty_four environment, latencyMs = Fin 1, tokenCount = 1, co_costUsd = Fin 0,
     evaluatorSignature = \<lparr>keyId = ''k'', signedAt = ''2026-01-01T00:00:00Z'', signature = replicate 86 CHR ''A''\<rparr>\<rparr>"

definition example_entry :: cache_entry where
  "example_entry = \<lparr>ce_taskId = sixty_four CHR ''d'', ce_key = example_key,
     ce_observations = [example_observation CHR ''b'']\<rparr>"

lemma length_sixty_four [simp]: "length (sixty_four c) = 64"
  by (simp add: sixty_four_def del: replicate.simps)

lemma list_all_sixty_four [simp]: "list_all P (sixty_four c) \<longleftrightarrow> P c"
  by (simp add: sixty_four_def list_all_iff del: replicate.simps)

lemma sixty_four_not_Nil [simp]: "sixty_four c \<noteq> []"
  by (simp add: sixty_four_def)

lemma example_key_valid: "validateCacheKey example_key = Inr ()"
  by (simp add: validateCacheKey_def guard_simps example_key_def key_fields_def is_git_oid_def)

lemma example_signature: "isCacheObservationSignature (evaluatorSignature (example_observation c))"
proof -
  have "takeWhile (\<lambda>c. alnum c \<or> c \<in> set ''_-'') (replicate 86 CHR ''A'') = replicate 86 CHR ''A''"
    by (simp only: takeWhile_eq_all_conv) (simp add: alnum_def del: replicate.simps)
  then show ?thesis
    by (simp add: isCacheObservationSignature_def is_base64url_def example_observation_def is_token_def alnum_def
        del: replicate.simps)
qed

lemma example_observation_valid: "lower_hex c \<Longrightarrow> validateObservation cache_host (example_observation c) = Inr ()"
  unfolding validateObservation_def Let_def if_not_P [OF not_not [THEN iffD2, OF example_signature]]
  by (simp add: cache_host_def example_observation_def is_utc_time_def matches_template_def digit_def
      safe_int_def max_safe_def)

theorem cache_reuse_exact_witness:
  "\<exists>r. evaluateCacheEntry platform cache_host example_entry example_key (sixty_four CHR ''a'') (Some 1) (\<lambda>_ _. True) = Inr r \<and>
     reuse r = Environment_mismatch \<and> eligibleObservations r = []"
proof -
  have key: "cacheKeyDigest cache_host example_key = Inr (sixty_four CHR ''0'')"
    by (simp add: cacheKeyDigest_def example_key_valid cache_host_def simple_host_def sixty_four_def)
  define s where "s = \<lparr>signedAttempts = [(sixty_four CHR ''e'', example_observation CHR ''b'')], deduplicated = [],
     sawExpired = False, sawEnvironmentMismatch = True\<rparr>"
  have "fold_result (scan_observation cache_host (\<lambda>_ _. True) example_entry (sixty_four CHR ''0'') (sixty_four CHR ''a'') 1)
      empty_scan (ce_observations example_entry) = Inr s"
    using example_observation_valid [of "CHR ''b''"]
    by (simp add: scan_observation_def verifyObservationSignature_def empty_scan_def s_def
        example_entry_def example_key_def example_observation_def observed_time_def cache_host_def CACHE_MAX_AGE_MS_def Let_def)
  then have r: "evaluateCacheEntry platform cache_host example_entry example_key (sixty_four CHR ''a'') (Some 1) (\<lambda>_ _. True) =
      Inr \<lparr>reuse = Environment_mismatch, eligibleObservations = [], cv_distribution = None\<rparr>"
    using key by (simp add: evaluateCacheEntry_def example_entry_def conclude_scan_def s_def)
  have "ce_key example_entry = example_key" by (simp add: example_entry_def)
  then show ?thesis using cache_reuse_exact [OF r] r by simp
qed

subsection \<open>The tail of the drift test\<close>

text \<open>The logarithm of a positive number up to one is a finite number.\<close>

definition log_finite :: "math \<Rightarrow> bool" where
  "log_finite m \<longleftrightarrow> (\<forall>a. 0 < a \<longrightarrow> a \<le> 1 \<longrightarrow> is_finite (math_log m (Fin a)))"

definition unit_probability :: "anchor_observation \<Rightarrow> bool" where
  "unit_probability a \<longleftrightarrow> (\<exists>p. predictedPassProbability a = Fin p \<and> 0 < p \<and> p < 1 \<and> is_f64 p)"

lemma outcome_probability_unit:
  assumes "unit_probability a"
  obtains q where "outcome_probability a b = Fin q" "0 < q" "q \<le> 1"
proof -
  obtain p where p: "predictedPassProbability a = Fin p" "0 < p" "p < 1" "is_f64 p"
    using assms by (auto simp: unit_probability_def)
  have one: "is_f64 (1 :: rat)" using is_f64_of_int [of 1] by simp
  have "0 < round64 (1 - p)" "round64 (1 - p) \<le> 1"
    using round64_diff_pos [OF p(4) one p(3)] p(2) one by (auto intro: round64_le)
  moreover have "num_sub (Fin 1) (Fin p) = Fin (round64 (1 - p))"
    using calculation max_safe_le_max_f64 by (simp add: num_sub_def num_of_def Let_def max_safe_def)
  ultimately show thesis using that p by (cases b) (auto simp: outcome_probability_def)
qed

lemma num_sub_fin_not_NaN: "x \<noteq> NaN \<Longrightarrow> is_finite y \<Longrightarrow> num_sub x y \<noteq> NaN"
  by (cases x; cases y) (auto simp: num_sub_def num_of_def Let_def)

lemma surprisal_wf:
  assumes "log_finite m" "\<forall>(a, b) \<in> set outcomes. unit_probability a"
  shows "surprisal m outcomes \<noteq> NaN \<and> wf_num (surprisal m outcomes)"
  using assms(2)
proof (induction outcomes rule: rev_induct)
  case (snoc x xs)
  obtain a b where x: "x = (a, b)" by (cases x)
  then obtain q where "outcome_probability a b = Fin q" "0 < q" "q \<le> 1"
    using snoc.prems outcome_probability_unit [of a b] by auto
  then have "is_finite (math_log m (outcome_probability a b))" using assms(1) by (simp add: log_finite_def)
  then show ?case using snoc x num_sub_fin_not_NaN by (simp add: surprisal_def num_sub_def)
qed (simp add: surprisal_def max_f64_def)

lemma joint_probability_unit:
  assumes "\<forall>(a, b) \<in> set outcomes. unit_probability a"
  shows "\<exists>q. joint_probability outcomes = Fin q \<and> 0 \<le> q \<and> q \<le> 1 \<and> is_f64 q"
  using assms
proof (induction outcomes rule: rev_induct)
  case Nil
  then show ?case using is_f64_of_int [of 1] by (simp add: joint_probability_def)
next
  case (snoc x xs)
  obtain a b where x: "x = (a, b)" by (cases x)
  then obtain p where p: "outcome_probability a b = Fin p" "0 < p" "p \<le> 1"
    using snoc.prems outcome_probability_unit [of a b] by auto
  obtain q where q: "joint_probability xs = Fin q" "0 \<le> q" "q \<le> 1" using snoc by auto
  have "q * p \<le> 1" using p q mult_mono [of q 1 p 1] by simp
  then have "0 \<le> round64 (q * p)" "round64 (q * p) \<le> 1"
    using p q is_f64_of_int [of 1] by (auto intro!: round64_nonneg round64_le)
  then have "num_mul (Fin q) (Fin p) = Fin (round64 (q * p))"
    using max_safe_le_max_f64 by (simp add: num_of_def Let_def max_safe_def)
  moreover have "joint_probability (xs @ [x]) = num_mul (joint_probability xs) (outcome_probability a b)"
    by (simp add: joint_probability_def x)
  ultimately show ?case using p q \<open>0 \<le> round64 (q * p)\<close> \<open>round64 (q * p) \<le> 1\<close> by simp
qed

lemma num_add_comm: "num_add a b = num_add b a"
  by (cases a; cases b) (simp_all add: add.commute)

text \<open>Non-negative numbers: sums of them only grow.\<close>

definition nonneg :: "number \<Rightarrow> bool" where
  "nonneg x \<longleftrightarrow> wf_num x \<and> num_le (Fin 0) x"

lemma nonneg_add:
  assumes "nonneg x" "nonneg y"
  shows "nonneg (num_add x y)" "num_le x (num_add x y)"
proof -
  have "num_le (Fin a) (num_add (Fin a) (Fin b))" if "x = Fin a" "y = Fin b" for a b
    using assms that by (intro num_le_add) (auto simp: nonneg_def)
  then show le: "num_le x (num_add x y)"
    using assms by (cases x; cases y) (auto simp: nonneg_def)
  then show "nonneg (num_add x y)"
    using assms(1) by (auto simp: nonneg_def intro: num_le_trans)
qed

lemma sum_selected:
  assumes "\<forall>x \<in> set xs. nonneg (f x)" "nonneg t"
  shows "nonneg (foldl (\<lambda>total x. if P x then num_add total (f x) else total) t xs) \<and>
    num_le t (foldl (\<lambda>total x. if P x then num_add total (f x) else total) t xs) \<and>
    (\<forall>x \<in> set xs. P x \<longrightarrow> num_le (f x) (foldl (\<lambda>total x. if P x then num_add total (f x) else total) t xs))"
  using assms
proof (induction xs arbitrary: t)
  case Nil
  then show ?case by (auto simp: nonneg_def num_le_def num_eq_def)
next
  case (Cons x xs)
  show ?case
  proof (cases "P x")
    case False
    then show ?thesis using Cons by simp
  next
    case True
    note add = nonneg_add [OF Cons.prems(2), of "f x"] nonneg_add [of "f x" t, unfolded num_add_comm [of "f x" t]]
    have fx: "nonneg (f x)" using Cons.prems(1) by simp
    note ih = Cons.IH [OF _ add(1) [OF fx]]
    then show ?thesis using True add(2,4) [OF fx] Cons.prems by (auto intro: num_le_trans)
  qed
qed

lemma mask_outcomes_zip: "mask_outcomes as bits = map (\<lambda>i. (as ! i, bit bits i)) [0 ..< length as]"
  by (auto simp: mask_outcomes_def enumerate_eq_zip intro!: nth_equalityI)

lemma observed_mask:
  "\<exists>bits < 2 ^ length as. mask_outcomes as bits = map (\<lambda>a. (a, freshPass a)) as"
proof (intro exI conjI)
  let ?bits = "horner_sum of_bool 2 (map freshPass as) :: nat"
  show "?bits < 2 ^ length as" using horner_sum_of_bool_2_less [of "map freshPass as"] by simp
  show "mask_outcomes as ?bits = map (\<lambda>a. (a, freshPass a)) as"
    by (auto simp: mask_outcomes_zip bit_horner_sum_bit_iff intro!: nth_equalityI)
qed

lemma check_anchors_ok:
  assumes "check_anchors as = Inr False" "\<forall>a \<in> set as. wf_num (predictedPassProbability a)"
  shows "\<forall>a \<in> set as. unit_probability a"
  using assms
proof (induction as)
  case (Cons a as)
  then show ?case
    by (cases "predictedPassProbability a") (auto simp: unit_probability_def Let_def split: if_splits)
qed simp

text \<open>
  The outcome that was observed always counts in the exact tail of the drift test: whatever the
  platform's logarithm returns, as long as it is finite on positive numbers up to one, the tail is at
  least the (rounded) probability of the observed outcomes of the anchors, so a cohort whose
  observed outcome is itself more likely than the threshold never fails; and the test passes
  exactly when the tail exceeds the threshold.
\<close>

theorem drift_tail_counts_outcome:
  assumes "evaluateDrift m as limit = Inr r" "drift_reason r \<noteq> Drift_environment_mismatch"
    and "log_finite m" "\<forall>a \<in> set as. wf_num (predictedPassProbability a)"
  defines "likelihood \<equiv> joint_probability (map (\<lambda>a. (a, freshPass a)) as)"
  shows "num_le likelihood (exactTailProbability r) \<and>
    (drift_passes r \<longleftrightarrow> num_less limit (exactTailProbability r)) \<and>
    (num_less limit likelihood \<longrightarrow> drift_passes r) \<and>
    (\<exists>q. likelihood = Fin q \<and> 0 \<le> q \<and> q \<le> 1)"
proof -
  define observed where "observed = surprisal m (map (\<lambda>a. (a, freshPass a)) as)"
  have checks: "check_anchors as = Inr False"
    and lim: "num_less (Fin 0) limit" "num_less limit (Fin 1)"
    and r: "exactTailProbability r = tail_probability m as observed"
      "drift_passes r \<longleftrightarrow> \<not> num_le (tail_probability m as observed) limit"
    using assms(1,2) by (auto simp: evaluateDrift_def observed_def Let_def split: if_splits)
  have unit: "\<forall>a \<in> set as. unit_probability a" using checks assms(4) by (rule check_anchors_ok)
  have units: "\<forall>(a, b) \<in> set (mask_outcomes as bits). unit_probability a" for bits
    using unit by (auto simp: mask_outcomes_zip)
  let ?joint = "\<lambda>bits. joint_probability (mask_outcomes as bits)"
  let ?P = "\<lambda>bits. num_le observed (num_add (surprisal m (mask_outcomes as bits)) (num_of (1 / 10 ^ 12)))"
  have joint: "nonneg (?joint bits)" for bits
    using joint_probability_unit [OF units [of bits]] max_safe_le_max_f64
    by (auto simp: nonneg_def max_safe_def)
  have zero: "nonneg (Fin 0)" by (simp add: nonneg_def max_f64_def)
  have tail: "nonneg (tail_probability m as observed)"
    "\<And>bits. bits < 2 ^ length as \<Longrightarrow> ?P bits \<Longrightarrow> num_le (?joint bits) (tail_probability m as observed)"
    using sum_selected [of "[0 ..< 2 ^ length as]" ?joint "Fin 0" ?P] joint zero
    unfolding tail_probability_def by auto
  obtain bits where bits: "bits < 2 ^ length as" "mask_outcomes as bits = map (\<lambda>a. (a, freshPass a)) as"
    using observed_mask by blast
  have "observed \<noteq> NaN" "wf_num observed"
    using surprisal_wf [OF assms(3) units [of bits]] unfolding observed_def bits(2) by auto
  moreover have "0 \<le> round64 (1 / 10 ^ 12)" by (rule round64_nonneg) simp
  moreover have "round64 (1 / 10 ^ 12) \<le> 1" using is_f64_of_int [of 1] by (intro round64_le) simp_all
  ultimately have "num_le observed (num_add observed (num_of (1 / 10 ^ 12)))"
    using max_safe_le_max_f64 num_le_add [of _ "round64 (1 / 10 ^ 12)"]
    by (cases observed) (auto simp: num_of_def Let_def max_safe_def)
  then have le: "num_le likelihood (tail_probability m as observed)"
    using tail(2) [OF bits(1)] unfolding bits(2) likelihood_def observed_def by simp
  have "tail_probability m as observed \<noteq> NaN" "limit \<noteq> NaN"
    using tail(1) lim by (auto simp: nonneg_def)
  then have passes: "drift_passes r \<longleftrightarrow> num_less limit (tail_probability m as observed)"
    unfolding r by (metis num_not_less)
  moreover have "num_less limit (tail_probability m as observed)" if "num_less limit likelihood"
    using that le by (cases limit; cases likelihood; cases "tail_probability m as observed") (auto simp: num_le_def num_eq_def)
  moreover have "\<exists>q. likelihood = Fin q \<and> 0 \<le> q \<and> q \<le> 1"
    using joint_probability_unit [of "map (\<lambda>a. (a, freshPass a)) as"] unit unfolding likelihood_def by auto
  ultimately show ?thesis using le r(1) by simp
qed

text \<open>A platform whose logarithm is constant, and an anchor that passed with probability one half.\<close>

definition half_anchor :: anchor_observation where
  "half_anchor = \<lparr>predictedPassProbability = Fin (1 / 2), freshPass = True, environmentFingerprintMatches = True\<rparr>"

theorem drift_tail_counts_outcome_witness:
  "\<exists>r. evaluateDrift (platform\<lparr>math_log := (\<lambda>_. Fin 0)\<rparr>) [half_anchor] (Fin (1 / 4)) = Inr r \<and> drift_passes r"
proof -
  let ?m = "platform\<lparr>math_log := (\<lambda>_. Fin 0)\<rparr>"
  have "\<exists>r. evaluateDrift ?m [half_anchor] (Fin (1 / 4)) = Inr r \<and> drift_reason r \<noteq> Drift_environment_mismatch"
    by (simp add: evaluateDrift_def half_anchor_def Let_def)
  then obtain r where r: "evaluateDrift ?m [half_anchor] (Fin (1 / 4)) = Inr r"
    "drift_reason r \<noteq> Drift_environment_mismatch" by blast
  have "log_finite ?m" by (simp add: log_finite_def)
  moreover have "\<forall>a \<in> set [half_anchor]. wf_num (predictedPassProbability a)"
    using half_f64 max_safe_le_max_f64 by (simp add: half_anchor_def max_safe_def)
  moreover have "joint_probability (map (\<lambda>a. (a, freshPass a)) [half_anchor]) = Fin (1 / 2)"
    using half_f64 max_safe_le_max_f64
    by (simp add: joint_probability_def half_anchor_def outcome_probability_def num_of_exact max_safe_def)
  ultimately show ?thesis using drift_tail_counts_outcome [OF r] r by auto
qed

subsection \<open>Drift anchors\<close>

lemma add_hit_ok:
  "add_hit h grouped hit = Inr g \<Longrightarrow>
   g = AList.update (driftCohortDigest h hit)
     ((case map_of grouped (driftCohortDigest h hit) of None \<Rightarrow> [] | Some hits \<Rightarrow> hits) @ [hit]) grouped"
  by (auto simp: add_hit_def Let_def split: if_splits)

lemma add_hits_group:
  "fold_result (add_hit h) [] hits = Inr g \<Longrightarrow> g = groupByStratum (driftCohortDigest h) hits"
proof (induction hits arbitrary: g rule: rev_induct)
  case Nil
  then show ?case by (simp add: groupByStratum_def)
next
  case (snoc hit hits)
  then obtain k where "fold_result (add_hit h) [] hits = Inr k" "add_hit h k hit = Inr g"
    by (auto simp: fold_result_append)
  then show ?case using snoc.IH [of k] add_hit_ok [of h k hit g] by (simp add: groupByStratum_def)
qed

lemma string_object_inject:
  assumes "string_object xs = string_object ys" shows "xs = ys"
proof -
  let ?p = "\<lambda>(key, v). serializeString key @ '':'' @ serializeString v"
  have eq: "join '','' (map ?p xs) @ CHR 0x7D # [] = join '','' (map ?p ys) @ CHR 0x7D # []"
    using assms by (simp add: string_object_def)
  have code: "x = y \<and> r = s" if "?p x @ r = ?p y @ s" for x y r s
  proof -
    have "serializeString (fst x) @ '':'' @ serializeString (snd x) @ r =
        serializeString (fst y) @ '':'' @ serializeString (snd y) @ s"
      using that by (cases x; cases y) simp
    from string_code [OF this] have key: "fst x = fst y"
      and rest: "serializeString (snd x) @ r = serializeString (snd y) @ s" by simp_all
    from string_code [OF rest] key show ?thesis by (simp add: prod_eq_iff)
  qed
  have first: "?p x \<noteq> [] \<and> hd (?p x) \<noteq> CHR 0x7D" for x
    using serializeString_first [of "fst x"] by (cases x) (simp add: hd_append)
  show ?thesis
  proof (rule join_code [THEN conjunct1, OF _ _ _ _ eq])
    show "x = y \<and> r = s" if "?p x @ r = ?p y @ s" for x y r s using that by (rule code)
    show "?p x \<noteq> [] \<and> hd (?p x) \<noteq> CHR 0x7D" for x by (rule first)
  qed (simp_all add: stop_def)
qed

lemma mset_groups: "mset (concat (map (\<lambda>s. filter (\<lambda>x. f x = s) xs) ks)) = mset xs"
  if "distinct ks" "f ` set xs \<subseteq> set ks"
  using that
proof (induction ks arbitrary: xs)
  case (Cons k ks)
  let ?rest = "filter (\<lambda>x. f x \<noteq> k) xs"
  have "filter (\<lambda>x. f x = s) ?rest = filter (\<lambda>x. f x = s) xs" if "s \<in> set ks" for s
    using that Cons.prems(1) by (auto intro!: filter_cong)
  then have "map (\<lambda>s. filter (\<lambda>x. f x = s) ?rest) ks = map (\<lambda>s. filter (\<lambda>x. f x = s) xs) ks" by simp
  moreover have "mset (concat (map (\<lambda>s. filter (\<lambda>x. f x = s) ?rest) ks)) = mset ?rest"
    using Cons.prems by (intro Cons.IH) auto
  moreover have "mset (filter (\<lambda>x. f x = k) xs) + mset ?rest = mset xs" by (simp only: mset_filter multiset_partition [symmetric])
  ultimately show ?case by (simp only: list.map concat.simps mset_append)
qed simp

lemma compareHits_comparator:
  assumes "comparator (locale_compare h) UNIV"
  shows "comparator (compareHits h) UNIV"
proof -
  have ids: "comparator (\<lambda>l r. locale_compare h (ch_taskId l) (ch_taskId r)) UNIV"
    using assms by (rule comparator_image) simp
  have exposure: "comparator (\<lambda>l r. exposureAge r - exposureAge l) UNIV"
    using int_key_comparator [of "\<lambda>l. - exposureAge l"] by simp
  have stale: "comparator (\<lambda>l r. freshnessRank (oldestFreshnessBand (ch_distribution r)) -
      freshnessRank (oldestFreshnessBand (ch_distribution l))) UNIV"
    using int_key_comparator [of "\<lambda>l. - freshnessRank (oldestFreshnessBand (ch_distribution l))"] by simp
  have "compareHits h = (\<lambda>l r. let d = freshnessRank (oldestFreshnessBand (ch_distribution r)) -
        freshnessRank (oldestFreshnessBand (ch_distribution l))
      in if d \<noteq> 0 then d else if exposureAge r - exposureAge l \<noteq> 0 then exposureAge r - exposureAge l
         else locale_compare h (ch_taskId l) (ch_taskId r))"
    by (auto simp: compareHits_def Let_def intro!: ext)
  then show ?thesis
    using comparator.tie_break [OF stale comparator.tie_break [OF exposure ids]] by (simp add: Let_def)
qed

lemma anchor_count_bounds:
  assumes "0 < n" shows "1 \<le> anchor_count n" "anchor_count n \<le> n" "n \<le> 4 * anchor_count n" "4 * anchor_count n < n + 4"
proof -
  have "n \<le> 4 * nat \<lceil>of_nat n * (1 / 4 :: rat)\<rceil>" "4 * nat \<lceil>of_nat n * (1 / 4 :: rat)\<rceil> < n + 4"
  proof -
    define c where "c = \<lceil>of_nat n * (1 / 4 :: rat)\<rceil>"
    have "of_int c - 1 < of_nat n * (1 / 4 :: rat)" "of_nat n * (1 / 4 :: rat) \<le> of_int c"
      unfolding c_def by linarith+
    then have "(of_int (4 * c) :: rat) < of_int (int n + 4)" "(of_int (int n) :: rat) \<le> of_int (4 * c)" by simp_all
    then have "4 * c < int n + 4" "int n \<le> 4 * c" by (simp_all only: of_int_less_iff of_int_le_iff)
    then show "n \<le> 4 * nat \<lceil>of_nat n * (1 / 4 :: rat)\<rceil>" "4 * nat \<lceil>of_nat n * (1 / 4 :: rat)\<rceil> < n + 4"
      unfolding c_def [symmetric] by linarith+
  qed
  then show "1 \<le> anchor_count n" "anchor_count n \<le> n" "n \<le> 4 * anchor_count n" "4 * anchor_count n < n + 4"
    using assms unfolding anchor_count_def by linarith+
qed

text \<open>
  C19. The drift cohorts partition the cache hits: every hit is in exactly one cohort, with its
  digest, and (if SHA-256 does not collide on them) two hits are in one cohort exactly when they
  agree on all key material but the task and on both strata. Each cohort runs a quarter of
  its hits again, rounded up and at least one, and no hit it leaves out is staler than an anchor.
\<close>

theorem drift_cohorts_partition:
  assumes "selectDriftAnchors h hits = Inr cs" "comparator (locale_compare h) UNIV"
    and "inj_on (sha256 h) (string_object ` cohort_members ` set hits)"
  shows "mset (concat (map cohort_hits cs)) = mset hits \<and> distinct (map cohortDigest cs) \<and>
    (\<forall>c \<in> set cs. \<forall>x \<in> set (cohort_hits c). driftCohortDigest h x = cohortDigest c \<and>
       (\<forall>y \<in> set hits. y \<in> set (cohort_hits c) \<longleftrightarrow> cohort_members x = cohort_members y)) \<and>
    (\<forall>c \<in> set cs. \<exists>rest. cohort_hits c = anchors c @ rest \<and> 0 < length (anchors c) \<and>
       length (cohort_hits c) \<le> 4 * length (anchors c) \<and> 4 * length (anchors c) < length (cohort_hits c) + 4 \<and>
       (\<forall>a \<in> set (anchors c). \<forall>b \<in> set rest.
          freshnessRank (oldestFreshnessBand (ch_distribution b)) \<le> freshnessRank (oldestFreshnessBand (ch_distribution a))))"
proof -
  let ?f = "driftCohortDigest h"
  define ks where "ks = new_set (map ?f hits)"
  let ?group = "\<lambda>s. filter (\<lambda>x. ?f x = s) hits"
  let ?sorted = "sort_by (\<lambda>(left, _) (right, _). locale_compare h left right) (map (\<lambda>s. (s, ?group s)) ks)"
  obtain grouped where "fold_result (add_hit h) [] hits = Inr grouped"
    and cs: "cs = map (make_cohort h) (sort_by (\<lambda>(left, _) (right, _). locale_compare h left right) grouped)"
    using assms(1) by (auto simp: selectDriftAnchors_def)
  then have "grouped = map (\<lambda>s. (s, ?group s)) ks"
    unfolding ks_def using add_hits_group [unfolded groupByStratum_eq] by blast
  note cs = cs [unfolded this]
  have cohort: "\<exists>s \<in> ks'. c = make_cohort h (s, ?group s)" if "c \<in> set cs" "ks' = set ks" for c ks'
    using that by (auto simp: cs)
  have fields: "cohortDigest (make_cohort h (s, xs)) = s" "set (cohort_hits (make_cohort h (s, xs))) = set xs"
    "mset (cohort_hits (make_cohort h (s, xs))) = mset xs" for s xs
    by (simp_all add: make_cohort_def Let_def)
  have digests: "mset (map cohortDigest cs) = mset ks"
  proof -
    have "map cohortDigest cs = map fst ?sorted" unfolding cs by (simp add: fields split_beta comp_def)
    then have "mset (map cohortDigest cs) = image_mset fst (mset ?sorted)" by (simp only: mset_map)
    then show ?thesis by (simp add: multiset.map_comp comp_def)
  qed
  have "mset (concat (map cohort_hits cs)) = sum_mset (image_mset (\<lambda>c. mset (cohort_hits c)) (mset cs))"
    by (simp add: mset_concat sum_mset_sum_list comp_def flip: mset_map)
  also have "mset cs = image_mset (make_cohort h) (image_mset (\<lambda>s. (s, ?group s)) (mset ks))"
    unfolding cs by (simp only: mset_map mset_sort_by)
  also have "image_mset (\<lambda>c. mset (cohort_hits c)) \<dots> = image_mset (\<lambda>s. mset (?group s)) (mset ks)"
    by (simp add: multiset.map_comp comp_def fields(3) del: mset_filter)
  also have "sum_mset \<dots> = mset (concat (map ?group ks))"
    by (simp add: mset_concat sum_mset_sum_list comp_def flip: mset_map)
  also have "\<dots> = mset hits" by (rule mset_groups) (auto simp: ks_def)
  finally have parts: "mset (concat (map cohort_hits cs)) = mset hits" .
  have "distinct (map cohortDigest cs)"
    using digests mset_eq_imp_distinct_iff unfolding ks_def by (metis distinct_new_set)
  moreover have "driftCohortDigest h x = cohortDigest c \<and>
      (\<forall>y \<in> set hits. y \<in> set (cohort_hits c) \<longleftrightarrow> cohort_members x = cohort_members y)"
    if c: "c \<in> set cs" "x \<in> set (cohort_hits c)" for c x
  proof -
    obtain s where s: "c = make_cohort h (s, ?group s)" using cohort [OF c(1) refl] by blast
    have x: "x \<in> set hits" "?f x = s" using c(2) unfolding s fields by auto
    have "?f y = s \<longleftrightarrow> cohort_members x = cohort_members y" if "y \<in> set hits" for y
    proof -
      have "?f y = ?f x \<longleftrightarrow> string_object (cohort_members y) = string_object (cohort_members x)"
        unfolding driftCohortDigest_def using that x(1) by (intro inj_on_eq_iff [OF assms(3)]) auto
      then show ?thesis using x(2) string_object_inject by metis
    qed
    then show ?thesis using x unfolding s fields by auto
  qed
  moreover have "\<exists>rest. cohort_hits c = anchors c @ rest \<and> 0 < length (anchors c) \<and>
       length (cohort_hits c) \<le> 4 * length (anchors c) \<and> 4 * length (anchors c) < length (cohort_hits c) + 4 \<and>
       (\<forall>a \<in> set (anchors c). \<forall>b \<in> set rest.
          freshnessRank (oldestFreshnessBand (ch_distribution b)) \<le> freshnessRank (oldestFreshnessBand (ch_distribution a)))"
    if c: "c \<in> set cs" for c
  proof -
    obtain s where s: "c = make_cohort h (s, ?group s)" "s \<in> set ks" using cohort [OF c refl] by blast
    let ?hits = "sort_by (compareHits h) (?group s)"
    let ?n = "anchor_count (length ?hits)"
    have fields': "cohort_hits c = ?hits" "anchors c = take ?n ?hits" unfolding s by (simp_all add: make_cohort_def Let_def)
    have "?group s \<noteq> []" using s(2) by (auto simp: ks_def filter_empty_conv)
    then have "0 < length ?hits" by simp
    note n = anchor_count_bounds [OF this]
    have len: "length (anchors c) = ?n" using n(2) by (simp add: fields')
    have stale: "freshnessRank (oldestFreshnessBand (ch_distribution b)) \<le> freshnessRank (oldestFreshnessBand (ch_distribution a))"
      if "a \<in> set (anchors c)" "b \<in> set (drop ?n ?hits)" for a b
    proof -
      have "compareHits h a b \<le> 0"
        using that unfolding fields'
        by (intro comparator.prefix_first [OF compareHits_comparator [OF assms(2)]]) auto
      then show ?thesis by (auto simp: compareHits_def Let_def split: if_splits)
    qed
    show ?thesis
      using n stale by (intro exI [of _ "drop ?n ?hits"] conjI) (simp_all add: fields' len)
  qed
  ultimately show ?thesis using parts by blast
qed

definition example_hit :: "string \<Rightarrow> freshness_band \<Rightarrow> cache_hit" where
  "example_hit task band = \<lparr>ch_taskId = task, ch_key = example_key,
     ch_distribution = \<lparr>validAttempts = 1, cd_passes = 1, cd_failures = 0, passRate = Fin 1, rewardMean = Fin 1,
       rewardVariance = Fin 0, cd_interval95 = \<lparr>lower = Fin 0, upper = Fin 1, width = Fin 1\<rparr>, oldestFreshnessBand = band,
       freshnessBands = [band], firstObservationAt = [], lastObservationAt = [], latencyMeanMs = Fin 1,
       tokenMean = Fin 1, costMeanUsd = Fin 0\<rparr>,
     exposureAge = 1, difficultyStratum = ''s'', capabilityStratum = ''c''\<rparr>"

theorem drift_cohorts_partition_witness:
  "\<exists>cs. selectDriftAnchors simple_host [example_hit ''a'' Fresh_day, example_hit ''b'' Fresh_week] = Inr cs \<and>
     mset (concat (map cohort_hits cs)) = {#example_hit ''a'' Fresh_day, example_hit ''b'' Fresh_week#}"
proof -
  let ?hits = "[example_hit ''a'' Fresh_day, example_hit ''b'' Fresh_week]"
  have "\<exists>cs. selectDriftAnchors simple_host ?hits = Inr cs"
    by (simp add: selectDriftAnchors_def add_hit_def example_hit_def safe_int_def max_safe_def Let_def)
  then obtain cs where cs: "selectDriftAnchors simple_host ?hits = Inr cs" by blast
  have "cohort_members ` set ?hits = {cohort_members (example_hit ''a'' Fresh_day)}"
    by (simp add: cohort_members_def example_hit_def Let_def)
  then have "inj_on (sha256 simple_host) (string_object ` cohort_members ` set ?hits)"
    by (simp only: image_insert image_empty inj_on_insert inj_on_empty) simp
  moreover have "comparator (locale_compare simple_host) UNIV"
    by unfold_locales (simp_all add: simple_host_def)
  ultimately have "mset (concat (map cohort_hits cs)) = mset ?hits"
    using drift_cohorts_partition [OF cs] by blast
  then show ?thesis using cs by simp
qed

end
