(* ===== verification/Campaign_State.thy ===== *)
theory Campaign_State
  imports Canonical_Json Compliance
begin

text \<open>
  The durable state of a campaign: the documents of \<open>schemas/control.ts\<close> as records, the
  transition rules of \<open>campaign/invariants.ts\<close> and the semantic rules \<open>schemas/registry.ts\<close> has for
  a campaign state. Two values are equal for the rules when their canonical texts are; a timestamp
  is read by the platform's \<open>Date.parse\<close>, and a comparison with one that does not parse is false.
\<close>

subsection \<open>The document\<close>

record champion_pointer =
  cp_experimentNumber :: int
  cp_commit :: string
  cp_sourceSealHash :: string

datatype control_status = Running | Stop_requested | Stopped | Paused

datatype stop_reason = Stop_operator | Stop_sigint | Stop_sigterm | Stop_system_shutdown

datatype pause_reason =
    Budget_exhausted | Holdout_exhausted | Pause_integrity | Pause_infrastructure | Pause_policy | Pause_publication

datatype inflight_kind = Optimization_kind | Shadow_kind

record campaign_control =
  ctl_status :: control_status
  runEpoch :: int
  stopRequestedAt :: "string option"
  stopReason :: "stop_reason option"
  stoppedAt :: "string option"
  pausedAt :: "string option"
  pauseReason :: "pause_reason option"
  pauseAttestationHash :: "string option"
  lastResumedAt :: "string option"
  lastResumeAuthorizationHash :: "string option"

record campaign_numbering =
  nextExperiment :: int
  inFlight :: "int option"
  inFlightKind :: "inflight_kind option"
  lastInterrupted :: "int option"

record campaign_champions =
  baseline_champion :: champion_pointer
  active_champion :: champion_pointer
  certified_champion :: "champion_pointer option"
  champions_updatedAt :: string

record campaign_limits =
  maximumUsd :: number
  maximumTokens :: int
  maximumWallTimeMs :: int
  maximumAttempts :: int
  maximumPrivacyReleases :: int
  maximumPromotionLooks :: int
  maximumOnlineError :: number

record campaign_usage =
  spentUsd :: number
  tokens :: int
  wallTimeMs :: int
  used_attempts :: int
  privacyReleases :: int
  promotionLooks :: int
  onlineErrorSpent :: number

record campaign_budget =
  bd_limits :: campaign_limits
  bd_usage :: campaign_usage
  bd_policyHash :: string
  authorizationHash :: string
  accountingAttestationHash :: string

record campaign_holdout =
  freshSets :: int
  shadowSlices :: int
  generation :: int
  ho_policyHash :: string
  availabilityAttestationHash :: string
  replenishmentAuthorizationHash :: "string option"

datatype decision_stage = Pre_validation | Validation_stage | Shadow_audit

datatype decision_outcome =
    Dec_promoted | Dec_rejected | Dec_inconclusive | Dec_certified | Dec_not_certified

record sealed_decision =
  dc_experimentNumber :: int
  dc_stage :: decision_stage
  dc_disposition :: decision_outcome
  decisionAttestationHash :: string
  dc_sealedAt :: string

record ledger_pointers =
  brokerExposure :: "string option"
  repeatedTesting :: "string option"
  privacyLedger :: "string option"
  cacheState :: "string option"
  publicationQueue :: "string option"

record campaign_reconstruction = ledger_pointers +
  lastSealed :: "int option"
  sealChainHead :: "string option"
  lastDecision :: "sealed_decision option"
  recoveryAuthorization :: "string option"
  recoveryLock :: "string option"

datatype provenance_artifact = Harness_registration | Campaign_state_artifact

record campaign_data =
  campaignId :: string
  campaign_mode :: run_mode
  baselineLineageId :: string
  cs_protocolHash :: string
  harnessRegistrationHash :: string
  control :: campaign_control
  numbering :: campaign_numbering
  champions :: campaign_champions
  budget :: campaign_budget
  holdout :: campaign_holdout
  reconstruction :: campaign_reconstruction

record campaign_state = campaign_data +
  createdAt :: string
  provenanceRefs :: "(provenance_artifact \<times> string) list"
  cs_revision :: int
  previousStateHash :: "string option"
  contentHash :: string

subsection \<open>Documents as JSON\<close>

fun opt_tree :: "('a \<Rightarrow> json) \<Rightarrow> 'a option \<Rightarrow> json" where
  "opt_tree f None = JNull"
| "opt_tree f (Some x) = f x"

abbreviation int_tree :: "int \<Rightarrow> json" where
  "int_tree n \<equiv> JNumber (of_int n)"

fun number_tree :: "number \<Rightarrow> json" where
  "number_tree (Fin a) = JNumber a"
| "number_tree _ = JNull"

definition pointer_tree :: "champion_pointer \<Rightarrow> json" where
  "pointer_tree p = json_object
     [(''experimentNumber'', int_tree (cp_experimentNumber p)), (''commit'', JString (cp_commit p)),
      (''sourceSealHash'', JString (cp_sourceSealHash p))]"

fun stage_name :: "decision_stage \<Rightarrow> string" where
  "stage_name Pre_validation = ''pre-validation''"
| "stage_name Validation_stage = ''validation''"
| "stage_name Shadow_audit = ''shadow''"

fun outcome_name :: "decision_outcome \<Rightarrow> string" where
  "outcome_name Dec_promoted = ''promoted''"
| "outcome_name Dec_rejected = ''rejected''"
| "outcome_name Dec_inconclusive = ''inconclusive''"
| "outcome_name Dec_certified = ''certified''"
| "outcome_name Dec_not_certified = ''not-certified''"

definition decision_tree :: "sealed_decision \<Rightarrow> json" where
  "decision_tree d = json_object
     [(''experimentNumber'', int_tree (dc_experimentNumber d)), (''stage'', JString (stage_name (dc_stage d))),
      (''disposition'', JString (outcome_name (dc_disposition d))),
      (''decisionAttestationHash'', JString (decisionAttestationHash d)), (''sealedAt'', JString (dc_sealedAt d))]"

fun artifact_name :: "provenance_artifact \<Rightarrow> string" where
  "artifact_name Harness_registration = ''harness-registration''"
| "artifact_name Campaign_state_artifact = ''campaign-state''"

definition provenance_tree :: "(provenance_artifact \<times> string) list \<Rightarrow> json" where
  "provenance_tree refs = JArray (map (\<lambda>(artifact, hash). json_object
     [(''artifactName'', JString (artifact_name artifact)), (''contentHash'', JString hash)]) refs)"

definition equal_json :: "host \<Rightarrow> json \<Rightarrow> json \<Rightarrow> bool" where
  "equal_json h left right \<longleftrightarrow> json_text h left = json_text h right"

definition same_pointer :: "host \<Rightarrow> champion_pointer \<Rightarrow> champion_pointer \<Rightarrow> bool" where
  "same_pointer h p q \<longleftrightarrow> equal_json h (pointer_tree p) (pointer_tree q)"

subsection \<open>Transition rules\<close>

abbreviation transition_fault :: "string \<Rightarrow> error" where
  "transition_fault \<equiv> CampaignTransitionError"

definition earlier :: "host \<Rightarrow> string \<Rightarrow> string \<Rightarrow> bool" where
  "earlier h a b \<longleftrightarrow>
     (case (date_parse h a, date_parse h b) of (Some s, Some t) \<Rightarrow> s < t | _ \<Rightarrow> False)"

text \<open>Two timestamps that are both present, the first before the second.\<close>

definition opt_earlier :: "host \<Rightarrow> string option \<Rightarrow> string option \<Rightarrow> bool" where
  "opt_earlier h a b \<longleftrightarrow> (case (a, b) of (Some s, Some t) \<Rightarrow> earlier h s t | _ \<Rightarrow> False)"

definition assertImmutable :: "host \<Rightarrow> json \<Rightarrow> json \<Rightarrow> unit result" where
  "assertImmutable h previous next =
     (if \<not> equal_json h previous next
      then Inl (transition_fault ''Value is immutable within a campaign lineage'') else Inr ())"

definition assertPointerDidNotRegress :: "host \<Rightarrow> champion_pointer \<Rightarrow> champion_pointer \<Rightarrow> unit result" where
  "assertPointerDidNotRegress h previous next = guards
     [(cp_experimentNumber next < cp_experimentNumber previous,
       transition_fault ''experiment number cannot decrease''),
      (cp_experimentNumber next = cp_experimentNumber previous \<and> \<not> same_pointer h previous next,
       transition_fault ''cannot change without advancing its experiment number'')]"

definition sameChampionIdentity :: "champion_pointer \<Rightarrow> champion_pointer \<Rightarrow> bool" where
  "sameChampionIdentity l r \<longleftrightarrow>
     cp_experimentNumber l = cp_experimentNumber r \<and> cp_commit l = cp_commit r"

fun allowed_status :: "control_status \<Rightarrow> control_status list" where
  "allowed_status Running = [Running, Stop_requested, Paused]"
| "allowed_status Stop_requested = [Stop_requested, Stopped]"
| "allowed_status Stopped = [Stopped, Running]"
| "allowed_status Paused = [Paused, Stop_requested, Running]"

definition assertControlTransition :: "host \<Rightarrow> ('a) campaign_data_scheme \<Rightarrow> ('a) campaign_data_scheme \<Rightarrow> unit result" where
  "assertControlTransition h previous next =
     (let prior = control previous; current = control next;
          resumed = (ctl_status current = Running \<and> (ctl_status prior = Stopped \<or> ctl_status prior = Paused));
          expectedEpoch = (if resumed then runEpoch prior + 1 else runEpoch prior)
      in guards
       [(ctl_status current \<notin> set (allowed_status (ctl_status prior)),
         transition_fault ''Campaign control cannot transition''),
        (runEpoch current \<noteq> expectedEpoch,
         transition_fault ''runEpoch must increase exactly once on resume and remain stable otherwise''),
        (resumed \<and> (lastResumedAt current = None \<or> lastResumeAuthorizationHash current = None \<or>
           lastResumeAuthorizationHash current = lastResumeAuthorizationHash prior),
         transition_fault ''Resume requires a new timestamp and authorization hash''),
        (\<not> resumed \<and> (lastResumedAt current \<noteq> lastResumedAt prior \<or>
           lastResumeAuthorizationHash current \<noteq> lastResumeAuthorizationHash prior),
         transition_fault ''Resume metadata can change only during a resume transition''),
        ((ctl_status prior = Stop_requested \<or> ctl_status prior = Stopped) \<and>
         (ctl_status current = Stop_requested \<or> ctl_status current = Stopped) \<and>
         (stopRequestedAt current \<noteq> stopRequestedAt prior \<or> stopReason current \<noteq> stopReason prior),
         transition_fault ''Stop transitions must preserve the original stop request''),
        (ctl_status prior = Stopped \<and> ctl_status current = Stopped \<and> stoppedAt current \<noteq> stoppedAt prior,
         transition_fault ''A durable stop acknowledgement is immutable''),
        (ctl_status prior = Paused \<and> ctl_status current = Paused \<and>
         (pausedAt current \<noteq> pausedAt prior \<or> pauseReason current \<noteq> pauseReason prior \<or>
          pauseAttestationHash current \<noteq> pauseAttestationHash prior),
         transition_fault ''A durable pause record is immutable''),
        (ctl_status current = Stopped \<and> opt_earlier h (stoppedAt current) (stopRequestedAt current),
         transition_fault ''stoppedAt cannot precede stopRequestedAt''),
        (opt_earlier h (lastResumedAt current) (lastResumedAt prior),
         transition_fault ''lastResumedAt cannot move backward'')])"

text \<open>\<open>x ?? d\<close>\<close>

definition or_else :: "'a option \<Rightarrow> 'a \<Rightarrow> 'a" where
  "or_else x d = (case x of None \<Rightarrow> d | Some y \<Rightarrow> y)"

definition assertNumberingTransition :: "('a) campaign_data_scheme \<Rightarrow> ('a) campaign_data_scheme \<Rightarrow> unit result" where
  "assertNumberingTransition previous next =
     (let prior = numbering previous; current = numbering next;
          allocated = (nextExperiment current = nextExperiment prior + 1);
          priorInterrupted = or_else (lastInterrupted prior) 0;
          currentInterrupted = or_else (lastInterrupted current) 0
      in guards
       [(nextExperiment current < nextExperiment prior \<or> nextExperiment prior + 1 < nextExperiment current,
         transition_fault ''nextExperimentNumber may advance by at most one and cannot decrease''),
        (allocated \<and> (inFlight prior \<noteq> None \<or> inFlight current \<noteq> Some (nextExperiment prior) \<or>
           inFlightKind current = None),
         transition_fault ''Advancing nextExperimentNumber must allocate that number as the sole in-flight experiment''),
        (\<not> allocated \<and> inFlight current \<noteq> inFlight prior \<and> inFlight current \<noteq> None,
         transition_fault ''A new in-flight experiment requires monotonic number allocation''),
        ((inFlight current = None) \<noteq> (inFlightKind current = None),
         transition_fault ''In-flight experiment number and kind must be present together''),
        (\<not> allocated \<and> inFlight current = inFlight prior \<and> inFlightKind current \<noteq> inFlightKind prior,
         transition_fault ''In-flight experiment kind is immutable after allocation''),
        (currentInterrupted < priorInterrupted,
         transition_fault ''lastInterruptedExperimentNumber cannot decrease''),
        (priorInterrupted < currentInterrupted \<and> Some currentInterrupted \<noteq> inFlight prior,
         transition_fault ''Only the previously in-flight experiment can become the interrupted pointer''),
        (priorInterrupted < currentInterrupted \<and> inFlight current \<noteq> None,
         transition_fault ''An interrupted experiment cannot remain in flight''),
        (inFlight prior \<noteq> None \<and> inFlight current = None \<and> lastInterrupted current \<noteq> inFlight prior \<and>
         lastSealed (reconstruction next) \<noteq> inFlight prior,
         transition_fault ''Clearing an in-flight experiment requires a sealed or interrupted durable pointer''),
        (ctl_status (control next) = Stopped \<and> inFlight current \<noteq> None,
         transition_fault ''A stopped campaign cannot retain an in-flight experiment'')])"

definition opt_pointer_tree :: "champion_pointer option \<Rightarrow> json" where
  "opt_pointer_tree = opt_tree pointer_tree"

definition activeAdvanced :: "('a) campaign_data_scheme \<Rightarrow> ('a) campaign_data_scheme \<Rightarrow> bool" where
  "activeAdvanced previous next \<longleftrightarrow>
     cp_experimentNumber (active_champion (champions previous)) < cp_experimentNumber (active_champion (champions next))"

definition assertChampionTransition ::
    "host \<Rightarrow> ('a) campaign_data_scheme \<Rightarrow> ('a) campaign_data_scheme \<Rightarrow> unit result" where
  "assertChampionTransition h previous next =
     (let prior = champions previous; current = champions next;
          rc = reconstruction next; rp = reconstruction previous
      in
      and_then (assertImmutable h (pointer_tree (baseline_champion prior)) (pointer_tree (baseline_champion current))) (\<lambda>_.
      and_then (assertPointerDidNotRegress h (active_champion prior) (active_champion current)) (\<lambda>_.
      let priorCertified = certified_champion prior; currentCertified = certified_champion current;
          certifiedAdvanced = (case currentCertified of None \<Rightarrow> False
            | Some c \<Rightarrow> (case priorCertified of None \<Rightarrow> True
                | Some p \<Rightarrow> cp_experimentNumber p < cp_experimentNumber c));
          advanced = activeAdvanced previous next;
          pointersChanged = (\<not> same_pointer h (active_champion prior) (active_champion current) \<or>
            \<not> equal_json h (opt_pointer_tree priorCertified) (opt_pointer_tree currentCertified));
          sealAdvanced = (or_else (lastSealed rp) (- 1) < or_else (lastSealed rc) (- 1))
      in
      and_then (guards [(priorCertified \<noteq> None \<and> currentCertified = None,
        transition_fault ''Certified champion cannot be cleared'')]) (\<lambda>_.
      and_then (case (priorCertified, currentCertified) of
          (Some p, Some c) \<Rightarrow> assertPointerDidNotRegress h p c | _ \<Rightarrow> Inr ()) (\<lambda>_.
      guards
       [(certifiedAdvanced \<and> \<not> sameChampionIdentity (the currentCertified) (active_champion current),
         transition_fault ''A newly certified champion must be the current active champion''),
        ((case currentCertified of None \<Rightarrow> False | Some c \<Rightarrow> cp_experimentNumber c = 0),
         transition_fault ''Experiment 000 is a baseline anchor, not a certified improvement''),
        (certifiedAdvanced \<and> Some (cp_sourceSealHash (the currentCertified)) \<noteq> sealChainHead rc,
         transition_fault ''Certification must bind the newly sealed feedback-dark audit''),
        (advanced \<and> (lastSealed rc \<noteq> Some (cp_experimentNumber (active_champion current)) \<or>
           sealChainHead rc \<noteq> Some (cp_sourceSealHash (active_champion current))),
         transition_fault ''An active champion can advance only to the newly sealed experiment''),
        (advanced \<and> freshSets (holdout next) \<noteq> freshSets (holdout previous) - 1,
         transition_fault ''Active promotion must atomically consume one fresh-validation set''),
        (certifiedAdvanced \<and> advanced,
         transition_fault ''Active promotion and feedback-dark certification require separate experiments''),
        (certifiedAdvanced \<and> (case lastSealed rc of None \<Rightarrow> True
           | Some n \<Rightarrow> n \<le> cp_experimentNumber (active_champion current)),
         transition_fault ''Certification must come from a later feedback-dark audit experiment''),
        (certifiedAdvanced \<and> shadowSlices (holdout next) \<noteq> shadowSlices (holdout previous) - 1,
         transition_fault ''Certification must atomically consume one shadow slice''),
        (pointersChanged \<and> \<not> sealAdvanced,
         transition_fault ''Champion pointers can change only with a newly sealed decision''),
        (pointersChanged \<and> earlier h (champions_updatedAt current) (champions_updatedAt prior),
         transition_fault ''Champion pointer timestamp cannot move backward''),
        (\<not> pointersChanged \<and> champions_updatedAt current \<noteq> champions_updatedAt prior,
         transition_fault ''Champion timestamp cannot change when neither pointer changed'')])))))"

definition usage_values :: "campaign_usage \<Rightarrow> number list" where
  "usage_values u = [spentUsd u, num_of_int (tokens u), num_of_int (wallTimeMs u), num_of_int (used_attempts u),
     num_of_int (privacyReleases u), num_of_int (promotionLooks u), onlineErrorSpent u]"

definition limit_values :: "campaign_limits \<Rightarrow> number list" where
  "limit_values l = [maximumUsd l, num_of_int (maximumTokens l), num_of_int (maximumWallTimeMs l),
     num_of_int (maximumAttempts l), num_of_int (maximumPrivacyReleases l), num_of_int (maximumPromotionLooks l),
     maximumOnlineError l]"

definition extensible_limits :: "campaign_limits \<Rightarrow> number list" where
  "extensible_limits l = take 4 (limit_values l)"

definition frozen_limits :: "campaign_limits \<Rightarrow> number list" where
  "frozen_limits l = drop 4 (limit_values l)"

definition numbers_differ :: "number list \<Rightarrow> number list \<Rightarrow> bool" where
  "numbers_differ xs ys \<longleftrightarrow> list_ex (\<lambda>(x, y). \<not> num_eq x y) (zip xs ys)"

definition assertBudgetTransition ::
    "host \<Rightarrow> ('a) campaign_data_scheme \<Rightarrow> ('a) campaign_data_scheme \<Rightarrow> unit result" where
  "assertBudgetTransition h previous next =
     (let prior = budget previous; current = budget next;
          usageChanged = numbers_differ (usage_values (bd_usage current)) (usage_values (bd_usage prior));
          limitsChanged = numbers_differ (extensible_limits (bd_limits current)) (extensible_limits (bd_limits prior))
      in
      and_then (assertImmutable h (JString (bd_policyHash prior)) (JString (bd_policyHash current))) (\<lambda>_.
      guards (
        concat (map (\<lambda>(now, before, limit).
          [(num_less now before, transition_fault ''Budget usage cannot decrease''),
           (num_less limit now, transition_fault ''Budget usage cannot exceed limit'')])
          (zip (usage_values (bd_usage current))
             (zip (usage_values (bd_usage prior)) (limit_values (bd_limits current))))) @
        map (\<lambda>(now, before). (num_less now before, transition_fault ''Budget limit cannot decrease''))
          (zip (extensible_limits (bd_limits current)) (extensible_limits (bd_limits prior))) @
        map (\<lambda>(now, before). (\<not> num_eq now before,
            transition_fault ''Statistical/privacy budget limit is frozen for the lineage''))
          (zip (frozen_limits (bd_limits current)) (frozen_limits (bd_limits prior))) @
        [(limitsChanged \<and> authorizationHash current = authorizationHash prior,
          transition_fault ''Increasing a budget limit requires a new authorization hash''),
         (\<not> limitsChanged \<and> authorizationHash current \<noteq> authorizationHash prior,
          transition_fault ''Budget authorization hash cannot change when limits are unchanged''),
         (usageChanged \<and> accountingAttestationHash current = accountingAttestationHash prior,
          transition_fault ''Budget usage changes require a new accounting attestation''),
         (\<not> usageChanged \<and> accountingAttestationHash current \<noteq> accountingAttestationHash prior,
          transition_fault ''Budget accounting attestation cannot change without a usage change'')])))"

definition assertHoldoutTransition ::
    "host \<Rightarrow> ('a) campaign_data_scheme \<Rightarrow> ('a) campaign_data_scheme \<Rightarrow> unit result" where
  "assertHoldoutTransition h previous next =
     (let prior = holdout previous; current = holdout next;
          replenished = (generation current = generation prior + 1);
          capacityIncreased = (freshSets prior < freshSets current \<or> shadowSlices prior < shadowSlices current);
          payloadChanged = (freshSets current \<noteq> freshSets prior \<or> shadowSlices current \<noteq> shadowSlices prior \<or>
            generation current \<noteq> generation prior \<or>
            replenishmentAuthorizationHash current \<noteq> replenishmentAuthorizationHash prior)
      in
      and_then (assertImmutable h (JString (ho_policyHash prior)) (JString (ho_policyHash current))) (\<lambda>_.
      guards
       [(generation current < generation prior \<or> generation prior + 1 < generation current,
         transition_fault ''Holdout generation may advance by at most one and cannot decrease''),
        (replenished \<and> \<not> capacityIncreased,
         transition_fault ''A new holdout generation must increase at least one capacity''),
        (capacityIncreased \<and> \<not> replenished,
         transition_fault ''Holdout capacity can increase only in a new authorized generation''),
        (replenished \<and> (replenishmentAuthorizationHash current = None \<or>
           replenishmentAuthorizationHash current = replenishmentAuthorizationHash prior),
         transition_fault ''A new holdout generation requires a new replenishment authorization''),
        (\<not> replenished \<and> replenishmentAuthorizationHash current \<noteq> replenishmentAuthorizationHash prior,
         transition_fault ''Holdout replenishment authorization can change only with its generation''),
        (payloadChanged \<and> availabilityAttestationHash current = availabilityAttestationHash prior,
         transition_fault ''Holdout state changes require a new availability attestation''),
        (\<not> payloadChanged \<and> availabilityAttestationHash current \<noteq> availabilityAttestationHash prior,
         transition_fault ''Holdout attestation cannot change without a holdout-state change'')]))"

text \<open>The rules for a newly sealed decision, in the block of the code that runs only with one.\<close>

definition sealed_decision_rules ::
    "host \<Rightarrow> campaign_state \<Rightarrow> campaign_state \<Rightarrow> sealed_decision \<Rightarrow> (bool \<times> error) list" where
  "sealed_decision_rules h previous next decision =
     (let priorFresh = freshSets (holdout previous); currentFresh = freshSets (holdout next);
          priorShadow = shadowSlices (holdout previous); currentShadow = shadowSlices (holdout next);
          expectedKind = (if dc_stage decision = Shadow_audit then Shadow_kind else Optimization_kind);
          certifiedNumber = (\<lambda>s. case certified_champion (champions s) of None \<Rightarrow> - 1
            | Some c \<Rightarrow> cp_experimentNumber c)
      in
       [(earlier h (dc_sealedAt decision) (createdAt previous) \<or> earlier h (createdAt next) (dc_sealedAt decision),
         transition_fault ''A sealed decision timestamp must fall within its campaign transition''),
        (dc_stage decision = Validation_stage \<and> (currentFresh \<noteq> priorFresh - 1 \<or> currentShadow \<noteq> priorShadow),
         transition_fault ''Every decided validation must consume exactly one fresh-validation set''),
        (dc_stage decision = Shadow_audit \<and> (currentShadow \<noteq> priorShadow - 1 \<or> currentFresh \<noteq> priorFresh),
         transition_fault ''Every decided shadow audit must consume exactly one shadow slice''),
        (dc_stage decision = Pre_validation \<and> (currentFresh \<noteq> priorFresh \<or> currentShadow \<noteq> priorShadow),
         transition_fault ''A pre-validation disposition cannot consume holdout capacity''),
        (inFlightKind (numbering previous) \<noteq> Some expectedKind,
         transition_fault ''Sealed decision stage must match the allocated experiment kind''),
        ((dc_stage decision = Validation_stage \<and> dc_disposition decision = Dec_promoted) \<noteq>
           activeAdvanced previous next,
         transition_fault ''Active champion movement must match the signed validation disposition''),
        ((dc_stage decision = Shadow_audit \<and> dc_disposition decision = Dec_certified) \<noteq>
           (certifiedNumber previous < certifiedNumber next),
         transition_fault ''Certified champion movement must match the signed shadow disposition'')])"

definition pointer_list :: "campaign_reconstruction \<Rightarrow> string option list" where
  "pointer_list r = [brokerExposure r, repeatedTesting r, privacyLedger r, cacheState r, publicationQueue r]"

definition assertReconstructionTransition :: "host \<Rightarrow> campaign_state \<Rightarrow> campaign_state \<Rightarrow> unit result" where
  "assertReconstructionTransition h previous next =
     (let prior = reconstruction previous; current = reconstruction next;
          priorNumber = or_else (lastSealed prior) (- 1); currentNumber = or_else (lastSealed current) (- 1);
          sealAdvanced = (priorNumber < currentNumber);
          interruptionAdvanced = (or_else (lastInterrupted (numbering previous)) (- 1) <
            or_else (lastInterrupted (numbering next)) (- 1))
      in guards (
       [(currentNumber < priorNumber, transition_fault ''Last fully sealed experiment cannot move backward''),
        (currentNumber = priorNumber \<and> sealChainHead current \<noteq> sealChainHead prior,
         transition_fault ''Seal-chain head cannot change without a newly sealed experiment''),
        (sealAdvanced \<and> inFlight (numbering previous) \<noteq> Some currentNumber,
         transition_fault ''Only the previously in-flight experiment can advance the seal-chain pointer''),
        (sealAdvanced \<and> (sealChainHead current = None \<or> sealChainHead current = sealChainHead prior),
         transition_fault ''A newly sealed experiment requires a distinct next seal-chain head''),
        (sealAdvanced \<and> inFlight (numbering next) \<noteq> None,
         transition_fault ''A fully sealed experiment cannot remain in flight''),
        (currentNumber = priorNumber \<and>
           \<not> equal_json h (opt_tree decision_tree (lastDecision prior)) (opt_tree decision_tree (lastDecision current)),
         transition_fault ''Last sealed decision cannot change without a new sealed experiment''),
        (sealAdvanced \<and> (case lastDecision current of None \<Rightarrow> True
           | Some d \<Rightarrow> dc_experimentNumber d \<noteq> currentNumber),
         transition_fault ''Every newly sealed experiment requires its signed terminal decision'')] @
       (case lastDecision current of
          Some decision \<Rightarrow> if sealAdvanced then sealed_decision_rules h previous next decision else []
        | None \<Rightarrow> []) @
       [((recoveryAuthorization current \<noteq> recoveryAuthorization prior) \<noteq> (recoveryLock current \<noteq> recoveryLock prior),
         transition_fault ''Controller recovery authorization and observed-lock hash must advance together''),
        (sealAdvanced \<and> interruptionAdvanced,
         transition_fault ''One experiment cannot be both fully sealed and interrupted''),
        (interruptionAdvanced \<and> brokerExposure current = brokerExposure prior,
         transition_fault ''Interrupted work must advance the broker-exposure attestation'')] @
       map (\<lambda>(before, now). (before \<noteq> None \<and> now = None,
           transition_fault ''Reconstruction pointer cannot be cleared''))
         (zip (pointer_list prior @ [recoveryAuthorization prior, recoveryLock prior])
            (pointer_list current @ [recoveryAuthorization current, recoveryLock current]))))"

definition assertInitialCampaignState :: "host \<Rightarrow> campaign_state \<Rightarrow> unit result" where
  "assertInitialCampaignState h s =
     (let ctl = control s; nb = numbering s; chp = champions s; rc = reconstruction s in guards
       [(cs_revision s \<noteq> 0 \<or> previousStateHash s \<noteq> None,
         transition_fault ''Initial campaign state must be revision zero without a predecessor''),
        (ctl_status ctl \<noteq> Running \<or> runEpoch ctl \<noteq> 0 \<or> lastResumedAt ctl \<noteq> None \<or>
         lastResumeAuthorizationHash ctl \<noteq> None \<or> nextExperiment nb \<noteq> 1 \<or> inFlight nb \<noteq> None \<or>
         inFlightKind nb \<noteq> None \<or> lastInterrupted nb \<noteq> None,
         transition_fault ''A new campaign must begin running at experiment number 1 with no in-flight work''),
        (cp_experimentNumber (baseline_champion chp) \<noteq> 0 \<or>
         \<not> same_pointer h (baseline_champion chp) (active_champion chp),
         transition_fault ''A new campaign must begin with experiment 000 as its active baseline''),
        (certified_champion chp \<noteq> None,
         transition_fault ''A baseline cannot be labeled a certified improvement''),
        (lastSealed rc \<noteq> Some 0 \<or> sealChainHead rc \<noteq> Some (cp_sourceSealHash (baseline_champion chp)),
         transition_fault ''Initial reconstruction state must point to the sealed baseline''),
        (lastDecision rc \<noteq> None \<or> brokerExposure rc = None \<or> repeatedTesting rc = None \<or> privacyLedger rc = None \<or>
         recoveryAuthorization rc \<noteq> None \<or> recoveryLock rc \<noteq> None,
         transition_fault ''Initial campaign must bind mandatory ledgers without prior control decisions''),
        (\<not> equal_json h (provenance_tree (provenanceRefs s))
             (provenance_tree [(Harness_registration, harnessRegistrationHash s)]),
         transition_fault ''Initial campaign provenance must bind the harness registration'')])"

fun mode_name :: "run_mode \<Rightarrow> string" where
  "mode_name Research = ''research''"
| "mode_name Submission = ''submission''"

definition assertCampaignStateTransition :: "host \<Rightarrow> campaign_state \<Rightarrow> campaign_state \<Rightarrow> unit result" where
  "assertCampaignStateTransition h previous next =
     and_then (assertImmutable h (JString (campaignId previous)) (JString (campaignId next))) (\<lambda>_.
     and_then (assertImmutable h (JString (mode_name (campaign_mode previous))) (JString (mode_name (campaign_mode next)))) (\<lambda>_.
     and_then (assertImmutable h (JString (baselineLineageId previous)) (JString (baselineLineageId next))) (\<lambda>_.
     and_then (assertImmutable h (JString (cs_protocolHash previous)) (JString (cs_protocolHash next))) (\<lambda>_.
     and_then (assertImmutable h (JString (harnessRegistrationHash previous)) (JString (harnessRegistrationHash next))) (\<lambda>_.
     and_then (guards
       [(cs_revision next \<noteq> cs_revision previous + 1 \<or> previousStateHash next \<noteq> Some (contentHash previous),
         transition_fault ''Campaign revisions must form a contiguous content-hash chain''),
        (\<not> equal_json h (provenance_tree (provenanceRefs next))
             (provenance_tree [(Harness_registration, harnessRegistrationHash next),
                (Campaign_state_artifact, contentHash previous)]),
         transition_fault ''Campaign revision provenance must bind its harness and predecessor''),
        (earlier h (createdAt next) (createdAt previous),
         transition_fault ''Campaign revision timestamps cannot move backward'')]) (\<lambda>_.
     and_then (assertControlTransition h previous next) (\<lambda>_.
     and_then (assertNumberingTransition previous next) (\<lambda>_.
     and_then (assertChampionTransition h previous next) (\<lambda>_.
     and_then (assertBudgetTransition h previous next) (\<lambda>_.
     and_then (assertHoldoutTransition h previous next) (\<lambda>_.
       assertReconstructionTransition h previous next)))))))))))"

subsection \<open>Validity of a document\<close>

abbreviation schema_fault :: "string \<Rightarrow> error" where
  "schema_fault \<equiv> SchemaValidationError"

definition control_mismatch :: "campaign_control \<Rightarrow> bool" where
  "control_mismatch c \<longleftrightarrow>
     (let status = ctl_status c;
          hasStop = (stopRequestedAt c \<noteq> None \<and> stopReason c \<noteq> None \<and>
            (status = Stop_requested \<or> status = Stopped));
          hasPause = (pausedAt c \<noteq> None \<and> pauseReason c \<noteq> None \<and> pauseAttestationHash c \<noteq> None \<and> status = Paused)
      in status = Running \<and> (stopRequestedAt c \<noteq> None \<or> stopReason c \<noteq> None \<or> stoppedAt c \<noteq> None \<or>
           pausedAt c \<noteq> None \<or> pauseReason c \<noteq> None \<or> pauseAttestationHash c \<noteq> None) \<or>
         (status = Stop_requested \<or> status = Stopped) \<and>
           (\<not> hasStop \<or> pausedAt c \<noteq> None \<or> pauseReason c \<noteq> None \<or> pauseAttestationHash c \<noteq> None) \<or>
         status = Stop_requested \<and> stoppedAt c \<noteq> None \<or>
         status = Stopped \<and> stoppedAt c = None \<or>
         status = Paused \<and> (\<not> hasPause \<or> stopRequestedAt c \<noteq> None \<or> stopReason c \<noteq> None \<or> stoppedAt c \<noteq> None))"

definition not_below :: "int option \<Rightarrow> int \<Rightarrow> bool" where
  "not_below x n \<longleftrightarrow> (case x of None \<Rightarrow> False | Some k \<Rightarrow> n \<le> k)"

definition assertCampaignSemantics :: "host \<Rightarrow> campaign_state \<Rightarrow> unit result" where
  "assertCampaignSemantics h s =
     (let ctl = control s; nb = numbering s; chp = champions s; rc = reconstruction s; nextNumber = nextExperiment nb
      in guards (
       [(cs_revision s = 0 \<and> previousStateHash s \<noteq> None \<or> 0 < cs_revision s \<and> previousStateHash s = None,
         schema_fault ''/previousStateHash must be null exactly for campaign revision zero''),
        (\<not> equal_json h (provenance_tree (provenanceRefs s))
             (provenance_tree (if cs_revision s = 0 then [(Harness_registration, harnessRegistrationHash s)]
                else [(Harness_registration, harnessRegistrationHash s),
                      (Campaign_state_artifact, or_else (previousStateHash s) [])])),
         schema_fault ''/provenanceRefs must bind the harness registration and immediate campaign predecessor''),
        (control_mismatch ctl, schema_fault ''/control control timestamps and reasons must agree with status''),
        ((lastResumedAt ctl = None) \<noteq> (lastResumeAuthorizationHash ctl = None),
         schema_fault ''/control resume timestamp and authorization hash must be present together''),
        (runEpoch ctl = 0 \<and> (lastResumedAt ctl \<noteq> None \<or> lastResumeAuthorizationHash ctl \<noteq> None),
         schema_fault ''/control/runEpoch epoch zero cannot contain resume metadata''),
        (not_below (inFlight nb) nextNumber,
         schema_fault ''/numbering/inFlightExperimentNumber must be below nextExperimentNumber''),
        (not_below (lastInterrupted nb) nextNumber,
         schema_fault ''/numbering/lastInterruptedExperimentNumber must be below nextExperimentNumber''),
        (ctl_status ctl = Stopped \<and> inFlight nb \<noteq> None,
         schema_fault ''/numbering/inFlightExperimentNumber must be null while the campaign is stopped''),
        ((inFlight nb = None) \<noteq> (inFlightKind nb = None),
         schema_fault ''/numbering in-flight experiment number and kind must be present together''),
        (cp_experimentNumber (baseline_champion chp) \<noteq> 0,
         schema_fault ''/champions/baseline/experimentNumber baseline must be experiment 0''),
        (nextNumber \<le> cp_experimentNumber (active_champion chp),
         schema_fault ''/champions/active/experimentNumber active champion must precede nextExperimentNumber''),
        ((case certified_champion chp of None \<Rightarrow> False
           | Some c \<Rightarrow> cp_experimentNumber (active_champion chp) < cp_experimentNumber c),
         schema_fault ''/champions/certified/experimentNumber certified champion cannot be newer than the active champion'')] @
       map (\<lambda>(usage, limit). (num_less limit usage, schema_fault ''/budget/usage must not exceed its limit''))
         (zip (usage_values (bd_usage (budget s))) (limit_values (bd_limits (budget s)))) @
       [((lastSealed rc = None) \<noteq> (sealChainHead rc = None),
         schema_fault ''/reconstruction sealed experiment number and seal-chain head must be present together''),
        ((recoveryAuthorization rc = None) \<noteq> (recoveryLock rc = None),
         schema_fault ''/reconstruction controller recovery authorization and observed-lock hash must be present together''),
        ((case lastDecision rc of None \<Rightarrow> False | Some d \<Rightarrow> Some (dc_experimentNumber d) \<noteq> lastSealed rc),
         schema_fault ''/reconstruction/lastSealedDecision must describe the last fully sealed experiment''),
        (not_below (lastSealed rc) nextNumber,
         schema_fault ''/reconstruction/lastFullySealedExperimentNumber must precede nextExperimentNumber'')]))"

text \<open>
  The shape \<open>schemas/control.ts\<close> gives the fields; a format of the schema validator (\<open>date-time\<close>)
  is a parameter. \<open>SafeIdentifierSchema\<close>: \<open>^[a-z0-9](?:[a-z0-9._-]*[a-z0-9])?$\<close>, at most 96 characters.
\<close>

definition safe_identifier :: "string \<Rightarrow> bool" where
  "safe_identifier s \<longleftrightarrow> s \<noteq> [] \<and> length s \<le> 96 \<and> lower_alnum (hd s) \<and> lower_alnum (last s) \<and>
     list_all (\<lambda>c. lower_alnum c \<or> c \<in> set ''._-'') s"

definition counter :: "int \<Rightarrow> bool" where
  "counter n \<longleftrightarrow> 0 \<le> n \<and> n \<le> max_safe"

definition positive_counter :: "int \<Rightarrow> bool" where
  "positive_counter n \<longleftrightarrow> 1 \<le> n \<and> n \<le> max_safe"

definition opt_all :: "('a \<Rightarrow> bool) \<Rightarrow> 'a option \<Rightarrow> bool" where
  "opt_all P x \<longleftrightarrow> (case x of None \<Rightarrow> True | Some y \<Rightarrow> P y)"

definition pointer_shape :: "champion_pointer \<Rightarrow> bool" where
  "pointer_shape p \<longleftrightarrow> counter (cp_experimentNumber p) \<and> is_git_oid (cp_commit p) \<and> is_sha256 (cp_sourceSealHash p)"

definition unit_number :: "number \<Rightarrow> bool" where
  "unit_number x \<longleftrightarrow> num_le (Fin 0) x \<and> num_le x (Fin 1)"

definition amount_shape :: "number \<Rightarrow> bool" where
  "amount_shape x \<longleftrightarrow> is_finite x \<and> num_le (Fin 0) x"

definition decision_shape :: "(string \<Rightarrow> bool) \<Rightarrow> sealed_decision \<Rightarrow> bool" where
  "decision_shape date_time d \<longleftrightarrow>
     positive_counter (dc_experimentNumber d) \<and> is_sha256 (decisionAttestationHash d) \<and> date_time (dc_sealedAt d) \<and>
     dc_disposition d \<in> set (case dc_stage d of
       Pre_validation \<Rightarrow> [Dec_rejected, Dec_inconclusive]
     | Validation_stage \<Rightarrow> [Dec_promoted, Dec_rejected, Dec_inconclusive]
     | Shadow_audit \<Rightarrow> [Dec_certified, Dec_not_certified, Dec_inconclusive])"

definition control_shape :: "(string \<Rightarrow> bool) \<Rightarrow> campaign_control \<Rightarrow> bool" where
  "control_shape date_time c \<longleftrightarrow> counter (runEpoch c) \<and>
     list_all (opt_all date_time) [stopRequestedAt c, stoppedAt c, pausedAt c, lastResumedAt c] \<and>
     list_all (opt_all is_sha256) [pauseAttestationHash c, lastResumeAuthorizationHash c]"

definition budget_shape :: "campaign_budget \<Rightarrow> bool" where
  "budget_shape b \<longleftrightarrow>
     (let l = bd_limits b; u = bd_usage b in
      amount_shape (maximumUsd l) \<and> unit_number (maximumOnlineError l) \<and>
      list_all counter [maximumTokens l, maximumWallTimeMs l, maximumAttempts l, maximumPrivacyReleases l, maximumPromotionLooks l] \<and>
      amount_shape (spentUsd u) \<and> unit_number (onlineErrorSpent u) \<and>
      list_all counter [tokens u, wallTimeMs u, used_attempts u, privacyReleases u, promotionLooks u]) \<and>
     list_all is_sha256 [bd_policyHash b, authorizationHash b, accountingAttestationHash b]"

definition campaign_shape :: "(string \<Rightarrow> bool) \<Rightarrow> campaign_state \<Rightarrow> bool" where
  "campaign_shape date_time s \<longleftrightarrow>
     date_time (createdAt s) \<and> is_sha256 (contentHash s) \<and> list_all (\<lambda>(_, hash). is_sha256 hash) (provenanceRefs s) \<and>
     1 \<le> length (provenanceRefs s) \<and> length (provenanceRefs s) \<le> 2 \<and> distinct (provenanceRefs s) \<and>
     safe_identifier (campaignId s) \<and> counter (cs_revision s) \<and> opt_all is_sha256 (previousStateHash s) \<and>
     safe_identifier (baselineLineageId s) \<and> is_sha256 (cs_protocolHash s) \<and> is_sha256 (harnessRegistrationHash s) \<and>
     control_shape date_time (control s) \<and>
     (let nb = numbering s in positive_counter (nextExperiment nb) \<and> opt_all positive_counter (inFlight nb) \<and>
        opt_all positive_counter (lastInterrupted nb)) \<and>
     (let chp = champions s in pointer_shape (baseline_champion chp) \<and> pointer_shape (active_champion chp) \<and>
        opt_all pointer_shape (certified_champion chp) \<and> date_time (champions_updatedAt chp)) \<and>
     budget_shape (budget s) \<and>
     (let ho = holdout s in list_all counter [freshSets ho, shadowSlices ho, generation ho] \<and>
        is_sha256 (ho_policyHash ho) \<and> is_sha256 (availabilityAttestationHash ho) \<and>
        opt_all is_sha256 (replenishmentAuthorizationHash ho)) \<and>
     (let rc = reconstruction s in opt_all counter (lastSealed rc) \<and> opt_all (decision_shape date_time) (lastDecision rc) \<and>
        list_all (opt_all is_sha256) (pointer_list rc @ [sealChainHead rc, recoveryAuthorization rc, recoveryLock rc]))"

subsection \<open>The content hash\<close>

fun status_name :: "control_status \<Rightarrow> string" where
  "status_name Running = ''running''"
| "status_name Stop_requested = ''stop-requested''"
| "status_name Stopped = ''stopped''"
| "status_name Paused = ''paused''"

fun stop_reason_name :: "stop_reason \<Rightarrow> string" where
  "stop_reason_name Stop_operator = ''operator''"
| "stop_reason_name Stop_sigint = ''sigint''"
| "stop_reason_name Stop_sigterm = ''sigterm''"
| "stop_reason_name Stop_system_shutdown = ''system-shutdown''"

fun pause_reason_name :: "pause_reason \<Rightarrow> string" where
  "pause_reason_name Budget_exhausted = ''budget-exhausted''"
| "pause_reason_name Holdout_exhausted = ''holdout-exhausted''"
| "pause_reason_name Pause_integrity = ''integrity''"
| "pause_reason_name Pause_infrastructure = ''infrastructure''"
| "pause_reason_name Pause_policy = ''policy''"
| "pause_reason_name Pause_publication = ''publication''"

fun kind_name :: "inflight_kind \<Rightarrow> string" where
  "kind_name Optimization_kind = ''optimization''"
| "kind_name Shadow_kind = ''shadow''"

abbreviation opt_string :: "string option \<Rightarrow> json" where
  "opt_string \<equiv> opt_tree JString"

definition control_tree :: "campaign_control \<Rightarrow> json" where
  "control_tree c = json_object
     [(''status'', JString (status_name (ctl_status c))), (''runEpoch'', int_tree (runEpoch c)),
      (''stopRequestedAt'', opt_string (stopRequestedAt c)),
      (''stopReason'', opt_tree (JString \<circ> stop_reason_name) (stopReason c)), (''stoppedAt'', opt_string (stoppedAt c)),
      (''pausedAt'', opt_string (pausedAt c)), (''pauseReason'', opt_tree (JString \<circ> pause_reason_name) (pauseReason c)),
      (''pauseAttestationHash'', opt_string (pauseAttestationHash c)), (''lastResumedAt'', opt_string (lastResumedAt c)),
      (''lastResumeAuthorizationHash'', opt_string (lastResumeAuthorizationHash c))]"

definition numbering_tree :: "campaign_numbering \<Rightarrow> json" where
  "numbering_tree nb = json_object
     [(''nextExperimentNumber'', int_tree (nextExperiment nb)),
      (''inFlightExperimentNumber'', opt_tree int_tree (inFlight nb)),
      (''inFlightKind'', opt_tree (JString \<circ> kind_name) (inFlightKind nb)),
      (''lastInterruptedExperimentNumber'', opt_tree int_tree (lastInterrupted nb))]"

definition champions_tree :: "campaign_champions \<Rightarrow> json" where
  "champions_tree c = json_object
     [(''baseline'', pointer_tree (baseline_champion c)), (''active'', pointer_tree (active_champion c)),
      (''certified'', opt_pointer_tree (certified_champion c)), (''updatedAt'', JString (champions_updatedAt c))]"

definition limits_tree :: "campaign_limits \<Rightarrow> json" where
  "limits_tree l = json_object
     [(''maximumUsd'', number_tree (maximumUsd l)), (''maximumTokens'', int_tree (maximumTokens l)),
      (''maximumWallTimeMs'', int_tree (maximumWallTimeMs l)), (''maximumAttempts'', int_tree (maximumAttempts l)),
      (''maximumPrivacyReleases'', int_tree (maximumPrivacyReleases l)),
      (''maximumPromotionLooks'', int_tree (maximumPromotionLooks l)),
      (''maximumOnlineError'', number_tree (maximumOnlineError l))]"

definition usage_tree :: "campaign_usage \<Rightarrow> json" where
  "usage_tree u = json_object
     [(''spentUsd'', number_tree (spentUsd u)), (''tokens'', int_tree (tokens u)),
      (''wallTimeMs'', int_tree (wallTimeMs u)), (''attempts'', int_tree (used_attempts u)),
      (''privacyReleases'', int_tree (privacyReleases u)), (''promotionLooks'', int_tree (promotionLooks u)),
      (''onlineErrorSpent'', number_tree (onlineErrorSpent u))]"

definition campaign_budget_tree :: "campaign_budget \<Rightarrow> json" where
  "campaign_budget_tree b = json_object
     [(''limits'', limits_tree (bd_limits b)), (''usage'', usage_tree (bd_usage b)),
      (''policyHash'', JString (bd_policyHash b)), (''authorizationHash'', JString (authorizationHash b)),
      (''accountingAttestationHash'', JString (accountingAttestationHash b))]"

definition holdout_tree :: "campaign_holdout \<Rightarrow> json" where
  "holdout_tree h = json_object
     [(''freshValidationSetsRemaining'', int_tree (freshSets h)), (''shadowSlicesRemaining'', int_tree (shadowSlices h)),
      (''generation'', int_tree (generation h)), (''policyHash'', JString (ho_policyHash h)),
      (''availabilityAttestationHash'', JString (availabilityAttestationHash h)),
      (''replenishmentAuthorizationHash'', opt_string (replenishmentAuthorizationHash h))]"

definition ledger_tree :: "('a) ledger_pointers_scheme \<Rightarrow> json" where
  "ledger_tree r = json_object
     [(''brokerExposureStateAttestationHash'', opt_string (brokerExposure r)),
      (''repeatedTestingLedgerHash'', opt_string (repeatedTesting r)), (''privacyLedgerHash'', opt_string (privacyLedger r)),
      (''cacheStateAttestationHash'', opt_string (cacheState r)), (''publicationQueueHash'', opt_string (publicationQueue r))]"

definition reconstruction_tree :: "campaign_reconstruction \<Rightarrow> json" where
  "reconstruction_tree r = json_object
     [(''lastFullySealedExperimentNumber'', opt_tree int_tree (lastSealed r)),
      (''experimentSealChainHead'', opt_string (sealChainHead r)),
      (''lastSealedDecision'', opt_tree decision_tree (lastDecision r)),
      (''brokerExposureStateAttestationHash'', opt_string (brokerExposure r)),
      (''repeatedTestingLedgerHash'', opt_string (repeatedTesting r)), (''privacyLedgerHash'', opt_string (privacyLedger r)),
      (''cacheStateAttestationHash'', opt_string (cacheState r)), (''publicationQueueHash'', opt_string (publicationQueue r)),
      (''lastControllerRecoveryAuthorizationHash'', opt_string (recoveryAuthorization r)),
      (''lastControllerRecoveryLockHash'', opt_string (recoveryLock r))]"

definition CONTROL_SCHEMA_VERSION :: string where
  "CONTROL_SCHEMA_VERSION = ''1.2.0''"

text \<open>The document without its \<open>contentHash\<close>, which is what \<open>withContentHash\<close> hashes.\<close>

definition hashed_document :: "campaign_state \<Rightarrow> json" where
  "hashed_document s = json_object
     [(''schemaVersion'', JString CONTROL_SCHEMA_VERSION), (''createdAt'', JString (createdAt s)),
      (''provenanceRefs'', provenance_tree (provenanceRefs s)), (''revision'', int_tree (cs_revision s)),
      (''previousStateHash'', opt_string (previousStateHash s)), (''campaignId'', JString (campaignId s)),
      (''mode'', JString (mode_name (campaign_mode s))), (''baselineLineageId'', JString (baselineLineageId s)),
      (''protocolHash'', JString (cs_protocolHash s)), (''harnessRegistrationHash'', JString (harnessRegistrationHash s)),
      (''control'', control_tree (control s)), (''numbering'', numbering_tree (numbering s)),
      (''champions'', champions_tree (champions s)), (''budget'', campaign_budget_tree (budget s)),
      (''holdout'', holdout_tree (holdout s)), (''reconstruction'', reconstruction_tree (reconstruction s))]"

definition state_hash :: "host \<Rightarrow> campaign_state \<Rightarrow> string" where
  "state_hash h s = tree_hash h (hashed_document s)"

end
