(* ===== verification/Campaign_Store.thy ===== *)
theory Campaign_Store
  imports Campaign_State Machines
begin

text \<open>
  The campaign store of \<open>campaign/store.ts\<close>: an append-only list of states, each committed by a
  compare-and-swap on the content hash of the current one. The directory of state files is the
  list of its states by revision, and an operation, which runs under the store's lock, is one
  step on it; the lock files, temporary files and their recovery are not modelled beyond the hash
  of the lock record. The trusted verifiers, the clock, the \<open>date-time\<close> format of the schema validator
  and the scan of release-safe text are parameters.
\<close>

subsection \<open>Attestations\<close>

datatype ledger_operation =
    Op_checkpoint
  | Op_interruption int
  | Op_seal int decision_stage decision_outcome string string

record ledger_transition =
  tr_campaignId :: string
  tr_protocolHash :: string
  tr_currentStateHash :: string
  tr_currentRevision :: int
  tr_previousSealHash :: string
  tr_operation :: ledger_operation
  tr_previous :: ledger_pointers
  tr_next :: ledger_pointers

record seal_input =
  si_experimentNumber :: int
  si_stage :: decision_stage
  si_disposition :: decision_outcome
  candidateCommit :: "string option"
  sealHash :: string
  si_attestationHash :: string
  si_availabilityHash :: "string option"
  si_sealedAt :: string
  si_ledgers :: ledger_pointers

record decision_attestation = seal_input +
  da_campaignId :: string
  da_baselineLineageId :: string
  da_protocolHash :: string
  da_currentStateHash :: string
  da_currentRevision :: int
  activeChampion :: champion_pointer
  previousSealHash :: string
  holdoutGeneration :: int
  priorAvailabilityHash :: string

record control_base =
  at_campaignId :: string
  at_protocolHash :: string
  at_currentStateHash :: string
  at_authorization :: string

record genesis_attestation =
  ge_campaignId :: string
  ge_protocolHash :: string
  initialStateHash :: string
  ge_harnessRegistrationHash :: string
  budgetPolicyHash :: string
  budgetAuthorizationHash :: string
  budgetAccountingHash :: string
  holdoutPolicyHash :: string
  holdoutAvailabilityHash :: string
  baselineChampion :: champion_pointer
  initialLedgers :: ledger_pointers

datatype control_attestation =
    Genesis genesis_attestation
  | Budget_accounting control_base campaign_usage campaign_usage
  | Budget_extension control_base campaign_limits campaign_limits
  | Holdout_replenishment control_base int int int int string
  | Resume_attestation control_base int int
  | Pause_attestation control_base pause_reason string
  | Lock_recovery control_base string

record campaign_env =
  env_host :: host
  date_time :: "string \<Rightarrow> bool"
  release_safe :: "campaign_state \<Rightarrow> bool"
  ledger_verifier :: "(ledger_transition \<Rightarrow> unit result) option"
  decision_verifier :: "(decision_attestation \<Rightarrow> unit result) option"
  control_verifier :: "(control_attestation \<Rightarrow> unit result) option"

abbreviation integrity_fault :: "string \<Rightarrow> error" where
  "integrity_fault \<equiv> CampaignIntegrityError"

definition assertHash :: "string \<Rightarrow> unit result" where
  "assertHash v = (if is_sha256 v then Inr () else Inl (integrity_fault ''must be a lowercase SHA-256 digest''))"

definition assertOptHash :: "string option \<Rightarrow> unit result" where
  "assertOptHash v = (case v of None \<Rightarrow> Inr () | Some s \<Rightarrow> assertHash s)"

text \<open>The three mandatory pointers of an argument are strings there; \<open>None\<close> cannot occur.\<close>

definition assertLedgerPointers :: "('a) ledger_pointers_scheme \<Rightarrow> unit result" where
  "assertLedgerPointers p =
     (if brokerExposure p = None \<or> repeatedTesting p = None \<or> privacyLedger p = None
      then Inl (integrity_fault ''must be a lowercase SHA-256 digest'')
      else check_all assertOptHash
        [brokerExposure p, repeatedTesting p, privacyLedger p, cacheState p, publicationQueue p])"

definition ledgerPointersFromState :: "campaign_state \<Rightarrow> ledger_pointers result" where
  "ledgerPointersFromState s =
     (let r = reconstruction s in
      if brokerExposure r = None \<or> repeatedTesting r = None \<or> privacyLedger r = None
      then Inl (integrity_fault ''Campaign is missing a mandatory reconstruction ledger'')
      else Inr (ledger_pointers.truncate r))"

definition with_pointers :: "ledger_pointers \<Rightarrow> campaign_reconstruction \<Rightarrow> campaign_reconstruction" where
  "with_pointers p r = r\<lparr>brokerExposure := brokerExposure p, repeatedTesting := repeatedTesting p,
     privacyLedger := privacyLedger p, cacheState := cacheState p, publicationQueue := publicationQueue p\<rparr>"

definition budgetIsExhausted :: "campaign_state \<Rightarrow> bool" where
  "budgetIsExhausted s \<longleftrightarrow>
     list_ex (\<lambda>(usage, limit). num_le limit usage)
       (zip (usage_values (bd_usage (budget s))) (limit_values (bd_limits (budget s))))"

definition campaignStateData :: "campaign_state \<Rightarrow> campaign_data" where
  "campaignStateData s = campaign_data.truncate s"

definition assertValidState :: "campaign_env \<Rightarrow> campaign_state \<Rightarrow> unit result" where
  "assertValidState e s =
     (if \<not> campaign_shape (date_time e) s then Inl (schema_fault ''Schema validation failed'')
      else if \<not> release_safe e s then Inl (UnsafeEvidenceError ''Unsafe evidence'')
      else and_then (assertCampaignSemantics (env_host e) s) (\<lambda>_.
        if contentHash s \<noteq> state_hash (env_host e) s
        then Inl (schema_fault ''/contentHash must match the canonical SHA-256 hash of the document'')
        else Inr ()))"

definition raw_state :: "campaign_data \<Rightarrow> int \<Rightarrow> string option \<Rightarrow> string \<Rightarrow> string \<Rightarrow> campaign_state" where
  "raw_state data revision previous created hash =
     campaign_data.extend data (campaign_state.fields created
       ((Harness_registration, harnessRegistrationHash data) #
         (case previous of None \<Rightarrow> [] | Some p \<Rightarrow> [(Campaign_state_artifact, p)])) revision previous hash)"

definition createState ::
    "campaign_env \<Rightarrow> campaign_data \<Rightarrow> int \<Rightarrow> string option \<Rightarrow> string \<Rightarrow> campaign_state result" where
  "createState e data revision previous created =
     (let unhashed = raw_state data revision previous created [];
          value = unhashed\<lparr>contentHash := state_hash (env_host e) unhashed\<rparr>
      in and_then (assertValidState e value) (\<lambda>_. Inr value))"

subsection \<open>Trusted verification\<close>

definition control_base_of :: "campaign_state \<Rightarrow> string \<Rightarrow> control_base" where
  "control_base_of s authorization = \<lparr>at_campaignId = campaignId s, at_protocolHash = cs_protocolHash s,
     at_currentStateHash = contentHash s, at_authorization = authorization\<rparr>"

definition verifyControlAttestation :: "campaign_env \<Rightarrow> control_attestation \<Rightarrow> unit result" where
  "verifyControlAttestation e a =
     (case control_verifier e of
        None \<Rightarrow> Inl (transition_fault ''A trusted control-attestation verifier is required for this operation'')
      | Some verify \<Rightarrow> verify a)"

definition verifyLedgerTransition ::
    "campaign_env \<Rightarrow> campaign_state \<Rightarrow> ledger_pointers \<Rightarrow> ledger_operation \<Rightarrow> unit result" where
  "verifyLedgerTransition e current nextLedgers operation =
     (case ledger_verifier e of
        None \<Rightarrow> Inl (transition_fault ''A trusted ledger-transition verifier is required for this operation'')
      | Some verify \<Rightarrow>
          (case sealChainHead (reconstruction current) of
             None \<Rightarrow> Inl (integrity_fault ''Campaign is missing its experiment seal-chain head'')
           | Some head \<Rightarrow> and_then (ledgerPointersFromState current) (\<lambda>previous.
               verify \<lparr>tr_campaignId = campaignId current, tr_protocolHash = cs_protocolHash current,
                 tr_currentStateHash = contentHash current, tr_currentRevision = cs_revision current,
                 tr_previousSealHash = head, tr_operation = operation, tr_previous = previous,
                 tr_next = nextLedgers\<rparr>)))"

definition verifyDecisionAttestation :: "campaign_env \<Rightarrow> campaign_state \<Rightarrow> seal_input \<Rightarrow> unit result" where
  "verifyDecisionAttestation e current i =
     (case decision_verifier e of
        None \<Rightarrow> Inl (transition_fault ''A trusted decision-attestation verifier is required to seal an experiment'')
      | Some verify \<Rightarrow>
          (case sealChainHead (reconstruction current) of
             None \<Rightarrow> Inl (integrity_fault ''Campaign is missing its experiment seal-chain head'')
           | Some head \<Rightarrow> verify (seal_input.extend i (decision_attestation.fields (campaignId current)
               (baselineLineageId current) (cs_protocolHash current) (contentHash current) (cs_revision current)
               (active_champion (champions current)) head (generation (holdout current))
               (availabilityAttestationHash (holdout current))))))"

definition verifyInitialCampaignAttestation :: "campaign_env \<Rightarrow> campaign_state \<Rightarrow> unit result" where
  "verifyInitialCampaignAttestation e s =
     and_then (ledgerPointersFromState s) (\<lambda>ledgers.
       verifyControlAttestation e (Genesis \<lparr>ge_campaignId = campaignId s, ge_protocolHash = cs_protocolHash s,
         initialStateHash = contentHash s, ge_harnessRegistrationHash = harnessRegistrationHash s,
         budgetPolicyHash = bd_policyHash (budget s), budgetAuthorizationHash = authorizationHash (budget s),
         budgetAccountingHash = accountingAttestationHash (budget s), holdoutPolicyHash = ho_policyHash (holdout s),
         holdoutAvailabilityHash = availabilityAttestationHash (holdout s),
         baselineChampion = baseline_champion (champions s), initialLedgers = ledgers\<rparr>))"

subsection \<open>Reading a history\<close>

text \<open>A file must hold a valid state of this campaign, at the revision of its place.\<close>

definition readStates :: "campaign_env \<Rightarrow> string \<Rightarrow> campaign_state list \<Rightarrow> campaign_state list result" where
  "readStates e campaign files =
     (if list_all (\<lambda>(i, s). assertValidState e s = Inr () \<and> campaignId s = campaign \<and> cs_revision s = int i)
           (enumerate 0 files)
      then Inr files else Inl (integrity_fault ''Campaign state history is invalid''))"

datatype history_label =
    Label_budget_authorization | Label_accounting | Label_availability | Label_seal_head | Label_pointer nat
  | Label_resume | Label_pause | Label_replenishment | Label_recovery | Label_lock | Label_decision

text \<open>What a state consumes: all of the initial one, of a later one what differs from its predecessor.\<close>

definition initial_consumption :: "campaign_state \<Rightarrow> (history_label \<times> string option) list" where
  "initial_consumption s =
     [(Label_budget_authorization, Some (authorizationHash (budget s))),
      (Label_accounting, Some (accountingAttestationHash (budget s))),
      (Label_availability, Some (availabilityAttestationHash (holdout s))),
      (Label_seal_head, sealChainHead (reconstruction s))] @
     map (\<lambda>(i, pointer). (Label_pointer i, pointer)) (enumerate 0 (pointer_list (reconstruction s)))"

definition consumption :: "campaign_state \<Rightarrow> campaign_state \<Rightarrow> (history_label \<times> string option) list" where
  "consumption previous current =
     (let pc = control previous; cc = control current; pb = budget previous; cb = budget current;
          ph = holdout previous; ch = holdout current; pr = reconstruction previous; cr = reconstruction current
      in
      (if lastResumeAuthorizationHash cc \<noteq> lastResumeAuthorizationHash pc
       then [(Label_resume, lastResumeAuthorizationHash cc)] else []) @
      (if pauseAttestationHash cc \<noteq> pauseAttestationHash pc then [(Label_pause, pauseAttestationHash cc)] else []) @
      (if authorizationHash cb \<noteq> authorizationHash pb
       then [(Label_budget_authorization, Some (authorizationHash cb))] else []) @
      (if accountingAttestationHash cb \<noteq> accountingAttestationHash pb
       then [(Label_accounting, Some (accountingAttestationHash cb))] else []) @
      (if replenishmentAuthorizationHash ch \<noteq> replenishmentAuthorizationHash ph
       then [(Label_replenishment, replenishmentAuthorizationHash ch)] else []) @
      (if availabilityAttestationHash ch \<noteq> availabilityAttestationHash ph
       then [(Label_availability, Some (availabilityAttestationHash ch))] else []) @
      (if recoveryAuthorization cr \<noteq> recoveryAuthorization pr
       then [(Label_recovery, recoveryAuthorization cr), (Label_lock, recoveryLock cr)] else []) @
      (if lastSealed cr \<noteq> lastSealed pr
       then [(Label_decision, map_option decisionAttestationHash (lastDecision cr)),
             (Label_seal_head, sealChainHead cr)] else []) @
      concat (map (\<lambda>(i, now, before). if now \<noteq> before then [(Label_pointer i, now)] else [])
        (enumerate 0 (zip (pointer_list cr) (pointer_list pr)))))"

definition history_consumption :: "campaign_state list \<Rightarrow> (history_label \<times> string option) list" where
  "history_consumption states =
     (case states of [] \<Rightarrow> []
      | initial # rest \<Rightarrow> initial_consumption initial @
          concat (map (\<lambda>(previous, current). consumption previous current) (zip states rest)))"

definition assertHistoryWideUniqueness :: "campaign_state list \<Rightarrow> unit result" where
  "assertHistoryWideUniqueness states =
     (if distinct (filter (\<lambda>(_, value). value \<noteq> None) (history_consumption states))
      then Inr () else Inl (integrity_fault ''Campaign history reuses a consumed value''))"

definition sealAdvanced :: "campaign_state \<Rightarrow> campaign_state \<Rightarrow> bool" where
  "sealAdvanced previous next \<longleftrightarrow>
     or_else (lastSealed (reconstruction previous)) (- 1) < or_else (lastSealed (reconstruction next)) (- 1)"

definition interruptionAdvanced :: "campaign_state \<Rightarrow> campaign_state \<Rightarrow> bool" where
  "interruptionAdvanced previous next \<longleftrightarrow>
     or_else (lastInterrupted (numbering previous)) (- 1) < or_else (lastInterrupted (numbering next)) (- 1)"

text \<open>The input of the seal a persisted transition stands for.\<close>

definition persisted_seal :: "campaign_state \<Rightarrow> sealed_decision \<Rightarrow> string \<Rightarrow> ledger_pointers \<Rightarrow> seal_input" where
  "persisted_seal next decision seal nextLedgers =
     \<lparr>si_experimentNumber = dc_experimentNumber decision, si_stage = dc_stage decision,
      si_disposition = dc_disposition decision,
      candidateCommit = (if dc_stage decision = Validation_stage \<and> dc_disposition decision = Dec_promoted
        then Some (cp_commit (active_champion (champions next))) else None),
      sealHash = seal, si_attestationHash = decisionAttestationHash decision,
      si_availabilityHash = (if dc_stage decision = Validation_stage \<or> dc_stage decision = Shadow_audit
        then Some (availabilityAttestationHash (holdout next)) else None),
      si_sealedAt = dc_sealedAt decision, si_ledgers = nextLedgers\<rparr>"

definition verifyPersistedLedgers :: "campaign_env \<Rightarrow> campaign_state \<Rightarrow> campaign_state \<Rightarrow> unit result" where
  "verifyPersistedLedgers e previous next =
     and_then (ledgerPointersFromState previous) (\<lambda>previousLedgers.
     and_then (ledgerPointersFromState next) (\<lambda>nextLedgers.
       if sealAdvanced previous next
       then (case (lastDecision (reconstruction next), sealChainHead (reconstruction next)) of
          (Some decision, Some seal) \<Rightarrow>
            and_then (verifyLedgerTransition e previous nextLedgers (Op_seal (dc_experimentNumber decision)
              (dc_stage decision) (dc_disposition decision) seal (decisionAttestationHash decision))) (\<lambda>_.
            verifyDecisionAttestation e previous (persisted_seal next decision seal nextLedgers))
        | _ \<Rightarrow> Inl (integrity_fault ''Sealed campaign transition is missing trusted decision evidence''))
       else if interruptionAdvanced previous next
       then (case lastInterrupted (numbering next) of
          None \<Rightarrow> Inl (integrity_fault ''Interrupted campaign transition lost its experiment number'')
        | Some n \<Rightarrow> verifyLedgerTransition e previous nextLedgers (Op_interruption n))
       else if \<not> equal_json (env_host e) (ledger_tree previousLedgers) (ledger_tree nextLedgers)
       then verifyLedgerTransition e previous nextLedgers Op_checkpoint
       else Inr ()))"

definition verifyPersistedTransition :: "campaign_env \<Rightarrow> campaign_state \<Rightarrow> campaign_state \<Rightarrow> unit result" where
  "verifyPersistedTransition e previous next =
     (let h = env_host e in
     and_then (verifyPersistedLedgers e previous next) (\<lambda>_.
     and_then (if \<not> equal_json h (usage_tree (bd_usage (budget previous))) (usage_tree (bd_usage (budget next)))
       then verifyControlAttestation e (Budget_accounting
         (control_base_of previous (accountingAttestationHash (budget next)))
         (bd_usage (budget previous)) (bd_usage (budget next))) else Inr ()) (\<lambda>_.
     and_then (if \<not> equal_json h (limits_tree (bd_limits (budget previous))) (limits_tree (bd_limits (budget next)))
       then verifyControlAttestation e (Budget_extension
         (control_base_of previous (authorizationHash (budget next)))
         (bd_limits (budget previous)) (bd_limits (budget next))) else Inr ()) (\<lambda>_.
     and_then (if generation (holdout previous) < generation (holdout next)
       then (case replenishmentAuthorizationHash (holdout next) of
          None \<Rightarrow> Inl (integrity_fault ''Holdout generation lacks its replenishment authorization'')
        | Some a \<Rightarrow> verifyControlAttestation e (Holdout_replenishment (control_base_of previous a)
            (generation (holdout previous)) (generation (holdout next)) (freshSets (holdout next))
            (shadowSlices (holdout next)) (availabilityAttestationHash (holdout next)))) else Inr ()) (\<lambda>_.
     and_then (if runEpoch (control previous) < runEpoch (control next)
       then (case lastResumeAuthorizationHash (control next) of
          None \<Rightarrow> Inl (integrity_fault ''Resumed campaign transition lacks its authorization'')
        | Some a \<Rightarrow> verifyControlAttestation e (Resume_attestation (control_base_of previous a)
            (runEpoch (control previous)) (runEpoch (control next)))) else Inr ()) (\<lambda>_.
     and_then (if ctl_status (control next) = Paused \<and> ctl_status (control previous) \<noteq> Paused
       then (case (pauseAttestationHash (control next), pauseReason (control next), pausedAt (control next)) of
          (Some a, Some reason, Some paused) \<Rightarrow>
            verifyControlAttestation e (Pause_attestation (control_base_of previous a) reason paused)
        | _ \<Rightarrow> Inl (integrity_fault ''Paused campaign transition lacks its attested reason'')) else Inr ()) (\<lambda>_.
     if recoveryAuthorization (reconstruction next) \<noteq> recoveryAuthorization (reconstruction previous)
     then (case (recoveryAuthorization (reconstruction next), recoveryLock (reconstruction next)) of
        (Some a, Some lock) \<Rightarrow> verifyControlAttestation e (Lock_recovery (control_base_of previous a) lock)
      | _ \<Rightarrow> Inl (integrity_fault ''Controller recovery transition lacks its bound lock evidence''))
     else Inr ())))))))"

definition checkStep :: "campaign_env \<Rightarrow> campaign_state \<times> campaign_state \<Rightarrow> unit result" where
  "checkStep e = (\<lambda>(previous, next).
     and_then (assertCampaignStateTransition (env_host e) previous next)
       (\<lambda>_. verifyPersistedTransition e previous next))"

definition validateHistory :: "campaign_env \<Rightarrow> campaign_state list \<Rightarrow> campaign_state result" where
  "validateHistory e states =
     (case states of
        [] \<Rightarrow> Inl CampaignNotInitializedError
      | initial # rest \<Rightarrow>
          and_then (assertInitialCampaignState (env_host e) initial) (\<lambda>_.
          and_then (verifyInitialCampaignAttestation e initial) (\<lambda>_.
          and_then (assertHistoryWideUniqueness states) (\<lambda>_.
          and_then (check_all (checkStep e) (zip states rest)) (\<lambda>_. Inr (last states))))))"

definition reconstruct :: "campaign_env \<Rightarrow> string \<Rightarrow> campaign_state list \<Rightarrow> campaign_state result" where
  "reconstruct e campaign files = and_then (readStates e campaign files) (validateHistory e)"

subsection \<open>Compare and swap\<close>

definition finite_or_throw :: "number list \<Rightarrow> unit result" where
  "finite_or_throw xs = (if list_all is_finite xs then Inr ()
     else Inl (CanonicalJsonError ''Canonical JSON cannot contain non-finite numbers''))"

definition check_expected :: "campaign_state \<Rightarrow> string \<Rightarrow> unit result" where
  "check_expected current expected =
     (if contentHash current \<noteq> expected then Inl (CampaignConflictError expected (contentHash current)) else Inr ())"

definition compareAndSwapCurrent ::
    "campaign_env \<Rightarrow> campaign_state \<Rightarrow> string \<Rightarrow> (campaign_state \<Rightarrow> campaign_data result) \<Rightarrow> string \<Rightarrow>
       campaign_state result" where
  "compareAndSwapCurrent e current expected updater now =
     and_then (check_expected current expected) (\<lambda>_.
     and_then (updater current) (\<lambda>data.
     and_then (createState e data (cs_revision current + 1) (Some (contentHash current)) now) (\<lambda>next.
     and_then (assertCampaignStateTransition (env_host e) current next) (\<lambda>_. Inr next))))"

text \<open>One operation under the lock: it reads the history and either keeps it or appends a state.\<close>

datatype store_outcome = Keep campaign_state | Commit campaign_state

definition initialize ::
    "campaign_env \<Rightarrow> string \<Rightarrow> campaign_data \<Rightarrow> string \<Rightarrow> campaign_state list \<Rightarrow> campaign_state list result" where
  "initialize e campaign data now files =
     (if campaignId data \<noteq> campaign
      then Inl (integrity_fault ''Campaign seed belongs to a different campaign'')
      else and_then (readStates e campaign files) (\<lambda>existing.
        if existing \<noteq> [] then Inl CampaignAlreadyInitializedError
        else and_then (createState e data 0 None now) (\<lambda>initial.
          and_then (assertInitialCampaignState (env_host e) initial) (\<lambda>_.
          and_then (verifyInitialCampaignAttestation e initial) (\<lambda>_. Inr [initial])))))"

subsection \<open>Operations\<close>

definition allocate_update :: "inflight_kind \<Rightarrow> campaign_state \<Rightarrow> campaign_data result" where
  "allocate_update work s =
     and_then (guards
       [(ctl_status (control s) \<noteq> Running,
         transition_fault ''Experiments can be allocated only while the campaign is running''),
        (inFlight (numbering s) \<noteq> None,
         transition_fault ''The current in-flight experiment must finish before another is allocated''),
        (budgetIsExhausted s,
         transition_fault ''No experiment can be allocated while a hard campaign budget is exhausted''),
        (work = Optimization_kind \<and> freshSets (holdout s) = 0,
         transition_fault ''Optimization cannot continue without fresh-validation capacity''),
        (work = Shadow_kind \<and> shadowSlices (holdout s) = 0,
         transition_fault ''Shadow certification cannot continue without a fresh shadow slice'')]) (\<lambda>_.
     let n = nextExperiment (numbering s)
     in Inr ((campaignStateData s)\<lparr>numbering := (numbering s)\<lparr>nextExperiment := n + 1, inFlight := Some n,
          inFlightKind := Some work\<rparr>\<rparr>))"

definition allocateExperiment ::
    "campaign_env \<Rightarrow> string \<Rightarrow> string \<Rightarrow> inflight_kind \<Rightarrow> string \<Rightarrow> campaign_state list \<Rightarrow> store_outcome result" where
  "allocateExperiment e campaign expected work now files =
     and_then (assertHash expected) (\<lambda>_.
     and_then (reconstruct e campaign files) (\<lambda>current.
     and_then (compareAndSwapCurrent e current expected (allocate_update work) now) (\<lambda>s. Inr (Commit s))))"

definition reused :: "('a \<Rightarrow> string option) \<Rightarrow> 'a list \<Rightarrow> string \<Rightarrow> bool" where
  "reused f history hash \<longleftrightarrow> list_ex (\<lambda>s. f s = Some hash) history"

definition recordBudgetUsage ::
    "campaign_env \<Rightarrow> string \<Rightarrow> string \<Rightarrow> campaign_usage \<Rightarrow> string \<Rightarrow> string \<Rightarrow> campaign_state list \<Rightarrow>
       store_outcome result" where
  "recordBudgetUsage e campaign expected usage hash now files =
     and_then (finite_or_throw (usage_values usage)) (\<lambda>_.
     and_then (assertHash hash) (\<lambda>_. and_then (assertHash expected) (\<lambda>_.
     and_then (reconstruct e campaign files) (\<lambda>current.
     and_then (check_expected current expected) (\<lambda>_.
     if reused (Some \<circ> accountingAttestationHash \<circ> budget) files hash
     then Inl (transition_fault ''Budget accounting attestation hash has already been consumed'')
     else and_then (verifyControlAttestation e (Budget_accounting (control_base_of current hash)
            (bd_usage (budget current)) usage)) (\<lambda>_.
       and_then (compareAndSwapCurrent e current expected (\<lambda>s. Inr ((campaignStateData s)\<lparr>budget :=
         (budget s)\<lparr>bd_usage := usage, accountingAttestationHash := hash\<rparr>\<rparr>)) now) (\<lambda>s. Inr (Commit s))))))))"

definition extendSpendBudget ::
    "campaign_env \<Rightarrow> string \<Rightarrow> string \<Rightarrow> number \<times> int \<times> int \<times> int \<Rightarrow> string \<Rightarrow> string \<Rightarrow> campaign_state list \<Rightarrow>
       store_outcome result" where
  "extendSpendBudget e campaign expected limits hash now files =
     (case limits of (usd, token_limit, time_limit, attempt_limit) \<Rightarrow>
     let extend = (\<lambda>l. l\<lparr>maximumUsd := usd, maximumTokens := token_limit, maximumWallTimeMs := time_limit,
           maximumAttempts := attempt_limit\<rparr>)
     in
     and_then (finite_or_throw [usd]) (\<lambda>_.
     and_then (assertHash expected) (\<lambda>_. and_then (assertHash hash) (\<lambda>_.
     and_then (reconstruct e campaign files) (\<lambda>current.
     and_then (check_expected current expected) (\<lambda>_.
     if reused (Some \<circ> authorizationHash \<circ> budget) files hash
     then Inl (transition_fault ''Budget extension authorization hash has already been consumed'')
     else and_then (verifyControlAttestation e (Budget_extension (control_base_of current hash)
            (bd_limits (budget current)) (extend (bd_limits (budget current))))) (\<lambda>_.
       and_then (compareAndSwapCurrent e current expected (\<lambda>s. Inr ((campaignStateData s)\<lparr>budget :=
         (budget s)\<lparr>bd_limits := extend (bd_limits (budget s)), authorizationHash := hash\<rparr>\<rparr>)) now)
         (\<lambda>s. Inr (Commit s)))))))))"

definition replenishHoldout ::
    "campaign_env \<Rightarrow> string \<Rightarrow> string \<Rightarrow> int \<Rightarrow> int \<Rightarrow> string \<Rightarrow> string \<Rightarrow> string \<Rightarrow> campaign_state list \<Rightarrow>
       store_outcome result" where
  "replenishHoldout e campaign expected fresh shadow availability hash now files =
     and_then (assertHash expected) (\<lambda>_. and_then (assertHash availability) (\<lambda>_. and_then (assertHash hash) (\<lambda>_.
     and_then (reconstruct e campaign files) (\<lambda>current.
     and_then (check_expected current expected) (\<lambda>_.
     and_then (guards
       [(reused (replenishmentAuthorizationHash \<circ> holdout) files hash,
         transition_fault ''Holdout replenishment authorization hash has already been consumed''),
        (inFlight (numbering current) \<noteq> None,
         transition_fault ''Holdout capacity cannot be replenished while an experiment is in flight''),
        (ctl_status (control current) = Running,
         transition_fault ''Holdout replenishment requires a paused or stopped campaign'')]) (\<lambda>_.
     and_then (verifyControlAttestation e (Holdout_replenishment (control_base_of current hash)
        (generation (holdout current)) (generation (holdout current) + 1) fresh shadow availability)) (\<lambda>_.
     and_then (compareAndSwapCurrent e current expected (\<lambda>s. Inr ((campaignStateData s)\<lparr>holdout :=
        (holdout s)\<lparr>freshSets := fresh, shadowSlices := shadow, generation := generation (holdout s) + 1,
          availabilityAttestationHash := availability, replenishmentAuthorizationHash := Some hash\<rparr>\<rparr>)) now)
       (\<lambda>s. Inr (Commit s)))))))))"

text \<open>\<open>#compareAndSwapWithVerifiedLedgers\<close>; the preflight verifies the decision of a seal.\<close>

definition compareAndSwapWithVerifiedLedgers ::
    "campaign_env \<Rightarrow> string \<Rightarrow> string \<Rightarrow> ledger_pointers \<Rightarrow> ledger_operation \<Rightarrow> (campaign_state \<Rightarrow> campaign_data result) \<Rightarrow>
       (campaign_state \<Rightarrow> unit result) \<Rightarrow> string \<Rightarrow> campaign_state list \<Rightarrow> store_outcome result" where
  "compareAndSwapWithVerifiedLedgers e campaign expected nextLedgers operation updater preflight now files =
     and_then (assertHash expected) (\<lambda>_. and_then (assertLedgerPointers nextLedgers) (\<lambda>_.
     and_then (reconstruct e campaign files) (\<lambda>current.
     and_then (check_expected current expected) (\<lambda>_.
     and_then (ledgerPointersFromState current) (\<lambda>previousLedgers.
     and_then (guards
       [(operation = Op_checkpoint \<and>
           equal_json (env_host e) (ledger_tree previousLedgers) (ledger_tree nextLedgers),
         transition_fault ''A ledger checkpoint must advance at least one signed pointer''),
        ((case operation of Op_interruption _ \<Rightarrow> brokerExposure previousLedgers = brokerExposure nextLedgers | _ \<Rightarrow> False),
         transition_fault ''Interrupted work requires a new broker-exposure attestation''),
        ((case operation of Op_seal _ _ _ seal _ \<Rightarrow> Some seal = sealChainHead (reconstruction current) | _ \<Rightarrow> False),
         transition_fault ''A sealed experiment must advance to a distinct seal-chain head'')]) (\<lambda>_.
     and_then (verifyLedgerTransition e current nextLedgers operation) (\<lambda>_.
     and_then (preflight current) (\<lambda>_.
     and_then (compareAndSwapCurrent e current expected updater now) (\<lambda>s. Inr (Commit s))))))))))"

definition recordLedgerCheckpoint ::
    "campaign_env \<Rightarrow> string \<Rightarrow> string \<Rightarrow> ledger_pointers \<Rightarrow> string \<Rightarrow> campaign_state list \<Rightarrow> store_outcome result" where
  "recordLedgerCheckpoint e campaign expected ledgers now files =
     and_then (assertLedgerPointers ledgers) (\<lambda>_.
     compareAndSwapWithVerifiedLedgers e campaign expected ledgers Op_checkpoint
       (\<lambda>s. Inr ((campaignStateData s)\<lparr>reconstruction := with_pointers ledgers (reconstruction s)\<rparr>))
       (\<lambda>_. Inr ()) now files)"

text \<open>The update of a seal: its checks, then the champions, the holdout and the decision.\<close>

definition valid_disposition :: "decision_stage \<Rightarrow> decision_outcome \<Rightarrow> bool" where
  "valid_disposition stage outcome \<longleftrightarrow>
     stage = Pre_validation \<and> (outcome = Dec_rejected \<or> outcome = Dec_inconclusive) \<or>
     stage = Validation_stage \<and> (outcome = Dec_promoted \<or> outcome = Dec_rejected \<or> outcome = Dec_inconclusive) \<or>
     stage = Shadow_audit \<and> (outcome = Dec_certified \<or> outcome = Dec_not_certified \<or> outcome = Dec_inconclusive)"

definition seal_promotes :: "seal_input \<Rightarrow> bool" where
  "seal_promotes i \<longleftrightarrow> si_stage i = Validation_stage \<and> si_disposition i = Dec_promoted"

definition seal_certifies :: "seal_input \<Rightarrow> bool" where
  "seal_certifies i \<longleftrightarrow> si_stage i = Shadow_audit \<and> si_disposition i = Dec_certified"

definition seal_rules :: "seal_input \<Rightarrow> campaign_state \<Rightarrow> (bool \<times> error) list" where
  "seal_rules i s =
     [(inFlight (numbering s) \<noteq> Some (si_experimentNumber i),
       transition_fault ''Only the current in-flight experiment can be sealed''),
      (inFlightKind (numbering s) \<noteq> Some (if si_stage i = Shadow_audit then Shadow_kind else Optimization_kind),
       transition_fault ''A decision cannot seal this work''),
      (\<not> valid_disposition (si_stage i) (si_disposition i), transition_fault ''Disposition is invalid''),
      (seal_promotes i \<noteq> (candidateCommit i \<noteq> None),
       transition_fault ''Candidate commit must be present exactly for active promotion''),
      ((si_stage i = Validation_stage \<or> si_stage i = Shadow_audit) \<and> si_availabilityHash i = None,
       transition_fault ''Validation and shadow decisions require a new holdout attestation''),
      (si_stage i = Validation_stage \<and> freshSets (holdout s) = 0,
       transition_fault ''Validation decision cannot consume exhausted fresh capacity''),
      (si_stage i = Shadow_audit \<and> shadowSlices (holdout s) = 0,
       transition_fault ''Shadow decision cannot consume exhausted shadow capacity'')]"

definition sealed_champions :: "seal_input \<Rightarrow> campaign_champions \<Rightarrow> campaign_champions" where
  "sealed_champions i c =
     (if seal_promotes i
      then c\<lparr>active_champion := \<lparr>cp_experimentNumber = si_experimentNumber i, cp_commit = the (candidateCommit i),
               cp_sourceSealHash = sealHash i\<rparr>, champions_updatedAt := si_sealedAt i\<rparr>
      else if seal_certifies i
      then c\<lparr>certified_champion := Some ((active_champion c)\<lparr>cp_sourceSealHash := sealHash i\<rparr>),
             champions_updatedAt := si_sealedAt i\<rparr>
      else c)"

definition sealed_holdout :: "seal_input \<Rightarrow> campaign_holdout \<Rightarrow> campaign_holdout" where
  "sealed_holdout i ho =
     (if si_stage i = Validation_stage
      then ho\<lparr>freshSets := freshSets ho - 1, availabilityAttestationHash := the (si_availabilityHash i)\<rparr>
      else if si_stage i = Shadow_audit
      then ho\<lparr>shadowSlices := shadowSlices ho - 1, availabilityAttestationHash := the (si_availabilityHash i)\<rparr>
      else ho)"

definition seal_update :: "seal_input \<Rightarrow> campaign_state \<Rightarrow> campaign_data result" where
  "seal_update i s =
     and_then (guards (seal_rules i s)) (\<lambda>_.
       Inr ((campaignStateData s)\<lparr>
         numbering := (numbering s)\<lparr>inFlight := None, inFlightKind := None\<rparr>,
         champions := sealed_champions i (champions s),
         holdout := sealed_holdout i (holdout s),
         reconstruction := (with_pointers (si_ledgers i) (reconstruction s))\<lparr>
           lastSealed := Some (si_experimentNumber i), sealChainHead := Some (sealHash i),
           lastDecision := Some \<lparr>dc_experimentNumber = si_experimentNumber i, dc_stage = si_stage i,
             dc_disposition = si_disposition i, decisionAttestationHash = si_attestationHash i,
             dc_sealedAt = si_sealedAt i\<rparr>\<rparr>\<rparr>))"

definition sealExperiment ::
    "campaign_env \<Rightarrow> string \<Rightarrow> string \<Rightarrow> seal_input \<Rightarrow> string \<Rightarrow> campaign_state list \<Rightarrow> store_outcome result" where
  "sealExperiment e campaign expected i now files =
     and_then (assertHash (sealHash i)) (\<lambda>_. and_then (assertHash (si_attestationHash i)) (\<lambda>_.
     and_then (assertLedgerPointers (si_ledgers i)) (\<lambda>_.
     if \<not> safe_int (si_experimentNumber i) \<or> si_experimentNumber i < 1
     then Inl (integrity_fault ''Sealed experiment number is invalid'')
     else and_then (assertOptHash (si_availabilityHash i)) (\<lambda>_.
       if (case candidateCommit i of None \<Rightarrow> False | Some c \<Rightarrow> \<not> is_git_oid c)
       then Inl (integrity_fault ''Candidate commit must be a Git object id'')
       else compareAndSwapWithVerifiedLedgers e campaign expected (si_ledgers i)
         (Op_seal (si_experimentNumber i) (si_stage i) (si_disposition i) (sealHash i) (si_attestationHash i))
         (seal_update i) (\<lambda>current. verifyDecisionAttestation e current i) now files))))"

definition archive_update :: "int \<Rightarrow> ledger_pointers \<Rightarrow> campaign_state \<Rightarrow> campaign_data result" where
  "archive_update n ledgers s = Inr ((campaignStateData s)\<lparr>
     numbering := (numbering s)\<lparr>inFlight := None, inFlightKind := None, lastInterrupted := Some n\<rparr>,
     reconstruction := with_pointers ledgers (reconstruction s)\<rparr>)"

definition archiveInterruptedExperiment ::
    "campaign_env \<Rightarrow> string \<Rightarrow> string \<Rightarrow> int \<Rightarrow> string \<Rightarrow> string \<Rightarrow> campaign_state list \<Rightarrow> store_outcome result" where
  "archiveInterruptedExperiment e campaign expected n exposure now files =
     and_then (assertHash expected) (\<lambda>_. and_then (assertHash exposure) (\<lambda>_.
     if \<not> safe_int n \<or> n < 1 then Inl (integrity_fault ''Interrupted experiment number is invalid'')
     else and_then (reconstruct e campaign files) (\<lambda>current.
       if inFlight (numbering current) = None \<and> lastInterrupted (numbering current) = Some n
       then (if previousStateHash current = Some expected \<and> brokerExposure (reconstruction current) = Some exposure
             then Inr (Keep current) else Inl (CampaignConflictError expected (contentHash current)))
       else and_then (check_expected current expected) (\<lambda>_.
         if inFlight (numbering current) \<noteq> Some n
         then Inl (transition_fault ''Only the current in-flight experiment can be archived as interrupted'')
         else and_then (ledgerPointersFromState current) (\<lambda>ledgers.
           let nextLedgers = ledgers\<lparr>brokerExposure := Some exposure\<rparr> in
           if brokerExposure (reconstruction current) = Some exposure
           then Inl (transition_fault ''Interrupted work requires a new broker-exposure attestation'')
           else and_then (verifyLedgerTransition e current nextLedgers (Op_interruption n)) (\<lambda>_.
             and_then (compareAndSwapCurrent e current expected (archive_update n nextLedgers) now)
               (\<lambda>s. Inr (Commit s))))))))"

text \<open>\<open>stopRequestedAt\<close> and \<open>createdAt\<close> come from two readings of the clock.\<close>

definition requestStop ::
    "campaign_env \<Rightarrow> string \<Rightarrow> string \<Rightarrow> stop_reason \<Rightarrow> string \<Rightarrow> string \<Rightarrow> campaign_state list \<Rightarrow> store_outcome result" where
  "requestStop e campaign expected reason requested now files =
     and_then (assertHash expected) (\<lambda>_. and_then (reconstruct e campaign files) (\<lambda>current.
     if ctl_status (control current) = Stop_requested \<or> ctl_status (control current) = Stopped
     then (case List.find (\<lambda>s. ctl_status (control s) = Stop_requested \<and> previousStateHash s = Some expected \<and>
               stopReason (control s) = Some reason) files of
          None \<Rightarrow> Inl (CampaignConflictError expected (contentHash current))
        | Some recorded \<Rightarrow>
            if stopReason (control current) = stopReason (control recorded) \<and>
               stopRequestedAt (control current) = stopRequestedAt (control recorded)
            then Inr (Keep current) else Inl (CampaignConflictError expected (contentHash current)))
     else and_then (compareAndSwapCurrent e current expected (\<lambda>s. Inr ((campaignStateData s)\<lparr>control :=
         (control s)\<lparr>ctl_status := Stop_requested, stopRequestedAt := Some requested, stopReason := Some reason,
           stoppedAt := None, pausedAt := None, pauseReason := None, pauseAttestationHash := None\<rparr>\<rparr>)) now)
       (\<lambda>s. Inr (Commit s))))"

definition acknowledgeStopped ::
    "campaign_env \<Rightarrow> string \<Rightarrow> string \<Rightarrow> string \<Rightarrow> string \<Rightarrow> campaign_state list \<Rightarrow> store_outcome result" where
  "acknowledgeStopped e campaign expected stopped now files =
     and_then (assertHash expected) (\<lambda>_. and_then (reconstruct e campaign files) (\<lambda>current.
     if ctl_status (control current) = Stopped
     then (case List.find (\<lambda>s. ctl_status (control s) = Stopped \<and> previousStateHash s = Some expected) files of
          None \<Rightarrow> Inl (CampaignConflictError expected (contentHash current))
        | Some recorded \<Rightarrow>
            if stoppedAt (control current) = stoppedAt (control recorded) \<and>
               stopRequestedAt (control current) = stopRequestedAt (control recorded)
            then Inr (Keep current) else Inl (CampaignConflictError expected (contentHash current)))
     else and_then (guards
       [(ctl_status (control current) \<noteq> Stop_requested,
         transition_fault ''A campaign can be acknowledged stopped only after a durable stop request''),
        (inFlight (numbering current) \<noteq> None,
         transition_fault ''The in-flight experiment must be sealed or archived before stop acknowledgement'')]) (\<lambda>_.
       and_then (compareAndSwapCurrent e current expected (\<lambda>s. Inr ((campaignStateData s)\<lparr>control :=
         (control s)\<lparr>ctl_status := Stopped, stoppedAt := Some stopped\<rparr>\<rparr>)) now) (\<lambda>s. Inr (Commit s)))))"

definition no_capacity :: "campaign_state \<Rightarrow> bool" where
  "no_capacity s \<longleftrightarrow> freshSets (holdout s) = 0 \<and> shadowSlices (holdout s) = 0"

definition pause ::
    "campaign_env \<Rightarrow> string \<Rightarrow> string \<Rightarrow> pause_reason \<Rightarrow> string \<Rightarrow> string \<Rightarrow> string \<Rightarrow> campaign_state list \<Rightarrow>
       store_outcome result" where
  "pause e campaign expected reason hash paused now files =
     and_then (assertHash expected) (\<lambda>_. and_then (assertHash hash) (\<lambda>_.
     and_then (reconstruct e campaign files) (\<lambda>current.
     if ctl_status (control current) = Paused
     then (if previousStateHash current = Some expected \<and> pauseReason (control current) = Some reason \<and>
              pauseAttestationHash (control current) = Some hash
           then Inr (Keep current) else Inl (CampaignConflictError expected (contentHash current)))
     else and_then (check_expected current expected) (\<lambda>_.
     and_then (guards
       [(ctl_status (control current) \<noteq> Running, transition_fault ''Only a running campaign can be paused''),
        (inFlight (numbering current) \<noteq> None,
         transition_fault ''The in-flight experiment must be sealed or archived before pausing''),
        (reason = Budget_exhausted \<and> \<not> budgetIsExhausted current,
         transition_fault ''A budget-exhausted pause requires a sealed exhausted budget dimension''),
        (reason = Holdout_exhausted \<and> (0 < freshSets (holdout current) \<or> 0 < shadowSlices (holdout current)),
         transition_fault ''A holdout-exhausted pause requires zero validation and shadow capacity''),
        (reused (pauseAttestationHash \<circ> control) files hash,
         transition_fault ''Pause attestation hash has already been consumed'')]) (\<lambda>_.
     and_then (verifyControlAttestation e (Pause_attestation (control_base_of current hash) reason paused)) (\<lambda>_.
     and_then (compareAndSwapCurrent e current expected (\<lambda>s. Inr ((campaignStateData s)\<lparr>control :=
         (control s)\<lparr>ctl_status := Paused, stopRequestedAt := None, stopReason := None, stoppedAt := None,
           pausedAt := Some paused, pauseReason := Some reason, pauseAttestationHash := Some hash\<rparr>\<rparr>)) now)
       (\<lambda>s. Inr (Commit s))))))))"

definition resume ::
    "campaign_env \<Rightarrow> string \<Rightarrow> string \<Rightarrow> string \<Rightarrow> string \<Rightarrow> string \<Rightarrow> campaign_state list \<Rightarrow> store_outcome result" where
  "resume e campaign expected hash resumed now files =
     and_then (assertHash expected) (\<lambda>_. and_then (assertHash hash) (\<lambda>_.
     and_then (reconstruct e campaign files) (\<lambda>current.
     if ctl_status (control current) = Running
     then (if previousStateHash current = Some expected \<and> lastResumeAuthorizationHash (control current) = Some hash
           then Inr (Keep current) else Inl (CampaignConflictError expected (contentHash current)))
     else and_then (check_expected current expected) (\<lambda>_.
     and_then (guards
       [(ctl_status (control current) = Stop_requested,
         transition_fault ''A pending stop must be durably acknowledged before resume''),
        (inFlight (numbering current) \<noteq> None,
         transition_fault ''An in-flight experiment must be sealed or archived before resume''),
        (budgetIsExhausted current,
         transition_fault ''Campaign cannot resume while a hard campaign budget is exhausted''),
        (no_capacity current,
         transition_fault ''Campaign cannot resume without fresh validation or shadow capacity''),
        (ctl_status (control current) = Paused \<and> pauseReason (control current) = Some Budget_exhausted \<and>
           budgetIsExhausted current,
         transition_fault ''Budget-exhausted campaign cannot resume before an authorized limit extension''),
        (ctl_status (control current) = Paused \<and> pauseReason (control current) = Some Holdout_exhausted \<and>
           no_capacity current,
         transition_fault ''Holdout-exhausted campaign cannot resume before authorized replenishment''),
        (reused (lastResumeAuthorizationHash \<circ> control) files hash,
         transition_fault ''Resume authorization hash has already been consumed'')]) (\<lambda>_.
     and_then (verifyControlAttestation e (Resume_attestation (control_base_of current hash)
       (runEpoch (control current)) (runEpoch (control current) + 1))) (\<lambda>_.
     and_then (compareAndSwapCurrent e current expected (\<lambda>s. Inr ((campaignStateData s)\<lparr>control :=
         (control s)\<lparr>ctl_status := Running, runEpoch := runEpoch (control s) + 1, stopRequestedAt := None,
           stopReason := None, stoppedAt := None, pausedAt := None, pauseReason := None, pauseAttestationHash := None,
           lastResumedAt := Some resumed, lastResumeAuthorizationHash := Some hash\<rparr>\<rparr>)) now)
       (\<lambda>s. Inr (Commit s))))))))"

text \<open>The part of a lock recovery that changes the campaign; \<open>lock\<close> is the hash of the observed lock.\<close>

definition recoverAbandonedLock ::
    "campaign_env \<Rightarrow> string \<Rightarrow> string \<Rightarrow> string \<Rightarrow> string \<Rightarrow> string \<Rightarrow> campaign_state list \<Rightarrow> store_outcome result" where
  "recoverAbandonedLock e campaign expected hash lock now files =
     and_then (assertHash expected) (\<lambda>_. and_then (assertHash hash) (\<lambda>_.
     and_then (reconstruct e campaign files) (\<lambda>before.
     and_then (check_expected before expected) (\<lambda>_.
     if reused (recoveryAuthorization \<circ> reconstruction) files hash
     then Inl (transition_fault ''Controller recovery authorization hash has already been consumed'')
     else and_then (verifyControlAttestation e (Lock_recovery (control_base_of before hash) lock)) (\<lambda>_.
       and_then (compareAndSwapCurrent e before expected (\<lambda>s. Inr ((campaignStateData s)\<lparr>reconstruction :=
         (reconstruction s)\<lparr>recoveryAuthorization := Some hash, recoveryLock := Some lock\<rparr>\<rparr>)) now)
         (\<lambda>s. Inr (Commit s)))))))"

subsection \<open>The store as a machine\<close>

datatype campaign_op =
    Allocate string inflight_kind string
  | Record_usage string campaign_usage string string
  | Extend_budget string "number \<times> int \<times> int \<times> int" string string
  | Replenish string int int string string string
  | Ledger_checkpoint string ledger_pointers string
  | Seal string seal_input string
  | Archive string int string string
  | Request_stop string stop_reason string string
  | Acknowledge_stop string string string
  | Pause_campaign string pause_reason string string string
  | Resume_campaign string string string string
  | Recover_lock string string string string

fun perform :: "campaign_env \<Rightarrow> string \<Rightarrow> campaign_op \<Rightarrow> campaign_state list \<Rightarrow> store_outcome result" where
  "perform e c (Allocate x k now) files = allocateExperiment e c x k now files"
| "perform e c (Record_usage x u a now) files = recordBudgetUsage e c x u a now files"
| "perform e c (Extend_budget x l a now) files = extendSpendBudget e c x l a now files"
| "perform e c (Replenish x f s v a now) files = replenishHoldout e c x f s v a now files"
| "perform e c (Ledger_checkpoint x l now) files = recordLedgerCheckpoint e c x l now files"
| "perform e c (Seal x i now) files = sealExperiment e c x i now files"
| "perform e c (Archive x n b now) files = archiveInterruptedExperiment e c x n b now files"
| "perform e c (Request_stop x r t now) files = requestStop e c x r t now files"
| "perform e c (Acknowledge_stop x t now) files = acknowledgeStopped e c x t now files"
| "perform e c (Pause_campaign x r a t now) files = pause e c x r a t now files"
| "perform e c (Resume_campaign x a t now) files = resume e c x a t now files"
| "perform e c (Recover_lock x a lock now) files = recoverAbandonedLock e c x a lock now files"

definition store_step :: "campaign_env \<Rightarrow> string \<Rightarrow> campaign_op \<Rightarrow> campaign_state list \<Rightarrow> campaign_state list result" where
  "store_step e campaign op files =
     and_then (perform e campaign op files) (\<lambda>outcome.
       case outcome of Keep s \<Rightarrow> Inr files | Commit s \<Rightarrow> Inr (files @ [s]))"

end
