(* ===== verification/Campaign_History.thy ===== *)
theory Campaign_History
  imports Campaign_Store
begin

text \<open>
  What the histories that the campaign store accepts have in common: the rules of one transition
  read as facts about the two states, the induction over an accepted history, and the account a
  history gives of every experiment number.
\<close>

subsection \<open>Equal documents\<close>

lemma json_object_inject:
  assumes "map fst ms = map fst ns" "distinct (map fst ms)"
  shows "json_object ms = json_object ns \<longleftrightarrow> ms = ns"
proof
  assume "json_object ms = json_object ns"
  then have "sort_key fst ms = sort_key fst ns" by (simp add: json_object_def)
  then have "mset ms = mset ns" by (metis mset_sort)
  then have "set ms = set ns" by (metis set_mset_mset)
  then have same: "map_of ms = map_of ns" using assms by (simp add: map_of_inject_set)
  have len: "length ms = length ns" using assms(1) by (metis length_map)
  show "ms = ns"
  proof (rule nth_equalityI [OF len])
    fix i assume i: "i < length ms"
    have key: "fst (ms ! i) = fst (ns ! i)" using i len assms(1) by (metis nth_map)
    have "map_of ms (fst (ms ! i)) = Some (snd (ms ! i))"
      using i assms(2) by (intro map_of_is_SomeI) auto
    moreover have "map_of ns (fst (ns ! i)) = Some (snd (ns ! i))"
      using i len assms by (intro map_of_is_SomeI) auto
    ultimately show "ms ! i = ns ! i" using key same by (simp add: prod_eq_iff)
  qed
qed simp

lemma equal_json_refl [simp]: "equal_json h j j"
  by (simp add: equal_json_def)

lemma equal_json_law: "number_law h \<Longrightarrow> equal_json h j k \<longleftrightarrow> j = k"
  by (simp add: equal_json_def json_text_inject)

lemma equal_json_string [simp]: "equal_json h (JString s) (JString t) \<longleftrightarrow> s = t"
  using string_code [of s "[]" t "[]"] by (auto simp: equal_json_def)

lemma pointer_tree_inject [simp]: "pointer_tree p = pointer_tree q \<longleftrightarrow> p = q"
  by (auto simp: pointer_tree_def json_object_inject)

lemma pointer_tree_not_null [simp]: "pointer_tree p \<noteq> JNull" "JNull \<noteq> pointer_tree p"
  by (simp_all add: pointer_tree_def json_object_def)

lemma opt_tree_inject:
  assumes "\<And>x. f x \<noteq> JNull" "\<And>x y. f x = f y \<Longrightarrow> x = y"
  shows "opt_tree f a = opt_tree f b \<longleftrightarrow> a = b"
  using assms by (cases a; cases b) (auto, metis+)

subsection \<open>One transition\<close>

abbreviation follows :: "host \<Rightarrow> campaign_state \<Rightarrow> campaign_state \<Rightarrow> bool" where
  "follows h previous next \<equiv> assertCampaignStateTransition h previous next = Inr ()"

lemma assertImmutable_ok: "assertImmutable h a b = Inr () \<longleftrightarrow> equal_json h a b"
  by (simp add: assertImmutable_def)

lemma follows_parts:
  assumes "follows h p n"
  shows "cs_revision n = cs_revision p + 1" "previousStateHash n = Some (contentHash p)"
    "campaignId n = campaignId p" "baselineLineageId n = baselineLineageId p" "cs_protocolHash n = cs_protocolHash p"
    "assertControlTransition h p n = Inr ()" "assertNumberingTransition p n = Inr ()"
    "assertChampionTransition h p n = Inr ()" "assertBudgetTransition h p n = Inr ()"
    "assertHoldoutTransition h p n = Inr ()" "assertReconstructionTransition h p n = Inr ()"
proof -
  note parts = assms [unfolded assertCampaignStateTransition_def and_then_Inr ex_unit assertImmutable_ok equal_json_string]
  show "assertControlTransition h p n = Inr ()" "assertNumberingTransition p n = Inr ()"
    "assertChampionTransition h p n = Inr ()" "assertBudgetTransition h p n = Inr ()"
    "assertHoldoutTransition h p n = Inr ()" "assertReconstructionTransition h p n = Inr ()"
    "campaignId n = campaignId p" "baselineLineageId n = baselineLineageId p" "cs_protocolHash n = cs_protocolHash p"
    using parts by simp_all
  show "cs_revision n = cs_revision p + 1" "previousStateHash n = Some (contentHash p)"
    using parts by (simp_all add: guard_simps)
qed

lemma numberingD:
  assumes "assertNumberingTransition p n = Inr ()"
  defines "prior \<equiv> numbering p" and "current \<equiv> numbering n"
  shows "nextExperiment current = nextExperiment prior \<or> nextExperiment current = nextExperiment prior + 1"
    "nextExperiment current = nextExperiment prior + 1 \<Longrightarrow>
       inFlight prior = None \<and> inFlight current = Some (nextExperiment prior)"
    "nextExperiment current = nextExperiment prior \<Longrightarrow> inFlight current = inFlight prior \<or> inFlight current = None"
    "or_else (lastInterrupted prior) 0 \<le> or_else (lastInterrupted current) 0"
    "or_else (lastInterrupted prior) 0 < or_else (lastInterrupted current) 0 \<Longrightarrow>
       inFlight prior = Some (or_else (lastInterrupted current) 0) \<and> inFlight current = None"
    "inFlight prior \<noteq> None \<Longrightarrow> inFlight current = None \<Longrightarrow>
       lastInterrupted current = inFlight prior \<or> lastSealed (reconstruction n) = inFlight prior"
proof -
  note g = assms(1) [unfolded assertNumberingTransition_def prior_def [symmetric] current_def [symmetric] Let_def guards_ok
    list.set ball_simps fst_conv]
  note advance = g [THEN conjunct1] and allocate = g [THEN conjunct2, THEN conjunct1]
    and fresh = g [THEN conjunct2, THEN conjunct2, THEN conjunct1]
    and interrupted = g [THEN conjunct2, THEN conjunct2, THEN conjunct2, THEN conjunct2, THEN conjunct2, THEN conjunct1]
      g [THEN conjunct2, THEN conjunct2, THEN conjunct2, THEN conjunct2, THEN conjunct2, THEN conjunct2, THEN conjunct1]
      g [THEN conjunct2, THEN conjunct2, THEN conjunct2, THEN conjunct2, THEN conjunct2, THEN conjunct2, THEN conjunct2, THEN conjunct1]
    and cleared = g [THEN conjunct2, THEN conjunct2, THEN conjunct2, THEN conjunct2, THEN conjunct2, THEN conjunct2, THEN conjunct2, THEN conjunct2, THEN conjunct1]
  show one: "nextExperiment current = nextExperiment prior \<or> nextExperiment current = nextExperiment prior + 1"
    using advance by linarith
  show "nextExperiment current = nextExperiment prior + 1 \<Longrightarrow>
       inFlight prior = None \<and> inFlight current = Some (nextExperiment prior)"
    using allocate by blast
  show "nextExperiment current = nextExperiment prior \<Longrightarrow> inFlight current = inFlight prior \<or> inFlight current = None"
    using fresh by auto
  show "or_else (lastInterrupted prior) 0 \<le> or_else (lastInterrupted current) 0"
    using interrupted(1) by linarith
  show "or_else (lastInterrupted prior) 0 < or_else (lastInterrupted current) 0 \<Longrightarrow>
       inFlight prior = Some (or_else (lastInterrupted current) 0) \<and> inFlight current = None"
    using interrupted(2,3) by simp
  show "inFlight prior \<noteq> None \<Longrightarrow> inFlight current = None \<Longrightarrow>
       lastInterrupted current = inFlight prior \<or> lastSealed (reconstruction n) = inFlight prior"
    using cleared by blast
qed

lemma reconstructionD:
  assumes "assertReconstructionTransition h p n = Inr ()"
  shows "or_else (lastSealed (reconstruction p)) (- 1) \<le> or_else (lastSealed (reconstruction n)) (- 1)"
    "or_else (lastSealed (reconstruction p)) (- 1) = or_else (lastSealed (reconstruction n)) (- 1) \<Longrightarrow>
       sealChainHead (reconstruction n) = sealChainHead (reconstruction p)"
    "sealAdvanced p n \<Longrightarrow> inFlight (numbering p) = Some (or_else (lastSealed (reconstruction n)) (- 1)) \<and>
       inFlight (numbering n) = None \<and> \<not> interruptionAdvanced p n"
    "sealAdvanced p n \<Longrightarrow> \<exists>d. lastDecision (reconstruction n) = Some d \<and>
       dc_experimentNumber d = or_else (lastSealed (reconstruction n)) (- 1) \<and>
       (\<forall>c \<in> set (sealed_decision_rules h p n d). \<not> fst c)"
  using assms unfolding assertReconstructionTransition_def sealAdvanced_def interruptionAdvanced_def Let_def
  by (simp_all add: guard_simps ball_Un split: option.splits) auto

subsection \<open>Accepted histories\<close>

lemma valid_stateD:
  assumes "assertValidState e s = Inr ()"
  shows "campaign_shape (date_time e) s" "assertCampaignSemantics (env_host e) s = Inr ()"
    "contentHash s = state_hash (env_host e) s"
  using assms by (auto simp: assertValidState_def split: if_splits)

lemma valid_numbering:
  assumes "assertValidState e s = Inr ()"
  shows "1 \<le> nextExperiment (numbering s)"
    "lastInterrupted (numbering s) = Some k \<Longrightarrow> 1 \<le> k"
    "lastSealed (reconstruction s) = Some k \<Longrightarrow> 0 \<le> k"
    "inFlight (numbering s) = Some k \<Longrightarrow> 1 \<le> k"
  using valid_stateD(1) [OF assms]
  by (simp_all add: campaign_shape_def opt_all_def counter_def positive_counter_def Let_def)

text \<open>A history whose first state is initial, whose states are valid and whose neighbours follow each other.\<close>

definition lineage :: "campaign_env \<Rightarrow> campaign_state list \<Rightarrow> bool" where
  "lineage e files \<longleftrightarrow> files \<noteq> [] \<and> assertInitialCampaignState (env_host e) (hd files) = Inr () \<and>
     (\<forall>s \<in> set files. assertValidState e s = Inr ()) \<and> successively (follows (env_host e)) files"

lemma zip_tail_successively:
  "(\<forall>x \<in> set (zip xs (tl xs)). P (fst x) (snd x)) \<longleftrightarrow> successively P xs"
  by (induction P xs rule: successively.induct) auto

lemma readStates_ok:
  "readStates e c files = Inr states \<longleftrightarrow> states = files \<and>
     (\<forall>i < length files. assertValidState e (files ! i) = Inr () \<and> campaignId (files ! i) = c \<and>
        cs_revision (files ! i) = int i)"
  by (auto simp: readStates_def list_all_length nth_enumerate_eq)

lemma reconstruct_ok:
  "reconstruct e c files = Inr cur \<longleftrightarrow>
     readStates e c files = Inr files \<and> lineage e files \<and> cur = last files \<and>
     verifyInitialCampaignAttestation e (hd files) = Inr () \<and> assertHistoryWideUniqueness files = Inr () \<and>
     successively (\<lambda>p n. verifyPersistedTransition e p n = Inr ()) files"
proof (cases files)
  case (Cons s rest)
  have read: "readStates e c files = Inr files \<Longrightarrow> (\<forall>s \<in> set files. assertValidState e s = Inr ())"
    by (auto simp: readStates_ok in_set_conv_nth)
  have steps: "check_all (checkStep e) (zip files rest) = Inr () \<longleftrightarrow>
      successively (\<lambda>p n. follows (env_host e) p n \<and> verifyPersistedTransition e p n = Inr ()) files"
    unfolding zip_tail_successively [symmetric] using Cons by (auto simp: guard_simps checkStep_def)
  have both: "successively (\<lambda>p n. P p n \<and> Q p n) xs \<longleftrightarrow> successively P xs \<and> successively Q xs" for P Q :: "'z \<Rightarrow> 'z \<Rightarrow> bool" and xs
    by (induction P xs rule: successively.induct) auto
  show ?thesis
  proof
    assume "reconstruct e c files = Inr cur"
    then obtain states where r: "readStates e c files = Inr states" and v: "validateHistory e states = Inr cur"
      by (auto simp: reconstruct_def)
    from r have [simp]: "states = files" by (simp add: readStates_ok)
    show "readStates e c files = Inr files \<and> lineage e files \<and> cur = last files \<and>
      verifyInitialCampaignAttestation e (hd files) = Inr () \<and> assertHistoryWideUniqueness files = Inr () \<and>
      successively (\<lambda>p n. verifyPersistedTransition e p n = Inr ()) files"
      using r v read steps by (auto simp: validateHistory_def lineage_def both Cons)
  next
    assume "readStates e c files = Inr files \<and> lineage e files \<and> cur = last files \<and>
      verifyInitialCampaignAttestation e (hd files) = Inr () \<and> assertHistoryWideUniqueness files = Inr () \<and>
      successively (\<lambda>p n. verifyPersistedTransition e p n = Inr ()) files"
    then show "reconstruct e c files = Inr cur"
      using steps by (simp add: reconstruct_def validateHistory_def lineage_def both Cons)
  qed
qed (simp add: reconstruct_def validateHistory_def lineage_def readStates_def)

lemma successively_snoc: "successively P (xs @ [p, n]) \<longleftrightarrow> successively P (xs @ [p]) \<and> P p n"
  by (auto simp: successively_append_iff)

lemma lineage_snoc:
  "lineage e (xs @ [p, n]) \<longleftrightarrow> lineage e (xs @ [p]) \<and> assertValidState e n = Inr () \<and> follows (env_host e) p n"
  by (auto simp: lineage_def successively_snoc hd_append)

lemma lineage_induct [consumes 1, case_names initial step]:
  assumes "lineage e files"
    and "\<And>s. assertInitialCampaignState (env_host e) s = Inr () \<Longrightarrow> assertValidState e s = Inr () \<Longrightarrow> P [s]"
    and "\<And>xs p n. lineage e (xs @ [p]) \<Longrightarrow> P (xs @ [p]) \<Longrightarrow> assertValidState e p = Inr () \<Longrightarrow>
      assertValidState e n = Inr () \<Longrightarrow> follows (env_host e) p n \<Longrightarrow> P (xs @ [p, n])"
  shows "P files"
  using assms(1)
proof (induction files rule: rev_induct)
  case (snoc n xs)
  show ?case
  proof (cases xs rule: rev_cases)
    case Nil
    then show ?thesis using snoc.prems assms(2) by (simp add: lineage_def)
  next
    case (snoc ys p)
    with snoc.prems snoc.IH show ?thesis
      using assms(3) [of ys p n] lineage_snoc [of e ys p n] by (auto simp: lineage_def)
  qed
qed (simp add: lineage_def)

subsection \<open>The fate of every experiment\<close>

definition steps :: "campaign_state list \<Rightarrow> (campaign_state \<times> campaign_state) list" where
  "steps files = zip files (tl files)"

lemma steps_simps [simp]:
  "steps [s] = []" "steps (x # y # zs) = (x, y) # steps (y # zs)"
  by (simp_all add: steps_def)

lemma steps_snoc [simp]: "steps (xs @ [p, n]) = steps (xs @ [p]) @ [(p, n)]"
proof (induction xs)
  case (Cons a xs)
  then show ?case by (cases xs) simp_all
qed simp

definition sealed_numbers :: "campaign_state list \<Rightarrow> int list" where
  "sealed_numbers files = map (\<lambda>(_, n). or_else (lastSealed (reconstruction n)) (- 1))
     (filter (\<lambda>(p, n). sealAdvanced p n) (steps files))"

definition interrupted_numbers :: "campaign_state list \<Rightarrow> int list" where
  "interrupted_numbers files = map (\<lambda>(_, n). or_else (lastInterrupted (numbering n)) (- 1))
     (filter (\<lambda>(p, n). interruptionAdvanced p n) (steps files))"

text \<open>One transition gives the number of the experiment in flight at most one fate.\<close>

lemma numbering_step:
  assumes "follows h p n" "assertValidState e p = Inr ()" "assertValidState e n = Inr ()"
  obtains (allocated) "inFlight (numbering p) = None" "inFlight (numbering n) = Some (nextExperiment (numbering p))"
      "nextExperiment (numbering n) = nextExperiment (numbering p) + 1" "\<not> sealAdvanced p n" "\<not> interruptionAdvanced p n"
    | (sealed) k where "inFlight (numbering p) = Some k" "inFlight (numbering n) = None"
      "nextExperiment (numbering n) = nextExperiment (numbering p)" "sealAdvanced p n" "\<not> interruptionAdvanced p n"
      "or_else (lastSealed (reconstruction n)) (- 1) = k"
    | (interrupted) k where "inFlight (numbering p) = Some k" "inFlight (numbering n) = None"
      "nextExperiment (numbering n) = nextExperiment (numbering p)" "\<not> sealAdvanced p n" "interruptionAdvanced p n"
      "or_else (lastInterrupted (numbering n)) (- 1) = k"
    | (cleared) k where "inFlight (numbering p) = Some k" "inFlight (numbering n) = None"
      "nextExperiment (numbering n) = nextExperiment (numbering p)" "\<not> sealAdvanced p n" "\<not> interruptionAdvanced p n"
      "lastInterrupted (numbering n) = Some k \<or> lastSealed (reconstruction n) = Some k"
    | (kept) "inFlight (numbering n) = inFlight (numbering p)"
      "nextExperiment (numbering n) = nextExperiment (numbering p)" "\<not> sealAdvanced p n" "\<not> interruptionAdvanced p n"
proof -
  note N = numberingD [OF follows_parts(7) [OF assms(1)]] and R = reconstructionD [OF follows_parts(11) [OF assms(1)]]
  note V = valid_numbering [OF assms(2)] valid_numbering [OF assms(3)]
  have int_zero: "interruptionAdvanced p n \<Longrightarrow>
      or_else (lastInterrupted (numbering p)) 0 < or_else (lastInterrupted (numbering n)) 0 \<and>
      or_else (lastInterrupted (numbering n)) 0 = or_else (lastInterrupted (numbering n)) (- 1)"
    using V by (auto simp: interruptionAdvanced_def or_else_def split: option.splits) 
  consider (new) "nextExperiment (numbering n) = nextExperiment (numbering p) + 1"
    | (same) "nextExperiment (numbering n) = nextExperiment (numbering p)" using N(1) by blast
  then show thesis
  proof cases
    case new
    then show ?thesis using allocated N(2,5) R(3) int_zero by (metis option.distinct(1))
  next
    case same
    show ?thesis
    proof (cases "sealAdvanced p n")
      case True
      then show ?thesis using sealed R(3) same by blast
    next
      case False
      show ?thesis
      proof (cases "interruptionAdvanced p n")
        case True
        then show ?thesis using interrupted N(5) int_zero same False by metis
      next
        case idle: False
        then show ?thesis using kept cleared N(3) [OF same] N(6) same False
          by (cases "inFlight (numbering p)") auto
      qed
    qed
  qed
qed

definition accounted :: "campaign_state list \<Rightarrow> bool" where
  "accounted files \<longleftrightarrow>
     (let nb = numbering (last files); decided = sealed_numbers files; lost = interrupted_numbers files
      in sorted_wrt (<) (0 # decided) \<and> sorted_wrt (<) (0 # lost) \<and> set decided \<inter> set lost = {} \<and>
         set decided \<union> set lost \<union> set_option (inFlight nb) = {1 ..< nextExperiment nb} \<and>
         (set decided \<union> set lost) \<inter> set_option (inFlight nb) = {} \<and>
         or_else (lastSealed (reconstruction (last files))) (- 1) = last (0 # decided) \<and>
         or_else (lastInterrupted nb) 0 = last (0 # lost))"

lemma sorted_snoc_less: "sorted_wrt (<) (xs @ [k :: int]) \<longleftrightarrow> sorted_wrt (<) xs \<and> (xs = [] \<or> last xs < k)"
  by (cases xs rule: rev_cases) (auto simp: sorted_wrt_append)

lemma interval_snoc: "1 \<le> (n :: int) \<Longrightarrow> {1 ..< n + 1} = insert n {1 ..< n}"
  by auto

lemma history_accounted: "lineage e files \<Longrightarrow> accounted files"
proof (induction rule: lineage_induct)
  case (initial s)
  then show ?case
    by (auto simp: accounted_def assertInitialCampaignState_def guard_simps Let_def or_else_def sealed_numbers_def
        interrupted_numbers_def)
next
  case (step xs p n)
  define decided lost where "decided = sealed_numbers (xs @ [p])" and "lost = interrupted_numbers (xs @ [p])"
  from step.IH have acc: "sorted_wrt (<) (0 # decided)" "sorted_wrt (<) (0 # lost)" "set decided \<inter> set lost = {}"
    "set decided \<union> set lost \<union> set_option (inFlight (numbering p)) = {1 ..< nextExperiment (numbering p)}"
    "(set decided \<union> set lost) \<inter> set_option (inFlight (numbering p)) = {}"
    "or_else (lastSealed (reconstruction p)) (- 1) = last (0 # decided)"
    "or_else (lastInterrupted (numbering p)) 0 = last (0 # lost)"
    by (simp_all add: accounted_def Let_def decided_def lost_def)
  have seals: "sealed_numbers (xs @ [p, n]) =
      decided @ (if sealAdvanced p n then [or_else (lastSealed (reconstruction n)) (- 1)] else [])"
    and losses: "interrupted_numbers (xs @ [p, n]) =
      lost @ (if interruptionAdvanced p n then [or_else (lastInterrupted (numbering n)) (- 1)] else [])"
    by (simp_all add: sealed_numbers_def interrupted_numbers_def decided_def lost_def)
  note R = reconstructionD [OF follows_parts(11) [OF step.hyps(4)]]
  note N = numberingD [OF follows_parts(7) [OF step.hyps(4)]]
  have no_seal: "\<not> sealAdvanced p n \<Longrightarrow> or_else (lastSealed (reconstruction n)) (- 1) = last (0 # decided)"
    using R(1) acc(6) by (simp add: sealAdvanced_def)
  have no_loss: "\<not> interruptionAdvanced p n \<Longrightarrow> or_else (lastInterrupted (numbering n)) 0 = last (0 # lost)"
    using N(4) acc(7) valid_numbering(2) [OF step.hyps(2)] valid_numbering(2) [OF step.hyps(3)]
    by (auto simp: interruptionAdvanced_def or_else_def split: option.splits if_splits)
  note V = valid_numbering [OF step.hyps(2)]
  from step.hyps(4,2,3) show ?case
  proof (cases rule: numbering_step)
    case allocated
    then show ?thesis
      using acc no_seal no_loss V(1) by (auto simp: accounted_def Let_def seals losses)
  next
    case (sealed k)
    from sealed(4,6) acc(6) have "last (0 # decided) < k" by (simp add: sealAdvanced_def)
    then have "sorted_wrt (<) ((0 # decided) @ [k])" using acc(1) by (simp only: sorted_snoc_less) simp
    then show ?thesis
      using acc no_loss sealed by (auto simp: accounted_def Let_def seals losses)
  next
    case (interrupted k)
    from interrupted(1) have k: "1 \<le> k" by (rule V(4))
    with interrupted(5,6) acc(7) have "last (0 # lost) < k"
      using V(2) by (auto simp: interruptionAdvanced_def or_else_def split: option.splits)
    then have "sorted_wrt (<) ((0 # lost) @ [k])" using acc(2) by (simp only: sorted_snoc_less) simp
    moreover have "or_else (lastInterrupted (numbering n)) 0 = k"
      using interrupted(6) k by (auto simp: or_else_def split: option.splits)
    ultimately show ?thesis
      using acc no_seal interrupted by (auto simp: accounted_def Let_def seals losses)
  next
    case (cleared k)
    have "k \<notin> set decided \<union> set lost" using cleared(1) acc(5) by auto
    moreover have "k \<in> set (0 # lost) \<or> k \<in> set (0 # decided)"
      using cleared(6) no_loss [OF cleared(5)] no_seal [OF cleared(4)] last_in_set [of "0 # lost"] last_in_set [of "0 # decided"]
      by (auto simp: or_else_def)
    moreover have "1 \<le> k" using cleared(1) by (rule V(4))
    ultimately show ?thesis by auto
  next
    case kept
    then show ?thesis
      using acc no_seal no_loss V(1) by (simp add: accounted_def Let_def seals losses)
  qed
qed

subsection \<open>Champions\<close>

text \<open>The transition that made a pointer the active champion, and the one that certified it.\<close>

definition promotes :: "champion_pointer \<Rightarrow> campaign_state \<times> campaign_state \<Rightarrow> bool" where
  "promotes c step \<longleftrightarrow>
     (case step of (p, n) \<Rightarrow> case lastDecision (reconstruction n) of None \<Rightarrow> False | Some d \<Rightarrow>
       sealAdvanced p n \<and> dc_stage d = Validation_stage \<and> dc_disposition d = Dec_promoted \<and>
       dc_experimentNumber d = cp_experimentNumber c \<and> sealChainHead (reconstruction n) = Some (cp_sourceSealHash c) \<and>
       inFlight (numbering p) = Some (cp_experimentNumber c) \<and> inFlightKind (numbering p) = Some Optimization_kind \<and>
       freshSets (holdout n) = freshSets (holdout p) - 1)"

definition certifies :: "champion_pointer \<Rightarrow> campaign_state \<times> campaign_state \<Rightarrow> bool" where
  "certifies c step \<longleftrightarrow>
     (case step of (p, n) \<Rightarrow> case lastDecision (reconstruction n) of None \<Rightarrow> False | Some d \<Rightarrow>
       sealAdvanced p n \<and> dc_stage d = Shadow_audit \<and> dc_disposition d = Dec_certified \<and>
       sameChampionIdentity c (active_champion (champions p)) \<and> cp_experimentNumber c < dc_experimentNumber d \<and>
       sealChainHead (reconstruction n) = Some (cp_sourceSealHash c) \<and>
       inFlight (numbering p) = Some (dc_experimentNumber d) \<and> inFlightKind (numbering p) = Some Shadow_kind \<and>
       shadowSlices (holdout n) = shadowSlices (holdout p) - 1)"

lemma pointer_kept:
  assumes "number_law h" "assertPointerDidNotRegress h p q = Inr ()"
  shows "q = p \<or> cp_experimentNumber p < cp_experimentNumber q"
  using assms by (auto simp: assertPointerDidNotRegress_def same_pointer_def equal_json_law guard_simps)

lemma champion_step:
  assumes law: "number_law h" and "follows h p n" and valid: "assertValidState e n = Inr ()"
  shows "baseline_champion (champions n) = baseline_champion (champions p)"
    "active_champion (champions n) = active_champion (champions p) \<or> promotes (active_champion (champions n)) (p, n)"
    "certified_champion (champions n) = certified_champion (champions p) \<or>
       (\<exists>c. certified_champion (champions n) = Some c \<and> cp_experimentNumber c \<noteq> 0 \<and> certifies c (p, n))"
proof -
  define prior current where "prior = champions p" and "current = champions n"
  note C = follows_parts(8) [OF assms(2)] and R = reconstructionD [OF follows_parts(11) [OF assms(2)]]
  note C' = C [unfolded assertChampionTransition_def assertImmutable_def prior_def [symmetric] current_def [symmetric] Let_def
    same_pointer_def equal_json_law [OF law] opt_pointer_tree_def opt_tree_inject [OF pointer_tree_not_null(1) iffD1 [OF pointer_tree_inject]]
    pointer_tree_inject sealAdvanced_def [symmetric]]
  show "baseline_champion (champions n) = baseline_champion (champions p)"
    using C' by (auto simp: prior_def current_def split: if_splits)
  have active: "active_champion current = active_champion prior \<or>
      cp_experimentNumber (active_champion prior) < cp_experimentNumber (active_champion current)"
    using C' pointer_kept [OF law] by auto
  have rules: "\<exists>d. lastDecision (reconstruction n) = Some d \<and> dc_experimentNumber d = or_else (lastSealed (reconstruction n)) (- 1) \<and>
      inFlight (numbering p) = Some (dc_experimentNumber d) \<and>
      inFlightKind (numbering p) = Some (if dc_stage d = Shadow_audit then Shadow_kind else Optimization_kind) \<and>
      (activeAdvanced p n \<longleftrightarrow> dc_stage d = Validation_stage \<and> dc_disposition d = Dec_promoted) \<and>
      ((case certified_champion prior of None \<Rightarrow> - 1 | Some c \<Rightarrow> cp_experimentNumber c) <
         (case certified_champion current of None \<Rightarrow> - 1 | Some c \<Rightarrow> cp_experimentNumber c) \<longleftrightarrow>
       dc_stage d = Shadow_audit \<and> dc_disposition d = Dec_certified)"
    if s: "sealAdvanced p n"
  proof -
    obtain d where d: "lastDecision (reconstruction n) = Some d"
      "dc_experimentNumber d = or_else (lastSealed (reconstruction n)) (- 1)"
      and g: "\<forall>c \<in> set (sealed_decision_rules h p n d). \<not> fst c" using R(4) [OF s] by blast
    have "inFlightKind (numbering p) = Some (if dc_stage d = Shadow_audit then Shadow_kind else Optimization_kind) \<and>
      (activeAdvanced p n \<longleftrightarrow> dc_stage d = Validation_stage \<and> dc_disposition d = Dec_promoted) \<and>
      ((case certified_champion prior of None \<Rightarrow> - 1 | Some c \<Rightarrow> cp_experimentNumber c) <
         (case certified_champion current of None \<Rightarrow> - 1 | Some c \<Rightarrow> cp_experimentNumber c) \<longleftrightarrow>
       dc_stage d = Shadow_audit \<and> dc_disposition d = Dec_certified)"
      using g by (simp add: sealed_decision_rules_def Let_def prior_def current_def)
    with d R(3) [OF s] show ?thesis by simp
  qed
  have promoted: "lastSealed (reconstruction n) = Some (cp_experimentNumber (active_champion current)) \<and>
      sealChainHead (reconstruction n) = Some (cp_sourceSealHash (active_champion current)) \<and>
      freshSets (holdout n) = freshSets (holdout p) - 1 \<and> sealAdvanced p n" if "activeAdvanced p n"
    using C' that by (auto simp: guard_simps activeAdvanced_def prior_def current_def)
  show "active_champion (champions n) = active_champion (champions p) \<or> promotes (active_champion (champions n)) (p, n)"
  proof (cases "activeAdvanced p n")
    case True
    from promoted [OF True] rules True show ?thesis by (auto simp: promotes_def or_else_def current_def)
  next
    case False
    then show ?thesis using active by (simp add: activeAdvanced_def prior_def current_def)
  qed
  show "certified_champion (champions n) = certified_champion (champions p) \<or>
       (\<exists>c. certified_champion (champions n) = Some c \<and> cp_experimentNumber c \<noteq> 0 \<and> certifies c (p, n))"
  proof (cases "certified_champion current")
    case None
    then have "certified_champion prior = None" using C' by (auto simp: guard_simps)
    with None show ?thesis by (simp add: prior_def current_def)
  next
    case (Some c)
    show ?thesis
    proof (cases "certified_champion prior = Some c")
      case True
      with Some show ?thesis by (simp add: prior_def current_def)
    next
      case False
      have up: "case certified_champion prior of None \<Rightarrow> True | Some q \<Rightarrow> cp_experimentNumber q < cp_experimentNumber c"
        using C' Some False pointer_kept [OF law] by (auto split: option.splits)
      have facts: "sameChampionIdentity c (active_champion current)" "cp_experimentNumber c \<noteq> 0" "sealAdvanced p n"
        "sealChainHead (reconstruction n) = Some (cp_sourceSealHash c)" "\<not> activeAdvanced p n"
        "shadowSlices (holdout n) = shadowSlices (holdout p) - 1"
        "cp_experimentNumber (active_champion current) < or_else (lastSealed (reconstruction n)) (- 1)"
        using C' Some False up
        by (auto simp: guard_simps activeAdvanced_def prior_def current_def or_else_def split: option.splits)
      have "0 \<le> cp_experimentNumber c"
        using valid_stateD(1) [OF valid] Some
        by (simp add: campaign_shape_def Let_def opt_all_def pointer_shape_def counter_def current_def)
      with rules [OF facts(3)] facts up Some active show ?thesis
        by (auto simp: certifies_def current_def prior_def activeAdvanced_def sameChampionIdentity_def split: option.splits)
    qed
  qed
qed

definition championed :: "campaign_state list \<Rightarrow> bool" where
  "championed files \<longleftrightarrow>
     (let now = champions (last files) in
      baseline_champion now = baseline_champion (champions (hd files)) \<and>
      (active_champion now = baseline_champion now \<or> (\<exists>step \<in> set (steps files). promotes (active_champion now) step)) \<and>
      (case certified_champion now of None \<Rightarrow> True
       | Some c \<Rightarrow> cp_experimentNumber c \<noteq> 0 \<and> (\<exists>step \<in> set (steps files). certifies c step)))"

lemma history_championed:
  assumes "lineage e files" "number_law (env_host e)" shows "championed files"
  using assms(1)
proof (induction rule: lineage_induct)
  case (initial s)
  then show ?case
    by (simp add: championed_def assertInitialCampaignState_def guard_simps Let_def same_pointer_def equal_json_law [OF assms(2)])
next
  case (step xs p n)
  note C = champion_step [OF assms(2) step.hyps(4,3)]
  have first: "hd (xs @ [p, n]) = hd (xs @ [p])" by (simp add: hd_append)
  show ?case
    using step.IH C unfolding championed_def Let_def first
    by (auto split: option.splits)
qed

subsection \<open>Holdout capacity and budgets\<close>

text \<open>The capacity a history was given, by its first state and by every new generation, and the decisions it made.\<close>

definition granted :: "(campaign_holdout \<Rightarrow> int) \<Rightarrow> campaign_state list \<Rightarrow> int" where
  "granted f files = f (holdout (hd files)) +
     sum_list (map (\<lambda>(p, n). f (holdout n) - f (holdout p))
       (filter (\<lambda>(p, n). generation (holdout p) < generation (holdout n)) (steps files)))"

definition decisions :: "decision_stage \<Rightarrow> campaign_state list \<Rightarrow> nat" where
  "decisions stage files = length (filter (\<lambda>(p, n). sealAdvanced p n \<and>
     map_option dc_stage (lastDecision (reconstruction n)) = Some stage) (steps files))"

lemma holdoutD:
  assumes "assertHoldoutTransition h p n = Inr ()" "\<not> generation (holdout p) < generation (holdout n)"
  shows "freshSets (holdout n) \<le> freshSets (holdout p)" "shadowSlices (holdout n) \<le> shadowSlices (holdout p)"
  using assms by (simp_all add: assertHoldoutTransition_def assertImmutable_def Let_def guard_simps split: if_splits)

lemma holdout_new_generation:
  assumes "assertHoldoutTransition h p n = Inr ()" "generation (holdout p) < generation (holdout n)"
  shows "freshSets (holdout p) < freshSets (holdout n) \<or> shadowSlices (holdout p) < shadowSlices (holdout n)"
  using assms by (simp add: assertHoldoutTransition_def assertImmutable_def Let_def guard_simps split: if_splits)

lemma decision_capacity:
  assumes "follows h p n" "sealAdvanced p n" "lastDecision (reconstruction n) = Some d"
  shows "dc_stage d = Validation_stage \<Longrightarrow> freshSets (holdout n) = freshSets (holdout p) - 1 \<and>
      shadowSlices (holdout n) = shadowSlices (holdout p)"
    "dc_stage d = Shadow_audit \<Longrightarrow> shadowSlices (holdout n) = shadowSlices (holdout p) - 1 \<and>
      freshSets (holdout n) = freshSets (holdout p)"
proof -
  have g: "\<forall>c \<in> set (sealed_decision_rules h p n d). \<not> fst c"
    using reconstructionD(4) [OF follows_parts(11) [OF assms(1)] assms(2)] assms(3) by auto
  show "dc_stage d = Validation_stage \<Longrightarrow> freshSets (holdout n) = freshSets (holdout p) - 1 \<and>
      shadowSlices (holdout n) = shadowSlices (holdout p)"
    using g by (simp add: sealed_decision_rules_def Let_def)
  show "dc_stage d = Shadow_audit \<Longrightarrow> shadowSlices (holdout n) = shadowSlices (holdout p) - 1 \<and>
      freshSets (holdout n) = freshSets (holdout p)"
    using g by (simp add: sealed_decision_rules_def Let_def)
qed

lemma history_capacity:
  assumes "lineage e files"
  shows "int (decisions Validation_stage files) \<le> granted freshSets files - freshSets (holdout (last files)) \<and>
    int (decisions Shadow_audit files) \<le> granted shadowSlices files - shadowSlices (holdout (last files))"
  using assms
proof (induction rule: lineage_induct)
  case (initial s)
  show ?case by (simp add: decisions_def granted_def)
next
  case (step xs p n)
  have first: "hd (xs @ [p, n]) = hd (xs @ [p])" by (simp add: hd_append)
  let ?g = "generation (holdout p) < generation (holdout n)"
  have grant: "granted f (xs @ [p, n]) = granted f (xs @ [p]) + (if ?g then f (holdout n) - f (holdout p) else 0)" for f
    unfolding granted_def first by simp
  have count: "decisions st (xs @ [p, n]) = decisions st (xs @ [p]) +
      (if sealAdvanced p n \<and> map_option dc_stage (lastDecision (reconstruction n)) = Some st then 1 else 0)" for st
    unfolding decisions_def by simp
  note H = holdoutD [OF follows_parts(10) [OF step.hyps(4)]] holdout_new_generation [OF follows_parts(10) [OF step.hyps(4)]]
  note D = decision_capacity [OF step.hyps(4)]
  show ?case
    using step.IH H D unfolding grant count
    by (cases ?g; cases "sealAdvanced p n"; cases "lastDecision (reconstruction n)"; cases "dc_stage (the (lastDecision (reconstruction n)))") auto
qed

lemma num_le_unless: "\<not> num_less a b \<Longrightarrow> NaN \<noteq> a \<Longrightarrow> NaN \<noteq> b \<Longrightarrow> num_le b a"
  by (cases a; cases b) (auto simp: num_le_def num_eq_def)

lemma num_le_not_NaN: "num_le a b \<Longrightarrow> a \<noteq> NaN \<and> b \<noteq> NaN"
  by (cases a; cases b) (auto simp: num_le_def num_eq_def)

lemma num_le_transitive: "num_le a b \<Longrightarrow> num_le b c \<Longrightarrow> num_le a c"
  by (cases a; cases b; cases c) (auto simp: num_le_def num_eq_def)

lemma valid_budget:
  assumes "assertValidState e s = Inr ()"
  shows "NaN \<notin> set (usage_values (bd_usage (budget s)))" "NaN \<notin> set (limit_values (bd_limits (budget s)))"
    "list_all2 num_le (usage_values (bd_usage (budget s))) (limit_values (bd_limits (budget s)))"
proof -
  have shape: "budget_shape (budget s)" using valid_stateD(1) [OF assms] by (simp add: campaign_shape_def Let_def)
  then show u: "NaN \<notin> set (usage_values (bd_usage (budget s)))" and l: "NaN \<notin> set (limit_values (bd_limits (budget s)))"
    by (auto simp: budget_shape_def Let_def amount_shape_def unit_number_def usage_values_def limit_values_def dest: num_le_not_NaN)
  have "\<forall>(x, y) \<in> set (zip (usage_values (bd_usage (budget s))) (limit_values (bd_limits (budget s)))). \<not> num_less y x"
    using valid_stateD(2) [OF assms] by (simp add: assertCampaignSemantics_def Let_def guard_simps ball_Un case_prod_beta)
  with u l show "list_all2 num_le (usage_values (bd_usage (budget s))) (limit_values (bd_limits (budget s)))"
    by (simp add: usage_values_def limit_values_def num_le_unless)
qed

text \<open>What a later state of a campaign owes the budget of an earlier one.\<close>

definition budget_grows :: "campaign_state \<Rightarrow> campaign_state \<Rightarrow> bool" where
  "budget_grows p n \<longleftrightarrow>
     list_all2 num_le (usage_values (bd_usage (budget p))) (usage_values (bd_usage (budget n))) \<and>
     list_all2 num_le (extensible_limits (bd_limits (budget p))) (extensible_limits (bd_limits (budget n))) \<and>
     frozen_limits (bd_limits (budget n)) = frozen_limits (bd_limits (budget p)) \<and>
     bd_policyHash (budget n) = bd_policyHash (budget p)"

lemma budget_grows_trans: "budget_grows s t \<Longrightarrow> budget_grows t u \<Longrightarrow> budget_grows s u"
  unfolding budget_grows_def using list_all2_trans [of num_le num_le num_le] num_le_transitive by (metis (no_types))

lemma budget_step:
  assumes "follows (env_host e) p n" "assertValidState e p = Inr ()" "assertValidState e n = Inr ()"
  shows "budget_grows p n"
proof -
  note B = follows_parts(9) [OF assms(1), unfolded assertBudgetTransition_def assertImmutable_def Let_def]
  have prior: "NaN \<notin> set (usage_values (bd_usage (budget p)))" "NaN \<notin> set (limit_values (bd_limits (budget p)))"
    and current: "NaN \<notin> set (usage_values (bd_usage (budget n)))" "NaN \<notin> set (limit_values (bd_limits (budget n)))"
    using valid_budget assms(2,3) by blast+
  show ?thesis
    using B prior current
    by (simp add: budget_grows_def guard_simps usage_values_def limit_values_def extensible_limits_def frozen_limits_def
        num_le_unless num_eq_def split: if_splits)
qed

lemma history_budget:
  assumes "lineage e files"
  shows "sorted_wrt budget_grows files"
    "\<forall>s \<in> set files. list_all2 num_le (usage_values (bd_usage (budget s))) (limit_values (bd_limits (budget s)))"
proof -
  have "successively budget_grows files"
    using assms
  proof (induction rule: lineage_induct)
    case (step xs p n)
    then show ?case using budget_step by (simp add: successively_snoc)
  qed simp
  then show "sorted_wrt budget_grows files"
    by (subst successively_conv_sorted_wrt [symmetric]) (auto intro: transpI budget_grows_trans)
  show "\<forall>s \<in> set files. list_all2 num_le (usage_values (bd_usage (budget s))) (limit_values (bd_limits (budget s)))"
    using assms valid_budget(3) [of e] unfolding lineage_def by blast
qed

subsection \<open>Documents determine states\<close>

lemma names_inject [simp]:
  "status_name a = status_name a' \<longleftrightarrow> a = a'" "stop_reason_name b = stop_reason_name b' \<longleftrightarrow> b = b'"
  "pause_reason_name c = pause_reason_name c' \<longleftrightarrow> c = c'" "kind_name d = kind_name d' \<longleftrightarrow> d = d'"
  "stage_name k = stage_name k' \<longleftrightarrow> k = k'" "outcome_name l = outcome_name l' \<longleftrightarrow> l = l'"
  "artifact_name m = artifact_name m' \<longleftrightarrow> m = m'" "mode_name n = mode_name n' \<longleftrightarrow> n = n'"
  by (cases a; cases a'; simp; fail | cases b; cases b'; simp; fail | cases c; cases c'; simp; fail |
      cases d; cases d'; simp; fail | cases k; cases k'; simp; fail | cases l; cases l'; simp; fail |
      cases m; cases m'; simp; fail | cases n; cases n'; simp; fail)+

lemma decision_tree_inject [simp]: "decision_tree p = decision_tree q \<longleftrightarrow> p = q"
  by (auto simp: decision_tree_def json_object_inject)

lemma decision_tree_not_null [simp]: "decision_tree p \<noteq> JNull"
  by (simp add: decision_tree_def json_object_def)

lemma opt_trees_inject [simp]:
  "opt_tree JString a = opt_tree JString a' \<longleftrightarrow> a = a'" "opt_tree int_tree b = opt_tree int_tree b' \<longleftrightarrow> b = b'"
  "opt_tree (JString \<circ> stop_reason_name) c = opt_tree (JString \<circ> stop_reason_name) c' \<longleftrightarrow> c = c'"
  "opt_tree (JString \<circ> pause_reason_name) d = opt_tree (JString \<circ> pause_reason_name) d' \<longleftrightarrow> d = d'"
  "opt_tree (JString \<circ> kind_name) k = opt_tree (JString \<circ> kind_name) k' \<longleftrightarrow> k = k'"
  "opt_tree decision_tree l = opt_tree decision_tree l' \<longleftrightarrow> l = l'"
  "opt_tree pointer_tree m = opt_tree pointer_tree m' \<longleftrightarrow> m = m'"
  by (rule opt_tree_inject; simp)+

lemma control_tree_inject [simp]: "control_tree c = control_tree d \<longleftrightarrow> c = d"
  by (auto simp: control_tree_def json_object_inject)

lemma numbering_tree_inject [simp]: "numbering_tree c = numbering_tree d \<longleftrightarrow> c = d"
  by (auto simp: numbering_tree_def json_object_inject)

lemma champions_tree_inject [simp]: "champions_tree c = champions_tree d \<longleftrightarrow> c = d"
  by (auto simp: champions_tree_def json_object_inject opt_pointer_tree_def)

lemma holdout_tree_inject [simp]: "holdout_tree c = holdout_tree d \<longleftrightarrow> c = d"
  by (auto simp: holdout_tree_def json_object_inject)

lemma reconstruction_tree_inject [simp]: "reconstruction_tree c = reconstruction_tree d \<longleftrightarrow> c = d"
  by (auto simp: reconstruction_tree_def json_object_inject)

lemma ledger_tree_inject [simp]: "ledger_tree (c :: ledger_pointers) = ledger_tree d \<longleftrightarrow> c = d"
  by (auto simp: ledger_tree_def json_object_inject)

lemma provenance_tree_inject [simp]: "provenance_tree xs = provenance_tree ys \<longleftrightarrow> xs = ys"
proof
  have inj: "inj (\<lambda>(artifact, hash). json_object [(''artifactName'', JString (artifact_name artifact)), (''contentHash'', JString hash)])"
    by (rule injI) (auto simp: json_object_inject)
  assume "provenance_tree xs = provenance_tree ys"
  then show "xs = ys" using inj_eq [OF inj_mapI [OF inj]] by (simp add: provenance_tree_def)
qed simp

lemma number_tree_inject: "is_finite x \<Longrightarrow> is_finite y \<Longrightarrow> number_tree x = number_tree y \<longleftrightarrow> x = y"
  by (cases x; cases y) auto

lemma unit_number_finite: "unit_number x \<Longrightarrow> is_finite x"
  by (cases x) (simp_all add: unit_number_def num_le_def num_eq_def)

lemma budget_tree_inject:
  assumes "budget_shape b" "budget_shape c"
  shows "campaign_budget_tree b = campaign_budget_tree c \<longleftrightarrow> b = c"
proof -
  have fin: "is_finite (maximumUsd (bd_limits x))" "is_finite (maximumOnlineError (bd_limits x))"
    "is_finite (spentUsd (bd_usage x))" "is_finite (onlineErrorSpent (bd_usage x))" if "budget_shape x" for x
    using that unit_number_finite by (simp_all add: budget_shape_def Let_def amount_shape_def)
  show ?thesis
    using fin [OF assms(1)] fin [OF assms(2)]
    by (auto simp: campaign_budget_tree_def limits_tree_def usage_tree_def json_object_inject number_tree_inject)
qed

lemma document_inject:
  assumes "budget_shape (budget s)" "budget_shape (budget t)" "hashed_document s = hashed_document t" "contentHash s = contentHash t"
  shows "s = t"
  using assms(3,4) budget_tree_inject [OF assms(1,2)]
  by (simp add: hashed_document_def json_object_inject)

text \<open>Two accepted histories that end in the same content hash, when no two of their documents collide.\<close>

definition document_texts :: "host \<Rightarrow> campaign_state list \<Rightarrow> string set" where
  "document_texts h files = (\<lambda>s. json_text h (hashed_document s)) ` set files"

lemma lineage_valid: "lineage e files \<Longrightarrow> s \<in> set files \<Longrightarrow> assertValidState e s = Inr ()"
  by (auto simp: lineage_def)

lemma same_hash_same_state:
  assumes "number_law (env_host e)" "assertValidState e s = Inr ()" "assertValidState e t = Inr ()"
    and "inj_on (sha256 (env_host e)) A" "json_text (env_host e) (hashed_document s) \<in> A"
      "json_text (env_host e) (hashed_document t) \<in> A" "contentHash s = contentHash t"
  shows "s = t"
proof (rule document_inject)
  show "budget_shape (budget s)" "budget_shape (budget t)"
    using valid_stateD(1) assms(2,3) by (auto simp: campaign_shape_def Let_def)
  have "sha256 (env_host e) (json_text (env_host e) (hashed_document s)) =
      sha256 (env_host e) (json_text (env_host e) (hashed_document t))"
    using assms(7) valid_stateD(3) [OF assms(2)] valid_stateD(3) [OF assms(3)] by (simp add: state_hash_def tree_hash_def)
  then show "hashed_document s = hashed_document t"
    using inj_onD [OF assms(4) _ assms(5,6)] json_text_inject [OF assms(1)] by simp
qed (rule assms(7))

lemma lineage_revision:
  assumes "lineage e files"
  shows "cs_revision (last files) = int (length files) - 1" "previousStateHash (last files) = None \<longleftrightarrow> length files = 1"
proof -
  have "cs_revision (last files) = int (length files) - 1 \<and> (previousStateHash (last files) = None \<longleftrightarrow> length files = 1)"
    using assms
  proof (induction rule: lineage_induct)
    case (initial s)
    then show ?case by (simp add: assertInitialCampaignState_def guard_simps Let_def)
  next
    case (step xs p n)
    then show ?case using follows_parts(1,2) [OF step.hyps(4)] by simp
  qed
  then show "cs_revision (last files) = int (length files) - 1" "previousStateHash (last files) = None \<longleftrightarrow> length files = 1"
    by blast+
qed

lemma lineage_cases [consumes 1, case_names one more]:
  assumes "lineage e files"
  obtains s where "files = [s]"
    | xs p n where "files = xs @ [p, n]" "lineage e (xs @ [p])" "follows (env_host e) p n"
proof (cases files rule: rev_cases)
  case (snoc ys n)
  show thesis
  proof (cases ys rule: rev_cases)
    case Nil
    with snoc that(1) show ?thesis by simp
  next
    case (snoc xs p)
    with \<open>files = ys @ [n]\<close> have "files = xs @ [p, n]" by simp
    with assms show ?thesis using that(2) lineage_snoc [of e xs p n] by blast
  qed
qed (use assms in \<open>simp add: lineage_def\<close>)

lemma lineage_tamper_evident:
  assumes law: "number_law (env_host e)" and inj: "inj_on (sha256 (env_host e)) A"
    and "lineage e files" "lineage e files'" "document_texts (env_host e) files \<subseteq> A" "document_texts (env_host e) files' \<subseteq> A"
    and "contentHash (last files) = contentHash (last files')"
  shows "files = files'"
  using assms(3-)
proof (induction arbitrary: files' rule: lineage_induct)
  case (initial s)
  have ne: "files' \<noteq> []" using initial by (simp add: lineage_def)
  then have "s = last files'"
    using initial by (intro same_hash_same_state [OF law _ lineage_valid inj]) (auto simp: document_texts_def)
  moreover have "previousStateHash s = None"
    using initial by (simp add: assertInitialCampaignState_def guard_simps Let_def)
  ultimately have "length files' = 1" using lineage_revision(2) [OF initial(3)] by simp
  with \<open>s = last files'\<close> show ?case by (cases files') auto
next
  case (step xs p n)
  have ne: "files' \<noteq> []" using step.prems by (simp add: lineage_def)
  have same: "n = last files'"
  proof (rule same_hash_same_state [OF law step.hyps(3) lineage_valid inj])
    show "lineage e files'" "last files' \<in> set files'" using step.prems(1) ne by simp_all
    show "json_text (env_host e) (hashed_document n) \<in> A" "json_text (env_host e) (hashed_document (last files')) \<in> A"
      using step.prems(2,3) ne by (auto simp: document_texts_def)
    show "contentHash n = contentHash (last files')" using step.prems(4) by simp
  qed
  from step.prems(1) show ?case
  proof (cases rule: lineage_cases)
    case (one s)
    then show ?thesis using lineage_revision(2) [OF step.prems(1)] same follows_parts(2) [OF step.hyps(4)] by simp
  next
    case (more ys q m)
    then have "m = n" using same by simp
    with more have "contentHash p = contentHash q"
      using follows_parts(2) [OF step.hyps(4)] follows_parts(2) [OF more(3)] by simp
    then have "xs @ [p] = ys @ [q]"
      using step.prems more by (intro step.IH) (auto simp: document_texts_def)
    with more \<open>m = n\<close> show ?thesis by simp
  qed
qed

end
