(* ===== verification/Campaign_Commits.thy ===== *)
theory Campaign_Commits
  imports Campaign_History
begin

text \<open>
  What the campaign store commits: every operation appends a state that follows the current one,
  and the trusted verifications it makes before the commit are those a later reading of the
  history repeats. The one check an operation does not repeat is the uniqueness of the consumed
  values over the whole history.
\<close>

subsection \<open>The next state\<close>

lemma data_fields [simp]:
  "campaignId (campaignStateData s) = campaignId s" "campaign_mode (campaignStateData s) = campaign_mode s"
  "baselineLineageId (campaignStateData s) = baselineLineageId s"
  "cs_protocolHash (campaignStateData s) = cs_protocolHash s"
  "harnessRegistrationHash (campaignStateData s) = harnessRegistrationHash s" "control (campaignStateData s) = control s"
  "numbering (campaignStateData s) = numbering s" "champions (campaignStateData s) = champions s"
  "budget (campaignStateData s) = budget s" "holdout (campaignStateData s) = holdout s"
  "reconstruction (campaignStateData s) = reconstruction s"
  by (simp_all add: campaignStateData_def campaign_data.truncate_def)

lemma data_of_raw [simp]: "campaignStateData (raw_state d r q t x) = d" "campaignStateData (s\<lparr>contentHash := y\<rparr>) = campaignStateData s"
  by (simp_all add: campaignStateData_def raw_state_def campaign_data.extend_def campaign_data.truncate_def)

lemma same_data:
  assumes "campaignStateData s = d"
  shows "campaignId s = campaignId d" "control s = control d" "numbering s = numbering d" "champions s = champions d"
    "budget s = budget d" "holdout s = holdout d" "reconstruction s = reconstruction d"
  using assms by auto

lemma swapD:
  assumes "compareAndSwapCurrent e cur expected upd now = Inr s"
  shows "contentHash cur = expected" "upd cur = Inr (campaignStateData s)" "assertValidState e s = Inr ()"
    "follows (env_host e) cur s"
  using assms by (auto simp: compareAndSwapCurrent_def check_expected_def createState_def Let_def split: if_splits)

text \<open>Every commit is a compare-and-swap on the current state of an accepted history.\<close>

lemma perform_commit:
  assumes "perform e c op files = Inr (Commit s)"
  obtains cur expected upd now where "reconstruct e c files = Inr cur"
    "compareAndSwapCurrent e cur expected upd now = Inr s"
proof (cases op)
  case (Seal x i now)
  with assms that show ?thesis
    by (auto simp: sealExperiment_def compareAndSwapWithVerifiedLedgers_def split: if_splits)
next
  case (Ledger_checkpoint x l now)
  with assms that show ?thesis
    by (auto simp: recordLedgerCheckpoint_def compareAndSwapWithVerifiedLedgers_def split: if_splits)
next
  case (Extend_budget x l a now)
  with assms that show ?thesis
    by (cases l) (auto simp: extendSpendBudget_def Let_def split: if_splits)
qed (use assms that in \<open>auto simp: allocateExperiment_def recordBudgetUsage_def replenishHoldout_def
  archiveInterruptedExperiment_def requestStop_def acknowledgeStopped_def pause_def resume_def recoverAbandonedLock_def Let_def
  split: if_splits option.splits\<close>)

subsection \<open>Mandatory ledgers\<close>

lemma initial_ledgers:
  assumes "assertInitialCampaignState h s = Inr ()"
  shows "brokerExposure (reconstruction s) \<noteq> None" "repeatedTesting (reconstruction s) \<noteq> None"
    "privacyLedger (reconstruction s) \<noteq> None"
  using assms by (simp_all add: assertInitialCampaignState_def guard_simps Let_def)

lemma kept_ledgers:
  assumes "assertReconstructionTransition h p n = Inr ()"
  shows "brokerExposure (reconstruction p) \<noteq> None \<Longrightarrow> brokerExposure (reconstruction n) \<noteq> None"
    "repeatedTesting (reconstruction p) \<noteq> None \<Longrightarrow> repeatedTesting (reconstruction n) \<noteq> None"
    "privacyLedger (reconstruction p) \<noteq> None \<Longrightarrow> privacyLedger (reconstruction n) \<noteq> None"
  using assms by (simp_all add: assertReconstructionTransition_def guard_simps Let_def ball_Un pointer_list_def)

lemma lineage_ledgers:
  assumes "lineage e files"
  shows "ledgerPointersFromState (last files) = Inr (ledger_pointers.truncate (reconstruction (last files)))"
proof -
  have "brokerExposure (reconstruction (last files)) \<noteq> None \<and> repeatedTesting (reconstruction (last files)) \<noteq> None \<and>
      privacyLedger (reconstruction (last files)) \<noteq> None"
    using assms
  proof (induction rule: lineage_induct)
    case (initial s)
    then show ?case using initial_ledgers by fastforce
  next
    case (step xs p n)
    then show ?case using kept_ledgers [OF follows_parts(11) [OF step.hyps(4)]] by simp
  qed
  then show ?thesis by (auto simp: ledgerPointersFromState_def Let_def)
qed

lemma next_ledgers:
  assumes "ledgerPointersFromState p = Inr l" "follows h p n"
  shows "ledgerPointersFromState n = Inr (ledger_pointers.truncate (reconstruction n))"
  using assms kept_ledgers [OF follows_parts(11) [OF assms(2)]]
  by (auto simp: ledgerPointersFromState_def Let_def split: if_splits)

lemma truncate_with_pointers [simp]: "ledger_pointers.truncate (with_pointers l r) = l"
  by (simp add: with_pointers_def ledger_pointers.truncate_def)

lemma truncate_update [simp]:
  "ledger_pointers.truncate (r\<lparr>lastSealed := a\<rparr>) = ledger_pointers.truncate r"
  "ledger_pointers.truncate (r\<lparr>sealChainHead := b\<rparr>) = ledger_pointers.truncate r"
  "ledger_pointers.truncate (r\<lparr>lastDecision := d\<rparr>) = ledger_pointers.truncate r"
  "ledger_pointers.truncate (r\<lparr>recoveryAuthorization := f\<rparr>) = ledger_pointers.truncate r"
  "ledger_pointers.truncate (r\<lparr>recoveryLock := g\<rparr>) = ledger_pointers.truncate r"
  by (simp_all add: ledger_pointers.truncate_def)

subsection \<open>What a reading of the history verifies again\<close>

lemma persisted_ok:
  assumes "verifyPersistedLedgers e p n = Inr ()"
    and "bd_usage (budget n) = bd_usage (budget p) \<or>
      verifyControlAttestation e (Budget_accounting (control_base_of p (accountingAttestationHash (budget n)))
        (bd_usage (budget p)) (bd_usage (budget n))) = Inr ()"
    and "bd_limits (budget n) = bd_limits (budget p) \<or>
      verifyControlAttestation e (Budget_extension (control_base_of p (authorizationHash (budget n)))
        (bd_limits (budget p)) (bd_limits (budget n))) = Inr ()"
    and "generation (holdout n) = generation (holdout p) \<or> (\<exists>a. replenishmentAuthorizationHash (holdout n) = Some a \<and>
      verifyControlAttestation e (Holdout_replenishment (control_base_of p a) (generation (holdout p)) (generation (holdout n))
        (freshSets (holdout n)) (shadowSlices (holdout n)) (availabilityAttestationHash (holdout n))) = Inr ())"
    and "runEpoch (control n) = runEpoch (control p) \<or> (\<exists>a. lastResumeAuthorizationHash (control n) = Some a \<and>
      verifyControlAttestation e (Resume_attestation (control_base_of p a) (runEpoch (control p)) (runEpoch (control n))) = Inr ())"
    and "ctl_status (control n) \<noteq> Paused \<or> ctl_status (control p) = Paused \<or>
      (\<exists>a r t. pauseAttestationHash (control n) = Some a \<and> pauseReason (control n) = Some r \<and> pausedAt (control n) = Some t \<and>
        verifyControlAttestation e (Pause_attestation (control_base_of p a) r t) = Inr ())"
    and "recoveryAuthorization (reconstruction n) = recoveryAuthorization (reconstruction p) \<or>
      (\<exists>a l. recoveryAuthorization (reconstruction n) = Some a \<and> recoveryLock (reconstruction n) = Some l \<and>
        verifyControlAttestation e (Lock_recovery (control_base_of p a) l) = Inr ())"
  shows "verifyPersistedTransition e p n = Inr ()"
  unfolding verifyPersistedTransition_def Let_def and_then_Inr ex_unit
proof (intro conjI, goal_cases)
  case 1 show ?case by (rule assms(1))
next
  case 2 show ?case using assms(2) by auto
next
  case 3 show ?case using assms(3) by auto
next
  case 4 show ?case using assms(4) by (auto split: option.splits)
next
  case 5 show ?case using assms(5) by (auto split: option.splits)
next
  case 6 show ?case using assms(6) by (elim disjE exE conjE) simp_all
next
  case 7 show ?case using assms(7) by (elim disjE exE conjE) simp_all
qed

lemma persisted_ledgers:
  assumes "budget n = budget p" "generation (holdout n) = generation (holdout p)" "control n = control p"
    "recoveryAuthorization (reconstruction n) = recoveryAuthorization (reconstruction p)"
  shows "verifyPersistedTransition e p n = verifyPersistedLedgers e p n"
proof (cases "verifyPersistedLedgers e p n")
  case (Inr u)
  then have "verifyPersistedLedgers e p n = Inr ()" by simp
  moreover from this have "verifyPersistedTransition e p n = Inr ()" by (rule persisted_ok) (use assms in simp_all)
  ultimately show ?thesis by simp
qed (simp add: verifyPersistedTransition_def)

lemma same_ledgers_verified:
  assumes "lineage e (xs @ [p])" "follows (env_host e) p n"
    and "ledger_pointers.truncate (reconstruction n) = ledger_pointers.truncate (reconstruction p)"
      "lastSealed (reconstruction n) = lastSealed (reconstruction p)" "lastInterrupted (numbering n) = lastInterrupted (numbering p)"
  shows "verifyPersistedLedgers e p n = Inr ()"
  using lineage_ledgers [OF assms(1)] next_ledgers [OF _ assms(2)] assms(3-5)
  by (simp add: verifyPersistedLedgers_def sealAdvanced_def interruptionAdvanced_def)

lemma swap_data:
  assumes "compareAndSwapCurrent e cur expected upd now = Inr s" "upd cur = Inr d"
  shows "control s = control d" "numbering s = numbering d" "champions s = champions d" "budget s = budget d"
    "holdout s = holdout d" "reconstruction s = reconstruction d" "campaignId s = campaignId d"
  using swapD(2) [OF assms(1)] assms(2) same_data [of s d] by simp_all

lemma allocate_verified:
  assumes "lineage e (xs @ [cur])" "compareAndSwapCurrent e cur expected (allocate_update work) now = Inr s"
  shows "verifyPersistedTransition e cur s = Inr ()"
proof -
  obtain d where d: "allocate_update work cur = Inr d" using swapD(2) [OF assms(2)] by blast
  note f = swap_data [OF assms(2) d]
  have "control d = control cur \<and> budget d = budget cur \<and> holdout d = holdout cur \<and> reconstruction d = reconstruction cur \<and>
      lastInterrupted (numbering d) = lastInterrupted (numbering cur)"
    using d by (auto simp: allocate_update_def Let_def)
  with f show ?thesis
    by (intro persisted_ok same_ledgers_verified [OF assms(1) swapD(4) [OF assms(2)]]) simp_all
qed

lemma control_verified:
  assumes "lineage e (xs @ [cur])" "compareAndSwapCurrent e cur expected (\<lambda>t. Inr ((campaignStateData t)\<lparr>control := f t\<rparr>)) now = Inr s"
    and "runEpoch (f cur) = runEpoch (control cur) \<or> (\<exists>a. lastResumeAuthorizationHash (f cur) = Some a \<and>
      verifyControlAttestation e (Resume_attestation (control_base_of cur a) (runEpoch (control cur)) (runEpoch (f cur))) = Inr ())"
    and "ctl_status (f cur) \<noteq> Paused \<or> ctl_status (control cur) = Paused \<or>
      (\<exists>a r t. pauseAttestationHash (f cur) = Some a \<and> pauseReason (f cur) = Some r \<and> pausedAt (f cur) = Some t \<and>
        verifyControlAttestation e (Pause_attestation (control_base_of cur a) r t) = Inr ())"
  shows "verifyPersistedTransition e cur s = Inr ()"
proof -
  note f = swap_data [OF assms(2) refl]
  show ?thesis
  proof (rule persisted_ok)
    show "verifyPersistedLedgers e cur s = Inr ()"
      using f by (intro same_ledgers_verified [OF assms(1) swapD(4) [OF assms(2)]]) simp_all
  qed (use assms(3,4) f in simp_all)
qed

lemma budget_verified:
  assumes "lineage e (xs @ [cur])" "compareAndSwapCurrent e cur expected (\<lambda>t. Inr ((campaignStateData t)\<lparr>budget := f t\<rparr>)) now = Inr s"
    and "bd_usage (f cur) = bd_usage (budget cur) \<or>
      verifyControlAttestation e (Budget_accounting (control_base_of cur (accountingAttestationHash (f cur)))
        (bd_usage (budget cur)) (bd_usage (f cur))) = Inr ()"
    and "bd_limits (f cur) = bd_limits (budget cur) \<or>
      verifyControlAttestation e (Budget_extension (control_base_of cur (authorizationHash (f cur)))
        (bd_limits (budget cur)) (bd_limits (f cur))) = Inr ()"
  shows "verifyPersistedTransition e cur s = Inr ()"
proof -
  note f = swap_data [OF assms(2) refl]
  show ?thesis
  proof (rule persisted_ok)
    show "verifyPersistedLedgers e cur s = Inr ()"
      using f by (intro same_ledgers_verified [OF assms(1) swapD(4) [OF assms(2)]]) simp_all
  qed (use assms(3,4) f in simp_all)
qed

lemma holdout_verified:
  assumes "lineage e (xs @ [cur])" "compareAndSwapCurrent e cur expected (\<lambda>t. Inr ((campaignStateData t)\<lparr>holdout := f t\<rparr>)) now = Inr s"
    and "replenishmentAuthorizationHash (f cur) = Some a" "verifyControlAttestation e (Holdout_replenishment (control_base_of cur a)
      (generation (holdout cur)) (generation (f cur)) (freshSets (f cur)) (shadowSlices (f cur))
      (availabilityAttestationHash (f cur))) = Inr ()"
  shows "verifyPersistedTransition e cur s = Inr ()"
proof -
  note f = swap_data [OF assms(2) refl]
  show ?thesis
  proof (rule persisted_ok)
    show "verifyPersistedLedgers e cur s = Inr ()"
      using f by (intro same_ledgers_verified [OF assms(1) swapD(4) [OF assms(2)]]) simp_all
  qed (use assms(3,4) f in simp_all)
qed

lemma recovery_verified:
  assumes "lineage e (xs @ [cur])" "compareAndSwapCurrent e cur expected (\<lambda>t. Inr ((campaignStateData t)\<lparr>reconstruction :=
      (reconstruction t)\<lparr>recoveryAuthorization := Some a, recoveryLock := Some lock\<rparr>\<rparr>)) now = Inr s"
    and "verifyControlAttestation e (Lock_recovery (control_base_of cur a) lock) = Inr ()"
  shows "verifyPersistedTransition e cur s = Inr ()"
proof -
  note f = swap_data [OF assms(2) refl]
  show ?thesis
  proof (rule persisted_ok)
    show "verifyPersistedLedgers e cur s = Inr ()"
      using f by (intro same_ledgers_verified [OF assms(1) swapD(4) [OF assms(2)]]) simp_all
  qed (use assms(3) f in simp_all)
qed

lemma checkpoint_verified:
  assumes "lineage e (xs @ [cur])" "compareAndSwapCurrent e cur expected (\<lambda>t. Inr ((campaignStateData t)\<lparr>reconstruction :=
      with_pointers l (reconstruction t)\<rparr>)) now = Inr s"
    and "verifyLedgerTransition e cur l Op_checkpoint = Inr ()"
  shows "verifyPersistedTransition e cur s = Inr ()"
proof -
  note f = swap_data [OF assms(2) refl]
  have sealed: "lastSealed (reconstruction s) = lastSealed (reconstruction cur)" using f by (simp add: with_pointers_def)
  have l: "ledgerPointersFromState cur = Inr (ledger_pointers.truncate (reconstruction cur))"
    using lineage_ledgers [OF assms(1)] by simp
  show ?thesis
  proof (rule persisted_ok)
    show "verifyPersistedLedgers e cur s = Inr ()"
      using f l sealed assms(3) next_ledgers [OF l swapD(4) [OF assms(2)]]
      by (simp add: verifyPersistedLedgers_def sealAdvanced_def interruptionAdvanced_def)
  qed (use f in \<open>simp_all add: with_pointers_def\<close>)
qed

lemma interruption_pending:
  assumes "lineage e (xs @ [cur])" "inFlight (numbering cur) = Some n"
  shows "or_else (lastInterrupted (numbering cur)) 0 \<noteq> n" "1 \<le> n"
proof -
  let ?lost = "interrupted_numbers (xs @ [cur])"
  have "or_else (lastInterrupted (numbering cur)) 0 = last (0 # ?lost)" "n \<notin> set ?lost"
    using history_accounted [OF assms(1)] assms(2) by (auto simp: accounted_def Let_def)
  moreover show "1 \<le> n"
    using valid_numbering(4) [OF lineage_valid [OF assms(1)] assms(2)] by simp
  ultimately show "or_else (lastInterrupted (numbering cur)) 0 \<noteq> n"
    using last_in_set [of "0 # ?lost"] by auto
qed

lemma archive_verified:
  assumes "lineage e (xs @ [cur])" "compareAndSwapCurrent e cur expected (archive_update n l) now = Inr s"
    and "inFlight (numbering cur) = Some n" "verifyLedgerTransition e cur l (Op_interruption n) = Inr ()"
  shows "verifyPersistedTransition e cur s = Inr ()"
proof -
  note f = swap_data [OF assms(2) archive_update_def [THEN trans, OF refl]]
  have last: "lastInterrupted (numbering s) = Some n" "inFlight (numbering s) = None"
    and sealed: "lastSealed (reconstruction s) = lastSealed (reconstruction cur)"
    and now: "ledger_pointers.truncate (reconstruction s) = l"
    using f by (simp_all add: with_pointers_def ledger_pointers.truncate_def)
  have "or_else (lastInterrupted (numbering cur)) 0 \<le> n"
    using numberingD(4) [OF follows_parts(7) [OF swapD(4) [OF assms(2)]]] last by (simp add: or_else_def)
  with interruption_pending [OF assms(1,3)] have "interruptionAdvanced cur s"
    using last by (auto simp: interruptionAdvanced_def or_else_def split: option.splits)
  moreover have l: "ledgerPointersFromState cur = Inr (ledger_pointers.truncate (reconstruction cur))"
    using lineage_ledgers [OF assms(1)] by simp
  ultimately have "verifyPersistedLedgers e cur s = Inr ()"
    using sealed last now assms(4) next_ledgers [OF l swapD(4) [OF assms(2)]]
    by (simp add: verifyPersistedLedgers_def sealAdvanced_def)
  then show ?thesis using f by (intro persisted_ok) (simp_all add: with_pointers_def)
qed

text \<open>
  The reader rebuilds the input of a seal from the state: for a seal before validation it does not see
  the holdout hash of the input, so what the decision verifier answers then may differ.
\<close>

lemma seal_verified:
  assumes "lineage e (xs @ [cur])" "compareAndSwapCurrent e cur expected (seal_update i) now = Inr s"
    and "sealChainHead (reconstruction cur) \<noteq> Some (sealHash i)"
    and "verifyLedgerTransition e cur (si_ledgers i)
      (Op_seal (si_experimentNumber i) (si_stage i) (si_disposition i) (sealHash i) (si_attestationHash i)) = Inr ()"
  shows "verifyPersistedTransition e cur s = verifyDecisionAttestation e cur
    (if si_stage i = Pre_validation then i\<lparr>si_availabilityHash := None\<rparr> else i)"
proof -
  obtain d where d: "seal_update i cur = Inr d" using swapD(2) [OF assms(2)] by blast
  note f = swap_data [OF assms(2) d]
  have rules: "\<forall>r \<in> set (seal_rules i cur). \<not> fst r" using d by (simp add: seal_update_def guard_simps)
  have fields: "control s = control cur" "budget s = budget cur" "holdout s = sealed_holdout i (holdout cur)"
    "champions s = sealed_champions i (champions cur)"
    "reconstruction s = (with_pointers (si_ledgers i) (reconstruction cur))\<lparr>lastSealed := Some (si_experimentNumber i),
       sealChainHead := Some (sealHash i), lastDecision := Some \<lparr>dc_experimentNumber = si_experimentNumber i, dc_stage = si_stage i,
         dc_disposition = si_disposition i, decisionAttestationHash = si_attestationHash i, dc_sealedAt = si_sealedAt i\<rparr>\<rparr>"
    using f d by (auto simp: seal_update_def)
  have l: "ledgerPointersFromState cur = Inr (ledger_pointers.truncate (reconstruction cur))"
    using lineage_ledgers [OF assms(1)] by simp
  have next_l: "ledgerPointersFromState s = Inr (si_ledgers i)"
    using next_ledgers [OF l swapD(4) [OF assms(2)]] fields(5) by simp
  have "sealAdvanced cur s"
    using reconstructionD(1,2) [OF follows_parts(11) [OF swapD(4) [OF assms(2)]]] assms(3) fields(5)
    by (fastforce simp: sealAdvanced_def)
  moreover have "persisted_seal s (the (lastDecision (reconstruction s))) (sealHash i) (si_ledgers i) =
      (if si_stage i = Pre_validation then i\<lparr>si_availabilityHash := None\<rparr> else i)"
    using rules unfolding persisted_seal_def fields
    by (cases "si_stage i") (auto simp: seal_rules_def valid_disposition_def seal_promotes_def sealed_champions_def sealed_holdout_def)
  ultimately have "verifyPersistedLedgers e cur s = verifyDecisionAttestation e cur
      (if si_stage i = Pre_validation then i\<lparr>si_availabilityHash := None\<rparr> else i)"
    using l next_l assms(4) fields(5) by (simp add: verifyPersistedLedgers_def)
  moreover have "verifyPersistedTransition e cur s = verifyPersistedLedgers e cur s"
    using fields by (intro persisted_ledgers) (simp_all add: with_pointers_def sealed_holdout_def)
  ultimately show ?thesis by simp
qed

text \<open>What the reader verifies of a committed operation, beyond what was verified before the commit.\<close>

definition replayed_decision :: "campaign_env \<Rightarrow> campaign_state \<Rightarrow> campaign_op \<Rightarrow> unit result" where
  "replayed_decision e cur op =
     (case op of
        Seal _ i _ \<Rightarrow>
          if si_stage i = Pre_validation \<and> si_availabilityHash i \<noteq> None
          then verifyDecisionAttestation e cur (i\<lparr>si_availabilityHash := None\<rparr>) else Inr ()
      | _ \<Rightarrow> Inr ())"

lemma seal_replayed:
  assumes "lineage e (xs @ [cur])" "compareAndSwapCurrent e cur expected (seal_update i) now = Inr s"
    and "sealChainHead (reconstruction cur) \<noteq> Some (sealHash i)"
    and "verifyLedgerTransition e cur (si_ledgers i)
      (Op_seal (si_experimentNumber i) (si_stage i) (si_disposition i) (sealHash i) (si_attestationHash i)) = Inr ()"
    and "verifyDecisionAttestation e cur i = Inr ()"
  shows "verifyPersistedTransition e cur s = replayed_decision e cur (Seal expected i now)"
proof -
  have "verifyDecisionAttestation e cur (i\<lparr>si_availabilityHash := None\<rparr>) = Inr ()" if none: "si_availabilityHash i = None"
  proof -
    have "i\<lparr>si_availabilityHash := None\<rparr> = i" using none by (cases i) simp
    then show ?thesis by (metis assms(5))
  qed
  then show ?thesis
    using seal_verified [OF assms(1-4)] assms(5) by (cases "si_availabilityHash i") (simp_all add: replayed_decision_def)
qed

lemma commit_verified:
  assumes "perform e c op files = Inr (Commit s)" "reconstruct e c files = Inr cur"
  shows "verifyPersistedTransition e cur s = replayed_decision e cur op"
proof -
  obtain xs where lin: "lineage e (xs @ [cur])"
    using assms(2) by (metis append_butlast_last_id lineage_def reconstruct_ok)
  show ?thesis
  proof (cases op)
    case (Allocate x k now)
    with assms show ?thesis by (auto simp: replayed_decision_def allocateExperiment_def intro: allocate_verified [OF lin])
  next
    case (Record_usage x u a now)
    with assms show ?thesis
      by (auto simp: replayed_decision_def recordBudgetUsage_def split: if_splits elim!: budget_verified [OF lin])
  next
    case (Extend_budget x l a now)
    with assms show ?thesis
      by (cases l) (auto simp: replayed_decision_def extendSpendBudget_def Let_def split: if_splits elim!: budget_verified [OF lin])
  next
    case (Replenish x fresh shadow v a now)
    with assms show ?thesis
      by (auto simp: replayed_decision_def replenishHoldout_def elim!: holdout_verified [OF lin])
  next
    case (Ledger_checkpoint x l now)
    with assms show ?thesis
      by (auto simp: replayed_decision_def recordLedgerCheckpoint_def compareAndSwapWithVerifiedLedgers_def elim!: checkpoint_verified [OF lin])
  next
    case (Seal x i now)
    with assms show ?thesis
      by (auto simp: sealExperiment_def compareAndSwapWithVerifiedLedgers_def guard_simps split: if_splits
          intro: seal_replayed [OF lin, of x i now])
  next
    case (Archive x n b now)
    with assms show ?thesis
      by (auto simp: replayed_decision_def archiveInterruptedExperiment_def Let_def split: if_splits elim!: archive_verified [OF lin])
  next
    case (Request_stop x r t now)
    with assms show ?thesis
      by (auto simp: replayed_decision_def requestStop_def split: if_splits option.splits elim!: control_verified [OF lin])
  next
    case (Acknowledge_stop x t now)
    with assms show ?thesis
      by (auto simp: replayed_decision_def acknowledgeStopped_def split: if_splits option.splits elim!: control_verified [OF lin])
  next
    case (Pause_campaign x r a t now)
    with assms show ?thesis
      by (auto simp: replayed_decision_def pause_def control_base_of_def split: if_splits elim!: control_verified [OF lin])
  next
    case (Resume_campaign x a t now)
    with assms show ?thesis
      by (auto simp: replayed_decision_def resume_def split: if_splits elim!: control_verified [OF lin])
  next
    case (Recover_lock x a lock now)
    with assms show ?thesis
      by (auto simp: replayed_decision_def recoverAbandonedLock_def split: if_splits elim!: recovery_verified [OF lin])
  qed
qed

lemma check_all_append: "check_all f (xs @ ys) = and_then (check_all f xs) (\<lambda>_. check_all f ys)"
proof (induction xs)
  case (Cons x xs)
  then show ?case by (cases "f x") simp_all
qed simp

lemma zip_tail_snoc: "zip (xs @ [p, n]) (tl (xs @ [p, n])) = zip (xs @ [p]) (tl (xs @ [p])) @ [(p, n)]"
  by (induction xs rule: induct_list012) auto

lemma successively_both:
  assumes "successively P xs" "successively Q xs" "\<And>p n. P p n \<Longrightarrow> Q p n \<Longrightarrow> R p n"
  shows "successively R xs"
  using assms by (induction P xs rule: successively.induct) auto

lemma commit_reload:
  assumes "perform e c op files = Inr (Commit s)" "reconstruct e c files = Inr cur"
  shows "reconstruct e c (files @ [s]) = and_then (assertHistoryWideUniqueness (files @ [s]))
    (\<lambda>_. and_then (replayed_decision e cur op) (\<lambda>_. Inr s))"
proof -
  obtain expected upd now where sw: "compareAndSwapCurrent e cur expected upd now = Inr s"
    using perform_commit [OF assms(1)] assms(2) by (metis sum.inject(2))
  note N = swapD [OF sw]
  note R = assms(2) [unfolded reconstruct_ok]
  obtain xs where files: "files = xs @ [cur]"
    using R by (metis append_butlast_last_id lineage_def)
  have lin: "lineage e (files @ [s])"
  proof -
    have "lineage e files" using R by blast
    then have "lineage e (xs @ [cur])" by (simp only: files)
    then show ?thesis using lineage_snoc [of e xs cur s] N(3,4) unfolding files by simp
  qed
  have states: "readStates e c (files @ [s]) = Inr (files @ [s])"
  proof -
    have old: "\<forall>i < length files. assertValidState e (files ! i) = Inr () \<and> campaignId (files ! i) = c \<and> cs_revision (files ! i) = int i"
      using R by (simp add: readStates_ok)
    then have "campaignId cur = c" "cs_revision cur = int (length xs)" using files by (auto dest: spec [of _ "length xs"])
    then have "campaignId s = c" "cs_revision s = int (length files)"
      using follows_parts(1,3) [OF N(4)] files by simp_all
    then show ?thesis using old N(3) by (simp add: readStates_ok nth_append less_Suc_eq)
  qed
  have steps: "check_all (checkStep e) (zip (files @ [s]) (tl (files @ [s]))) = replayed_decision e cur op"
  proof -
    have "successively (\<lambda>p n. checkStep e (p, n) = Inr ()) files"
      using R by (auto simp: lineage_def checkStep_def intro: successively_both)
    then have "check_all (checkStep e) (zip files (tl files)) = Inr ()"
      by (simp add: guard_simps flip: zip_tail_successively)
    moreover have "checkStep e (cur, s) = replayed_decision e cur op"
      using N(4) commit_verified [OF assms] by (simp add: checkStep_def)
    ultimately show ?thesis by (cases "replayed_decision e cur op") (simp_all add: files zip_tail_snoc check_all_append)
  qed
  have genesis: "verifyInitialCampaignAttestation e (hd (files @ [s])) = Inr ()"
  proof -
    have "verifyInitialCampaignAttestation e (hd files) = Inr ()" using R by blast
    then show ?thesis by (cases xs) (simp_all add: files)
  qed
  obtain t rest where list: "files @ [s] = t # rest" by (cases "files @ [s]") auto
  have "assertInitialCampaignState (env_host e) t = Inr ()" "verifyInitialCampaignAttestation e t = Inr ()" "last (t # rest) = s"
    using lin genesis by (simp_all add: lineage_def list [symmetric], simp_all add: list)
  then show ?thesis
    using states steps by (simp add: reconstruct_def validateHistory_def list)
qed

end
