(* ===== verification/Campaign_Properties.thy ===== *)
theory Campaign_Properties
  imports Campaign_Commits Cache_Properties "HOL-Library.Sublist"
begin

text \<open>
  The promises of the campaign store over every accepted history, with a concrete campaign: a
  baseline, an optimization experiment that is promoted, and an audit that certifies it.
\<close>

subsection \<open>A concrete campaign\<close>

definition example_env :: campaign_env where
  "example_env = \<lparr>env_host = example_host, date_time = (\<lambda>_. True), release_safe = (\<lambda>_. True),
     ledger_verifier = Some (\<lambda>_. Inr ()), decision_verifier = Some (\<lambda>_. Inr ()), control_verifier = Some (\<lambda>_. Inr ())\<rparr>"

definition example_pointer :: "int \<Rightarrow> char \<Rightarrow> champion_pointer" where
  "example_pointer k c = \<lparr>cp_experimentNumber = k, cp_commit = replicate 40 CHR ''1'', cp_sourceSealHash = sixty_four c\<rparr>"

definition example_base :: campaign_data where
  "example_base = \<lparr>campaignId = ''c'', campaign_mode = Research, baselineLineageId = ''b'',
     cs_protocolHash = sixty_four CHR ''0'', harnessRegistrationHash = sixty_four CHR ''0'',
     control = \<lparr>ctl_status = Running, runEpoch = 0, stopRequestedAt = None, stopReason = None, stoppedAt = None,
       pausedAt = None, pauseReason = None, pauseAttestationHash = None, lastResumedAt = None, lastResumeAuthorizationHash = None\<rparr>,
     numbering = \<lparr>nextExperiment = 1, inFlight = None, inFlightKind = None, lastInterrupted = None\<rparr>,
     champions = \<lparr>baseline_champion = example_pointer 0 CHR ''1'', active_champion = example_pointer 0 CHR ''1'',
       certified_champion = None, champions_updatedAt = ''t''\<rparr>,
     budget = \<lparr>bd_limits = \<lparr>maximumUsd = Fin 2, maximumTokens = 2, maximumWallTimeMs = 2, maximumAttempts = 2,
         maximumPrivacyReleases = 2, maximumPromotionLooks = 2, maximumOnlineError = Fin 1\<rparr>,
       bd_usage = \<lparr>spentUsd = Fin 0, tokens = 0, wallTimeMs = 0, used_attempts = 0, privacyReleases = 0, promotionLooks = 0,
         onlineErrorSpent = Fin 0\<rparr>,
       bd_policyHash = sixty_four CHR ''0'', authorizationHash = sixty_four CHR ''0'',
       accountingAttestationHash = sixty_four CHR ''0''\<rparr>,
     holdout = \<lparr>freshSets = 1, shadowSlices = 1, generation = 0, ho_policyHash = sixty_four CHR ''0'',
       availabilityAttestationHash = sixty_four CHR ''0'', replenishmentAuthorizationHash = None\<rparr>,
     reconstruction = \<lparr>brokerExposure = Some (sixty_four CHR ''0''), repeatedTesting = Some (sixty_four CHR ''0''),
       privacyLedger = Some (sixty_four CHR ''0''), cacheState = None, publicationQueue = None, lastSealed = Some 0,
       sealChainHead = Some (sixty_four CHR ''1''), lastDecision = None, recoveryAuthorization = None, recoveryLock = None\<rparr>\<rparr>"

definition example_decision :: "int \<Rightarrow> decision_stage \<Rightarrow> decision_outcome \<Rightarrow> char \<Rightarrow> sealed_decision" where
  "example_decision k stage outcome c = \<lparr>dc_experimentNumber = k, dc_stage = stage, dc_disposition = outcome,
     decisionAttestationHash = sixty_four c, dc_sealedAt = ''t''\<rparr>"

text \<open>The data after an allocation and after a seal.\<close>

definition example_allocated :: "inflight_kind \<Rightarrow> campaign_data \<Rightarrow> campaign_data" where
  "example_allocated work d = d\<lparr>numbering := (numbering d)\<lparr>nextExperiment := nextExperiment (numbering d) + 1,
     inFlight := Some (nextExperiment (numbering d)), inFlightKind := Some work\<rparr>\<rparr>"

definition example_promoted :: "campaign_data \<Rightarrow> campaign_data" where
  "example_promoted d = d\<lparr>numbering := (numbering d)\<lparr>inFlight := None, inFlightKind := None\<rparr>,
     champions := (champions d)\<lparr>active_champion := example_pointer 1 CHR ''2''\<rparr>,
     holdout := (holdout d)\<lparr>freshSets := 0, availabilityAttestationHash := sixty_four CHR ''2''\<rparr>,
     reconstruction := (reconstruction d)\<lparr>lastSealed := Some 1, sealChainHead := Some (sixty_four CHR ''2''),
       lastDecision := Some (example_decision 1 Validation_stage Dec_promoted CHR ''2'')\<rparr>\<rparr>"

definition example_certified :: "campaign_data \<Rightarrow> campaign_data" where
  "example_certified d = d\<lparr>numbering := (numbering d)\<lparr>inFlight := None, inFlightKind := None\<rparr>,
     champions := (champions d)\<lparr>certified_champion := Some (example_pointer 1 CHR ''3'')\<rparr>,
     holdout := (holdout d)\<lparr>shadowSlices := 0, availabilityAttestationHash := sixty_four CHR ''3''\<rparr>,
     reconstruction := (reconstruction d)\<lparr>lastSealed := Some 2, sealChainHead := Some (sixty_four CHR ''3''),
       lastDecision := Some (example_decision 2 Shadow_audit Dec_certified CHR ''3'')\<rparr>\<rparr>"

definition example_state :: "int \<Rightarrow> campaign_data \<Rightarrow> campaign_state" where
  "example_state k d = raw_state d k (if k = 0 then None else Some (sixty_four CHR ''a'')) ''t'' (sixty_four CHR ''a'')"

definition example_data :: "nat \<Rightarrow> campaign_data" where
  "example_data k = foldl (\<lambda>d f. f d) example_base
     (take k [example_allocated Optimization_kind, example_promoted, example_allocated Shadow_kind, example_certified])"

definition example_files :: "campaign_state list" where
  "example_files = [example_state 0 (example_data 0), example_state 1 (example_data 1), example_state 2 (example_data 2),
     example_state 3 (example_data 3), example_state 4 (example_data 4)]"

lemma example_tree_hash [simp]: "tree_hash example_host j = sixty_four CHR ''a''"
  using json_text_not_close [OF example_number_law, of j] by (simp add: tree_hash_def example_host_def sixty_four_def)

lemma raw_fields [simp]:
  "campaignId (raw_state d r q t x) = campaignId d" "campaign_mode (raw_state d r q t x) = campaign_mode d"
  "baselineLineageId (raw_state d r q t x) = baselineLineageId d" "cs_protocolHash (raw_state d r q t x) = cs_protocolHash d"
  "harnessRegistrationHash (raw_state d r q t x) = harnessRegistrationHash d" "control (raw_state d r q t x) = control d"
  "numbering (raw_state d r q t x) = numbering d" "champions (raw_state d r q t x) = champions d"
  "budget (raw_state d r q t x) = budget d" "holdout (raw_state d r q t x) = holdout d"
  "reconstruction (raw_state d r q t x) = reconstruction d" "createdAt (raw_state d r q t x) = t"
  "cs_revision (raw_state d r q t x) = r" "previousStateHash (raw_state d r q t x) = q" "contentHash (raw_state d r q t x) = x"
  "provenanceRefs (raw_state d r q t x) = (Harness_registration, harnessRegistrationHash d) #
     (case q of None \<Rightarrow> [] | Some p \<Rightarrow> [(Campaign_state_artifact, p)])"
  by (simp_all add: raw_state_def campaign_data.extend_def campaign_state.fields_def)

lemma example_oid [simp]: "is_git_oid (replicate 40 CHR ''1'')"
  by (simp add: is_git_oid_def list_all_iff lower_hex_def del: replicate.simps)

lemma more_hex [simp]: "lower_hex CHR ''1''" "lower_hex CHR ''2''" "lower_hex CHR ''3''"
  by (simp_all add: lower_hex_def)

lemma example_names [simp]: "safe_identifier ''c''" "safe_identifier ''b''"
  by (simp_all add: safe_identifier_def lower_alnum_def)

lemma example_units [simp]: "unit_number (Fin 0)" "unit_number (Fin 1)" "amount_shape (Fin 0)" "amount_shape (Fin 2)"
  by (simp_all add: unit_number_def amount_shape_def num_le_def num_eq_def)

lemma example_counters [simp]: "counter 0" "counter 1" "counter 2" "counter 3" "counter 4" "positive_counter 1" "positive_counter 2" "positive_counter 3"
  by (simp_all add: counter_def positive_counter_def max_safe_def)

lemma example_step_data [simp]:
  "example_data 0 = example_base" "example_data 1 = example_allocated Optimization_kind (example_data 0)"
  "example_data (Suc 0) = example_allocated Optimization_kind (example_data 0)"
  "example_data 2 = example_promoted (example_data 1)" "example_data 3 = example_allocated Shadow_kind (example_data 2)"
  "example_data 4 = example_certified (example_data 3)"
  by (simp_all add: example_data_def numeral_eq_Suc)

lemmas example_defs = example_state_def example_base_def example_allocated_def example_promoted_def example_certified_def
  example_pointer_def example_decision_def

lemma example_law [simp]: "equal_json example_host j k \<longleftrightarrow> j = k"
  by (rule equal_json_law [OF example_number_law])

lemma example_campaign_valid:
  assumes "k \<in> {0, 1, 2, 3, 4}" shows "assertValidState example_env (example_state (int k) (example_data k)) = Inr ()"
proof -
  have shape: "campaign_shape (\<lambda>_. True) (example_state (int k) (example_data k))"
    using assms by (auto simp: campaign_shape_def control_shape_def budget_shape_def decision_shape_def pointer_shape_def opt_all_def
      Let_def pointer_list_def example_defs)
  have "assertCampaignSemantics example_host (example_state (int k) (example_data k)) = Inr ()"
    using assms by (auto simp: assertCampaignSemantics_def guard_simps Let_def control_mismatch_def not_below_def or_else_def
      usage_values_def limit_values_def example_defs)
  with shape show ?thesis
    by (simp add: assertValidState_def example_env_def state_hash_def) (simp add: example_state_def)
qed

lemmas transition_defs = assertCampaignStateTransition_def assertImmutable_ok assertControlTransition_def
  assertNumberingTransition_def assertChampionTransition_def assertBudgetTransition_def assertHoldoutTransition_def
  assertReconstructionTransition_def assertPointerDidNotRegress_def sealed_decision_rules_def activeAdvanced_def
  same_pointer_def sameChampionIdentity_def numbers_differ_def extensible_limits_def frozen_limits_def

lemma example_time [simp]: "\<not> earlier example_host ''t'' s" "\<not> earlier example_host s ''t''"
  by (simp_all add: earlier_def example_host_def split: option.split)

lemma example_opt_pointer [simp]: "opt_pointer_tree p = opt_pointer_tree q \<longleftrightarrow> p = q"
  by (simp add: opt_pointer_tree_def)


lemma example_follows:
  "follows example_host (example_state 0 (example_data 0)) (example_state 1 (example_data 1))"
  "follows example_host (example_state 1 (example_data 1)) (example_state 2 (example_data 2))"
  "follows example_host (example_state 2 (example_data 2)) (example_state 3 (example_data 3))"
  "follows example_host (example_state 3 (example_data 3)) (example_state 4 (example_data 4))"
  by (simp_all add: transition_defs guard_simps Let_def or_else_def opt_earlier_def usage_values_def limit_values_def num_eq_def
      pointer_list_def example_defs)

lemma example_campaign_valid_all:
  "assertValidState example_env (example_state 0 (example_data 0)) = Inr ()"
  "assertValidState example_env (example_state 1 (example_data 1)) = Inr ()"
  "assertValidState example_env (example_state 2 (example_data 2)) = Inr ()"
  "assertValidState example_env (example_state 3 (example_data 3)) = Inr ()"
  "assertValidState example_env (example_state 4 (example_data 4)) = Inr ()"
  using example_campaign_valid [of 0] example_campaign_valid [of 1] example_campaign_valid [of 2] example_campaign_valid [of 3] example_campaign_valid [of 4]
  by (simp_all del: example_step_data One_nat_def)

lemma example_initial: "assertInitialCampaignState example_host (example_state 0 (example_data 0)) = Inr ()"
  by (simp add: assertInitialCampaignState_def guard_simps Let_def same_pointer_def example_defs)

lemma example_host_env [simp]: "env_host example_env = example_host"
  by (simp add: example_env_def)

lemma example_lineage: "lineage example_env example_files"
  by (simp add: lineage_def example_files_def example_follows example_campaign_valid_all example_initial
      del: example_step_data One_nat_def)


lemmas persisted_defs = verifyPersistedTransition_def verifyPersistedLedgers_def ledgerPointersFromState_def sealAdvanced_def
  interruptionAdvanced_def verifyControlAttestation_def verifyDecisionAttestation_def verifyLedgerTransition_def

lemma example_persisted:
  "verifyPersistedTransition example_env (example_state 0 (example_data 0)) (example_state 1 (example_data 1)) = Inr ()"
  "verifyPersistedTransition example_env (example_state 1 (example_data 1)) (example_state 2 (example_data 2)) = Inr ()"
  "verifyPersistedTransition example_env (example_state 2 (example_data 2)) (example_state 3 (example_data 3)) = Inr ()"
  "verifyPersistedTransition example_env (example_state 3 (example_data 3)) (example_state 4 (example_data 4)) = Inr ()"
  by (simp_all add: persisted_defs example_env_def Let_def or_else_def example_defs)

lemma example_unique: "assertHistoryWideUniqueness example_files = Inr ()"
  by (simp add: assertHistoryWideUniqueness_def history_consumption_def initial_consumption_def consumption_def example_files_def
      pointer_list_def Let_def example_defs)

theorem example_history: "reconstruct example_env ''c'' example_files = Inr (example_state 4 (example_data 4))"
proof -
  have "readStates example_env ''c'' example_files = Inr example_files"
    by (simp add: readStates_def example_files_def example_campaign_valid_all del: example_step_data One_nat_def)
      (simp add: example_defs)
  moreover have "verifyInitialCampaignAttestation example_env (hd example_files) = Inr ()"
    by (simp add: verifyInitialCampaignAttestation_def example_files_def verifyControlAttestation_def ledgerPointersFromState_def
        example_env_def Let_def example_defs)
  moreover have "successively (\<lambda>p n. verifyPersistedTransition example_env p n = Inr ()) example_files"
    by (simp add: example_files_def example_persisted del: example_step_data One_nat_def)
  ultimately show ?thesis
    using example_lineage example_unique by (simp add: reconstruct_ok example_files_def)
qed

text \<open>A campaign whose broker pointer moves away from its first value and is moved back.\<close>

definition example_ledgers :: "char \<Rightarrow> ledger_pointers" where
  "example_ledgers c = \<lparr>brokerExposure = Some (sixty_four c), repeatedTesting = Some (sixty_four CHR ''0''),
     privacyLedger = Some (sixty_four CHR ''0''), cacheState = None, publicationQueue = None\<rparr>"

definition example_checkpoint :: "char \<Rightarrow> campaign_data" where
  "example_checkpoint c = example_base\<lparr>reconstruction := with_pointers (example_ledgers c) (reconstruction example_base)\<rparr>"

definition example_round :: "campaign_state list" where
  "example_round = [example_state 0 (example_checkpoint CHR ''0''), example_state 1 (example_checkpoint CHR ''1'')]"

lemma raw_hash [simp]: "(raw_state d r q t x)\<lparr>contentHash := y\<rparr> = raw_state d r q t y"
  by (simp add: raw_state_def campaign_data.extend_def campaign_state.fields_def)

lemma checkpoint_valid:
  "lower_hex c \<Longrightarrow> k \<in> {0, 1, 2} \<Longrightarrow> assertValidState example_env (example_state k (example_checkpoint c)) = Inr ()"
proof -
  assume c: "lower_hex c" and k: "k \<in> {0, 1, 2}"
  have "campaign_shape (\<lambda>_. True) (example_state k (example_checkpoint c))"
    using c k by (auto simp: campaign_shape_def control_shape_def budget_shape_def pointer_shape_def opt_all_def
      Let_def pointer_list_def example_checkpoint_def example_ledgers_def with_pointers_def example_defs)
  moreover have "assertCampaignSemantics example_host (example_state k (example_checkpoint c)) = Inr ()"
    using k by (auto simp: assertCampaignSemantics_def guard_simps Let_def control_mismatch_def not_below_def or_else_def
      usage_values_def limit_values_def example_checkpoint_def with_pointers_def example_defs)
  ultimately show ?thesis
    by (simp add: assertValidState_def example_env_def state_hash_def) (simp add: example_state_def)
qed

lemma checkpoint_follows:
  "follows example_host (example_state 0 (example_checkpoint c)) (example_state 1 (example_checkpoint d))"
  "follows example_host (example_state 1 (example_checkpoint c)) (example_state 2 (example_checkpoint d))"
  by (simp_all add: transition_defs guard_simps Let_def or_else_def opt_earlier_def usage_values_def limit_values_def num_eq_def
      pointer_list_def example_checkpoint_def example_ledgers_def with_pointers_def example_defs)

lemma checkpoint_round: "reconstruct example_env ''c'' example_round = Inr (example_state 1 (example_checkpoint CHR ''1''))"
proof -
  have v: "assertValidState example_env (example_state 0 (example_checkpoint CHR ''0'')) = Inr ()"
    "assertValidState example_env (example_state 1 (example_checkpoint CHR ''1'')) = Inr ()"
    by (simp_all add: checkpoint_valid)
  have i: "assertInitialCampaignState example_host (example_state 0 (example_checkpoint CHR ''0'')) = Inr ()"
    by (simp add: assertInitialCampaignState_def guard_simps Let_def same_pointer_def example_checkpoint_def example_ledgers_def
        with_pointers_def example_defs)
  have "lineage example_env example_round"
    using v i checkpoint_follows(1) by (simp add: lineage_def example_round_def)
  moreover have "readStates example_env ''c'' example_round = Inr example_round"
    using v by (simp add: readStates_def example_round_def) (simp add: example_checkpoint_def example_defs)
  moreover have "verifyInitialCampaignAttestation example_env (hd example_round) = Inr ()"
    by (simp add: verifyInitialCampaignAttestation_def example_round_def verifyControlAttestation_def ledgerPointersFromState_def
        example_env_def Let_def example_checkpoint_def example_ledgers_def with_pointers_def example_defs)
  moreover have "assertHistoryWideUniqueness example_round = Inr ()"
    by (simp add: assertHistoryWideUniqueness_def history_consumption_def initial_consumption_def consumption_def example_round_def
      pointer_list_def Let_def example_checkpoint_def example_ledgers_def with_pointers_def example_defs)
  moreover have "verifyPersistedTransition example_env (example_state 0 (example_checkpoint CHR ''0''))
      (example_state 1 (example_checkpoint CHR ''1'')) = Inr ()"
    by (simp add: persisted_defs example_env_def Let_def or_else_def example_checkpoint_def example_ledgers_def with_pointers_def
        example_defs)
  ultimately show ?thesis by (simp add: reconstruct_ok example_round_def)
qed

lemma checkpoint_back:
  "perform example_env ''c'' (Ledger_checkpoint (sixty_four CHR ''a'') (example_ledgers CHR ''0'') ''t'') example_round =
     Inr (Commit (example_state 2 (example_checkpoint CHR ''0'')))"
proof -
  let ?cur = "example_state 1 (example_checkpoint CHR ''1'')"
  have pointers: "ledgerPointersFromState ?cur = Inr (example_ledgers CHR ''1'')" "assertLedgerPointers (example_ledgers CHR ''0'') = Inr ()"
    "assertHash (sixty_four CHR ''a'') = Inr ()"
    by (simp_all add: ledgerPointersFromState_def assertLedgerPointers_def assertOptHash_def assertHash_def guard_simps Let_def
        ledger_pointers.truncate_def example_checkpoint_def example_ledgers_def with_pointers_def example_defs)
  have "(campaignStateData ?cur)\<lparr>reconstruction := with_pointers (example_ledgers CHR ''0'') (reconstruction ?cur)\<rparr> =
      example_checkpoint CHR ''0''"
    by (simp add: example_checkpoint_def example_ledgers_def with_pointers_def example_state_def)
  moreover have "createState example_env (example_checkpoint CHR ''0'') 2 (Some (sixty_four CHR ''a'')) ''t'' =
      Inr (example_state 2 (example_checkpoint CHR ''0''))"
    using checkpoint_valid [of "CHR ''0''" 2] by (simp add: createState_def state_hash_def example_state_def Let_def)
  moreover have "contentHash ?cur = sixty_four CHR ''a''" "cs_revision ?cur = 1" by (simp_all add: example_state_def)
  ultimately have "compareAndSwapCurrent example_env ?cur (sixty_four CHR ''a'') (\<lambda>s. Inr ((campaignStateData s)
      \<lparr>reconstruction := with_pointers (example_ledgers CHR ''0'') (reconstruction s)\<rparr>)) ''t'' =
      Inr (example_state 2 (example_checkpoint CHR ''0''))"
    using checkpoint_follows(2) by (simp add: compareAndSwapCurrent_def check_expected_def)
  moreover have "verifyLedgerTransition example_env ?cur (example_ledgers CHR ''0'') Op_checkpoint = Inr ()"
    using pointers by (simp add: verifyLedgerTransition_def example_env_def example_checkpoint_def with_pointers_def example_defs)
  ultimately show ?thesis
    using pointers checkpoint_round \<open>contentHash ?cur = sixty_four CHR ''a''\<close>
    by (simp add: recordLedgerCheckpoint_def compareAndSwapWithVerifiedLedgers_def check_expected_def guard_simps)
      (simp add: example_ledgers_def)
qed

subsection \<open>The promises of the store\<close>

text \<open>
  C6. A state that any of the twelve operations commits to an accepted history is read back, with two
  exact exceptions: the next reader of the directory accepts the longer history and finds that state
  current, because every trusted verification of the reader was made before the commit. When the
  commit consumes a value the history has consumed before, the reader refuses the whole history, and
  no operation works on the campaign again. When the commit is a seal before validation that carried
  a holdout hash, the reader asks the decision verifier again, for the input without that hash, and
  its answer decides.
\<close>

theorem commit_reloads_unless_reused:
  assumes "reconstruct e c files = Inr cur" "perform e c op files = Inr (Commit s)"
  shows "reconstruct e c (files @ [s]) =
    (if assertHistoryWideUniqueness (files @ [s]) \<noteq> Inr ()
     then Inl (integrity_fault ''Campaign history reuses a consumed value'')
     else case op of
       Seal _ i _ \<Rightarrow>
         if si_stage i = Pre_validation \<and> si_availabilityHash i \<noteq> None
         then and_then (verifyDecisionAttestation e cur (i\<lparr>si_availabilityHash := None\<rparr>)) (\<lambda>_. Inr s)
         else Inr s
     | _ \<Rightarrow> Inr s)"
  using commit_reload [OF assms(2,1)]
  by (auto simp: assertHistoryWideUniqueness_def replayed_decision_def split: campaign_op.split)

theorem commit_reloads_unless_reused_witness:
  "\<exists>files cur s. reconstruct example_env ''c'' files = Inr cur \<and>
     perform example_env ''c'' (Ledger_checkpoint (sixty_four CHR ''a'') (example_ledgers CHR ''0'') ''t'') files = Inr (Commit s) \<and>
     reconstruct example_env ''c'' (files @ [s]) = Inl (integrity_fault ''Campaign history reuses a consumed value'')"
proof -
  let ?s = "example_state 2 (example_checkpoint CHR ''0'')"
  have "assertHistoryWideUniqueness (example_round @ [?s]) \<noteq> Inr ()"
    by (simp add: assertHistoryWideUniqueness_def history_consumption_def initial_consumption_def consumption_def example_round_def
      pointer_list_def Let_def example_checkpoint_def example_ledgers_def with_pointers_def example_defs)
  then show ?thesis
    using commit_reloads_unless_reused [OF checkpoint_round checkpoint_back] checkpoint_round checkpoint_back by auto
qed

interpretation campaign: monotone_machine "store_step e c" "lineage e" prefix for e c
proof
  fix files op files'
  assume lin: "lineage e files" and step: "store_step e c op files = Inr files'"
  then obtain outcome where o: "perform e c op files = Inr outcome"
    and case': "(case outcome of Keep s \<Rightarrow> Inr files | Commit s \<Rightarrow> Inr (files @ [s])) = (Inr files' :: _ result)"
    unfolding store_step_def and_then_Inr by blast
  then have files': "files' = (case outcome of Keep s \<Rightarrow> files | Commit s \<Rightarrow> files @ [s])" by (cases outcome) simp_all
  show "lineage e files'"
  proof (cases outcome)
    case (Commit s)
    with o obtain cur expected upd now where r: "reconstruct e c files = Inr cur"
      and sw: "compareAndSwapCurrent e cur expected upd now = Inr s" by (auto elim: perform_commit)
    have ne: "files \<noteq> []" "cur = last files" using r lin by (auto simp: reconstruct_ok lineage_def)
    then obtain xs where "files = xs @ [cur]" by (metis append_butlast_last_id)
    then show ?thesis using lin swapD(3,4) [OF sw] lineage_snoc [of e xs cur s] files' Commit by simp
  qed (use lin files' in simp)
  show "prefix files files'" using files' by (cases outcome) simp_all
qed (auto intro: prefix_order.trans)

text \<open>
  C12. The store is append-only under any sequence of operations: the states on disk stay a prefix of
  the later ones, and every state after the first follows its predecessor by the transition rules.
\<close>

theorem campaign_append_only:
  assumes "reconstruct e c files = Inr cur"
  shows "prefix files (run_ops (store_step e c) files ops) \<and>
    successively (follows (env_host e)) (run_ops (store_step e c) files ops)"
proof -
  have "lineage e files" using assms by (simp add: reconstruct_ok)
  then show ?thesis using campaign.history_le campaign.history_inv by (auto simp: lineage_def)
qed

theorem campaign_append_only_witness:
  "prefix example_round (run_ops (store_step example_env ''c'') example_round
     [Ledger_checkpoint (sixty_four CHR ''a'') (example_ledgers CHR ''0'') ''t''])"
  using campaign_append_only [OF checkpoint_round] by blast

fun expected_hash :: "campaign_op \<Rightarrow> string" where
  "expected_hash (Allocate x _ _) = x" | "expected_hash (Record_usage x _ _ _) = x"
| "expected_hash (Extend_budget x _ _ _) = x" | "expected_hash (Replenish x _ _ _ _ _) = x"
| "expected_hash (Ledger_checkpoint x _ _) = x" | "expected_hash (Seal x _ _) = x" | "expected_hash (Archive x _ _ _) = x"
| "expected_hash (Request_stop x _ _ _) = x" | "expected_hash (Acknowledge_stop x _ _) = x"
| "expected_hash (Pause_campaign x _ _ _ _) = x" | "expected_hash (Resume_campaign x _ _ _) = x"
| "expected_hash (Recover_lock x _ _ _) = x"

lemma commit_expected:
  assumes "perform e c op files = Inr (Commit s)" "reconstruct e c files = Inr cur"
  shows "contentHash cur = expected_hash op"
proof (cases op)
  case (Seal x i now)
  with assms show ?thesis
    by (auto simp: sealExperiment_def compareAndSwapWithVerifiedLedgers_def split: if_splits dest: swapD(1))
next
  case (Ledger_checkpoint x l now)
  with assms show ?thesis
    by (auto simp: recordLedgerCheckpoint_def compareAndSwapWithVerifiedLedgers_def split: if_splits dest: swapD(1))
next
  case (Extend_budget x l a now)
  with assms show ?thesis
    by (cases l) (auto simp: extendSpendBudget_def Let_def split: if_splits dest: swapD(1))
qed (use assms in \<open>auto simp: allocateExperiment_def recordBudgetUsage_def replenishHoldout_def
  archiveInterruptedExperiment_def requestStop_def acknowledgeStopped_def pause_def resume_def recoverAbandonedLock_def Let_def
  split: if_splits option.splits dest: swapD(1)\<close>)

text \<open>
  Compare-and-swap: an operation that names another content hash than that of the current state
  changes nothing, so of two writers that read the same state at most one commits.
\<close>

theorem stale_writer_changes_nothing:
  assumes "reconstruct e c files = Inr cur" "expected_hash op \<noteq> contentHash cur"
  shows "attempt (store_step e c) op files = files"
proof (cases "perform e c op files")
  case (Inr outcome)
  then show ?thesis
    using commit_expected [OF _ assms(1)] assms(2) by (cases outcome) (auto simp: attempt_def store_step_def)
qed (simp add: attempt_def store_step_def)

theorem stale_writer_changes_nothing_witness:
  "attempt (store_step example_env ''c'') (Allocate (sixty_four CHR ''b'') Optimization_kind ''t'') example_files = example_files"
  by (rule stale_writer_changes_nothing [OF example_history]) (simp add: example_state_def)

text \<open>
  C7. The fate of every experiment number. In an accepted history each number below the next one
  was sealed once, or was interrupted once, or is the one in flight, never two of these; numbers are
  sealed, and interrupted, in increasing order.
\<close>

theorem experiment_fates:
  assumes "reconstruct e c files = Inr cur"
  shows "sorted_wrt (<) (sealed_numbers files) \<and> sorted_wrt (<) (interrupted_numbers files) \<and>
    set (sealed_numbers files) \<inter> set (interrupted_numbers files) = {} \<and>
    (set (sealed_numbers files) \<union> set (interrupted_numbers files)) \<inter> set_option (inFlight (numbering cur)) = {} \<and>
    set (sealed_numbers files) \<union> set (interrupted_numbers files) \<union> set_option (inFlight (numbering cur)) =
      {1 ..< nextExperiment (numbering cur)}"
  using history_accounted [of e files] assms by (auto simp: reconstruct_ok accounted_def Let_def)

theorem experiment_fates_witness:
  "sealed_numbers example_files = [1, 2] \<and> {1, 2} = {1 ..< 3 :: int}"
proof -
  have "sealed_numbers example_files = [1, 2]" "interrupted_numbers example_files = []"
    by (simp_all add: sealed_numbers_def interrupted_numbers_def sealAdvanced_def interruptionAdvanced_def example_files_def
        or_else_def example_defs)
  moreover have "numbering (example_state 4 (example_data 4)) =
      \<lparr>nextExperiment = 3, inFlight = None, inFlightKind = None, lastInterrupted = None\<rparr>"
    by (simp add: example_defs)
  ultimately show ?thesis using experiment_fates [OF example_history] by simp
qed

text \<open>
  C8. No champion without evidence. The baseline of an accepted history never changes; its active
  champion is the baseline or was made active by a transition that sealed a promoted validation of
  that very experiment and consumed a fresh validation set; its certified champion, if any, was
  certified by a later shadow audit of the champion active then, which consumed a shadow slice.
\<close>

theorem champions_have_evidence:
  assumes "number_law (env_host e)" "reconstruct e c files = Inr cur"
  shows "baseline_champion (champions cur) = baseline_champion (champions (hd files)) \<and>
    (active_champion (champions cur) = baseline_champion (champions cur) \<or>
     (\<exists>step \<in> set (steps files). promotes (active_champion (champions cur)) step)) \<and>
    (case certified_champion (champions cur) of None \<Rightarrow> True
     | Some c \<Rightarrow> cp_experimentNumber c \<noteq> 0 \<and> (\<exists>step \<in> set (steps files). certifies c step))"
proof -
  have champions: "championed files" and cur: "cur = last files"
    using assms history_championed [of e files] by (simp_all add: reconstruct_ok)
  show ?thesis using champions unfolding cur championed_def Let_def by blast
qed

theorem champions_have_evidence_witness:
  "\<exists>step \<in> set (steps example_files). certifies (example_pointer 1 CHR ''3'') step"
proof -
  have "certified_champion (champions (example_state 4 (example_data 4))) = Some (example_pointer 1 CHR ''3'')"
    by (simp add: example_defs)
  then show ?thesis
    using champions_have_evidence [OF _ example_history] example_number_law by simp
qed

text \<open>
  C9. Hidden data is paid for. In an accepted history the decided validations number at most the
  fresh sets that the first state and the authorized replenishments granted less those that are
  left, and the decided shadow audits at most the shadow slices so spent.
\<close>

theorem decisions_spend_holdout:
  assumes "reconstruct e c files = Inr cur"
  shows "int (decisions Validation_stage files) \<le> granted freshSets files - freshSets (holdout cur) \<and>
    int (decisions Shadow_audit files) \<le> granted shadowSlices files - shadowSlices (holdout cur) \<and>
    0 \<le> freshSets (holdout cur) \<and> 0 \<le> shadowSlices (holdout cur)"
proof -
  have lin: "lineage e files" and cur: "cur = last files" using assms by (simp_all add: reconstruct_ok)
  have "cur \<in> set files" using lin cur by (simp add: lineage_def)
  then have "campaign_shape (date_time e) cur" using lineage_valid [OF lin] valid_stateD(1) by blast
  then have "0 \<le> freshSets (holdout cur) \<and> 0 \<le> shadowSlices (holdout cur)"
    by (simp add: campaign_shape_def Let_def counter_def)
  then show ?thesis using history_capacity [OF lin] cur by simp
qed

theorem decisions_spend_holdout_witness:
  "decisions Validation_stage example_files = 1 \<and> decisions Validation_stage example_files \<le> 1"
proof -
  have "decisions Validation_stage example_files = 1" "granted freshSets example_files = 1"
    by (simp_all add: decisions_def granted_def sealAdvanced_def example_files_def or_else_def example_defs)
  moreover have "freshSets (holdout (example_state 4 (example_data 4))) = 0" by (simp add: example_defs)
  ultimately show ?thesis using decisions_spend_holdout [OF example_history] by simp
qed

text \<open>
  C10. Budgets over a whole history. Along an accepted history usage only grows, the spend limits only
  grow, the statistical and privacy limits and the budget policy never change, and no state's usage
  exceeds its limits.
\<close>

theorem campaign_budget_monotone:
  assumes "reconstruct e c files = Inr cur"
  shows "sorted_wrt budget_grows files \<and>
    list_all (\<lambda>s. list_all2 num_le (usage_values (bd_usage (budget s))) (limit_values (bd_limits (budget s)))) files"
  using history_budget [of e files] assms by (auto simp: reconstruct_ok list_all_iff)

theorem campaign_budget_monotone_witness: "sorted_wrt budget_grows example_files \<and> length example_files = 5"
  using campaign_budget_monotone [OF example_history] by (simp add: example_files_def)

lemma example_start: "reconstruct example_env ''c'' [example_state 0 (example_data 0)] = Inr (example_state 0 (example_data 0))"
proof -
  have "lineage example_env [example_state 0 (example_data 0)]"
    using example_lineage by (simp add: lineage_def example_files_def del: example_step_data One_nat_def)
  moreover have "verifyInitialCampaignAttestation example_env (example_state 0 (example_data 0)) = Inr ()"
    using example_history by (simp add: reconstruct_ok example_files_def del: example_step_data One_nat_def)
  moreover have "readStates example_env ''c'' [example_state 0 (example_data 0)] = Inr [example_state 0 (example_data 0)]"
    using example_campaign_valid_all(1) by (simp add: readStates_def) (simp add: example_defs)
  moreover have "assertHistoryWideUniqueness [example_state 0 (example_data 0)] = Inr ()"
    by (simp add: assertHistoryWideUniqueness_def history_consumption_def initial_consumption_def
      pointer_list_def Let_def example_defs)
  ultimately show ?thesis by (simp add: reconstruct_ok)
qed

text \<open>
  C11. Tampering shows. If no two documents of two accepted histories have colliding hashes and the
  histories end in the same content hash, they are the same history.
\<close>

theorem history_tamper_evident:
  assumes "number_law (env_host e)" "reconstruct e c files = Inr cur" "reconstruct e c files' = Inr cur'"
    and "inj_on (sha256 (env_host e)) (document_texts (env_host e) files \<union> document_texts (env_host e) files')"
    and "contentHash cur = contentHash cur'"
  shows "files = files'"
  using lineage_tamper_evident [OF assms(1,4)] assms(2,3,5) by (simp add: reconstruct_ok)

theorem history_tamper_evident_witness:
  "contentHash (example_state 0 (example_data 0)) = sixty_four CHR ''a'' \<and>
   [example_state 0 (example_data 0)] = [example_state 0 (example_data 0)]"
proof
  show "contentHash (example_state 0 (example_data 0)) = sixty_four CHR ''a''" by (simp add: example_state_def)
  show "[example_state 0 (example_data 0)] = [example_state 0 (example_data 0)]"
    by (rule history_tamper_evident [OF _ example_start example_start]) (simp_all add: example_number_law document_texts_def)
qed

text \<open>
  C13. Type preservation: whatever operations run on an accepted history, every state of the longer
  history has the shape the document schema gives a campaign state.
\<close>

theorem campaign_states_typed:
  assumes "reconstruct e c files = Inr cur"
  shows "list_all (campaign_shape (date_time e)) (run_ops (store_step e c) files ops)"
proof -
  have "lineage e (run_ops (store_step e c) files ops)"
    using assms by (intro campaign.history_inv) (simp add: reconstruct_ok)
  then show ?thesis using lineage_valid valid_stateD(1) by (auto simp: list_all_iff)
qed

theorem campaign_states_typed_witness:
  "list_all (campaign_shape (\<lambda>_. True)) (run_ops (store_step example_env ''c'') example_round
     [Ledger_checkpoint (sixty_four CHR ''a'') (example_ledgers CHR ''0'') ''t''])"
proof -
  have "date_time example_env = (\<lambda>_. True)" by (simp add: example_env_def)
  with campaign_states_typed [OF checkpoint_round] show ?thesis by (simp only:)
qed

end
