(* ===== verification/Autonomous_Loop.thy ===== *)
theory Autonomous_Loop
  imports Budget Lifecycle Canonical_Json "HOL-Library.While_Combinator"
begin

text \<open>
  The autonomous optimization loop of \<open>orchestrator/autonomous-loop.ts\<close>: it loads the campaign, and
  until it has to stop claims an experiment, runs it and commits the result. The coordinator, the
  experiment runner and the clock are ports the loop does not trust: they are functions on a state
  of the outside world, may answer anything and may throw, and the loop checks every answer.
\<close>

subsection \<open>Snapshots, claims and results\<close>

datatype loop_status = Loop_running | Loop_stop_requested | Loop_stopped | Loop_paused

datatype terminal_reason =
    Reason_stop_requested | Reason_stopped | Reason_paused | Reason_budget_exhausted | Reason_holdout_exhausted
  | Reason_invocation_limit

record loop_snapshot =
  ls_campaignId :: string
  ls_lineageId :: string
  ls_protocolHash :: string
  ls_stateHash :: string
  ls_status :: loop_status
  ls_next :: int
  ls_inFlight :: "int option"
  ls_inFlightOptimization :: bool
  ls_champion :: champion_pointers
  ls_budget :: budget_snapshot
  hardBudgetExhausted :: bool
  freshPanels :: int

record experiment_identity =
  ei_number :: int
  ei_slug :: string
  ei_kind :: experiment_kind
  ei_parent :: "int option"
  ei_lineageId :: string
  ei_protocolHash :: string

record diagnostic_brief =
  br_hash :: string
  releaseId :: string
  actionable :: bool

record run_input =
  ri_experiment :: experiment_identity
  ri_champion :: champion_pointers
  ri_budget :: budget_snapshot
  ri_brief :: "diagnostic_brief option"
  previousDiscovery :: "string option"
  repairAttemptOrdinal :: int
  stop_now :: bool

datatype run_disposition = Run_promoted | Run_rejected | Run_inconclusive

record run_result =
  rr_disposition :: run_disposition
  rr_champion :: champion_pointers
  rr_budget :: budget_snapshot
  rr_brief :: "diagnostic_brief option"
  rr_sealHash :: string

record claimed_experiment =
  claimHash :: string
  priorStateHash :: string
  allocationStateHash :: string
  currentStateHash :: string
  cl_snapshot :: loop_snapshot
  cl_input :: run_input

datatype loop_claim = Claimed claimed_experiment | Terminal terminal_reason loop_snapshot

datatype failure_class = Failure_integrity | Failure_infrastructure | Failure_budget

text \<open>The ports: each call answers or throws and moves the world on.\<close>

record 'w loop_env =
  loop_host :: host
  clock :: "'w \<Rightarrow> int option \<times> 'w"
  load_campaign :: "'w \<Rightarrow> loop_snapshot result \<times> 'w"
  claim_next :: "string \<Rightarrow> 'w \<Rightarrow> loop_claim result \<times> 'w"
  run_experiment :: "run_input \<Rightarrow> 'w \<Rightarrow> run_result result \<times> 'w"
  complete_claim :: "string \<Rightarrow> string \<Rightarrow> run_result \<Rightarrow> 'w \<Rightarrow> loop_snapshot result \<times> 'w"
  interrupt_claim :: "string \<Rightarrow> string \<Rightarrow> failure_class \<Rightarrow> 'w \<Rightarrow> loop_snapshot result \<times> 'w"

abbreviation loop_fault :: "string \<Rightarrow> error" where
  "loop_fault \<equiv> AutonomousOptimizationLoopError"

subsection \<open>Canonical texts\<close>

text \<open>\<open>canonicalJson\<close> throws on a number that is not finite.\<close>

fun number_json :: "number \<Rightarrow> json result" where
  "number_json (Fin a) = Inr (JNumber a)"
| "number_json _ = Inl (CanonicalJsonError ''Canonical JSON cannot contain non-finite numbers'')"

definition members_json :: "(string \<times> json result) list \<Rightarrow> json result" where
  "members_json ms = and_then (map_result (\<lambda>(key, j). and_then j (\<lambda>x. Inr (key, x))) ms) (\<lambda>xs. Inr (json_object xs))"

definition int_json :: "int \<Rightarrow> json result" where
  "int_json n = Inr (json_int n)"

definition string_json :: "string \<Rightarrow> json result" where
  "string_json s = Inr (JString s)"

definition null_or :: "('a \<Rightarrow> json result) \<Rightarrow> 'a option \<Rightarrow> json result" where
  "null_or f x = (case x of None \<Rightarrow> Inr JNull | Some y \<Rightarrow> f y)"

definition limits_json :: "budget_limits \<Rightarrow> json result" where
  "limits_json l = members_json (map (\<lambda>(key, v). (key, number_json v)) (limit_entries l))"

definition usage_json :: "budget_usage \<Rightarrow> json result" where
  "usage_json u = members_json (map (\<lambda>(key, v). (key, number_json v)) (usage_entries u))"

definition budget_json :: "budget_snapshot \<Rightarrow> json result" where
  "budget_json b = members_json [(''limits'', limits_json (limits b)), (''usage'', usage_json (usage b))]"

definition champion_json :: "champion_pointers \<Rightarrow> json result" where
  "champion_json c = members_json
     [(''baselineCommit'', string_json (baselineCommit c)), (''activeExperiment'', int_json (activeExperiment c)),
      (''activeCommit'', string_json (activeCommit c)), (''certifiedExperiment'', null_or int_json (certifiedExperiment c)),
      (''certifiedCommit'', null_or string_json (certifiedCommit c)), (''updatedAt'', string_json (updatedAt c)),
      (''sourceSealHash'', string_json (sourceSealHash c))]"

fun loop_status_name :: "loop_status \<Rightarrow> string" where
  "loop_status_name Loop_running = ''running''"
| "loop_status_name Loop_stop_requested = ''stop-requested''"
| "loop_status_name Loop_stopped = ''stopped''"
| "loop_status_name Loop_paused = ''paused''"

definition snapshot_json :: "loop_snapshot \<Rightarrow> json result" where
  "snapshot_json s = members_json
     [(''schemaVersion'', int_json 1), (''campaignId'', string_json (ls_campaignId s)), (''lineageId'', string_json (ls_lineageId s)),
      (''protocolHash'', string_json (ls_protocolHash s)), (''stateHash'', string_json (ls_stateHash s)),
      (''status'', string_json (loop_status_name (ls_status s))), (''nextExperimentNumber'', int_json (ls_next s)),
      (''inFlightExperimentNumber'', null_or int_json (ls_inFlight s)),
      (''inFlightKind'', if ls_inFlightOptimization s then string_json ''optimization'' else Inr JNull),
      (''activeChampion'', champion_json (ls_champion s)), (''budget'', budget_json (ls_budget s)),
      (''hardBudgetExhausted'', Inr (JBool (hardBudgetExhausted s))), (''freshValidationPanelsRemaining'', int_json (freshPanels s))]"

fun experiment_kind_name :: "experiment_kind \<Rightarrow> string" where
  "experiment_kind_name Baseline = ''baseline''"
| "experiment_kind_name Optimization = ''optimization''"
| "experiment_kind_name Shadow = ''shadow''"

definition identity_json :: "experiment_identity \<Rightarrow> json result" where
  "identity_json x = members_json
     [(''number'', int_json (ei_number x)), (''slug'', string_json (ei_slug x)), (''kind'', string_json (experiment_kind_name (ei_kind x))),
      (''parentExperiment'', null_or int_json (ei_parent x)), (''lineageId'', string_json (ei_lineageId x)),
      (''protocolHash'', string_json (ei_protocolHash x))]"

definition brief_json :: "diagnostic_brief \<Rightarrow> json result" where
  "brief_json b = members_json [(''hash'', string_json (br_hash b)), (''releaseId'', string_json (releaseId b)),
     (''actionable'', Inr (JBool (actionable b)))]"

definition input_json :: "run_input \<Rightarrow> json result" where
  "input_json i = members_json
     [(''experiment'', identity_json (ri_experiment i)), (''activeChampion'', champion_json (ri_champion i)),
      (''budget'', budget_json (ri_budget i)), (''diagnosticBrief'', null_or brief_json (ri_brief i)),
      (''previousDiscoveryAttestationHash'', null_or string_json (previousDiscovery i)),
      (''repairAttemptOrdinal'', int_json (repairAttemptOrdinal i)),
      (''stop'', members_json [(''requested'', Inr (JBool (stop_now i)))])]"

text \<open>\<open>canonicalJson(a) === canonicalJson(b)\<close> and \<open>canonicalHash(a)\<close>.\<close>

definition same_text :: "host \<Rightarrow> json result \<Rightarrow> json result \<Rightarrow> bool result" where
  "same_text h a b = and_then a (\<lambda>x. and_then b (\<lambda>y. Inr (json_text h x = json_text h y)))"

definition hash_json :: "host \<Rightarrow> json result \<Rightarrow> string result" where
  "hash_json h a = and_then a (\<lambda>x. Inr (tree_hash h x))"

text \<open>Conditions joined by \<open>||\<close> and by \<open>&&\<close>, some of which may throw when they are reached.\<close>

fun any_of :: "bool result list \<Rightarrow> bool result" where
  "any_of [] = Inr False"
| "any_of (c # cs) = and_then c (\<lambda>b. if b then Inr True else any_of cs)"

fun all_of :: "bool result list \<Rightarrow> bool result" where
  "all_of [] = Inr True"
| "all_of (c # cs) = and_then c (\<lambda>b. if b then all_of cs else Inr False)"

definition negated :: "bool result \<Rightarrow> bool result" where
  "negated c = and_then c (\<lambda>b. Inr (\<not> b))"

definition throw_if :: "bool result \<Rightarrow> error \<Rightarrow> unit result" where
  "throw_if c x = and_then c (\<lambda>b. if b then Inl x else Inr ())"

subsection \<open>Checks of what the ports answer\<close>

text \<open>
  \<open>^[a-z0-9](?:[a-z0-9._-]{0,94}[a-z0-9])?$\<close> and \<open>^[A-Za-z0-9][A-Za-z0-9._:-]{0,127}$\<close>.
\<close>

definition SAFE_ID :: "string \<Rightarrow> bool" where
  "SAFE_ID s \<longleftrightarrow> s \<noteq> [] \<and> length s \<le> 96 \<and> lower_alnum (hd s) \<and> lower_alnum (last s) \<and>
     list_all (\<lambda>c. lower_alnum c \<or> c \<in> set ''._-'') s"

definition SAFE_RELEASE_ID :: "string \<Rightarrow> bool" where
  "SAFE_RELEASE_ID s \<longleftrightarrow> s \<noteq> [] \<and> length s \<le> 128 \<and> alnum (hd s) \<and> list_all (\<lambda>c. alnum c \<or> c \<in> set ''._:-'') s"

definition assertChampion :: "host \<Rightarrow> champion_pointers \<Rightarrow> unit result" where
  "assertChampion h c =
     (if \<not> is_git_oid (baselineCommit c) \<or> \<not> is_git_oid (activeCommit c) \<or>
         (case certifiedCommit c of None \<Rightarrow> False | Some x \<Rightarrow> \<not> is_git_oid x) \<or>
         \<not> safe_int (activeExperiment c) \<or> activeExperiment c < 0 \<or>
         (case certifiedExperiment c of None \<Rightarrow> False | Some n \<Rightarrow> \<not> safe_int n \<or> n < 0) \<or>
         (certifiedExperiment c = None) \<noteq> (certifiedCommit c = None) \<or>
         date_parse h (updatedAt c) = None \<or> \<not> is_sha256 (sourceSealHash c)
      then Inl (loop_fault ''Campaign champion pointers are malformed.'') else Inr ())"

definition assertBudget :: "budget_snapshot \<Rightarrow> unit result" where
  "assertBudget s =
     and_then (validateBudgetSnapshot s) (\<lambda>_.
     let l = limits s; u = usage s in
     if list_ex (\<lambda>v. \<not> is_safe_integer v)
          [maximumTokens l, maximumWallTimeMs l, maximumAttempts l, maximumPrivacyReleases l, maximumPromotionLooks l,
           tokens u, wallTimeMs u, attempts u, privacyReleases u, promotionLooks u] \<or>
        list_ex (\<lambda>(_, used, limit). num_less limit used) (usage_limit_pairs l u)
     then Inl (loop_fault ''Campaign budget is malformed or already exceeds its sealed limits.'') else Inr ())"

record loop_identity =
  id_campaign :: string
  id_lineage :: string
  id_protocol :: string

definition identity_of :: "loop_snapshot \<Rightarrow> loop_identity" where
  "identity_of s = \<lparr>id_campaign = ls_campaignId s, id_lineage = ls_lineageId s, id_protocol = ls_protocolHash s\<rparr>"

definition assertSnapshot :: "host \<Rightarrow> loop_identity option \<Rightarrow> loop_snapshot \<Rightarrow> unit result" where
  "assertSnapshot h expected s =
     and_then (guards
       [(\<not> SAFE_ID (ls_campaignId s) \<or> \<not> SAFE_ID (ls_lineageId s) \<or> \<not> is_sha256 (ls_protocolHash s) \<or>
         \<not> is_sha256 (ls_stateHash s) \<or> \<not> safe_int (ls_next s) \<or> ls_next s < 1 \<or>
         (case ls_inFlight s of None \<Rightarrow> False | Some n \<Rightarrow> \<not> safe_int n \<or> n < 1 \<or> n \<noteq> ls_next s - 1) \<or>
         (ls_inFlight s = None) \<noteq> (\<not> ls_inFlightOptimization s) \<or>
         \<not> safe_int (freshPanels s) \<or> freshPanels s < 0 \<or>
         (case expected of None \<Rightarrow> False | Some identity \<Rightarrow> identity_of s \<noteq> identity),
         loop_fault ''Campaign loop snapshot is malformed or changed lineage.'')]) (\<lambda>_.
     and_then (assertChampion h (ls_champion s)) (\<lambda>_. assertBudget (ls_budget s)))"

definition assertDiagnosticBrief :: "diagnostic_brief option \<Rightarrow> unit result" where
  "assertDiagnosticBrief b =
     (case b of None \<Rightarrow> Inr ()
      | Some x \<Rightarrow> if \<not> is_sha256 (br_hash x) \<or> \<not> SAFE_RELEASE_ID (releaseId x)
          then Inl (loop_fault ''Claimed diagnostic brief reference is malformed.'') else Inr ())"

definition assertMonotonicBudget :: "host \<Rightarrow> budget_snapshot \<Rightarrow> budget_snapshot \<Rightarrow> unit result" where
  "assertMonotonicBudget h before after =
     and_then (assertBudget after) (\<lambda>_.
     throw_if (any_of (negated (same_text h (limits_json (limits before)) (limits_json (limits after))) #
         map (\<lambda>(now, old). Inr (num_less now old))
           (zip (map snd (usage_entries (usage after))) (map snd (usage_entries (usage before))))))
       (loop_fault ''Experiment result reset or changed a sealed campaign budget.''))"

definition allocation_valid_claim :: "host \<Rightarrow> claimed_experiment \<Rightarrow> loop_snapshot \<Rightarrow> bool result" where
  "allocation_valid_claim h claim before =
     (let s = cl_snapshot claim in
      if ls_inFlight before \<noteq> None then same_text h (snapshot_json s) (snapshot_json before)
      else all_of
        [Inr (priorStateHash claim = ls_stateHash before), Inr (allocationStateHash claim = currentStateHash claim),
         Inr (ls_stateHash s = allocationStateHash claim), Inr (ls_status s = ls_status before),
         Inr (ls_next s = ls_next before + 1), Inr (ls_inFlight s = Some (ls_next before)), Inr (ls_inFlightOptimization s),
         same_text h (champion_json (ls_champion s)) (champion_json (ls_champion before)),
         same_text h (budget_json (ls_budget s)) (budget_json (ls_budget before)),
         Inr (hardBudgetExhausted s = hardBudgetExhausted before), Inr (freshPanels s = freshPanels before)])"

definition claim_document :: "claimed_experiment \<Rightarrow> json result" where
  "claim_document claim = members_json
     [(''domain'', string_json ''dark-factory.optimization-claim.v2''), (''priorStateHash'', string_json (priorStateHash claim)),
      (''allocationStateHash'', string_json (allocationStateHash claim)), (''input'', input_json (cl_input claim))]"

definition assertClaim :: "host \<Rightarrow> claimed_experiment \<Rightarrow> loop_snapshot \<Rightarrow> unit result" where
  "assertClaim h claim before =
     (let s = cl_snapshot claim; i = cl_input claim; x = ri_experiment i in
      and_then (assertSnapshot h (Some (identity_of before)) s) (\<lambda>_.
      and_then (allocation_valid_claim h claim before) (\<lambda>allocated.
      and_then (throw_if (any_of
        [Inr (\<not> is_sha256 (claimHash claim)), Inr (\<not> is_sha256 (priorStateHash claim)),
         Inr (\<not> is_sha256 (allocationStateHash claim)), Inr (currentStateHash claim \<noteq> ls_stateHash s), Inr (\<not> allocated),
         Inr (ls_status s \<noteq> Loop_running), Inr (ls_inFlight s = None), Inr (Some (ei_number x) \<noteq> ls_inFlight s),
         Inr (ei_kind x \<noteq> Optimization), Inr (ei_parent x \<noteq> Some (activeExperiment (ls_champion s))),
         Inr (ei_lineageId x \<noteq> ls_lineageId s), Inr (ei_protocolHash x \<noteq> ls_protocolHash s),
         negated (same_text h (champion_json (ri_champion i)) (champion_json (ls_champion s))),
         negated (same_text h (limits_json (limits (ri_budget i))) (limits_json (limits (ls_budget s)))),
         Inr (ei_number x = 1 \<and> (ri_brief i \<noteq> None \<or> previousDiscovery i \<noteq> None)),
         Inr (1 < ei_number x \<and> (case previousDiscovery i of None \<Rightarrow> True | Some d \<Rightarrow> \<not> is_sha256 d))])
        (loop_fault ''Claimed experiment is detached from the current campaign snapshot.'')) (\<lambda>_.
      and_then (assertMonotonicBudget h (ri_budget i) (ls_budget s)) (\<lambda>_.
      and_then (assertDiagnosticBrief (ri_brief i)) (\<lambda>_.
      and_then (hash_json h (claim_document claim)) (\<lambda>expected.
      if claimHash claim \<noteq> expected
      then Inl (loop_fault ''Optimization claim commitment does not reproduce.'') else Inr ())))))))"

definition look_delta :: "claimed_experiment \<Rightarrow> run_result \<Rightarrow> number" where
  "look_delta claim result = num_sub (promotionLooks (usage (rr_budget result))) (promotionLooks (usage (ri_budget (cl_input claim))))"

definition assertExperimentResult :: "host \<Rightarrow> claimed_experiment \<Rightarrow> run_result \<Rightarrow> unit result" where
  "assertExperimentResult h claim result =
     (let i = cl_input claim; c = rr_champion result; was = ri_champion i; promoted = (rr_disposition result = Run_promoted) in
      and_then (assertMonotonicBudget h (ri_budget i) (rr_budget result)) (\<lambda>_.
      and_then (assertChampion h c) (\<lambda>_.
      and_then (assertDiagnosticBrief (rr_brief result)) (\<lambda>_.
      throw_if (any_of
        [Inr (\<not> is_sha256 (rr_sealHash result)),
         Inr (\<not> num_eq (look_delta claim result) (Fin 0) \<and> \<not> num_eq (look_delta claim result) (Fin 1)),
         Inr (case rr_brief result of None \<Rightarrow> False | Some b \<Rightarrow> \<not> is_sha256 (br_hash b) \<or> \<not> SAFE_RELEASE_ID (releaseId b)),
         Inr (promoted \<and> (activeExperiment c \<noteq> ei_number (ri_experiment i) \<or> activeCommit c = activeCommit was \<or>
           baselineCommit c \<noteq> baselineCommit was \<or> certifiedExperiment c \<noteq> certifiedExperiment was \<or>
           certifiedCommit c \<noteq> certifiedCommit was \<or> \<not> num_eq (look_delta claim result) (Fin 1))),
         if promoted then Inr False else negated (same_text h (champion_json c) (champion_json was))])
        (loop_fault ''Experiment result contradicts its sealed claim.'')))))"

definition assertCommittedSnapshot ::
    "host \<Rightarrow> claimed_experiment \<Rightarrow> run_result \<Rightarrow> loop_snapshot \<Rightarrow> unit result" where
  "assertCommittedSnapshot h claim result after =
     (let before = cl_snapshot claim; left = num_sub (num_of_int (freshPanels before)) (look_delta claim result) in
      and_then (assertSnapshot h (Some (identity_of before)) after) (\<lambda>_.
      throw_if (any_of
        [Inr (ls_stateHash after = ls_stateHash before), Inr (ls_next after \<noteq> ls_next before),
         Inr (ls_inFlight after \<noteq> None), Inr (ls_inFlightOptimization after),
         negated (same_text h (budget_json (ls_budget after)) (budget_json (rr_budget result))),
         negated (same_text h (champion_json (ls_champion after)) (champion_json (rr_champion result))),
         Inr (\<not> num_eq (num_of_int (freshPanels after)) left),
         Inr (rr_disposition result = Run_promoted \<and>
           activeExperiment (ls_champion after) \<noteq> ei_number (ri_experiment (cl_input claim)))])
        (loop_fault ''Durable campaign commit does not match the completed experiment.'')))"

text \<open>The dimensions without which no experiment can start; an experiment needs \<open>minimum\<close> attempts.\<close>

definition short_of :: "loop_snapshot \<Rightarrow> budget_usage \<Rightarrow> rat \<Rightarrow> bool" where
  "short_of s remaining minimum \<longleftrightarrow> hardBudgetExhausted s \<or> num_less (attempts remaining) (Fin minimum) \<or>
     num_less (promotionLooks remaining) (Fin 1) \<or> num_le (onlineErrorSpent remaining) (Fin 0) \<or>
     num_le (spentUsd remaining) (Fin 0) \<or> num_le (tokens remaining) (Fin 0) \<or> num_le (wallTimeMs remaining) (Fin 0)"

definition assertTerminalClaim :: "host \<Rightarrow> terminal_reason \<Rightarrow> loop_snapshot \<Rightarrow> loop_identity \<Rightarrow> unit result" where
  "assertTerminalClaim h reason s identity =
     and_then (assertSnapshot h (Some identity) s) (\<lambda>_.
     and_then (remainingBudget (ls_budget s)) (\<lambda>remaining.
     if \<not> (reason = Reason_stop_requested \<and> ls_status s = Loop_stop_requested \<or>
           reason = Reason_stopped \<and> ls_status s = Loop_stopped \<or> reason = Reason_paused \<and> ls_status s = Loop_paused) \<and>
        \<not> (reason = Reason_holdout_exhausted \<and> ls_inFlight s = None \<and> freshPanels s = 0) \<and>
        \<not> (reason = Reason_budget_exhausted \<and> ls_inFlight s = None \<and> short_of s remaining (if ls_next s = 1 then 28 else 37))
     then Inl (loop_fault ''Terminal claim contradicts its durable campaign snapshot.'') else Inr ()))"

subsection \<open>Classes of failures\<close>

text \<open>The name and the message of a thrown error, the message without its interpolated parts.\<close>

fun error_name :: "error \<Rightarrow> string" where
  "error_name (Error _) = ''Error''"
| "error_name (DarkFactoryError _ _) = ''DarkFactoryError''"
| "error_name (SelectionError _) = ''SelectionError''"
| "error_name (CampaignTransitionError _) = ''CampaignTransitionError''"
| "error_name (CampaignIntegrityError _) = ''CampaignIntegrityError''"
| "error_name (CampaignConflictError _ _) = ''CampaignConflictError''"
| "error_name CampaignAlreadyInitializedError = ''CampaignAlreadyInitializedError''"
| "error_name CampaignNotInitializedError = ''CampaignNotInitializedError''"
| "error_name (SchemaValidationError _) = ''SchemaValidationError''"
| "error_name (UnsafeEvidenceError _) = ''UnsafeEvidenceError''"
| "error_name (OneUseLedgerError _) = ''OneUseLedgerError''"
| "error_name (LocalPanelPolicyError _) = ''LocalPanelPolicyError''"
| "error_name (CanonicalJsonError _) = ''CanonicalJsonError''"
| "error_name (AutonomousOptimizationLoopError _) = ''AutonomousOptimizationLoopError''"

fun error_message :: "error \<Rightarrow> string" where
  "error_message (Error m) = m"
| "error_message (DarkFactoryError _ m) = m"
| "error_message (SelectionError m) = m"
| "error_message (CampaignTransitionError m) = m"
| "error_message (CampaignIntegrityError m) = m"
| "error_message (CampaignConflictError _ _) = ''Campaign state changed before the compare-and-swap update''"
| "error_message CampaignAlreadyInitializedError = ''Campaign is already initialized''"
| "error_message CampaignNotInitializedError = ''Campaign has no durable state''"
| "error_message (SchemaValidationError m) = m"
| "error_message (UnsafeEvidenceError m) = m"
| "error_message (OneUseLedgerError m) = m"
| "error_message (LocalPanelPolicyError m) = m"
| "error_message (CanonicalJsonError m) = m"
| "error_message (AutonomousOptimizationLoopError m) = m"

text \<open>Search for a lower case word without regard to case, as the \<open>i\<close> flag does.\<close>

definition fold_case :: "char \<Rightarrow> char" where
  "fold_case c =
     (case map_of (zip ''ABCDEFGHIJKLMNOPQRSTUVWXYZ'' ''abcdefghijklmnopqrstuvwxyz'') c of None \<Rightarrow> c | Some d \<Rightarrow> d)"

fun mentions :: "string \<Rightarrow> string \<Rightarrow> bool" where
  "mentions word [] = (word = [])"
| "mentions word (c # cs) = (map fold_case (take (length word) (c # cs)) = word \<or> mentions word cs)"

definition is_loop_fault :: "error \<Rightarrow> bool" where
  "is_loop_fault x = (case x of AutonomousOptimizationLoopError _ \<Rightarrow> True | _ \<Rightarrow> False)"

definition failureClass :: "error \<Rightarrow> failure_class" where
  "failureClass x =
     (let words = error_name x @ '' '' @ error_message x in
      if mentions ''budget'' words then Failure_budget
      else if is_loop_fault x \<or>
        list_ex (\<lambda>word. mentions word words) [''integrity'', ''schema'', ''signature'', ''protocol'', ''leak'']
      then Failure_integrity else Failure_infrastructure)"

subsection \<open>One pass of the loop\<close>

text \<open>The statements after an \<open>await\<close>: what is thrown skips them.\<close>

definition then_do :: "'a result \<times> 'w \<Rightarrow> ('a \<Rightarrow> 'w \<Rightarrow> 'b result \<times> 'w) \<Rightarrow> 'b result \<times> 'w" where
  "then_do m f = (case m of (Inl x, w) \<Rightarrow> (Inl x, w) | (Inr a, w) \<Rightarrow> f a w)"

text \<open>The body of the inner \<open>try\<close>.\<close>

definition execute_claim ::
    "'w loop_env \<Rightarrow> claimed_experiment \<Rightarrow> loop_snapshot \<Rightarrow> 'w \<Rightarrow> (loop_snapshot \<times> run_disposition) result \<times> 'w" where
  "execute_claim env claim s w =
     (let h = loop_host env in
      then_do (assertClaim h claim s, w) (\<lambda>_ w.
      then_do (run_experiment env (cl_input claim) w) (\<lambda>result w.
      then_do (assertExperimentResult h claim result, w) (\<lambda>_ w.
      then_do (complete_claim env (claimHash claim) (currentStateHash claim) result w) (\<lambda>committed w.
      then_do (assertCommittedSnapshot h claim result committed, w) (\<lambda>_ w.
      (Inr (committed, rr_disposition result), w)))))))"

text \<open>The body of the \<open>try\<close> inside the \<open>catch\<close>.\<close>

definition record_interruption ::
    "'w loop_env \<Rightarrow> loop_identity \<Rightarrow> claimed_experiment \<Rightarrow> error \<Rightarrow> 'w \<Rightarrow> unit result \<times> 'w" where
  "record_interruption env identity claim cause w =
     then_do (interrupt_claim env (claimHash claim) (currentStateHash claim) (failureClass cause) w) (\<lambda>interrupted w.
     then_do (assertSnapshot (loop_host env) (Some identity) interrupted, w) (\<lambda>_ w.
     (if ls_status interrupted = Loop_running \<or> ls_stateHash interrupted = currentStateHash claim
      then Inl (loop_fault ''Experiment interruption was not durably reflected in campaign state.'') else Inr (), w)))"

text \<open>An \<open>AggregateError\<close> carries the failure and the failure to record it.\<close>

datatype loop_failure = Raised error | Aggregated error error

datatype loop_outcome = Next loop_snapshot run_disposition | Finish terminal_reason loop_snapshot | Fail loop_failure

fun status_reason :: "loop_status \<Rightarrow> terminal_reason" where
  "status_reason Loop_running = Reason_invocation_limit"
| "status_reason Loop_stop_requested = Reason_stop_requested"
| "status_reason Loop_stopped = Reason_stopped"
| "status_reason Loop_paused = Reason_paused"

definition handle_claim ::
    "'w loop_env \<Rightarrow> loop_identity \<Rightarrow> claimed_experiment \<Rightarrow> loop_snapshot \<Rightarrow> 'w \<Rightarrow> loop_outcome \<times> 'w" where
  "handle_claim env identity claim s w =
     (case execute_claim env claim s w of
        (Inr (committed, disposition), w) \<Rightarrow> (Next committed disposition, w)
      | (Inl cause, w) \<Rightarrow>
          (case record_interruption env identity claim cause w of
             (Inl also_failed, w) \<Rightarrow> (Fail (Aggregated cause also_failed), w)
           | (Inr _, w) \<Rightarrow> (Fail (Raised cause), w)))"

definition claim_and_run ::
    "'w loop_env \<Rightarrow> loop_identity \<Rightarrow> loop_snapshot \<Rightarrow> 'w \<Rightarrow> loop_outcome \<times> 'w" where
  "claim_and_run env identity s w =
     (case claim_next env (ls_stateHash s) w of
        (Inl x, w) \<Rightarrow> (Fail (Raised x), w)
      | (Inr (Terminal reason t), w) \<Rightarrow>
          (case assertTerminalClaim (loop_host env) reason t identity of
             Inl x \<Rightarrow> (Fail (Raised x), w)
           | Inr _ \<Rightarrow> (Finish reason t, w))
      | (Inr (Claimed claim), w) \<Rightarrow> handle_claim env identity claim s w)"

definition loop_pass :: "'w loop_env \<Rightarrow> loop_identity \<Rightarrow> loop_snapshot \<Rightarrow> 'w \<Rightarrow> loop_outcome \<times> 'w" where
  "loop_pass env identity s w =
     (case assertSnapshot (loop_host env) (Some identity) s of
        Inl x \<Rightarrow> (Fail (Raised x), w)
      | Inr _ \<Rightarrow>
          if ls_status s \<noteq> Loop_running then (Finish (status_reason (ls_status s)) s, w)
          else if ls_inFlight s = None \<and> freshPanels s = 0 then (Finish Reason_holdout_exhausted s, w)
          else
            (case remainingBudget (ls_budget s) of
               Inl x \<Rightarrow> (Fail (Raised x), w)
             | Inr remaining \<Rightarrow>
                 if ls_inFlight s = None \<and> short_of s remaining (if ls_next s = 1 then 28 else 37)
                 then (Finish Reason_budget_exhausted s, w)
                 else claim_and_run env identity s w))"

subsection \<open>The loop and the receipt\<close>

record 'w loop_state =
  lo_snapshot :: loop_snapshot
  lo_completed :: nat
  lo_promotions :: nat
  lo_rejections :: nat
  lo_inconclusive :: nat
  lo_ended :: "(loop_failure + terminal_reason) option"
  lo_world :: 'w

definition after_pass :: "'w loop_state \<Rightarrow> loop_outcome \<times> 'w \<Rightarrow> 'w loop_state" where
  "after_pass st out = (case out of
       (Next s disposition, w) \<Rightarrow> st\<lparr>lo_snapshot := s, lo_completed := lo_completed st + 1,
         lo_promotions := lo_promotions st + (if disposition = Run_promoted then 1 else 0),
         lo_rejections := lo_rejections st + (if disposition = Run_rejected then 1 else 0),
         lo_inconclusive := lo_inconclusive st + (if disposition = Run_inconclusive then 1 else 0), lo_world := w\<rparr>
     | (Finish reason s, w) \<Rightarrow> st\<lparr>lo_snapshot := s, lo_ended := Some (Inr reason), lo_world := w\<rparr>
     | (Fail failure, w) \<Rightarrow> st\<lparr>lo_ended := Some (Inl failure), lo_world := w\<rparr>)"

text \<open>The code's \<open>while\<close>; \<open>break\<close> and a thrown error set \<open>lo_ended\<close>.\<close>

definition loop_goes_on :: "nat \<Rightarrow> 'w loop_state \<Rightarrow> bool" where
  "loop_goes_on maximum st \<longleftrightarrow> lo_ended st = None \<and> lo_completed st < maximum"

definition optimization_loop ::
    "'w loop_env \<Rightarrow> loop_identity \<Rightarrow> nat \<Rightarrow> 'w loop_state \<Rightarrow> 'w loop_state option" where
  "optimization_loop env identity maximum =
     while_option (loop_goes_on maximum)
       (\<lambda>st. after_pass st (loop_pass env identity (lo_snapshot st) (lo_world st)))"

record loop_receipt =
  rc_campaignId :: string
  rc_lineageId :: string
  rc_protocolHash :: string
  initialStateHash :: string
  finalStateHash :: string
  rc_startedAt :: string
  rc_finishedAt :: string
  experimentsCompleted :: nat
  rc_promotions :: nat
  rc_rejections :: nat
  rc_inconclusive :: nat
  terminalReason :: terminal_reason
  finalBudgetHash :: string
  finalChampionHash :: string
  receiptHash :: string

fun reason_name :: "terminal_reason \<Rightarrow> string" where
  "reason_name Reason_stop_requested = ''stop-requested''"
| "reason_name Reason_stopped = ''stopped''"
| "reason_name Reason_paused = ''paused''"
| "reason_name Reason_budget_exhausted = ''budget-exhausted''"
| "reason_name Reason_holdout_exhausted = ''holdout-exhausted''"
| "reason_name Reason_invocation_limit = ''invocation-limit''"

definition receipt_document :: "loop_receipt \<Rightarrow> json" where
  "receipt_document r = json_object
     [(''schemaVersion'', json_int 1), (''domain'', JString ''dark-factory.autonomous-optimization-loop.v1''),
      (''campaignId'', JString (rc_campaignId r)), (''lineageId'', JString (rc_lineageId r)),
      (''protocolHash'', JString (rc_protocolHash r)), (''initialStateHash'', JString (initialStateHash r)),
      (''finalStateHash'', JString (finalStateHash r)), (''startedAt'', JString (rc_startedAt r)),
      (''finishedAt'', JString (rc_finishedAt r)), (''experimentsCompleted'', json_int (int (experimentsCompleted r))),
      (''promotions'', json_int (int (rc_promotions r))), (''rejections'', json_int (int (rc_rejections r))),
      (''inconclusive'', json_int (int (rc_inconclusive r))), (''terminalReason'', JString (reason_name (terminalReason r))),
      (''finalBudgetHash'', JString (finalBudgetHash r)), (''finalChampionHash'', JString (finalChampionHash r))]"

definition receipt :: "host \<Rightarrow> loop_receipt \<Rightarrow> loop_receipt" where
  "receipt h r = r\<lparr>receiptHash := tree_hash h (receipt_document r)\<rparr>"

text \<open>\<open>assertTimestamp\<close> of what the clock shows.\<close>

definition read_clock :: "'w loop_env \<Rightarrow> string \<Rightarrow> 'w \<Rightarrow> string result \<times> 'w" where
  "read_clock env label w = (case clock env w of
       (None, w) \<Rightarrow> (Inl (loop_fault (label @ '' is invalid.'')), w)
     | (Some t, w) \<Rightarrow> (Inr (to_iso_string (loop_host env) t), w))"

definition earlier :: "host \<Rightarrow> string \<Rightarrow> string \<Rightarrow> bool" where
  "earlier h a b = (case (date_parse h a, date_parse h b) of (Some x, Some y) \<Rightarrow> x < y | _ \<Rightarrow> False)"

definition loop_start :: "loop_snapshot \<Rightarrow> 'w \<Rightarrow> 'w loop_state" where
  "loop_start s w = \<lparr>lo_snapshot = s, lo_completed = 0, lo_promotions = 0, lo_rejections = 0, lo_inconclusive = 0,
     lo_ended = None, lo_world = w\<rparr>"

definition loop_finish ::
    "'w loop_env \<Rightarrow> string \<Rightarrow> string \<Rightarrow> 'w loop_state \<Rightarrow> loop_receipt result \<times> 'w" where
  "loop_finish env startedAt initial st =
     (let h = loop_host env; s = lo_snapshot st in
      then_do (read_clock env ''Loop finish time'' (lo_world st)) (\<lambda>finishedAt w.
      if earlier h finishedAt startedAt then (Inl (loop_fault ''Loop finish time precedes its start time.''), w)
      else then_do (hash_json h (budget_json (ls_budget s)), w) (\<lambda>budgetHash w.
      then_do (hash_json h (champion_json (ls_champion s)), w) (\<lambda>championHash w.
      (Inr (receipt h \<lparr>rc_campaignId = ls_campaignId s, rc_lineageId = ls_lineageId s, rc_protocolHash = ls_protocolHash s,
         initialStateHash = initial, finalStateHash = ls_stateHash s, rc_startedAt = startedAt, rc_finishedAt = finishedAt,
         experimentsCompleted = lo_completed st, rc_promotions = lo_promotions st, rc_rejections = lo_rejections st,
         rc_inconclusive = lo_inconclusive st,
         terminalReason = (case lo_ended st of Some (Inr reason) \<Rightarrow> reason | _ \<Rightarrow> status_reason (ls_status s)),
         finalBudgetHash = budgetHash, finalChampionHash = championHash, receiptHash = []\<rparr>), w)))))"

definition lift_failure :: "'a result \<times> 'w \<Rightarrow> (loop_failure + 'a) \<times> 'w" where
  "lift_failure m = (case m of (Inl x, w) \<Rightarrow> (Inl (Raised x), w) | (Inr a, w) \<Rightarrow> (Inr a, w))"

text \<open>The constructor's check of the invocation limit, and \<open>run\<close>; \<open>None\<close> would be a loop that does not return.\<close>

definition new_loop :: "int \<Rightarrow> nat result" where
  "new_loop maximum =
     (if \<not> safe_int maximum \<or> maximum < 1 \<or> 1000 < maximum
      then Inl (loop_fault ''Per-invocation experiment limit is outside policy.'') else Inr (nat maximum))"

definition run_loop :: "'w loop_env \<Rightarrow> nat \<Rightarrow> 'w \<Rightarrow> ((loop_failure + loop_receipt) \<times> 'w) option" where
  "run_loop env maximum w =
     (case then_do (read_clock env ''Loop start time'' w) (\<lambda>startedAt w.
           then_do (load_campaign env w) (\<lambda>s w.
           then_do (assertSnapshot (loop_host env) None s, w) (\<lambda>_ w. (Inr (startedAt, s), w)))) of
        (Inl x, w) \<Rightarrow> Some (Inl (Raised x), w)
      | (Inr (startedAt, s), w) \<Rightarrow>
          map_option (\<lambda>st. case lo_ended st of
              Some (Inl failure) \<Rightarrow> (Inl failure, lo_world st)
            | _ \<Rightarrow> lift_failure (loop_finish env startedAt (ls_stateHash s) st))
            (optimization_loop env (identity_of s) maximum (loop_start s w)))"

end
