(* ===== verification/Autonomous_Properties.thy ===== *)
theory Autonomous_Properties
  imports Autonomous_Loop
begin

text \<open>
  What a pass and a run of the autonomous loop promise, whatever the ports answer: which commits the
  loop accepts, that a claim whose experiment fails is interrupted, that a run returns, and what
  its receipt counts.
\<close>

subsection \<open>Chains of checks\<close>

named_theorems loop_simps

lemma any_of_ok [loop_simps]: "any_of cs = Inr False \<longleftrightarrow> (\<forall>c \<in> set cs. c = Inr False)"
  by (induction cs) (auto split: if_splits simp: and_then_def split: sum.splits)

lemma all_of_ok [loop_simps]: "all_of cs = Inr True \<longleftrightarrow> (\<forall>c \<in> set cs. c = Inr True)"
  by (induction cs) (auto split: if_splits simp: and_then_def split: sum.splits)

declare any_of.simps [simp del] all_of.simps [simp del]

lemma throw_if_ok [loop_simps]: "throw_if c x = Inr u \<longleftrightarrow> c = Inr False"
  by (cases c) (auto simp: throw_if_def)

lemma negated_ok [loop_simps]: "negated c = Inr False \<longleftrightarrow> c = Inr True"
  by (cases c) (auto simp: negated_def)

lemma then_do_ok [loop_simps]:
  "then_do m f = (Inr b, w') \<longleftrightarrow> (\<exists>a w. m = (Inr a, w) \<and> f a w = (Inr b, w'))"
  by (cases m; cases "fst m") (auto simp: then_do_def)

subsection \<open>Encodings as canonical JSON keep the value\<close>

lemma sort_key_pairs_inject:
  assumes "sort_key fst xs = sort_key fst ys" "map fst xs = map fst ys" "distinct (map fst xs)"
  shows "xs = (ys :: (string \<times> 'a) list)"
proof -
  have set: "set xs = set ys" using assms(1) by (metis set_sort)
  then have "map_of xs = map_of ys" using assms(2,3) by (simp add: map_of_inject_set)
  moreover have "zs = map (\<lambda>key. (key, the (map_of zs key))) (map fst zs)" if "distinct (map fst zs)" for zs :: "(string \<times> 'a) list"
  proof (rule nth_equalityI)
    fix i assume i: "i < length zs"
    then have "map_of zs (fst (zs ! i)) = Some (snd (zs ! i))" using that by (intro map_of_is_SomeI) auto
    then show "zs ! i = map (\<lambda>key. (key, the (map_of zs key))) (map fst zs) ! i" using i by simp
  qed simp
  ultimately show ?thesis using assms(2,3) by metis
qed

lemma members_json_ok:
  "members_json ms = Inr x \<longleftrightarrow> (\<exists>xs. x = json_object xs \<and> map (\<lambda>(key, j). (key, Inr j)) xs = ms)"
proof -
  have "map_result (\<lambda>(key, j). and_then j (\<lambda>x. Inr (key, x))) ms = Inr xs \<longleftrightarrow> map (\<lambda>(key, j). (key, Inr j)) xs = ms" for xs
    by (induction ms arbitrary: xs) (auto simp: Cons_eq_map_conv)
  then show ?thesis by (auto simp: members_json_def)
qed

lemma members_json_inject:
  assumes "members_json ms = Inr x" "members_json ms' = Inr x" "map fst ms = map fst ms'" "distinct (map fst ms)"
  shows "ms = ms' \<and> (\<forall>m \<in> set ms. \<not> isl (snd m))"
proof -
  obtain xs ys where xs: "x = json_object xs" "map (\<lambda>(key, j). (key, Inr j)) xs = ms"
    and ys: "x = json_object ys" "map (\<lambda>(key, j). (key, Inr j)) ys = ms'"
    using assms(1,2) unfolding members_json_ok by blast
  have "map fst xs = map fst ms" "map fst ys = map fst ms'" by (auto simp flip: xs(2) ys(2))
  then have keys: "map fst xs = map fst ys" "distinct (map fst xs)" using assms(3,4) by metis+
  have "sort_key fst xs = sort_key fst ys"
    using xs(1) unfolding ys(1) json_object_def json.inject by (rule sym)
  then have "xs = ys" by (rule sort_key_pairs_inject [OF _ keys])
  then show ?thesis unfolding xs(2) [symmetric] ys(2) [symmetric] by auto
qed

lemma encoded_inject:
  assumes "f a = f b" "\<not> isl (f a)" "\<And>x. f a = Inr x \<Longrightarrow> f b = Inr x \<Longrightarrow> a = b"
  shows "a = b"
  using assms by (cases "f b") auto

text \<open>What \<open>canonicalJson(a) === canonicalJson(b)\<close> decides, for any encoding that keeps the value.\<close>

locale faithful_json =
  fixes encode :: "'a \<Rightarrow> json result"
  assumes encode_inject: "encode a = Inr x \<Longrightarrow> encode b = Inr x \<Longrightarrow> a = b"
begin

lemma same_value: "number_law h \<Longrightarrow> same_text h (encode a) (encode b) = Inr True \<Longrightarrow> a = b"
  using encode_inject by (auto simp: same_text_def json_text_inject)

lemma same_text_refl: "same_text h (encode a) (encode a) = Inr True \<longleftrightarrow> (\<exists>x. encode a = Inr x)"
  by (cases "encode a") (auto simp: same_text_def)

end

lemma number_json_inject: "number_json a = Inr x \<Longrightarrow> number_json b = Inr x \<Longrightarrow> a = b"
  by (cases a; cases b) auto

text \<open>Records of numbers.\<close>

lemma number_members_inject:
  assumes "members_json (map (\<lambda>(key, v). (key, number_json v)) as) = Inr x"
    "members_json (map (\<lambda>(key, v). (key, number_json v)) bs) = Inr x"
    "map fst as = map fst bs" "distinct (map fst as)"
  shows "as = bs"
proof -
  have keys: "fst \<circ> (\<lambda>(key, v). (key, number_json v)) = fst" by auto
  have eq: "map (\<lambda>(key, v). (key, number_json v)) as = map (\<lambda>(key, v). (key, number_json v)) bs"
    and ok: "\<forall>m \<in> set as. \<not> isl (number_json (snd m))"
    using members_json_inject [OF assms(1,2)] assms(3,4) unfolding map_map keys by (auto simp: split_beta)
  have "length as = length bs" using assms(3) by (metis length_map)
  then show ?thesis using eq ok
    by (induction as bs rule: list_induct2) (auto intro: encoded_inject [OF _ _ number_json_inject])
qed

lemma limits_json_inject: "limits_json a = Inr x \<Longrightarrow> limits_json b = Inr x \<Longrightarrow> a = b"
  unfolding limits_json_def by (drule (1) number_members_inject) (simp_all add: limit_entries_def)

lemma usage_json_inject: "usage_json a = Inr x \<Longrightarrow> usage_json b = Inr x \<Longrightarrow> a = b"
  unfolding usage_json_def by (drule (1) number_members_inject) (simp_all add: usage_entries_def)

lemma budget_json_inject:
  assumes "budget_json a = Inr x" "budget_json b = Inr x"
  shows "a = b"
proof -
  note eq = members_json_inject [OF assms [unfolded budget_json_def]]
  have "limits a = limits b" using eq by (intro encoded_inject [OF _ _ limits_json_inject]) auto
  moreover have "usage a = usage b" using eq by (intro encoded_inject [OF _ _ usage_json_inject]) auto
  ultimately show ?thesis by (intro budget_snapshot.equality) auto
qed

lemma null_or_inject:
  assumes "null_or f a = null_or f b" "\<And>a b. f a = f b \<Longrightarrow> a = b" "\<And>a. f a \<noteq> Inr JNull"
  shows "a = b"
  using assms(1,2) assms(3) [symmetric] assms(3) by (auto simp: null_or_def split: option.splits)

lemma null_int_inject: "null_or int_json a = null_or int_json b \<Longrightarrow> a = b"
  by (erule null_or_inject) (auto simp: int_json_def json_int_def)

lemma null_string_inject: "null_or string_json a = null_or string_json b \<Longrightarrow> a = b"
  by (erule null_or_inject) (auto simp: string_json_def)

lemma scalar_json_inject [simp]: "int_json m = int_json n \<longleftrightarrow> m = n" "string_json s = string_json t \<longleftrightarrow> s = t"
  by (auto simp: int_json_def string_json_def)

lemma champion_json_inject: "champion_json a = Inr x \<Longrightarrow> champion_json b = Inr x \<Longrightarrow> a = b"
  unfolding champion_json_def
  by (drule (1) members_json_inject)
    (auto dest: null_int_inject null_string_inject intro: champion_pointers.equality)

lemma loop_status_name_inject: "loop_status_name a = loop_status_name b \<Longrightarrow> a = b"
  by (cases a; cases b) auto

lemma snapshot_json_inject:
  assumes "snapshot_json a = Inr x" "snapshot_json b = Inr x"
  shows "a = b"
proof -
  note eq = members_json_inject [OF assms [unfolded snapshot_json_def]]
  have "ls_champion a = ls_champion b"
    using eq by (intro encoded_inject [OF _ _ champion_json_inject]) auto
  moreover have "ls_budget a = ls_budget b"
    using eq by (intro encoded_inject [OF _ _ budget_json_inject]) auto
  moreover have "ls_inFlight a = ls_inFlight b" using eq by (intro null_int_inject) auto
  moreover have "ls_status a = ls_status b" using eq by (intro loop_status_name_inject) auto
  moreover have "ls_inFlightOptimization a = ls_inFlightOptimization b"
    using eq by (auto simp: string_json_def split: if_splits)
  ultimately show ?thesis using eq by (intro loop_snapshot.equality) auto
qed

interpretation limits_text: faithful_json limits_json
  by unfold_locales (rule limits_json_inject)

interpretation budget_text: faithful_json budget_json
  by unfold_locales (rule budget_json_inject)

interpretation champion_text: faithful_json champion_json
  by unfold_locales (rule champion_json_inject)

interpretation snapshot_text: faithful_json snapshot_json
  by unfold_locales (rule snapshot_json_inject)

subsection \<open>What accepted answers say\<close>

lemma assertSnapshot_ok:
  assumes "assertSnapshot h expected s = Inr u"
  shows "safe_int (freshPanels s)" "0 \<le> freshPanels s" "ls_inFlight s \<noteq> None \<Longrightarrow> ls_inFlight s = Some (ls_next s - 1)"
    "expected = Some identity \<Longrightarrow> identity_of s = identity"
  using assms by (auto simp: assertSnapshot_def guard_simps split: option.splits)

lemma panels_after_look:
  assumes "safe_int a" "0 \<le> a" "num_eq d (Fin 0) \<or> num_eq d (Fin 1)"
    and "num_eq (num_of_int b) (num_sub (num_of_int a) d)"
  shows "b = a - (if num_eq d (Fin 1) then 1 else 0)"
proof -
  have sub: "num_sub (num_of_int a) (num_of_int k) = num_of_int (a - k)" if "k \<in> {0, 1}" for k
    using num_add_of_int [of a "- k"] that assms(1,2) by (auto simp: num_sub_def safe_int_def max_safe_def)
  from assms(3) show ?thesis
  proof
    assume "num_eq d (Fin 0)"
    then have "d = num_of_int 0" by (simp add: num_eq_def)
    then show ?thesis using assms(4) sub [of 0] by simp
  next
    assume "num_eq d (Fin 1)"
    then have "d = num_of_int 1" by (simp add: num_eq_def)
    then show ?thesis using assms(4) sub [of 1] by simp
  qed
qed

text \<open>The number of the experiment a pass works on.\<close>

definition pass_number :: "loop_snapshot \<Rightarrow> int" where
  "pass_number s = (case ls_inFlight s of None \<Rightarrow> ls_next s | Some n \<Rightarrow> n)"

lemma accepted_claim:
  assumes law: "number_law h" and ok: "assertClaim h claim s = Inr u" and s: "assertSnapshot h e s = Inr v"
  defines "c \<equiv> cl_snapshot claim"
  shows "identity_of c = identity_of s" "ls_champion c = ls_champion s" "ls_budget c = ls_budget s"
    "freshPanels c = freshPanels s" "ls_next c = pass_number s + 1" "ri_champion (cl_input claim) = ls_champion s"
    "limits (ri_budget (cl_input claim)) = limits (ls_budget s)" "ei_number (ri_experiment (cl_input claim)) = pass_number s"
    "currentStateHash claim = ls_stateHash c" "ls_inFlight s = None \<Longrightarrow> priorStateHash claim = ls_stateHash s"
proof -
  let ?i = "cl_input claim"
  have parts: "assertSnapshot h (Some (identity_of s)) c = Inr ()" "allocation_valid_claim h claim s = Inr True"
    "currentStateHash claim = ls_stateHash c" "Some (ei_number (ri_experiment ?i)) = ls_inFlight c"
    "same_text h (champion_json (ri_champion ?i)) (champion_json (ls_champion c)) = Inr True"
    "same_text h (limits_json (limits (ri_budget ?i))) (limits_json (limits (ls_budget c))) = Inr True"
    using ok unfolding assertClaim_def c_def by (auto simp: Let_def loop_simps)
  show "identity_of c = identity_of s" "currentStateHash claim = ls_stateHash c"
    using assertSnapshot_ok(4) [OF parts(1)] parts(3) by auto
  have eqs: "ls_champion c = ls_champion s \<and> ls_budget c = ls_budget s \<and> freshPanels c = freshPanels s \<and>
      ls_next c = pass_number s + 1 \<and> ls_inFlight c = Some (pass_number s) \<and> (ls_inFlight s = None \<longrightarrow> priorStateHash claim = ls_stateHash s)"
  proof (cases "ls_inFlight s")
    case None
    then show ?thesis using parts(2) champion_text.same_value [OF law] budget_text.same_value [OF law]
      unfolding allocation_valid_claim_def c_def by (auto simp: Let_def loop_simps pass_number_def)
  next
    case (Some n)
    then have "c = s" using parts(2) snapshot_text.same_value [OF law] unfolding allocation_valid_claim_def c_def by (simp add: Let_def)
    then show ?thesis using Some assertSnapshot_ok(3) [OF s] by (simp add: pass_number_def)
  qed
  then show "ls_champion c = ls_champion s" "ls_budget c = ls_budget s" "freshPanels c = freshPanels s"
    "ls_next c = pass_number s + 1" "ls_inFlight s = None \<Longrightarrow> priorStateHash claim = ls_stateHash s" by auto
  show "ri_champion ?i = ls_champion s" "limits (ri_budget ?i) = limits (ls_budget s)" "ei_number (ri_experiment ?i) = pass_number s"
    using eqs parts(4) champion_text.same_value [OF law parts(5)] limits_text.same_value [OF law parts(6)] by auto
qed

lemma members_json_parts: "members_json ms = Inr x \<Longrightarrow> m \<in> set ms \<Longrightarrow> \<exists>y. snd m = Inr y"
  by (auto simp: members_json_ok)

lemma claim_document_finite:
  assumes "hash_json h (claim_document claim) = Inr x" "v \<in> set (map snd (usage_entries (usage (ri_budget (cl_input claim)))))"
  shows "is_finite v"
proof -
  obtain d where d: "claim_document claim = Inr d" using assms(1) by (auto simp: hash_json_def)
  obtain i where i: "input_json (cl_input claim) = Inr i"
    using members_json_parts [OF d [unfolded claim_document_def], of "(''input'', input_json (cl_input claim))"] by auto
  obtain b where b: "budget_json (ri_budget (cl_input claim)) = Inr b"
    using members_json_parts [OF i [unfolded input_json_def], of "(''budget'', budget_json (ri_budget (cl_input claim)))"] by auto
  obtain u where u: "usage_json (usage (ri_budget (cl_input claim))) = Inr u"
    using members_json_parts [OF b [unfolded budget_json_def], of "(''usage'', usage_json (usage (ri_budget (cl_input claim))))"] by auto
  obtain key where "(key, v) \<in> set (usage_entries (usage (ri_budget (cl_input claim))))" using assms(2) by auto
  then have "\<exists>y. number_json v = Inr y"
    using members_json_parts [OF u [unfolded usage_json_def], of "(key, number_json v)"] by force
  then show ?thesis by (cases v) auto
qed

text \<open>No dimension of the usage has fallen, and the limits are the same.\<close>

definition budget_grew :: "budget_snapshot \<Rightarrow> budget_snapshot \<Rightarrow> bool" where
  "budget_grew before after \<longleftrightarrow> limits after = limits before \<and>
     list_all2 num_le (map snd (usage_entries (usage before))) (map snd (usage_entries (usage after)))"

lemma finite_not_less: "\<not> num_less a b \<Longrightarrow> is_finite a \<Longrightarrow> is_finite b \<Longrightarrow> num_le b a"
  by (cases a; cases b) (auto simp: num_le_def num_eq_def)

lemma accepted_budget:
  assumes "number_law h" "assertMonotonicBudget h before after = Inr u"
    and "\<And>v. v \<in> set (map snd (usage_entries (usage before))) \<Longrightarrow> is_finite v"
  shows "budget_grew before after"
proof -
  have after: "is_finite v" if "v \<in> set (map snd (usage_entries (usage after)))" for v
    using assms(2) that unfolding assertMonotonicBudget_def assertBudget_def validateBudgetSnapshot_def
    by (auto simp: guard_simps nonNegativeFinite_def split: if_splits)
  have "list_all2 (\<lambda>old now. \<not> num_less now old) (map snd (usage_entries (usage before))) (map snd (usage_entries (usage after)))"
    using assms(2) unfolding assertMonotonicBudget_def by (auto simp: loop_simps usage_entries_def)
  then have "list_all2 num_le (map snd (usage_entries (usage before))) (map snd (usage_entries (usage after)))"
    by (rule list.rel_mono_strong) (rule finite_not_less, assumption, erule after, erule assms(3))
  moreover have "limits before = limits after"
    by (rule limits_text.same_value [OF assms(1)]) (use assms(2) in \<open>auto simp: assertMonotonicBudget_def loop_simps\<close>)
  ultimately show ?thesis by (simp add: budget_grew_def)
qed

lemma accepted_result:
  assumes law: "number_law h" and ok: "assertExperimentResult h claim result = Inr u"
    and finite: "\<And>v. v \<in> set (map snd (usage_entries (usage (ri_budget (cl_input claim))))) \<Longrightarrow> is_finite v"
  defines "was \<equiv> ri_champion (cl_input claim)" and "c \<equiv> rr_champion result"
  shows "budget_grew (ri_budget (cl_input claim)) (rr_budget result)"
    "num_eq (look_delta claim result) (Fin 0) \<or> num_eq (look_delta claim result) (Fin 1)"
    "rr_disposition result \<noteq> Run_promoted \<Longrightarrow> c = was"
    "rr_disposition result = Run_promoted \<Longrightarrow> activeExperiment c = ei_number (ri_experiment (cl_input claim)) \<and>
       activeCommit c \<noteq> activeCommit was \<and> baselineCommit c = baselineCommit was \<and>
       certifiedExperiment c = certifiedExperiment was \<and> certifiedCommit c = certifiedCommit was \<and>
       num_eq (look_delta claim result) (Fin 1)"
proof -
  show "budget_grew (ri_budget (cl_input claim)) (rr_budget result)"
    using ok unfolding assertExperimentResult_def by (auto simp: Let_def intro: accepted_budget [OF law _ finite])
  show "num_eq (look_delta claim result) (Fin 0) \<or> num_eq (look_delta claim result) (Fin 1)"
    "rr_disposition result = Run_promoted \<Longrightarrow> activeExperiment c = ei_number (ri_experiment (cl_input claim)) \<and>
       activeCommit c \<noteq> activeCommit was \<and> baselineCommit c = baselineCommit was \<and>
       certifiedExperiment c = certifiedExperiment was \<and> certifiedCommit c = certifiedCommit was \<and>
       num_eq (look_delta claim result) (Fin 1)"
    using ok unfolding assertExperimentResult_def was_def c_def by (auto simp: Let_def loop_simps)
  show "c = was" if "rr_disposition result \<noteq> Run_promoted"
    using ok that unfolding assertExperimentResult_def was_def c_def
    by (auto simp: Let_def loop_simps intro: champion_text.same_value [OF law])
qed

lemma accepted_commit:
  assumes law: "number_law h" and ok: "assertCommittedSnapshot h claim result after = Inr u"
  shows "identity_of after = identity_of (cl_snapshot claim)" "ls_next after = ls_next (cl_snapshot claim)" "ls_inFlight after = None"
    "ls_budget after = rr_budget result" "ls_champion after = rr_champion result"
    "ls_stateHash after \<noteq> ls_stateHash (cl_snapshot claim)"
    "num_eq (num_of_int (freshPanels after)) (num_sub (num_of_int (freshPanels (cl_snapshot claim))) (look_delta claim result))"
  using ok assertSnapshot_ok(4) budget_text.same_value [OF law] champion_text.same_value [OF law]
  unfolding assertCommittedSnapshot_def by (auto simp: Let_def loop_simps)

lemma accepted_commit_panels: "assertCommittedSnapshot h claim result after = Inr u \<Longrightarrow> 0 \<le> freshPanels after"
  unfolding assertCommittedSnapshot_def by (auto simp: Let_def intro: assertSnapshot_ok(2))

lemma accepted_claim_hash: "assertClaim h claim s = Inr u \<Longrightarrow> hash_json h (claim_document claim) = Inr (claimHash claim)"
  unfolding assertClaim_def by (auto simp: Let_def split: if_splits)

lemma execute_claim_ok:
  "execute_claim env claim s w = (Inr (t, d), w') \<longleftrightarrow>
     (\<exists>result w2. assertClaim (loop_host env) claim s = Inr () \<and> run_experiment env (cl_input claim) w = (Inr result, w2) \<and>
       assertExperimentResult (loop_host env) claim result = Inr () \<and>
       complete_claim env (claimHash claim) (currentStateHash claim) result w2 = (Inr t, w') \<and>
       assertCommittedSnapshot (loop_host env) claim result t = Inr () \<and> d = rr_disposition result)"
  unfolding execute_claim_def by (auto simp: Let_def loop_simps)

lemma loop_pass_next:
  assumes "loop_pass env identity s w = (Next t d, w')"
  shows "\<exists>claim w1 remaining. assertSnapshot (loop_host env) (Some identity) s = Inr () \<and> ls_status s = Loop_running \<and>
    remainingBudget (ls_budget s) = Inr remaining \<and>
    (ls_inFlight s = None \<longrightarrow> freshPanels s \<noteq> 0 \<and> \<not> short_of s remaining (if ls_next s = 1 then 28 else 37)) \<and>
    claim_next env (ls_stateHash s) w = (Inr (Claimed claim), w1) \<and> execute_claim env claim s w1 = (Inr (t, d), w')"
  using assms unfolding loop_pass_def claim_and_run_def handle_claim_def
  by (auto split: sum.splits if_splits prod.splits loop_claim.splits)

lemma committed_pass:
  assumes "number_law (loop_host env)" "loop_pass env identity s w = (Next t d, w')"
  shows "identity_of s = identity" "identity_of t = identity" "0 \<le> freshPanels t"
    "\<exists>look \<in> {0, 1}. freshPanels t = freshPanels s - look \<and> (d = Run_promoted \<longrightarrow> look = 1)"
proof -
  let ?h = "loop_host env"
  obtain claim w1 where s: "assertSnapshot ?h (Some identity) s = Inr ()" and run: "execute_claim env claim s w1 = (Inr (t, d), w')"
    using loop_pass_next [OF assms(2)] by (elim exE conjE) (rule that)
  obtain result where ok: "assertClaim ?h claim s = Inr ()" "assertExperimentResult ?h claim result = Inr ()"
    "assertCommittedSnapshot ?h claim result t = Inr ()" and d: "d = rr_disposition result"
    using run unfolding execute_claim_ok by blast
  note c = accepted_claim [OF assms(1) ok(1) s]
  note r = accepted_result [OF assms(1) ok(2) claim_document_finite [OF accepted_claim_hash [OF ok(1)]]]
  note t = accepted_commit [OF assms(1) ok(3)]
  show "identity_of s = identity" using assertSnapshot_ok(4) [OF s refl] .
  then show "identity_of t = identity" using c(1) t(1) by simp
  show "0 \<le> freshPanels t" by (rule accepted_commit_panels [OF ok(3)])
  show "\<exists>look \<in> {0, 1}. freshPanels t = freshPanels s - look \<and> (d = Run_promoted \<longrightarrow> look = 1)"
  proof -
    have "freshPanels t = freshPanels s - (if num_eq (look_delta claim result) (Fin 1) then 1 else 0)"
      using panels_after_look [OF assertSnapshot_ok(1,2) [OF s] r(2)] t(7) c(4) by simp
    then show ?thesis using r(4) d by (cases "d = Run_promoted") auto
  qed
qed

subsection \<open>Runs\<close>

definition one_pass :: "'w loop_env \<Rightarrow> loop_identity \<Rightarrow> 'w loop_state \<Rightarrow> 'w loop_state" where
  "one_pass env identity st = after_pass st (loop_pass env identity (lo_snapshot st) (lo_world st))"

lemma loop_unfold: "optimization_loop env identity maximum st =
    (if loop_goes_on maximum st then optimization_loop env identity maximum (one_pass env identity st) else Some st)"
  unfolding optimization_loop_def one_pass_def by (subst while_option_unfold) simp

lemma passes_bounded:
  "\<exists>k \<le> (if lo_ended st = None then maximum - lo_completed st else 0).
     optimization_loop env identity maximum st = Some ((one_pass env identity ^^ k) st)"
proof (induction "if lo_ended st = None then maximum - lo_completed st else 0" arbitrary: st rule: less_induct)
  case less
  show ?case
  proof (cases "loop_goes_on maximum st")
    case True
    let ?n = "\<lambda>st. if lo_ended st = None then maximum - lo_completed st else 0"
    have smaller: "?n (one_pass env identity st) < ?n st" using True
      by (auto simp: loop_goes_on_def one_pass_def after_pass_def split: prod.splits loop_outcome.splits)
    obtain k where k: "k \<le> ?n (one_pass env identity st)"
      "optimization_loop env identity maximum (one_pass env identity st) = Some ((one_pass env identity ^^ k) (one_pass env identity st))"
      using less [OF smaller] by blast
    have "Suc k \<le> ?n st" using smaller k(1) by linarith
    moreover have "optimization_loop env identity maximum st = Some ((one_pass env identity ^^ Suc k) st)"
      using k(2) True by (subst loop_unfold) (simp add: funpow_swap1)
    ultimately show ?thesis by blast
  next
    case False
    then have "optimization_loop env identity maximum st = Some ((one_pass env identity ^^ 0) st)" by (subst loop_unfold) simp
    then show ?thesis by (metis le0)
  qed
qed

lemma while_ends: "\<exists>st'. optimization_loop env identity maximum st = Some st'"
  using passes_bounded by blast

text \<open>What holds each time the condition of the loop is evaluated, from a snapshot with \<open>panels\<close> fresh panels.\<close>

definition loop_inv :: "loop_identity \<Rightarrow> nat \<Rightarrow> int \<Rightarrow> 'w loop_state \<Rightarrow> bool" where
  "loop_inv identity maximum panels st \<longleftrightarrow>
     lo_promotions st + lo_rejections st + lo_inconclusive st = lo_completed st \<and> lo_completed st \<le> maximum \<and>
     identity_of (lo_snapshot st) = identity \<and> int (lo_promotions st) \<le> panels \<and> lo_ended st \<noteq> Some (Inr Reason_invocation_limit) \<and>
     (lo_ended st = None \<longrightarrow> 0 \<le> freshPanels (lo_snapshot st) \<and> int (lo_promotions st) + freshPanels (lo_snapshot st) \<le> panels)"

lemma status_reason_limit [simp]: "status_reason st = Reason_invocation_limit \<longleftrightarrow> st = Loop_running"
  by (cases st) auto

lemma pass_finishes:
  assumes "loop_pass env identity s w = (Finish reason t, w')"
  shows "identity_of t = identity" "reason \<noteq> Reason_invocation_limit"
proof -
  have "(t = s \<and> assertSnapshot (loop_host env) (Some identity) s = Inr () \<or> assertSnapshot (loop_host env) (Some identity) t = Inr ()) \<and>
      reason \<noteq> Reason_invocation_limit"
    using assms unfolding loop_pass_def claim_and_run_def handle_claim_def assertTerminalClaim_def
    by (auto split: sum.splits if_splits prod.splits loop_claim.splits)
  then show "identity_of t = identity" "reason \<noteq> Reason_invocation_limit" using assertSnapshot_ok(4) by blast+
qed

lemma loop_inv_pass:
  assumes "number_law (loop_host env)" "loop_inv identity maximum panels st" "loop_goes_on maximum st"
  shows "loop_inv identity maximum panels (after_pass st (loop_pass env identity (lo_snapshot st) (lo_world st)))"
proof -
  obtain out w where out: "loop_pass env identity (lo_snapshot st) (lo_world st) = (out, w)" by fastforce
  show ?thesis
  proof (cases out)
    case (Next t d)
    note c = committed_pass [OF assms(1) out [unfolded Next]]
    show ?thesis using assms(2,3) c(2,3,4) unfolding out Next after_pass_def loop_inv_def loop_goes_on_def
      by (cases d) auto
  next
    case (Finish reason t)
    show ?thesis using assms(2,3) pass_finishes [OF out [unfolded Finish]] unfolding out Finish after_pass_def loop_inv_def loop_goes_on_def
      by auto
  next
    case (Fail x)
    show ?thesis using assms(2,3) unfolding out Fail after_pass_def loop_inv_def loop_goes_on_def by auto
  qed
qed

lemma loop_inv_result:
  assumes "number_law (loop_host env)" "optimization_loop env (identity_of s) maximum (loop_start s w) = Some st" "0 \<le> freshPanels s"
  shows "loop_inv (identity_of s) maximum (freshPanels s) st \<and> \<not> loop_goes_on maximum st"
proof -
  have start: "loop_inv (identity_of s) maximum (freshPanels s) (loop_start s w)"
    using assms(3) by (simp add: loop_inv_def loop_start_def)
  show ?thesis
    using while_option_rule [OF loop_inv_pass [OF assms(1)] assms(2) [unfolded optimization_loop_def] start]
      while_option_stop [OF assms(2) [unfolded optimization_loop_def]] by blast
qed

text \<open>
  C14. The loop commits only what the claim allows, whatever its ports answer: a pass that commits
  started from a running campaign that could pay for it (or resumed an experiment in flight), ran
  the next experiment number, kept lineage and limits, lowered no usage below the claim's, spent at
  most one fresh panel, and moved the champion only for a promotion, which spent its panel, is
  the experiment in flight with a new commit, and leaves baseline and certified champion alone.
\<close>

theorem loop_commits_only_claimed:
  assumes "number_law (loop_host env)" "loop_pass env identity s w = (Next t d, w')"
  shows "ls_status s = Loop_running \<and> identity_of s = identity \<and> identity_of t = identity \<and>
    (ls_inFlight s = None \<longrightarrow> (\<exists>remaining. remainingBudget (ls_budget s) = Inr remaining \<and> 0 < freshPanels s \<and>
       \<not> short_of s remaining (if ls_next s = 1 then 28 else 37))) \<and>
    ls_next t = pass_number s + 1 \<and> ls_inFlight t = None \<and> limits (ls_budget t) = limits (ls_budget s) \<and>
    (\<exists>claim w1. claim_next env (ls_stateHash s) w = (Inr (Claimed claim), w1) \<and> ls_stateHash t \<noteq> currentStateHash claim \<and>
       budget_grew (ri_budget (cl_input claim)) (ls_budget t)) \<and>
    (\<exists>look \<in> {0, 1}. freshPanels t = freshPanels s - look \<and>
       (if d = Run_promoted then look = 1 \<and> activeExperiment (ls_champion t) = pass_number s \<and>
           activeCommit (ls_champion t) \<noteq> activeCommit (ls_champion s) \<and> baselineCommit (ls_champion t) = baselineCommit (ls_champion s) \<and>
           certifiedExperiment (ls_champion t) = certifiedExperiment (ls_champion s) \<and>
           certifiedCommit (ls_champion t) = certifiedCommit (ls_champion s)
        else ls_champion t = ls_champion s))"
proof -
  let ?h = "loop_host env"
  obtain claim w1 remaining where s: "assertSnapshot ?h (Some identity) s = Inr ()" "ls_status s = Loop_running"
    and paid: "remainingBudget (ls_budget s) = Inr remaining"
      "ls_inFlight s = None \<longrightarrow> freshPanels s \<noteq> 0 \<and> \<not> short_of s remaining (if ls_next s = 1 then 28 else 37)"
    and claim: "claim_next env (ls_stateHash s) w = (Inr (Claimed claim), w1)" and run: "execute_claim env claim s w1 = (Inr (t, d), w')"
    using loop_pass_next [OF assms(2)] by (elim exE conjE) (rule that)
  obtain result where ok: "assertClaim ?h claim s = Inr ()" "assertExperimentResult ?h claim result = Inr ()"
    "assertCommittedSnapshot ?h claim result t = Inr ()" and d: "d = rr_disposition result"
    using run unfolding execute_claim_ok by blast
  note c = accepted_claim [OF assms(1) ok(1) s(1)]
  note r = accepted_result [OF assms(1) ok(2) claim_document_finite [OF accepted_claim_hash [OF ok(1)]]]
  note t = accepted_commit [OF assms(1) ok(3)]
  have grew: "budget_grew (ri_budget (cl_input claim)) (ls_budget t)" using r(1) t(4) by simp
  have panels: "freshPanels t = freshPanels s - (if num_eq (look_delta claim result) (Fin 1) then 1 else 0)"
    using panels_after_look [OF assertSnapshot_ok(1,2) [OF s(1)] r(2)] t(7) c(4) by simp
  have start: "ls_inFlight s = None \<longrightarrow> 0 < freshPanels s \<and> \<not> short_of s remaining (if ls_next s = 1 then 28 else 37)"
    using paid(2) assertSnapshot_ok(2) [OF s(1)] by auto
  have fate: "if d = Run_promoted then num_eq (look_delta claim result) (Fin 1) \<and> activeExperiment (ls_champion t) = pass_number s \<and>
         activeCommit (ls_champion t) \<noteq> activeCommit (ls_champion s) \<and> baselineCommit (ls_champion t) = baselineCommit (ls_champion s) \<and>
         certifiedExperiment (ls_champion t) = certifiedExperiment (ls_champion s) \<and>
         certifiedCommit (ls_champion t) = certifiedCommit (ls_champion s)
      else ls_champion t = ls_champion s"
    using r(3,4) c(6,8) t(5) d by simp
  show ?thesis
    using s(2) assertSnapshot_ok(4) [OF s(1) refl] c(1,5,7,9) t(1,2,3,6) paid(1) start claim grew panels fate
    by (auto simp: budget_grew_def)
qed

lemma run_loop_receipt:
  assumes "run_loop env maximum w = Some (Inr r, w')"
  shows "\<exists>startedAt s w2 st. load_campaign env (snd (clock env w)) = (Inr s, w2) \<and> assertSnapshot (loop_host env) None s = Inr () \<and>
    optimization_loop env (identity_of s) maximum (loop_start s w2) = Some st \<and>
    loop_finish env startedAt (ls_stateHash s) st = (Inr r, w') \<and> (\<forall>x. lo_ended st \<noteq> Some (Inl x))"
proof -
  obtain first w2 where first: "then_do (read_clock env ''Loop start time'' w) (\<lambda>startedAt w.
      then_do (load_campaign env w) (\<lambda>s w. then_do (assertSnapshot (loop_host env) None s, w) (\<lambda>_ w. (Inr (startedAt, s), w)))) = (first, w2)"
    by fastforce
  then obtain startedAt s where o: "first = Inr (startedAt, s)" using assms by (cases first) (auto simp: run_loop_def)
  then have load: "load_campaign env (snd (clock env w)) = (Inr s, w2)" "assertSnapshot (loop_host env) None s = Inr ()"
    using first by (auto simp: loop_simps read_clock_def split: option.splits prod.splits)
  obtain st where st: "optimization_loop env (identity_of s) maximum (loop_start s w2) = Some st" using while_ends by blast
  have "(case lo_ended st of Some (Inl failure) \<Rightarrow> (Inl failure, lo_world st)
      | _ \<Rightarrow> lift_failure (loop_finish env startedAt (ls_stateHash s) st)) = (Inr r, w')"
    using assms first unfolding run_loop_def o by (simp add: st)
  then have "loop_finish env startedAt (ls_stateHash s) st = (Inr r, w') \<and> (\<forall>x. lo_ended st \<noteq> Some (Inl x))"
    by (auto simp: lift_failure_def split: option.splits sum.splits prod.splits)
  then show ?thesis using load st by blast
qed

text \<open>
  C15. A receipt accounts for its run: it names the campaign that was loaded, its experiments are
  promotions, rejections and inconclusive ones and no more than the limit, promotions never exceed the
  fresh panels the campaign had at the start, a run that stopped at the invocation limit ran exactly
  that many experiments, the clock did not run backwards, and the hash binds all of it.
\<close>

theorem receipt_accounts_for_run:
  assumes "number_law (loop_host env)" "run_loop env maximum w = Some (Inr r, w')"
  shows "\<exists>s w2. load_campaign env (snd (clock env w)) = (Inr s, w2) \<and>
    rc_campaignId r = ls_campaignId s \<and> rc_lineageId r = ls_lineageId s \<and> rc_protocolHash r = ls_protocolHash s \<and>
    initialStateHash r = ls_stateHash s \<and>
    experimentsCompleted r = rc_promotions r + rc_rejections r + rc_inconclusive r \<and> experimentsCompleted r \<le> maximum \<and>
    int (rc_promotions r) \<le> freshPanels s \<and>
    (terminalReason r = Reason_invocation_limit \<longrightarrow> experimentsCompleted r = maximum) \<and>
    \<not> earlier (loop_host env) (rc_finishedAt r) (rc_startedAt r) \<and>
    receiptHash r = tree_hash (loop_host env) (receipt_document r)"
proof -
  let ?h = "loop_host env"
  obtain startedAt s w2 st where load: "load_campaign env (snd (clock env w)) = (Inr s, w2)" and s: "assertSnapshot ?h None s = Inr ()"
    and run: "optimization_loop env (identity_of s) maximum (loop_start s w2) = Some st"
    and fin: "loop_finish env startedAt (ls_stateHash s) st = (Inr r, w')" and ended: "\<forall>x. lo_ended st \<noteq> Some (Inl x)"
    using run_loop_receipt [OF assms(2)] by (elim exE conjE) (rule that)
  have inv: "loop_inv (identity_of s) maximum (freshPanels s) st" "\<not> loop_goes_on maximum st"
    using loop_inv_result [OF assms(1) run assertSnapshot_ok(2) [OF s]] by auto
  have r: "identity_of (lo_snapshot st) = \<lparr>id_campaign = rc_campaignId r, id_lineage = rc_lineageId r, id_protocol = rc_protocolHash r\<rparr>"
    "initialStateHash r = ls_stateHash s" "experimentsCompleted r = lo_completed st" "rc_promotions r = lo_promotions st"
    "rc_rejections r = lo_rejections st" "rc_inconclusive r = lo_inconclusive st"
    "terminalReason r = (case lo_ended st of Some (Inr reason) \<Rightarrow> reason | _ \<Rightarrow> status_reason (ls_status (lo_snapshot st)))"
    "\<not> earlier ?h (rc_finishedAt r) (rc_startedAt r)" "receiptHash r = tree_hash ?h (receipt_document r)"
    using fin unfolding loop_finish_def receipt_def
    by (auto simp: loop_simps Let_def identity_of_def receipt_document_def split: if_splits)
  have "terminalReason r = Reason_invocation_limit \<longrightarrow> lo_ended st = None"
    using r(7) inv(1) ended by (auto simp: loop_inv_def split: option.splits sum.splits)
  then have "terminalReason r = Reason_invocation_limit \<longrightarrow> lo_completed st = maximum"
    using inv by (auto simp: loop_inv_def loop_goes_on_def)
  then show ?thesis using load inv(1) r(1-6,8,9) by (auto simp: loop_inv_def identity_of_def)
qed

text \<open>
  C16. A run of the loop always returns: whatever the coordinator, the runner and the clock answer, the
  loop ends after at most the permitted number of passes, with a receipt or an error.
\<close>

theorem autonomous_run_terminates:
  "(\<exists>answer w'. run_loop env maximum w = Some (answer, w')) \<and>
   (\<exists>k \<le> maximum. optimization_loop env identity maximum (loop_start s w) = Some ((one_pass env identity ^^ k) (loop_start s w)))"
proof -
  have ends: "optimization_loop env i maximum st \<noteq> None" for i st using while_ends [of env i maximum st] by auto
  have "run_loop env maximum w \<noteq> None"
    using ends unfolding run_loop_def by (simp del: not_None_eq split: sum.split prod.split)
  then show ?thesis using passes_bounded [of "loop_start s w" maximum env identity] by (auto simp: loop_start_def)
qed

text \<open>
  C17. No claimed experiment is left behind silently: when a pass fails after it was given a claim, the
  last call it made asked the coordinator to interrupt that claim, with the class of the failure; the
  failure alone is reported only if the coordinator answered with a campaign that no longer runs and
  has moved on from the claim, otherwise both failures are. Failures before that leave nothing behind.
\<close>

theorem failed_claims_are_interrupted:
  assumes "loop_pass env identity s w = (Fail f, w')"
  shows "(\<exists>x. f = Raised x \<and> (assertSnapshot (loop_host env) (Some identity) s = Inl x \<and> w' = w \<or>
        w' = snd (claim_next env (ls_stateHash s) w) \<and> (\<forall>claim. fst (claim_next env (ls_stateHash s) w) \<noteq> Inr (Claimed claim)))) \<or>
    (\<exists>claim w1 cause w2 answer. claim_next env (ls_stateHash s) w = (Inr (Claimed claim), w1) \<and>
       execute_claim env claim s w1 = (Inl cause, w2) \<and>
       interrupt_claim env (claimHash claim) (currentStateHash claim) (failureClass cause) w2 = (answer, w') \<and>
       (f = Raised cause \<and> (\<exists>t. answer = Inr t \<and> identity_of t = identity \<and> ls_status t \<noteq> Loop_running \<and>
           ls_stateHash t \<noteq> currentStateHash claim) \<or>
        (\<exists>also_failed. f = Aggregated cause also_failed)))"
proof (cases "\<exists>claim w1. claim_next env (ls_stateHash s) w = (Inr (Claimed claim), w1) \<and> handle_claim env identity claim s w1 = (Fail f, w')")
  case True
  then obtain claim w1 where claim: "claim_next env (ls_stateHash s) w = (Inr (Claimed claim), w1)"
    and fails: "handle_claim env identity claim s w1 = (Fail f, w')" by blast
  from fails obtain cause w2 note_result where cause: "execute_claim env claim s w1 = (Inl cause, w2)"
    and noted: "record_interruption env identity claim cause w2 = (note_result, w')"
    and f: "f = (case note_result of Inl x \<Rightarrow> Aggregated cause x | Inr _ \<Rightarrow> Raised cause)"
    unfolding handle_claim_def by (auto split: prod.splits sum.splits)
  obtain answer w3 where call: "interrupt_claim env (claimHash claim) (currentStateHash claim) (failureClass cause) w2 = (answer, w3)"
    by fastforce
  have "w3 = w'" and "note_result = Inr () \<Longrightarrow> \<exists>t. answer = Inr t \<and> identity_of t = identity \<and> ls_status t \<noteq> Loop_running \<and> ls_stateHash t \<noteq> currentStateHash claim"
    using noted assertSnapshot_ok(4) unfolding record_interruption_def call then_do_def by (auto split: sum.splits if_splits)
  then show ?thesis using claim cause call f by (cases note_result) auto
next
  case False
  have "remainingBudget (ls_budget s) \<noteq> Inl x" if "assertSnapshot (loop_host env) (Some identity) s = Inr ()" for x
    using that by (auto simp: assertSnapshot_def assertBudget_def remainingBudget_def Let_def)
  then show ?thesis using assms False unfolding loop_pass_def claim_and_run_def
    by (auto split: sum.splits if_splits prod.splits loop_claim.splits)
qed

subsection \<open>A run on concrete ports\<close>

definition loop_champion :: "int \<Rightarrow> char \<Rightarrow> champion_pointers" where
  "loop_champion n commit = \<lparr>baselineCommit = sixty_four CHR ''a'', activeExperiment = n, activeCommit = sixty_four commit,
     certifiedExperiment = None, certifiedCommit = None, updatedAt = ''2026-01-01T00:00:00.000Z'', sourceSealHash = sixty_four CHR ''c''\<rparr>"

definition loop_budget :: "rat \<Rightarrow> rat \<Rightarrow> budget_snapshot" where
  "loop_budget spent looks =
     \<lparr>limits = \<lparr>maximumUsd = Fin 100, maximumTokens = Fin 1000, maximumWallTimeMs = Fin 5000, maximumAttempts = Fin 100,
        maximumPrivacyReleases = Fin 2, maximumPromotionLooks = Fin 3, maximumOnlineError = Fin 1\<rparr>,
      usage = \<lparr>spentUsd = Fin 0, tokens = Fin 0, wallTimeMs = Fin 0, attempts = Fin spent,
        privacyReleases = Fin 0, promotionLooks = Fin looks, onlineErrorSpent = Fin 0\<rparr>\<rparr>"

definition loop_state_at :: "char \<Rightarrow> loop_status \<Rightarrow> int \<Rightarrow> int option \<Rightarrow> loop_snapshot" where
  "loop_state_at state status next flight = \<lparr>ls_campaignId = ''campaign'', ls_lineageId = ''lineage'',
     ls_protocolHash = sixty_four CHR ''d'', ls_stateHash = sixty_four state, ls_status = status, ls_next = next,
     ls_inFlight = flight, ls_inFlightOptimization = (flight \<noteq> None), ls_champion = loop_champion 0 CHR ''a'',
     ls_budget = loop_budget 0 0, hardBudgetExhausted = False, freshPanels = 3\<rparr>"

definition loop_result :: run_result where
  "loop_result = \<lparr>rr_disposition = Run_promoted, rr_champion = loop_champion 1 CHR ''b'', rr_budget = loop_budget 28 1,
     rr_brief = None, rr_sealHash = sixty_four CHR ''e''\<rparr>"

definition loop_committed :: loop_snapshot where
  "loop_committed = (loop_state_at CHR ''c'' Loop_running 2 None)\<lparr>ls_champion := loop_champion 1 CHR ''b'',
     ls_budget := loop_budget 28 1, freshPanels := 2\<rparr>"

definition loop_claimed :: claimed_experiment where
  "loop_claimed = \<lparr>claimHash = sixty_four CHR ''a'', priorStateHash = sixty_four CHR ''0'', allocationStateHash = sixty_four CHR ''b'',
     currentStateHash = sixty_four CHR ''b'', cl_snapshot = loop_state_at CHR ''b'' Loop_running 2 (Some 1),
     cl_input = \<lparr>ri_experiment = \<lparr>ei_number = 1, ei_slug = ''first'', ei_kind = Optimization, ei_parent = Some 0,
         ei_lineageId = ''lineage'', ei_protocolHash = sixty_four CHR ''d''\<rparr>,
       ri_champion = loop_champion 0 CHR ''a'', ri_budget = loop_budget 0 0, ri_brief = None, previousDiscovery = None,
       repairAttemptOrdinal = 1, stop_now = False\<rparr>\<rparr>"

definition loop_ports :: "run_result result \<Rightarrow> unit loop_env" where
  "loop_ports answer = \<lparr>loop_host = example_host, clock = (\<lambda>w. (Some 2026, w)),
     load_campaign = (\<lambda>w. (Inr (loop_state_at CHR ''0'' Loop_running 1 None), w)),
     claim_next = (\<lambda>_ w. (Inr (Claimed loop_claimed), w)), run_experiment = (\<lambda>_ w. (answer, w)),
     complete_claim = (\<lambda>_ _ _ w. (Inr loop_committed, w)),
     interrupt_claim = (\<lambda>_ _ _ w. (Inr (loop_state_at CHR ''e'' Loop_paused 2 (Some 1)), w))\<rparr>"

lemma same_text_self: "\<not> isl a \<Longrightarrow> same_text h a a = Inr True"
  by (cases a) (auto simp: same_text_def)

lemma example_loop_hash: "tree_hash example_host j = sixty_four CHR ''a''"
  using json_text_not_close [OF example_number_law, of j] by (simp add: tree_hash_def example_host_def sixty_four_def)

lemma example_texts:
  "\<not> isl (limits_json (limits (loop_budget 0 0)))" "\<not> isl (limits_json (limits (loop_budget 28 1)))"
  "\<not> isl (budget_json (loop_budget 0 0))" "\<not> isl (budget_json (loop_budget 28 1))"
  "\<not> isl (champion_json (loop_champion 0 CHR ''a''))" "\<not> isl (champion_json (loop_champion 1 CHR ''b''))"
  "\<not> isl (claim_document loop_claimed)"
  by code_simp+

lemma example_limits: "limits (loop_budget a b) = limits (loop_budget 28 1)"
  by (simp add: loop_budget_def)

lemma example_budgets: "assertBudget (loop_budget 0 0) = Inr ()" "assertBudget (loop_budget 28 1) = Inr ()"
  by code_simp+

lemma assertMonotonicBudget_intro:
  assumes "assertBudget after = Inr ()" "limits before = limits after" "\<not> isl (limits_json (limits after))"
    and "list_all2 (\<lambda>old now. \<not> num_less now old) (map snd (usage_entries (usage before))) (map snd (usage_entries (usage after)))"
  shows "assertMonotonicBudget h before after = Inr ()"
  using assms(1,4) unfolding assertMonotonicBudget_def assms(2)
  by (simp add: loop_simps same_text_self [OF assms(3)] usage_entries_def)

lemma example_growth: "assertMonotonicBudget h (loop_budget 0 0) (loop_budget 28 1) = Inr ()"
  "assertMonotonicBudget h (loop_budget 0 0) (loop_budget 0 0) = Inr ()"
proof -
  show "assertMonotonicBudget h (loop_budget 0 0) (loop_budget 28 1) = Inr ()"
    by (rule assertMonotonicBudget_intro) (simp_all add: example_budgets example_texts example_limits [of 0 0], code_simp)
  show "assertMonotonicBudget h (loop_budget 0 0) (loop_budget 0 0) = Inr ()"
    by (rule assertMonotonicBudget_intro) (simp_all add: example_budgets example_texts, code_simp)
qed

lemma example_snapshots:
  "assertSnapshot example_host (Some (identity_of (loop_state_at CHR ''0'' Loop_running 1 None))) (loop_state_at CHR ''0'' Loop_running 1 None) = Inr ()"
  "assertSnapshot example_host (Some (identity_of (loop_state_at CHR ''0'' Loop_running 1 None))) (loop_state_at CHR ''b'' Loop_running 2 (Some 1)) = Inr ()"
  "assertSnapshot example_host (Some (identity_of (loop_state_at CHR ''0'' Loop_running 1 None))) (loop_state_at CHR ''e'' Loop_paused 2 (Some 1)) = Inr ()"
  "assertSnapshot example_host None (loop_state_at CHR ''0'' Loop_running 1 None) = Inr ()"
  "assertSnapshot example_host (Some (identity_of (loop_state_at CHR ''0'' Loop_running 1 None))) loop_committed = Inr ()"
  by code_simp+

lemma example_identity: "identity_of (loop_state_at state status next flight) = identity_of (loop_state_at CHR ''0'' Loop_running 1 None)"
  "identity_of loop_committed = identity_of (loop_state_at CHR ''0'' Loop_running 1 None)"
  by (simp_all add: identity_of_def loop_state_at_def loop_committed_def)

lemma example_fields [simp]:
  "activeExperiment (loop_champion n c) = n" "activeCommit (loop_champion n c) = sixty_four c"
  "baselineCommit (loop_champion n c) = sixty_four CHR ''a''" "certifiedExperiment (loop_champion n c) = None"
  "certifiedCommit (loop_champion n c) = None" "promotionLooks (usage (loop_budget a b)) = Fin b"
  by (simp_all add: loop_champion_def loop_budget_def)

lemma example_claim: "assertClaim example_host loop_claimed (loop_state_at CHR ''0'' Loop_running 1 None) = Inr ()"
proof -
  let ?s = "loop_state_at CHR ''0'' Loop_running 1 None"
  have hash: "hash_json example_host (claim_document loop_claimed) = Inr (sixty_four CHR ''a'')"
    using example_texts(7) by (cases "claim_document loop_claimed") (simp_all add: hash_json_def example_loop_hash)
  have start: "assertSnapshot example_host (Some (identity_of ?s)) (cl_snapshot loop_claimed) = Inr ()"
    using example_snapshots(2) by (simp add: loop_claimed_def)
  have allocated: "allocation_valid_claim example_host loop_claimed ?s = Inr True"
    by (simp add: allocation_valid_claim_def Let_def loop_simps loop_claimed_def loop_state_at_def same_text_self example_texts)
  have grew: "assertMonotonicBudget example_host (ri_budget (cl_input loop_claimed)) (ls_budget (cl_snapshot loop_claimed)) = Inr ()"
    by (simp add: loop_claimed_def loop_state_at_def example_growth)
  show ?thesis unfolding assertClaim_def Let_def start allocated hash grew
    by (simp add: loop_simps loop_claimed_def loop_state_at_def same_text_self example_texts assertDiagnosticBrief_def lower_hex_def)
qed

lemma example_result: "assertExperimentResult example_host loop_claimed loop_result = Inr ()"
proof -
  have "assertChampion example_host (loop_champion 1 CHR ''b'') = Inr ()" by code_simp
  moreover have "look_delta loop_claimed loop_result = Fin 1" by code_simp
  ultimately show ?thesis unfolding assertExperimentResult_def
    by (simp add: Let_def loop_simps loop_claimed_def loop_result_def example_growth assertDiagnosticBrief_def lower_hex_def)
qed

lemma example_commit: "assertCommittedSnapshot example_host loop_claimed loop_result loop_committed = Inr ()"
proof -
  have delta: "look_delta loop_claimed loop_result = Fin 1" by code_simp
  have "assertSnapshot example_host (Some (identity_of (cl_snapshot loop_claimed))) loop_committed = Inr ()"
    using example_snapshots(5) by (simp add: loop_claimed_def example_identity(1) [of "CHR ''b''" Loop_running 2 "Some 1"])
  moreover have "num_eq (num_of_int 2) (num_sub (num_of_int 3) (Fin 1))" by code_simp
  ultimately show ?thesis unfolding assertCommittedSnapshot_def Let_def delta
    by (simp add: loop_simps loop_claimed_def loop_result_def loop_committed_def loop_state_at_def same_text_self example_texts)
qed

lemma example_opening: "remainingBudget (loop_budget 0 0) = Inr (usage (loop_budget 0 0)\<lparr>spentUsd := Fin 100, tokens := Fin 1000,
    wallTimeMs := Fin 5000, attempts := Fin 100, privacyReleases := Fin 2, promotionLooks := Fin 3, onlineErrorSpent := Fin 1\<rparr>)"
  by code_simp

lemma example_claims:
  "loop_pass (loop_ports answer) (identity_of (loop_state_at CHR ''0'' Loop_running 1 None)) (loop_state_at CHR ''0'' Loop_running 1 None) () =
     handle_claim (loop_ports answer) (identity_of (loop_state_at CHR ''0'' Loop_running 1 None)) loop_claimed
       (loop_state_at CHR ''0'' Loop_running 1 None) ()"
proof -
  have fields: "ls_status (loop_state_at CHR ''0'' Loop_running 1 None) = Loop_running"
    "ls_inFlight (loop_state_at CHR ''0'' Loop_running 1 None) = None" "freshPanels (loop_state_at CHR ''0'' Loop_running 1 None) = 3"
    "ls_budget (loop_state_at CHR ''0'' Loop_running 1 None) = loop_budget 0 0" "ls_next (loop_state_at CHR ''0'' Loop_running 1 None) = 1"
    "hardBudgetExhausted (loop_state_at CHR ''0'' Loop_running 1 None) = False"
    by (simp_all add: loop_state_at_def)
  show ?thesis
    by (simp add: loop_pass_def claim_and_run_def loop_ports_def example_snapshots(1) fields example_opening short_of_def num_le_def num_eq_def)
qed

lemma example_pass:
  "loop_pass (loop_ports (Inr loop_result)) (identity_of (loop_state_at CHR ''0'' Loop_running 1 None)) (loop_state_at CHR ''0'' Loop_running 1 None) () =
     (Next loop_committed Run_promoted, ())"
  unfolding example_claims handle_claim_def execute_claim_def
  by (simp add: then_do_def loop_ports_def example_claim example_result example_commit) (simp add: loop_result_def)

lemma example_failure:
  "loop_pass (loop_ports (Inl (Error ''disk''))) (identity_of (loop_state_at CHR ''0'' Loop_running 1 None)) (loop_state_at CHR ''0'' Loop_running 1 None) () =
     (Fail (Raised (Error ''disk'')), ())"
proof -
  have "ls_status (loop_state_at CHR ''e'' Loop_paused 2 (Some 1)) = Loop_paused"
    "ls_stateHash (loop_state_at CHR ''e'' Loop_paused 2 (Some 1)) \<noteq> currentStateHash loop_claimed"
    by (simp_all add: loop_state_at_def loop_claimed_def)
  then show ?thesis unfolding example_claims handle_claim_def execute_claim_def record_interruption_def
    by (simp add: then_do_def loop_ports_def example_claim example_snapshots(3))
qed

lemma example_run: "\<exists>r. run_loop (loop_ports (Inr loop_result)) 1 () = Some (Inr r, ())"
proof -
  let ?s = "loop_state_at CHR ''0'' Loop_running 1 None"
  have "optimization_loop (loop_ports (Inr loop_result)) (identity_of ?s) 1 (loop_start ?s ()) =
      Some ((loop_start ?s ())\<lparr>lo_snapshot := loop_committed, lo_completed := 1, lo_promotions := 1\<rparr>)"
    by (subst loop_unfold, subst loop_unfold)
      (simp add: loop_goes_on_def one_pass_def loop_start_def example_pass after_pass_def)
  moreover have "ls_budget loop_committed = loop_budget 28 1" "ls_champion loop_committed = loop_champion 1 CHR ''b''"
    by (simp_all add: loop_committed_def)
  moreover have "to_iso_string example_host 2026 = decimal 2026 @ ''-01-01T00:00:00.000Z''" by (simp add: example_host_def)
  moreover have "\<not> earlier example_host x x" for x by (simp add: earlier_def split: option.splits)
  ultimately show ?thesis using example_texts(4,6)
    by (cases "budget_json (loop_budget 28 1)"; cases "champion_json (loop_champion 1 CHR ''b'')")
      (simp_all add: run_loop_def then_do_def read_clock_def loop_ports_def example_snapshots(4) loop_finish_def hash_json_def
        lift_failure_def loop_start_def Let_def)
qed

theorem loop_commits_only_claimed_witness:
  "ls_next loop_committed = 2 \<and> activeExperiment (ls_champion loop_committed) = 1 \<and>
   limits (ls_budget loop_committed) = limits (loop_budget 0 0) \<and>
   budget_grew (ri_budget (cl_input loop_claimed)) (ls_budget loop_committed)"
proof -
  have law: "number_law (loop_host (loop_ports (Inr loop_result)))" by (simp add: loop_ports_def example_number_law)
  have claim: "claim_next (loop_ports a) x y = (Inr (Claimed loop_claimed), y)" for a x y by (simp add: loop_ports_def)
  show ?thesis using loop_commits_only_claimed [OF law example_pass]
    by (auto simp: claim pass_number_def loop_state_at_def)
qed

theorem receipt_accounts_for_run_witness:
  "\<exists>r. run_loop (loop_ports (Inr loop_result)) 1 () = Some (Inr r, ()) \<and> experimentsCompleted r \<le> 1 \<and>
     int (rc_promotions r) \<le> 3 \<and> initialStateHash r = sixty_four CHR ''0''"
proof -
  obtain r where r: "run_loop (loop_ports (Inr loop_result)) 1 () = Some (Inr r, ())" using example_run by blast
  have law: "number_law (loop_host (loop_ports (Inr loop_result)))" by (simp add: loop_ports_def example_number_law)
  show ?thesis using receipt_accounts_for_run [OF law r] r by (auto simp: loop_ports_def loop_state_at_def)
qed

theorem failed_claims_are_interrupted_witness:
  "\<exists>answer. interrupt_claim (loop_ports (Inl (Error ''disk''))) (claimHash loop_claimed) (currentStateHash loop_claimed)
     (failureClass (Error ''disk'')) () = (answer, ()) \<and> (\<exists>t. answer = Inr t \<and> ls_status t \<noteq> Loop_running)"
proof -
  have claim: "claim_next (loop_ports a) x y = (Inr (Claimed loop_claimed), y)" for a x y by (simp add: loop_ports_def)
  let ?ports = "loop_ports (Inl (Error ''disk''))" and ?id = "identity_of (loop_state_at CHR ''0'' Loop_running 1 None)"
  have "\<exists>given w1 cause w2 answer. claim_next ?ports (ls_stateHash (loop_state_at CHR ''0'' Loop_running 1 None)) () = (Inr (Claimed given), w1) \<and>
      interrupt_claim ?ports (claimHash given) (currentStateHash given) (failureClass cause) w2 = (answer, ()) \<and>
      Raised (Error ''disk'') = Raised cause \<and> (\<exists>t. answer = Inr t \<and> ls_status t \<noteq> Loop_running)"
    using failed_claims_are_interrupted [OF example_failure] unfolding claim by (auto simp: loop_ports_def example_snapshots(1))
  then show ?thesis by (simp add: claim)
qed

end
