(* ===== verification/Experiment_Runner.thy ===== *)
theory Experiment_Runner
  imports Autonomous_Loop Validation_Decision Attempt_Ledger
begin

text \<open>
  One experiment, as \<open>orchestrator/experiment-runner.ts\<close> runs it: proposal, correctness gates, repair,
  fresh validation, consumption of the panel, analysis, release of the diagnostic brief and seal, with
  the settlement of an open validation lease and of the journal when something throws. The optimizer,
  the gates, the broker, the journal and the stop controller are ports: functions on a state of the
  outside world that may answer anything and may throw. The state of a run holds the mutable variables of \<open>run\<close>
  and, for the theorems, the calls made so far with their answers, which the code does not keep: \<open>call\<close> alone
  writes them, so a theorem about the calls is one about what the ports saw and answered.
\<close>

subsection \<open>What the ports exchange\<close>

record frozen_hypothesis =
  fh_hash :: string
  fh_sourceBriefHash :: "string option"
  causalClaim :: string
  intervention :: string
  predictedRepairBehavior :: string
  predictedFreshEffect :: string
  falsificationCriteria :: "string list"
  rollbackCondition :: string

record frozen_candidate =
  fc_commit :: string
  patchHash :: string
  changedFiles :: "string list"
  mutationCategory :: string

record optimizer_proposal =
  op_hypothesis :: frozen_hypothesis
  op_candidate :: frozen_candidate

record gate_report =
  gr_passed :: bool
  gr_integrityPassed :: bool
  gr_protocolHash :: string
  checksHash :: string
  gr_aggregateCostUsd :: number
  gr_tokens :: number
  gr_wallTimeMs :: number
  failureCode :: "string option"

record panel_lease =
  leaseToken :: string
  pl_attestationHash :: string
  expectedValidArms :: int
  pl_maximumAttempts :: int

datatype repair_disposition = Repair_passed | Repair_rejected | Repair_inconclusive

datatype repair_cache = Cache_not_used | Cache_eligible | Cache_miss | Cache_drift_failed

record repair_aggregate =
  ra_disposition :: repair_disposition
  ra_attemptOrdinal :: int
  ra_integrityPassed :: bool
  ra_cacheStatus :: repair_cache
  ra_aggregateCostUsd :: number
  ra_tokens :: number
  ra_wallTimeMs :: number
  ra_attempts :: int
  ra_attestationHash :: string

record online_error_accounting =
  oe_policyVersion :: string
  oe_maximumOnlineError :: number
  oe_gateOrdinal :: int
  oe_alphaSpent :: number
  cumulativeSpentBefore :: number
  cumulativeSpentAfter :: number
  remainingAfter :: number
  reservationHash :: string
  oe_priorStateHash :: string
  oe_resultingStateHash :: string

record validation_aggregate =
  va_disposition :: run_disposition
  validPairs :: int
  validArms :: int
  replacementAttempts :: int
  va_inputs :: validation_inputs
  va_onlineErrorBudget :: online_error_accounting
  va_aggregateCostUsd :: number
  va_tokens :: number
  va_wallTimeMs :: number
  va_attestationHash :: string
  releasedEvidenceHash :: "string option"
  behavioralSourceCommitmentHash :: "string option"
  attemptAccounting :: terminal_accounting

record promoted_candidate =
  pc_experimentNumber :: int
  pc_commit :: string
  decidedAt :: string

record seal_receipt =
  sr_sealHash :: string
  activeChampionAfter :: champion_pointers

datatype panel_outcome = Panel_decided | Panel_started_abandoned | Panel_sealed_unstarted

datatype run_phase =
    Phase_create | Phase_optimizer_proposal | Phase_cloud_correctness_gates | Phase_repair | Phase_fresh_validation
  | Phase_consume_validation | Phase_optimizer_analysis | Phase_diagnostic_release

fun phase_name :: "run_phase \<Rightarrow> string" where
  "phase_name Phase_create = ''create''"
| "phase_name Phase_optimizer_proposal = ''optimizer-proposal''"
| "phase_name Phase_cloud_correctness_gates = ''cloud-correctness-gates''"
| "phase_name Phase_repair = ''repair''"
| "phase_name Phase_fresh_validation = ''fresh-validation''"
| "phase_name Phase_consume_validation = ''consume-validation''"
| "phase_name Phase_optimizer_analysis = ''optimizer-analysis''"
| "phase_name Phase_diagnostic_release = ''diagnostic-release''"

text \<open>The ports; \<open>stop_requested\<close> reads the flag of the stop controller, which others may raise meanwhile.\<close>

record 'w runner_env =
  propose :: "experiment_identity \<Rightarrow> champion_pointers \<Rightarrow> diagnostic_brief option \<Rightarrow> bool \<Rightarrow> 'w \<Rightarrow> optimizer_proposal result \<times> 'w"
  analyze :: "experiment_identity \<Rightarrow> optimizer_proposal \<Rightarrow> repair_aggregate option \<Rightarrow> validation_aggregate option \<Rightarrow> 'w \<Rightarrow> string result \<times> 'w"
  gates_run :: "experiment_identity \<Rightarrow> optimizer_proposal \<Rightarrow> 'w \<Rightarrow> gate_report result \<times> 'w"
  prepareRepair :: "experiment_identity \<Rightarrow> string \<Rightarrow> string \<Rightarrow> string \<Rightarrow> int \<Rightarrow> 'w \<Rightarrow> panel_lease result \<times> 'w"
  runRepair :: "experiment_identity \<Rightarrow> string \<Rightarrow> string \<Rightarrow> string \<Rightarrow> 'w \<Rightarrow> repair_aggregate result \<times> 'w"
  prepareValidation :: "experiment_identity \<Rightarrow> string \<Rightarrow> string \<Rightarrow> string list \<Rightarrow> int \<Rightarrow> bool \<Rightarrow> 'w \<Rightarrow> panel_lease result \<times> 'w"
  runValidation :: "experiment_identity \<Rightarrow> string \<Rightarrow> string \<Rightarrow> string \<Rightarrow> 'w \<Rightarrow> validation_aggregate result \<times> 'w"
  consumeOrQuarantine :: "string \<Rightarrow> string \<Rightarrow> panel_outcome \<Rightarrow> 'w \<Rightarrow> string result \<times> 'w"
  releaseDiagnosticBrief :: "experiment_identity \<Rightarrow> string \<Rightarrow> 'w \<Rightarrow> diagnostic_brief option result \<times> 'w"
  journal_create :: "experiment_identity \<Rightarrow> champion_pointers \<Rightarrow> budget_snapshot \<Rightarrow> 'w \<Rightarrow> unit result \<times> 'w"
  freezeProposal :: "experiment_identity \<Rightarrow> optimizer_proposal \<Rightarrow> 'w \<Rightarrow> unit result \<times> 'w"
  recordGates :: "experiment_identity \<Rightarrow> gate_report \<Rightarrow> 'w \<Rightarrow> unit result \<times> 'w"
  journal_repair :: "experiment_identity \<Rightarrow> repair_aggregate \<Rightarrow> 'w \<Rightarrow> unit result \<times> 'w"
  recordValidation :: "experiment_identity \<Rightarrow> validation_aggregate \<Rightarrow> string \<Rightarrow> 'w \<Rightarrow> unit result \<times> 'w"
  recordAnalysis :: "experiment_identity \<Rightarrow> string \<Rightarrow> 'w \<Rightarrow> unit result \<times> 'w"
  updateBudget :: "budget_snapshot \<Rightarrow> 'w \<Rightarrow> unit result \<times> 'w"
  journal_seal :: "experiment_identity \<Rightarrow> run_disposition \<Rightarrow> champion_pointers \<Rightarrow> promoted_candidate option \<Rightarrow>
    diagnostic_brief option \<Rightarrow> 'w \<Rightarrow> seal_receipt result \<times> 'w"
  journal_interrupt :: "experiment_identity \<Rightarrow> run_phase \<Rightarrow> string \<Rightarrow> 'w \<Rightarrow> unit result \<times> 'w"
  now_iso :: "'w \<Rightarrow> string result \<times> 'w"
  stop_requested :: "run_input \<Rightarrow> 'w \<Rightarrow> bool"

text \<open>A call of a port: what the run passed (less the experiment, which is the same in all) and what the port answered.\<close>

datatype run_call =
    Call_create budget_snapshot "unit result" | Call_propose "diagnostic_brief option" bool "optimizer_proposal result"
  | Call_freeze optimizer_proposal "unit result" | Call_gates optimizer_proposal "gate_report result"
  | Call_recordGates gate_report "unit result" | Call_updateBudget budget_snapshot "unit result"
  | Call_prepareRepair string string string int "panel_lease result" | Call_runRepair string string string "repair_aggregate result"
  | Call_recordRepair repair_aggregate "unit result"
  | Call_prepareValidation string string "string list" int bool "panel_lease result"
  | Call_runValidation string string string "validation_aggregate result"
  | Call_settle string string panel_outcome "string result" | Call_recordValidation validation_aggregate string "unit result"
  | Call_analyze "repair_aggregate option" "validation_aggregate option" "string result" | Call_recordAnalysis string "unit result"
  | Call_release string "diagnostic_brief option result" | Call_now "string result"
  | Call_seal run_disposition "promoted_candidate option" "diagnostic_brief option" "seal_receipt result"
  | Call_interrupt run_phase string "unit result"

record 'w runner_state =
  rn_phase :: run_phase
  rn_budget :: budget_snapshot
  journalCreated :: bool
  validationLease :: "(string \<times> string \<times> bool) option"
  rn_calls :: "run_call list"
  rn_world :: 'w

type_synonym ('w, 'a) runner = "'w runner_state \<Rightarrow> 'a result \<times> 'w runner_state"

subsection \<open>Statements\<close>

definition run_then :: "('s \<Rightarrow> 'a result \<times> 's) \<Rightarrow> ('a \<Rightarrow> 's \<Rightarrow> 'b result \<times> 's) \<Rightarrow> 's \<Rightarrow> 'b result \<times> 's" where
  "run_then m f = (\<lambda>st. then_do (m st) f)"

definition returns :: "'a \<Rightarrow> 's \<Rightarrow> 'a result \<times> 's" where
  "returns a = (\<lambda>st. (Inr a, st))"

definition check :: "'a result \<Rightarrow> 's \<Rightarrow> 'a result \<times> 's" where
  "check r = (\<lambda>st. (r, st))"

definition assign :: "('s \<Rightarrow> 's) \<Rightarrow> 's \<Rightarrow> unit result \<times> 's" where
  "assign f = (\<lambda>st. (Inr (), f st))"

definition call :: "('a result \<Rightarrow> run_call) \<Rightarrow> ('w \<Rightarrow> 'a result \<times> 'w) \<Rightarrow> ('w, 'a) runner" where
  "call c port = (\<lambda>st. case port (rn_world st) of (r, w) \<Rightarrow> (r, st\<lparr>rn_calls := rn_calls st @ [c r], rn_world := w\<rparr>))"

abbreviation phase :: "run_phase \<Rightarrow> ('w, unit) runner" where
  "phase p \<equiv> assign (\<lambda>st. st\<lparr>rn_phase := p\<rparr>)"

abbreviation invalid_evidence :: "string \<Rightarrow> error" where
  "invalid_evidence \<equiv> DarkFactoryError EVIDENCE_INVALID"

definition demand :: "bool \<Rightarrow> string \<Rightarrow> ('w, unit) runner" where
  "demand holds message = check (if holds then Inr () else Inl (invalid_evidence message))"

definition charge :: "budget_delta \<Rightarrow> ('w, unit) runner" where
  "charge d = (\<lambda>st. case spendBudget (rn_budget st) d of
     Inl x \<Rightarrow> (Inl x, st) | Inr b \<Rightarrow> (Inr (), st\<lparr>rn_budget := b\<rparr>))"

definition save_budget :: "'w runner_env \<Rightarrow> ('w, unit) runner" where
  "save_budget env = (\<lambda>st. call (Call_updateBudget (rn_budget st)) (updateBudget env (rn_budget st)) st)"

text \<open>\<open>spendAggregate\<close>'s delta.\<close>

definition aggregate_delta :: "number \<Rightarrow> number \<Rightarrow> number \<Rightarrow> number \<Rightarrow> budget_delta" where
  "aggregate_delta cost used ms tries = [(''spentUsd'', cost), (''tokens'', used), (''wallTimeMs'', ms), (''attempts'', tries)]"

definition checkStop :: "'w runner_env \<Rightarrow> run_input \<Rightarrow> ('w, unit) runner" where
  "checkStop env i = (\<lambda>st. if stop_requested env i (rn_world st)
     then (Inl (DarkFactoryError USER_INPUT_REQUIRED (''Stop requested during '' @ phase_name (rn_phase st))), st)
     else (Inr (), st))"

subsection \<open>Checks of what the ports answer\<close>

text \<open>The keys the code checks with \<open>assertExactPlainObjectKeys\<close> are the fields of the records.\<close>

definition assertDiagnosticBriefReference :: "diagnostic_brief \<Rightarrow> unit result" where
  "assertDiagnosticBriefReference b =
     (if \<not> is_sha256 (br_hash b) \<or> \<not> SAFE_RELEASE_ID (releaseId b)
      then Inl (invalid_evidence ''Diagnostic brief reference has invalid release-safe fields'') else Inr ())"

definition assertGateProtocol :: "string \<Rightarrow> string \<Rightarrow> unit result" where
  "assertGateProtocol expected observed =
     (if expected \<noteq> observed then Inl (DarkFactoryError PROTOCOL_MISMATCH ''Candidate gates used a different protocol hash'')
      else Inr ())"

text \<open>Costs, tokens and wall time of an aggregate.\<close>

definition valid_accounting :: "number \<Rightarrow> number \<Rightarrow> number \<Rightarrow> bool" where
  "valid_accounting cost used ms \<longleftrightarrow> is_finite cost \<and> \<not> num_less cost (Fin 0) \<and> is_safe_integer used \<and>
     \<not> num_less used (Fin 0) \<and> is_safe_integer ms \<and> \<not> num_less ms (Fin 0)"

definition assertRepairAggregate :: "repair_aggregate \<Rightarrow> int \<Rightarrow> unit result" where
  "assertRepairAggregate r leaseMaximum = guards
     [(\<not> safe_int (ra_attempts r) \<or> ra_attempts r < 1 \<or> leaseMaximum < ra_attempts r,
       invalid_evidence ''Repair attempt accounting is invalid''),
      (ra_disposition r = Repair_passed \<and> \<not> ra_integrityPassed r,
       invalid_evidence ''An integrity-failing repair cannot create a challenger''),
      ((ra_attemptOrdinal r \<noteq> 1 \<and> ra_attemptOrdinal r \<noteq> 2) \<or>
         \<not> valid_accounting (ra_aggregateCostUsd r) (ra_tokens r) (ra_wallTimeMs r) \<or> \<not> is_sha256 (ra_attestationHash r),
       invalid_evidence ''Repair aggregate contains invalid release-safe accounting'')]"

definition valid_online_accounting :: "online_error_accounting \<Rightarrow> validation_inputs \<Rightarrow> bool" where
  "valid_online_accounting e i \<longleftrightarrow>
     \<not> (oe_policyVersion e \<noteq> ''online-alpha-spending-v1'' \<or> \<not> safe_int (oe_gateOrdinal e) \<or> oe_gateOrdinal e < 1 \<or>
        \<not> is_finite (oe_maximumOnlineError e) \<or> num_le (oe_maximumOnlineError e) (Fin 0) \<or> num_less (Fin 1) (oe_maximumOnlineError e) \<or>
        \<not> is_finite (oe_alphaSpent e) \<or> num_le (oe_alphaSpent e) (Fin 0) \<or> num_less (Fin 1) (oe_alphaSpent e) \<or>
        \<not> is_finite (cumulativeSpentBefore e) \<or> \<not> is_finite (cumulativeSpentAfter e) \<or> \<not> is_finite (remainingAfter e) \<or>
        num_less (cumulativeSpentBefore e) (Fin 0) \<or> num_less (cumulativeSpentAfter e) (Fin 0) \<or> num_less (remainingAfter e) (Fin 0) \<or>
        \<not> num_eq (num_add (cumulativeSpentBefore e) (oe_alphaSpent e)) (cumulativeSpentAfter e) \<or>
        num_less (oe_maximumOnlineError e) (cumulativeSpentAfter e) \<or>
        num_less (num_of (1 / 10 ^ 12))
          (num_abs (num_sub (num_add (cumulativeSpentAfter e) (remainingAfter e)) (oe_maximumOnlineError e))) \<or>
        \<not> is_sha256 (reservationHash e) \<or> \<not> is_sha256 (oe_priorStateHash e) \<or> \<not> is_sha256 (oe_resultingStateHash e) \<or>
        oe_priorStateHash e = oe_resultingStateHash e \<or> \<not> onlineGateAuthorized i \<or>
        \<not> num_eq (requiredPosteriorProbability i) (num_max lit_095 (num_sub (Fin 1) (oe_alphaSpent e))))"

definition complete_accounting :: "terminal_accounting \<Rightarrow> validation_aggregate \<Rightarrow> bool" where
  "complete_accounting a v \<longleftrightarrow>
     ta_policyVersion a = POLICY_VERSION \<and> ta_terminalStatus a = Complete \<and> ta_presealedPairCount a = 12 \<and>
     ta_presealedArmCount a = 24 \<and> ta_validArmCount a = 24 \<and> ta_attemptedArmCount a = 24 \<and> ta_unresolvedArmCount a = 0 \<and>
     ta_totalAttemptCount a = validArms v + replacementAttempts v \<and> ta_replacementAttemptCount a = replacementAttempts v \<and>
     ta_infrastructureFailureCount a = replacementAttempts v \<and> ta_nonInfrastructureFailureCount a = 0 \<and>
     \<not> ta_containsPanelHandle a \<and> \<not> ta_containsTaskIdentifiers a \<and> \<not> ta_containsCellIdentifiers a \<and>
     \<not> ta_containsAttemptIdentifiers a \<and> \<not> ta_containsEvidenceIdentifiers a"

fun run_disposition_of :: "disposition \<Rightarrow> run_disposition" where
  "run_disposition_of Promote = Run_promoted"
| "run_disposition_of Reject = Run_rejected"
| "run_disposition_of Inconclusive_result = Run_inconclusive"

definition assertValidationAggregate :: "validation_aggregate \<Rightarrow> int \<Rightarrow> int \<Rightarrow> unit result" where
  "assertValidationAggregate v expectedArms maximum =
     and_then (guards
       [(\<not> safe_int (validPairs v) \<or> \<not> safe_int (validArms v) \<or> \<not> safe_int (replacementAttempts v) \<or> validPairs v \<noteq> 12 \<or>
         validArms v \<noteq> expectedArms \<or> expectedArms \<noteq> 24 \<or> replacementAttempts v < 0 \<or>
         maximum < validArms v + replacementAttempts v \<or> 4 < replacementAttempts v,
         invalid_evidence ''Validation did not provide exactly twelve bounded fresh matched pairs''),
        (\<not> valid_online_accounting (va_onlineErrorBudget v) (va_inputs v),
         invalid_evidence ''Validation online error accounting is detached or non-monotonic''),
        (\<not> complete_accounting (attemptAccounting v) v,
         invalid_evidence ''Validation aggregate does not bind a complete release-safe attempt ledger''),
        (\<not> valid_accounting (va_aggregateCostUsd v) (va_tokens v) (va_wallTimeMs v) \<or> \<not> is_sha256 (va_attestationHash v) \<or>
         (case releasedEvidenceHash v of None \<Rightarrow> False | Some x \<Rightarrow> \<not> is_sha256 x) \<or>
         (case behavioralSourceCommitmentHash v of None \<Rightarrow> False | Some x \<Rightarrow> \<not> is_sha256 x) \<or>
         (releasedEvidenceHash v \<noteq> None) \<noteq> (behavioralSourceCommitmentHash v \<noteq> None),
         invalid_evidence ''Validation aggregate accounting or hash bindings are invalid'')]) (\<lambda>_.
     and_then (reproduceFreshValidationDisposition (va_inputs v)) (\<lambda>reproduced.
     if va_disposition v \<noteq> run_disposition_of reproduced
     then Inl (invalid_evidence ''Validation disposition does not reproduce from the frozen promotion policy'') else Inr ()))"

subsection \<open>The stages of a run\<close>

definition open_experiment :: "'w runner_env \<Rightarrow> run_input \<Rightarrow> ('w, unit) runner" where
  "open_experiment env i =
     run_then (call (Call_create (ri_budget i)) (journal_create env (ri_experiment i) (ri_champion i) (ri_budget i))) (\<lambda>_.
     run_then (assign (\<lambda>st. st\<lparr>journalCreated := True\<rparr>)) (\<lambda>_.
     checkStop env i))"

abbreviation bootstrap :: "run_input \<Rightarrow> bool" where
  "bootstrap i \<equiv> ei_number (ri_experiment i) = 1"

definition obtain_proposal :: "'w runner_env \<Rightarrow> run_input \<Rightarrow> ('w, optimizer_proposal) runner" where
  "obtain_proposal env i =
     run_then (phase Phase_optimizer_proposal) (\<lambda>_.
     run_then (demand (\<not> (bootstrap i \<and> ri_brief i \<noteq> None)) ''Experiment 001 must not receive benchmark-derived evidence'') (\<lambda>_.
     run_then (check (case ri_brief i of None \<Rightarrow> Inr () | Some b \<Rightarrow> assertDiagnosticBriefReference b)) (\<lambda>_.
     run_then (call (Call_propose (ri_brief i) (bootstrap i)) (propose env (ri_experiment i) (ri_champion i) (ri_brief i) (bootstrap i))) (\<lambda>p.
     run_then (demand (fh_sourceBriefHash (op_hypothesis p) = map_option br_hash (ri_brief i) \<or> bootstrap i)
       ''Frozen hypothesis does not bind the released diagnostic brief'') (\<lambda>_.
     run_then (call (Call_freeze p) (freezeProposal env (ri_experiment i) p)) (\<lambda>_.
     run_then (checkStop env i) (\<lambda>_. returns p)))))))"

definition run_gates :: "'w runner_env \<Rightarrow> run_input \<Rightarrow> optimizer_proposal \<Rightarrow> ('w, gate_report) runner" where
  "run_gates env i p =
     run_then (phase Phase_cloud_correctness_gates) (\<lambda>_.
     run_then (call (Call_gates p) (gates_run env (ri_experiment i) p)) (\<lambda>g.
     run_then (check (assertGateProtocol (ei_protocolHash (ri_experiment i)) (gr_protocolHash g))) (\<lambda>_.
     run_then (charge (aggregate_delta (gr_aggregateCostUsd g) (gr_tokens g) (gr_wallTimeMs g) (Fin 0))) (\<lambda>_.
     run_then (call (Call_recordGates g) (recordGates env (ri_experiment i) g)) (\<lambda>_.
     run_then (save_budget env) (\<lambda>_. returns g))))))"

definition sealed_result :: "run_disposition \<Rightarrow> seal_receipt \<Rightarrow> diagnostic_brief option \<Rightarrow> ('w, run_result) runner" where
  "sealed_result d sealed brief = (\<lambda>st. returns \<lparr>rr_disposition = d, rr_champion = activeChampionAfter sealed,
     rr_budget = rn_budget st, rr_brief = brief, rr_sealHash = sr_sealHash sealed\<rparr> st)"

definition closeWithoutValidation ::
    "'w runner_env \<Rightarrow> run_input \<Rightarrow> run_disposition \<Rightarrow> optimizer_proposal \<Rightarrow> repair_aggregate option \<Rightarrow> ('w, run_result) runner" where
  "closeWithoutValidation env i d p repair =
     run_then (call (Call_analyze repair None) (analyze env (ri_experiment i) p repair None)) (\<lambda>analysis.
     run_then (call (Call_recordAnalysis analysis) (recordAnalysis env (ri_experiment i) analysis)) (\<lambda>_.
     run_then (call (Call_seal d None (ri_brief i)) (journal_seal env (ri_experiment i) d (ri_champion i) None (ri_brief i))) (\<lambda>sealed.
     sealed_result d sealed (ri_brief i))))"

definition repair_candidate :: "'w runner_env \<Rightarrow> run_input \<Rightarrow> optimizer_proposal \<Rightarrow> ('w, repair_aggregate) runner" where
  "repair_candidate env i p =
     run_then (phase Phase_repair) (\<lambda>_.
     run_then (check (case previousDiscovery i of
         None \<Rightarrow> Inl (invalid_evidence ''A normal iteration requires a prior discovery attestation'') | Some d \<Rightarrow> Inr d)) (\<lambda>discovery.
     run_then (call (Call_prepareRepair (fh_hash (op_hypothesis p)) (fc_commit (op_candidate p)) discovery (repairAttemptOrdinal i))
       (prepareRepair env (ri_experiment i) (fh_hash (op_hypothesis p)) (fc_commit (op_candidate p)) discovery (repairAttemptOrdinal i))) (\<lambda>lease.
     run_then (demand (safe_int (expectedValidArms lease) \<and> safe_int (pl_maximumAttempts lease) \<and> 5 \<le> expectedValidArms lease \<and>
         expectedValidArms lease \<le> pl_maximumAttempts lease \<and> pl_maximumAttempts lease \<le> 14)
       ''Repair lease exceeds its sealed bounds'') (\<lambda>_.
     run_then (call (Call_runRepair (leaseToken lease) (fc_commit (op_candidate p)) (activeCommit (ri_champion i)))
       (runRepair env (ri_experiment i) (leaseToken lease) (fc_commit (op_candidate p)) (activeCommit (ri_champion i)))) (\<lambda>r.
     run_then (check (assertRepairAggregate r (pl_maximumAttempts lease))) (\<lambda>_.
     run_then (charge (aggregate_delta (ra_aggregateCostUsd r) (ra_tokens r) (ra_wallTimeMs r) (num_of_int (ra_attempts r)))) (\<lambda>_.
     run_then (call (Call_recordRepair r) (journal_repair env (ri_experiment i) r)) (\<lambda>_.
     run_then (save_budget env) (\<lambda>_. returns r)))))))))"

definition repair_attempts :: "repair_aggregate option \<Rightarrow> int" where
  "repair_attempts repair = (case repair of None \<Rightarrow> 0 | Some r \<Rightarrow> ra_attempts r)"

definition lease_bounds :: "panel_lease \<Rightarrow> int \<Rightarrow> bool" where
  "lease_bounds lease used \<longleftrightarrow> safe_int (expectedValidArms lease) \<and> safe_int (pl_maximumAttempts lease) \<and>
     expectedValidArms lease = 24 \<and> pl_maximumAttempts lease = min 28 (38 - used) \<and> 24 \<le> pl_maximumAttempts lease \<and>
     is_sha256 (pl_attestationHash lease)"

definition hold_lease :: "panel_lease \<Rightarrow> bool \<Rightarrow> ('w, unit) runner" where
  "hold_lease lease started = assign (\<lambda>st. st\<lparr>validationLease := Some (leaseToken lease, pl_attestationHash lease, started)\<rparr>)"

text \<open>Whether the budget would still pay for the release of a brief; whether the reservation continues the budget.\<close>

definition look_ahead :: "('w, budget_check) runner" where
  "look_ahead = (\<lambda>st. check (checkBudget (rn_budget st) [(''privacyReleases'', Fin 1)]) st)"

definition demand_continuation :: "online_error_accounting \<Rightarrow> ('w, unit) runner" where
  "demand_continuation e = (\<lambda>st. demand (num_eq (oe_maximumOnlineError e) (maximumOnlineError (limits (rn_budget st))) \<and>
     num_eq (cumulativeSpentBefore e) (onlineErrorSpent (usage (rn_budget st))))
     ''Validation online error reservation does not continue the campaign budget'' st)"

text \<open>The validation: the lease is held from the moment the broker grants it.\<close>

definition validate_candidate ::
    "'w runner_env \<Rightarrow> run_input \<Rightarrow> optimizer_proposal \<Rightarrow> repair_aggregate option \<Rightarrow> ('w, panel_lease \<times> validation_aggregate \<times> bool) runner" where
  "validate_candidate env i p repair =
     run_then (phase Phase_fresh_validation) (\<lambda>_.
     run_then (charge [(''promotionLooks'', Fin 1)]) (\<lambda>_.
     run_then (save_budget env) (\<lambda>_.
     run_then look_ahead (\<lambda>spare.
     let authorized = allowed spare; used = repair_attempts repair;
       excluded = (case ri_brief i of None \<Rightarrow> [] | Some b \<Rightarrow> [br_hash b]) @ (case repair of None \<Rightarrow> [] | Some r \<Rightarrow> [ra_attestationHash r])
     in
     run_then (call (Call_prepareValidation (fh_hash (op_hypothesis p)) (fc_commit (op_candidate p)) excluded (38 - used) authorized)
       (prepareValidation env (ri_experiment i) (fh_hash (op_hypothesis p)) (fc_commit (op_candidate p)) excluded (38 - used) authorized)) (\<lambda>lease.
     run_then (hold_lease lease False) (\<lambda>_.
     run_then (demand (lease_bounds lease used) ''Fresh validation must preseal 24 valid arms and up to four replacements'') (\<lambda>_.
     run_then (hold_lease lease True) (\<lambda>_.
     run_then (call (Call_runValidation (leaseToken lease) (fc_commit (op_candidate p)) (activeCommit (ri_champion i)))
       (runValidation env (ri_experiment i) (leaseToken lease) (fc_commit (op_candidate p)) (activeCommit (ri_champion i)))) (\<lambda>v.
     run_then (check (assertValidationAggregate v (expectedValidArms lease) (pl_maximumAttempts lease))) (\<lambda>_.
     run_then (demand_continuation (va_onlineErrorBudget v)) (\<lambda>_.
     run_then (demand (used + validArms v + replacementAttempts v \<le> 38)
       ''Evaluation exceeded the sealed 38-attempt experiment ceiling'') (\<lambda>_.
     run_then (charge (aggregate_delta (va_aggregateCostUsd v) (va_tokens v) (va_wallTimeMs v)
       (num_of_int (validArms v + replacementAttempts v)))) (\<lambda>_.
     run_then (charge [(''onlineErrorSpent'', oe_alphaSpent (va_onlineErrorBudget v))]) (\<lambda>_.
     run_then (save_budget env) (\<lambda>_. returns (lease, v, authorized))))))))))))))))"

definition consume_validation ::
    "'w runner_env \<Rightarrow> run_input \<Rightarrow> panel_lease \<Rightarrow> validation_aggregate \<Rightarrow> ('w, unit) runner" where
  "consume_validation env i lease v =
     run_then (phase Phase_consume_validation) (\<lambda>_.
     run_then (call (Call_settle (leaseToken lease) (pl_attestationHash lease) Panel_decided)
       (consumeOrQuarantine env (leaseToken lease) (pl_attestationHash lease) Panel_decided)) (\<lambda>attestation.
     run_then (assign (\<lambda>st. st\<lparr>validationLease := None\<rparr>)) (\<lambda>_.
     run_then (demand (is_sha256 attestation) ''Validation consumption attestation hash is invalid'') (\<lambda>_.
     call (Call_recordValidation v attestation) (recordValidation env (ri_experiment i) v attestation)))))"

text \<open>A brief that crossed the privacy boundary is charged before it is checked.\<close>

definition release_brief ::
    "'w runner_env \<Rightarrow> run_input \<Rightarrow> validation_aggregate \<Rightarrow> bool \<Rightarrow> ('w, diagnostic_brief option) runner" where
  "release_brief env i v authorized =
     run_then (phase Phase_diagnostic_release) (\<lambda>_.
     run_then (if authorized then call (Call_release (va_attestationHash v)) (releaseDiagnosticBrief env (ri_experiment i) (va_attestationHash v))
       else returns None) (\<lambda>brief.
     run_then (case brief of None \<Rightarrow> returns ()
       | Some b \<Rightarrow> run_then (charge [(''privacyReleases'', Fin 1)]) (\<lambda>_. save_budget env)) (\<lambda>_.
     run_then (check (case brief of None \<Rightarrow> Inr () | Some b \<Rightarrow> assertDiagnosticBriefReference b)) (\<lambda>_.
     run_then (demand (releasedEvidenceHash v = map_option br_hash brief)
       ''Diagnostic release does not match the signed validation evidence hash'') (\<lambda>_. returns brief)))))"

definition seal_validated ::
    "'w runner_env \<Rightarrow> run_input \<Rightarrow> optimizer_proposal \<Rightarrow> run_disposition \<Rightarrow> diagnostic_brief option \<Rightarrow> ('w, run_result) runner" where
  "seal_validated env i p d brief =
     run_then (if d = Run_promoted
       then run_then (call Call_now (now_iso env)) (\<lambda>decided. returns (Some \<lparr>pc_experimentNumber = ei_number (ri_experiment i),
         pc_commit = fc_commit (op_candidate p), decidedAt = decided\<rparr>))
       else returns None) (\<lambda>promotion.
     run_then (call (Call_seal d promotion brief) (journal_seal env (ri_experiment i) d (ri_champion i) promotion brief)) (\<lambda>sealed.
     sealed_result d sealed brief))"

definition conclude ::
    "'w runner_env \<Rightarrow> run_input \<Rightarrow> optimizer_proposal \<Rightarrow> repair_aggregate option \<Rightarrow> panel_lease \<times> validation_aggregate \<times> bool \<Rightarrow>
     ('w, run_result) runner" where
  "conclude env i p repair = (\<lambda>(lease, v, authorized).
     run_then (consume_validation env i lease v) (\<lambda>_.
     run_then (phase Phase_optimizer_analysis) (\<lambda>_.
     run_then (call (Call_analyze repair (Some v)) (analyze env (ri_experiment i) p repair (Some v))) (\<lambda>analysis.
     run_then (call (Call_recordAnalysis analysis) (recordAnalysis env (ri_experiment i) analysis)) (\<lambda>_.
     run_then (release_brief env i v authorized) (\<lambda>brief.
     seal_validated env i p (va_disposition v) brief))))))"

definition validated_close ::
    "'w runner_env \<Rightarrow> run_input \<Rightarrow> optimizer_proposal \<Rightarrow> repair_aggregate option \<Rightarrow> ('w, run_result) runner" where
  "validated_close env i p repair =
     run_then (checkStop env i) (\<lambda>_. run_then (validate_candidate env i p repair) (conclude env i p repair))"

fun repair_verdict :: "repair_disposition \<Rightarrow> run_disposition" where
  "repair_verdict Repair_rejected = Run_rejected"
| "repair_verdict _ = Run_inconclusive"

text \<open>The body of the \<open>try\<close>.\<close>

definition run_body :: "'w runner_env \<Rightarrow> run_input \<Rightarrow> ('w, run_result) runner" where
  "run_body env i =
     run_then (open_experiment env i) (\<lambda>_.
     run_then (obtain_proposal env i) (\<lambda>p.
     run_then (run_gates env i p) (\<lambda>g.
     if \<not> gr_passed g \<or> \<not> gr_integrityPassed g then closeWithoutValidation env i Run_rejected p None
     else run_then (checkStop env i) (\<lambda>_.
       if bootstrap i then validated_close env i p None
       else run_then (repair_candidate env i p) (\<lambda>r.
         if ra_disposition r \<noteq> Repair_passed then closeWithoutValidation env i (repair_verdict (ra_disposition r)) p (Some r)
         else validated_close env i p (Some r))))))"

definition runner_start :: "run_input \<Rightarrow> 'w \<Rightarrow> 'w runner_state" where
  "runner_start i w = \<lparr>rn_phase = Phase_create, rn_budget = ri_budget i, journalCreated = False, validationLease = None,
     rn_calls = [], rn_world = w\<rparr>"

text \<open>The \<open>catch\<close>: an open lease is settled, then the journal is interrupted; what these throw replaces the error.\<close>

definition settle_lease :: "'w runner_env \<Rightarrow> ('w, unit) runner" where
  "settle_lease env = (\<lambda>st. case validationLease st of
     None \<Rightarrow> returns () st
   | Some (token, attestation, started) \<Rightarrow>
       run_then (call (Call_settle token attestation (if started then Panel_started_abandoned else Panel_sealed_unstarted))
         (consumeOrQuarantine env token attestation (if started then Panel_started_abandoned else Panel_sealed_unstarted)))
         (\<lambda>_. returns ()) st)"

definition interrupt_journal :: "'w runner_env \<Rightarrow> run_input \<Rightarrow> error \<Rightarrow> ('w, unit) runner" where
  "interrupt_journal env i cause = (\<lambda>st. if journalCreated st
     then call (Call_interrupt (rn_phase st) (error_message cause))
       (journal_interrupt env (ri_experiment i) (rn_phase st) (error_message cause)) st
     else returns () st)"

definition run_one :: "'w runner_env \<Rightarrow> run_input \<Rightarrow> 'w \<Rightarrow> run_result result \<times> 'w runner_state" where
  "run_one env i w = (case run_body env i (runner_start i w) of
     (Inr result, st) \<Rightarrow> (Inr result, st)
   | (Inl cause, st) \<Rightarrow> run_then (settle_lease env) (\<lambda>_. run_then (interrupt_journal env i cause) (\<lambda>_. check (Inl cause))) st)"

end
