(* ===== verification/Runner_Properties.thy ===== *)
theory Runner_Properties
  imports Experiment_Runner Autonomous_Properties Online_Budget "HOL-Library.Sublist"
begin

text \<open>
  What a run of one experiment promises: which steps a promotion has behind it, that a lease is always
  settled, how the budget moves on every path, and that the results meet what the autonomous loop demands.
  Statements about all paths are weakest preconditions: \<open>wp m Q E\<close> holds of the states from which
  \<open>m\<close> ends in \<open>Q\<close> or throws in \<open>E\<close>, whatever the ports answer.
\<close>

subsection \<open>Weakest preconditions\<close>

definition wp :: "('s \<Rightarrow> 'a result \<times> 's) \<Rightarrow> ('a \<Rightarrow> 's \<Rightarrow> bool) \<Rightarrow> ('s \<Rightarrow> bool) \<Rightarrow> 's \<Rightarrow> bool" where
  "wp m Q E st = (case m st of (Inr a, t) \<Rightarrow> Q a t | (Inl x, t) \<Rightarrow> E t)"

named_theorems wp_rules

lemma wp_then [wp_rules]: "wp m (\<lambda>a. wp (f a) Q E) E st \<Longrightarrow> wp (run_then m f) Q E st"
  by (auto simp: wp_def run_then_def then_do_def split: prod.splits sum.splits)

lemma wp_returns [wp_rules]: "Q a st \<Longrightarrow> wp (returns a) Q E st"
  by (simp add: wp_def returns_def)

lemma wp_check [wp_rules]: "(\<And>a. r = Inr a \<Longrightarrow> Q a st) \<Longrightarrow> E st \<Longrightarrow> wp (check r) Q E st"
  by (auto simp: wp_def check_def split: sum.splits)

lemma wp_assign [wp_rules]: "Q () (f st) \<Longrightarrow> wp (assign f) Q E st"
  by (simp add: wp_def assign_def)

lemma wp_call [wp_rules]:
  assumes "\<And>a w. Q a (st\<lparr>rn_calls := rn_calls st @ [c (Inr a)], rn_world := w\<rparr>)" "\<And>x w. E (st\<lparr>rn_calls := rn_calls st @ [c (Inl x)], rn_world := w\<rparr>)"
  shows "wp (call c p) Q E st"
  using assms by (auto simp: wp_def call_def split: prod.splits sum.splits)

lemma wp_demand [wp_rules]: "(b \<Longrightarrow> Q () st) \<Longrightarrow> (\<not> b \<Longrightarrow> E st) \<Longrightarrow> wp (demand b m) Q E st"
  by (auto simp: wp_def check_def demand_def)

lemma wp_charge [wp_rules]:
  "(\<And>b. spendBudget (rn_budget st) d = Inr b \<Longrightarrow> Q () (st\<lparr>rn_budget := b\<rparr>)) \<Longrightarrow> E st \<Longrightarrow> wp (charge d) Q E st"
  by (auto simp: wp_def charge_def split: sum.splits)

lemma wp_save_budget [wp_rules]:
  assumes "\<And>r w. Q () (st\<lparr>rn_calls := rn_calls st @ [Call_updateBudget (rn_budget st) r], rn_world := w\<rparr>)"
    "\<And>r w. E (st\<lparr>rn_calls := rn_calls st @ [Call_updateBudget (rn_budget st) r], rn_world := w\<rparr>)"
  shows "wp (save_budget env) Q E st"
  using assms by (auto simp: wp_def save_budget_def call_def split: prod.splits sum.splits)

lemma wp_checkStop [wp_rules]: "Q () st \<Longrightarrow> E st \<Longrightarrow> wp (checkStop env i) Q E st"
  by (simp add: wp_def checkStop_def)

lemma wp_hold [wp_rules]:
  "Q () (st\<lparr>validationLease := Some (leaseToken lease, pl_attestationHash lease, started)\<rparr>) \<Longrightarrow> wp (hold_lease lease started) Q E st"
  by (simp add: wp_def hold_lease_def assign_def)

lemma wp_if [wp_rules]: "(b \<Longrightarrow> wp m Q E st) \<Longrightarrow> (\<not> b \<Longrightarrow> wp n Q E st) \<Longrightarrow> wp (if b then m else n) Q E st"
  by simp

lemma wp_option [wp_rules]:
  "(x = None \<Longrightarrow> wp m Q E st) \<Longrightarrow> (\<And>y. x = Some y \<Longrightarrow> wp (n y) Q E st) \<Longrightarrow> wp (case x of None \<Rightarrow> m | Some y \<Rightarrow> n y) Q E st"
  by (cases x) auto

lemma wp_look_ahead [wp_rules]:
  "(\<And>c. checkBudget (rn_budget st) [(''privacyReleases'', Fin 1)] = Inr c \<Longrightarrow> Q c st) \<Longrightarrow> E st \<Longrightarrow> wp look_ahead Q E st"
  by (auto simp: wp_def look_ahead_def check_def split: sum.splits)

lemma wp_continuation [wp_rules]:
  "(num_eq (oe_maximumOnlineError e) (maximumOnlineError (limits (rn_budget st))) \<and>
    num_eq (cumulativeSpentBefore e) (onlineErrorSpent (usage (rn_budget st))) \<Longrightarrow> Q () st) \<Longrightarrow> E st \<Longrightarrow> wp (demand_continuation e) Q E st"
  by (auto simp: wp_def demand_continuation_def demand_def check_def)

lemma wp_sealed_result [wp_rules]:
  "Q \<lparr>rr_disposition = d, rr_champion = activeChampionAfter sealed, rr_budget = rn_budget st, rr_brief = brief,
     rr_sealHash = sr_sealHash sealed\<rparr> st \<Longrightarrow> wp (sealed_result d sealed brief) Q E st"
  by (simp add: wp_def sealed_result_def returns_def)

lemma wp_weaken:
  "wp m Q' E' st \<Longrightarrow> (\<And>a t. Q' a t \<Longrightarrow> Q a t) \<Longrightarrow> (\<And>t. E' t \<Longrightarrow> E t) \<Longrightarrow> wp m Q E st"
  by (auto simp: wp_def split: prod.splits sum.splits)

lemma wpD: "wp m Q E st \<Longrightarrow> m st = (Inr a, t) \<Longrightarrow> Q a t" "wp m Q E st \<Longrightarrow> m st = (Inl x, t) \<Longrightarrow> E t"
  by (auto simp: wp_def)

subsection \<open>Leases and the journal\<close>

text \<open>The calls that concern a granted validation panel, and what they must be, by the lease and the attempts \<open>n\<close> it was asked for.\<close>

fun lease_call :: "run_call \<Rightarrow> bool" where
  "lease_call (Call_prepareValidation _ _ _ _ _ (Inr _)) = True"
| "lease_call (Call_runValidation _ _ _ _) = True"
| "lease_call (Call_settle _ _ _ _) = True"
| "lease_call _ = False"

definition lease_course :: "int \<Rightarrow> panel_lease \<Rightarrow> run_call list \<Rightarrow> bool" where
  "lease_course n lease cs \<longleftrightarrow>
     (let settle = Call_settle (leaseToken lease) (pl_attestationHash lease); run = Call_runValidation (leaseToken lease) in
     if \<not> lease_bounds lease (38 - n) then \<exists>a. cs = [settle Panel_sealed_unstarted a]
     else (\<exists>candidate champion x a. cs = [run candidate champion x, settle Panel_started_abandoned a]) \<or>
       (\<exists>candidate champion v x a. cs = [run candidate champion (Inr v), settle Panel_decided (Inl x), settle Panel_started_abandoned a]) \<or>
       (\<exists>candidate champion v a. cs = [run candidate champion (Inr v), settle Panel_decided (Inr a)]))"

definition leases_closed :: "run_call list \<Rightarrow> bool" where
  "leases_closed cs \<longleftrightarrow> (case filter lease_call cs of [] \<Rightarrow> True
     | c # rest \<Rightarrow> (case c of Call_prepareValidation _ _ _ n _ (Inr lease) \<Rightarrow> lease_course n lease rest | _ \<Rightarrow> False))"

fun is_interrupt :: "run_call \<Rightarrow> bool" where
  "is_interrupt (Call_interrupt _ _ _) = True"
| "is_interrupt _ = False"

text \<open>
  The journal is open and not interrupted; \<open>lease_stage\<close> adds the lease held and the calls about it. A state \<open>may_end\<close> in
  an error when the settlement of the lease it holds, whatever the broker answers, closes the calls about it.
\<close>

definition journal_open :: "'w runner_state \<Rightarrow> bool" where
  "journal_open st \<longleftrightarrow> journalCreated st \<and> list_all (Not \<circ> is_interrupt) (rn_calls st)"

definition lease_stage :: "(string \<times> string \<times> bool) option \<Rightarrow> run_call list \<Rightarrow> 'w runner_state \<Rightarrow> bool" where
  "lease_stage held cs st \<longleftrightarrow> journal_open st \<and> validationLease st = held \<and> filter lease_call (rn_calls st) = cs"

definition may_end :: "'w runner_state \<Rightarrow> bool" where
  "may_end st \<longleftrightarrow> journal_open st \<and>
     (case validationLease st of None \<Rightarrow> leases_closed (rn_calls st)
      | Some (token, attestation, started) \<Rightarrow> \<forall>a. leases_closed (rn_calls st @
          [Call_settle token attestation (if started then Panel_started_abandoned else Panel_sealed_unstarted) a]))"

abbreviation no_lease :: "'w runner_state \<Rightarrow> bool" where
  "no_lease \<equiv> lease_stage None []"

definition run_granted :: "int \<Rightarrow> panel_lease \<Rightarrow> run_call list \<Rightarrow> bool" where
  "run_granted n lease cs \<longleftrightarrow> lease_bounds lease (38 - n) \<and> (\<exists>h c xs auth candidate champion v.
     cs = [Call_prepareValidation h c xs n auth (Inr lease), Call_runValidation (leaseToken lease) candidate champion (Inr v)])"

definition lease_decided :: "run_call list \<Rightarrow> bool" where
  "lease_decided cs \<longleftrightarrow> (\<exists>n lease ds a. run_granted n lease ds \<and>
     cs = ds @ [Call_settle (leaseToken lease) (pl_attestationHash lease) Panel_decided (Inr a)])"

definition running :: "panel_lease \<Rightarrow> 'w runner_state \<Rightarrow> bool" where
  "running lease st \<longleftrightarrow> journal_open st \<and> validationLease st = Some (leaseToken lease, pl_attestationHash lease, True) \<and>
     (\<exists>n. run_granted n lease (filter lease_call (rn_calls st)))"

definition lease_settled :: "'w runner_state \<Rightarrow> bool" where
  "lease_settled st \<longleftrightarrow> journal_open st \<and> validationLease st = None \<and> lease_decided (filter lease_call (rn_calls st))"

lemmas lease_simps = lease_stage_def journal_open_def running_def lease_settled_def

lemma stage_ends:
  "no_lease st \<Longrightarrow> may_end st"
  "running lease st \<Longrightarrow> may_end st"
  "lease_settled st \<Longrightarrow> may_end st"
  by (auto simp: lease_simps may_end_def leases_closed_def run_granted_def lease_decided_def lease_course_def Let_def)

text \<open>What closes a lease: a grant that fails the bounds, a validation that throws, a consumption that throws.\<close>

lemma refused_ends:
  "lease_stage (Some (leaseToken lease, pl_attestationHash lease, False)) [Call_prepareValidation h c xs n auth (Inr lease)] st \<Longrightarrow>
     \<not> lease_bounds lease (38 - n) \<Longrightarrow> may_end st"
  "lease_stage (Some (leaseToken lease, pl_attestationHash lease, True))
     [Call_prepareValidation h c xs n auth (Inr lease), Call_runValidation (leaseToken lease) candidate champion x] st \<Longrightarrow>
     lease_bounds lease (38 - n) \<Longrightarrow> may_end st"
  by (auto simp: lease_simps may_end_def leases_closed_def lease_course_def Let_def)

lemma consumption_ends:
  "running lease st \<Longrightarrow> may_end (st\<lparr>rn_calls := rn_calls st @ [Call_settle (leaseToken lease) (pl_attestationHash lease) Panel_decided (Inl x)], rn_world := w\<rparr>)"
  by (auto simp: lease_simps may_end_def leases_closed_def run_granted_def lease_course_def Let_def)

lemma consumption_settles:
  "running lease st \<Longrightarrow> lease_settled (st\<lparr>rn_calls := rn_calls st @ [Call_settle (leaseToken lease) (pl_attestationHash lease) Panel_decided (Inr a)], rn_world := w\<rparr>\<lparr>validationLease := None\<rparr>)"
  by (auto simp: lease_simps lease_decided_def)

lemma obtain_proposal_leases: "no_lease st \<Longrightarrow> wp (obtain_proposal env i) (\<lambda>_. no_lease) may_end st"
  unfolding obtain_proposal_def by (intro wp_rules; (rule stage_ends(1))?; simp add: lease_simps)

lemma run_gates_leases: "no_lease st \<Longrightarrow> wp (run_gates env i p) (\<lambda>_. no_lease) may_end st"
  unfolding run_gates_def by (intro wp_rules; (rule stage_ends(1))?; simp add: lease_simps)

lemma repair_candidate_leases: "no_lease st \<Longrightarrow> wp (repair_candidate env i p) (\<lambda>_. no_lease) may_end st"
  unfolding repair_candidate_def by (intro wp_rules; (rule stage_ends(1))?; simp add: lease_simps)

lemma validate_candidate_leases:
  "no_lease st \<Longrightarrow> wp (validate_candidate env i p repair) (\<lambda>(lease, _). running lease) may_end st"
  unfolding validate_candidate_def Let_def
  by ((intro wp_rules; (unfold prod.case)?),
      ((rule stage_ends(1), (simp add: lease_simps; fail)) | (rule refused_ends, (simp add: lease_simps; fail), (simp add: lease_simps; fail)) |
       (simp add: lease_simps run_granted_def; fail))+)

text \<open>A sealed run: the last call is the seal of the disposition and the brief it returns, with the answer it returns.\<close>

definition sealed :: "run_result \<Rightarrow> 'w runner_state \<Rightarrow> bool" where
  "sealed result st \<longleftrightarrow> (\<exists>cs c seal. rn_calls st = cs @ [Call_seal (rr_disposition result) c (rr_brief result) (Inr seal)] \<and>
     rr_champion result = activeChampionAfter seal \<and> rr_sealHash result = sr_sealHash seal)"

lemma close_leases:
  "no_lease st \<Longrightarrow> wp (closeWithoutValidation env i d p repair) (\<lambda>r st. no_lease st \<and> sealed r st) may_end st"
  unfolding closeWithoutValidation_def
  by (intro wp_rules; (rule stage_ends(1))?; simp add: lease_simps sealed_def)

lemma consume_leases:
  "running lease st \<Longrightarrow> wp (consume_validation env i lease v) (\<lambda>_. lease_settled) may_end st"
  unfolding consume_validation_def
  by (intro wp_rules; (rule consumption_ends | rule stage_ends(3) | simp; fail)?; auto simp: lease_simps lease_decided_def)

lemma release_leases:
  "lease_settled st \<Longrightarrow> wp (release_brief env i v authorized) (\<lambda>_. lease_settled) may_end st"
  unfolding release_brief_def by (intro wp_rules; (rule stage_ends(3))?; simp add: lease_simps)

lemma seal_leases:
  "lease_settled st \<Longrightarrow> wp (seal_validated env i p d brief) (\<lambda>r st. lease_settled st \<and> sealed r st) may_end st"
  unfolding seal_validated_def
  by (intro wp_rules; (rule stage_ends(3))?; simp add: lease_simps sealed_def)

lemma conclude_leases:
  assumes "running lease st"
  shows "wp (conclude env i p repair (lease, v, authorized)) (\<lambda>r st. lease_settled st \<and> sealed r st) may_end st"
  unfolding conclude_def prod.case
  by (intro wp_rules wp_weaken [OF consume_leases [OF assms]] wp_weaken [OF release_leases] wp_weaken [OF seal_leases];
      (assumption | (simp add: lease_simps; fail) | (rule stage_ends(3), simp add: lease_simps)))

lemma validated_close_leases:
  assumes "no_lease st"
  shows "wp (validated_close env i p repair) (\<lambda>r st. lease_settled st \<and> sealed r st) may_end st"
proof -
  have "wp (conclude env i p repair x) (\<lambda>r st. lease_settled st \<and> sealed r st) may_end t"
    if "(\<lambda>(lease, _). running lease) x t" for x t
    using that conclude_leases by (cases x) auto
  then show ?thesis unfolding validated_close_def
    by (intro wp_rules wp_weaken [OF validate_candidate_leases [OF assms]]) (use assms stage_ends(1) in auto)
qed

text \<open>Before the journal is opened nothing has happened but the attempt to open it.\<close>

definition unopened :: "run_input \<Rightarrow> 'w runner_state \<Rightarrow> bool" where
  "unopened i st \<longleftrightarrow> validationLease st = None \<and> (\<exists>x. rn_calls st = [Call_create (ri_budget i) (Inl x)]) \<and> \<not> journalCreated st"

lemma open_leases: "wp (open_experiment env i) (\<lambda>_. no_lease) (\<lambda>st. may_end st \<or> unopened i st) (runner_start i w)"
  unfolding open_experiment_def
  by (intro wp_rules) (auto simp: lease_simps may_end_def leases_closed_def unopened_def runner_start_def)

definition after_open :: "'w runner_env \<Rightarrow> run_input \<Rightarrow> ('w, run_result) runner" where
  "after_open env i = run_then (obtain_proposal env i) (\<lambda>p. run_then (run_gates env i p) (\<lambda>g.
     if \<not> gr_passed g \<or> \<not> gr_integrityPassed g then closeWithoutValidation env i Run_rejected p None
     else run_then (checkStop env i) (\<lambda>_. if bootstrap i then validated_close env i p None
       else run_then (repair_candidate env i p) (\<lambda>r.
         if ra_disposition r \<noteq> Repair_passed then closeWithoutValidation env i (repair_verdict (ra_disposition r)) p (Some r)
         else validated_close env i p (Some r)))))"

lemma run_body_open: "run_body env i = run_then (open_experiment env i) (\<lambda>_. after_open env i)"
  by (simp add: run_body_def after_open_def)

lemma after_open_leases:
  "no_lease st \<Longrightarrow> wp (after_open env i) (\<lambda>r st. (no_lease st \<or> lease_settled st) \<and> sealed r st) may_end st"
  unfolding after_open_def
  by (intro wp_rules wp_weaken [OF obtain_proposal_leases] wp_weaken [OF run_gates_leases]
      wp_weaken [OF repair_candidate_leases] wp_weaken [OF close_leases] wp_weaken [OF validated_close_leases];
      blast intro: stage_ends(1))

lemma run_body_leases:
  "wp (run_body env i) (\<lambda>r st. (no_lease st \<or> lease_settled st) \<and> sealed r st) (\<lambda>st. may_end st \<or> unopened i st) (runner_start i w)"
  unfolding run_body_open
  by (intro wp_then wp_weaken [OF open_leases] wp_weaken [OF after_open_leases]) blast+

lemma unopened_cause:
  assumes body: "run_body env i (runner_start i w) = (Inl cause, t)" and t: "unopened i t"
  shows "rn_calls t = [Call_create (ri_budget i) (Inl cause)]"
proof (cases "open_experiment env i (runner_start i w)")
  case (Pair out u)
  then show ?thesis
  proof (cases out)
    case (Inl x)
    then have "x = cause \<and> u = t" using body Pair by (auto simp: run_body_open run_then_def then_do_def)
    then have opened: "open_experiment env i (runner_start i w) = (Inl cause, t)" using Pair Inl by simp
    obtain answer w' where answer: "journal_create env (ri_experiment i) (ri_champion i) (ri_budget i) w = (answer, w')" by fastforce
    show ?thesis
    proof (cases answer)
      case (Inl y)
      then show ?thesis using opened answer
        by (auto simp: open_experiment_def run_then_def then_do_def call_def runner_start_def)
    next
      case (Inr v)
      then have "journalCreated t" using opened answer
        by (auto simp: open_experiment_def run_then_def then_do_def call_def assign_def checkStop_def runner_start_def split: if_splits)
      then show ?thesis using t by (simp add: unopened_def)
    qed
  next
    case (Inr v)
    then have "no_lease u" "after_open env i u = (Inl cause, t)"
      using wpD(1) [OF open_leases Pair [unfolded Inr]] body Pair by (simp_all add: run_body_open run_then_def then_do_def)
    then have "may_end t" using wpD(2) [OF after_open_leases] by blast
    then show ?thesis using t by (simp add: may_end_def journal_open_def unopened_def)
  qed
qed

text \<open>The settlement of the lease of a failed run, and the interruption of its journal.\<close>

lemma settle_closes:
  assumes "may_end st" "settle_lease env st = (out, t)"
  shows "leases_closed (rn_calls t)" "journal_open t"
    "out = Inr () \<or> (\<exists>x token attestation o'. out = Inl x \<and> o' \<noteq> Panel_decided \<and>
       rn_calls t = rn_calls st @ [Call_settle token attestation o' (Inl x)])"
  using assms unfolding settle_lease_def run_then_def then_do_def returns_def call_def may_end_def journal_open_def
  by (auto split: option.splits prod.splits sum.splits if_splits)

lemma interrupt_closes:
  assumes "journal_open st" "run_then (interrupt_journal env i cause) (\<lambda>_. check (Inl cause)) st = (r, t)"
  shows "\<exists>p a x. rn_calls t = rn_calls st @ [Call_interrupt p (error_message cause) a] \<and> r = Inl x \<and>
    (case a of Inl y \<Rightarrow> x = y | Inr _ \<Rightarrow> x = cause)"
  using assms unfolding interrupt_journal_def run_then_def then_do_def check_def call_def journal_open_def
  by (auto split: prod.splits sum.splits)

lemma closed_interrupt: "leases_closed cs \<Longrightarrow> leases_closed (cs @ [Call_interrupt p m a])"
  by (simp add: leases_closed_def)

text \<open>
  C3. Every run is closed, whatever its ports answer. The calls about a validation panel the broker granted are
  exactly these: a lease out of its bounds is settled as unstarted and never run; a lease within them is
  run, and settled as abandoned if the validation or anything up to the consumption of its panel throws, also after a consumption that
  threw, and as decided otherwise, once. A run that returns sealed the journal last, with the disposition, the brief and the answer it
  returns, was not interrupted, and decided the panel if one was granted. A run that throws ended with the
  failed opening of the journal, with a failed settlement, or with the interruption of the journal for its error, and throws what failed last.
\<close>

theorem runs_are_closed:
  assumes "run_one env i w = (r, st)"
  shows "leases_closed (rn_calls st) \<and>
    (case r of
       Inr result \<Rightarrow> sealed result st \<and> list_all (Not \<circ> is_interrupt) (rn_calls st) \<and>
         (filter lease_call (rn_calls st) = [] \<or> lease_decided (filter lease_call (rn_calls st)))
     | Inl x \<Rightarrow> rn_calls st = [Call_create (ri_budget i) (Inl x)] \<or>
         (\<exists>cs token attestation out. rn_calls st = cs @ [Call_settle token attestation out (Inl x)] \<and> out \<noteq> Panel_decided) \<or>
         (\<exists>cs p m a. rn_calls st = cs @ [Call_interrupt p m a] \<and> (case a of Inl y \<Rightarrow> x = y | Inr _ \<Rightarrow> m = error_message x)))"
proof (cases "run_body env i (runner_start i w)")
  case (Pair out t)
  show ?thesis
  proof (cases out)
    case (Inr result)
    then have "(no_lease t \<or> lease_settled t) \<and> sealed result t" "r = Inr result" "st = t"
      using wpD(1) [OF run_body_leases Pair [unfolded Inr]] assms Pair by (simp_all add: run_one_def)
    moreover from this(1) have "may_end t" using stage_ends by blast
    ultimately show ?thesis by (auto simp: may_end_def lease_simps)
  next
    case (Inl cause)
    obtain settled u where settle: "settle_lease env t = (settled, u)" by fastforce
    have st: "(r, st) = then_do (settled, u) (\<lambda>_. run_then (interrupt_journal env i cause) (\<lambda>_. check (Inl cause)))"
      using assms Pair Inl settle by (simp add: run_one_def run_then_def)
    have "may_end t \<or> unopened i t" using wpD(2) [OF run_body_leases Pair [unfolded Inl]] .
    then show ?thesis
    proof
      assume ends: "may_end t"
      note s = settle_closes [OF ends settle]
      show ?thesis
      proof (cases settled)
        case (Inl x)
        then show ?thesis using st s by (auto simp: then_do_def)
      next
        case (Inr v)
        then have "run_then (interrupt_journal env i cause) (\<lambda>_. check (Inl cause)) u = (r, st)"
          using st by (simp add: then_do_def)
        then obtain p a x where last: "rn_calls st = rn_calls u @ [Call_interrupt p (error_message cause) a]" "r = Inl x"
          "case a of Inl y \<Rightarrow> x = y | Inr _ \<Rightarrow> x = cause"
          using interrupt_closes [OF s(2)] by blast
        then have "case a of Inl y \<Rightarrow> x = y | Inr _ \<Rightarrow> error_message cause = error_message x" by (cases a) auto
        then show ?thesis using closed_interrupt [OF s(1)] unfolding last(1,2) sum.case by blast
      qed
    next
      assume "unopened i t"
      then have "rn_calls t = [Call_create (ri_budget i) (Inl cause)]" "validationLease t = None" "\<not> journalCreated t"
        using unopened_cause [OF Pair [unfolded Inl]] by (auto simp: unopened_def)
      moreover from this have "st = t \<and> r = Inl cause" using st settle
        by (auto simp: settle_lease_def returns_def then_do_def run_then_def interrupt_journal_def check_def)
      ultimately show ?thesis by (simp add: leases_closed_def)
    qed
  qed
qed

subsection \<open>The budget on every path\<close>

text \<open>
  What a call costs: the deltas the run owes for its answer, the looks and the evaluation attempts among them; a look is
  owed before the broker is asked for the panel. \<open>bookkeeping\<close> are the calls made between an answer and the
  saving of what it costs, and those after a failure.
\<close>

fun charges :: "run_call \<Rightarrow> budget_delta list" where
  "charges (Call_gates _ (Inr g)) = [aggregate_delta (gr_aggregateCostUsd g) (gr_tokens g) (gr_wallTimeMs g) (Fin 0)]"
| "charges (Call_runRepair _ _ _ (Inr r)) =
     [aggregate_delta (ra_aggregateCostUsd r) (ra_tokens r) (ra_wallTimeMs r) (num_of_int (ra_attempts r))]"
| "charges (Call_prepareValidation _ _ _ _ _ _) = [[(''promotionLooks'', Fin 1)]]"
| "charges (Call_runValidation _ _ _ (Inr v)) =
     [aggregate_delta (va_aggregateCostUsd v) (va_tokens v) (va_wallTimeMs v) (num_of_int (validArms v + replacementAttempts v)),
      [(''onlineErrorSpent'', oe_alphaSpent (va_onlineErrorBudget v))]]"
| "charges (Call_release _ (Inr (Some _))) = [[(''privacyReleases'', Fin 1)]]"
| "charges _ = []"

fun advance :: "run_call \<Rightarrow> budget_delta list" where
  "advance (Call_prepareValidation _ _ _ _ _ _) = [[(''promotionLooks'', Fin 1)]]"
| "advance _ = []"

fun looks :: "run_call \<Rightarrow> int" where
  "looks (Call_prepareValidation _ _ _ _ _ _) = 1"
| "looks _ = 0"

fun tries :: "run_call \<Rightarrow> int" where
  "tries (Call_runRepair _ _ _ (Inr r)) = ra_attempts r"
| "tries (Call_runValidation _ _ _ (Inr v)) = validArms v + replacementAttempts v"
| "tries _ = 0"

fun bookkeeping :: "run_call \<Rightarrow> bool" where
  "bookkeeping (Call_recordGates _ _) = True"
| "bookkeeping (Call_recordRepair _ _) = True"
| "bookkeeping (Call_updateBudget _ _) = True"
| "bookkeeping (Call_settle _ _ out _) = (out \<noteq> Panel_decided)"
| "bookkeeping (Call_interrupt _ _ _) = True"
| "bookkeeping _ = False"

abbreviation bill :: "run_call list \<Rightarrow> budget_delta list" where
  "bill cs \<equiv> concat (map charges cs)"

fun saved_budget :: "run_call \<Rightarrow> budget_snapshot option" where
  "saved_budget (Call_updateBudget b _) = Some b"
| "saved_budget _ = None"

abbreviation saved_budgets :: "run_call list \<Rightarrow> budget_snapshot list" where
  "saved_budgets cs \<equiv> List.map_filter saved_budget cs"

text \<open>The budget the journal has before a call, after the calls before it, accounts for all of these.\<close>

definition paid_up :: "budget_snapshot \<Rightarrow> run_call list \<Rightarrow> run_call \<Rightarrow> bool" where
  "paid_up b before c \<longleftrightarrow> bookkeeping c \<or> fold_result spendBudget b (bill before @ advance c) = Inr (last (b # saved_budgets before))"

definition always_paid :: "budget_snapshot \<Rightarrow> run_call list \<Rightarrow> bool" where
  "always_paid b cs \<longleftrightarrow> (\<forall>before c after. cs = before @ c # after \<longrightarrow> paid_up b before c)"

lemma always_paid_snoc: "always_paid b (cs @ [c]) \<longleftrightarrow> always_paid b cs \<and> paid_up b cs c"
proof
  assume paid: "always_paid b (cs @ [c])"
  have "paid_up b before d" if "cs = before @ d # after" for before d after
    using paid that unfolding always_paid_def by (metis append.assoc append_Cons)
  then show "always_paid b cs \<and> paid_up b cs c" using paid unfolding always_paid_def by auto
next
  assume paid: "always_paid b cs \<and> paid_up b cs c"
  have "paid_up b before d" if split: "cs @ [c] = before @ d # after" for before d after
  proof (cases after rule: rev_cases)
    case Nil
    then show ?thesis using split paid by simp
  next
    case (snoc ys y)
    then have "cs = before @ d # ys" using split by (metis append.assoc append_Cons butlast_snoc)
    then show ?thesis using paid unfolding always_paid_def by blast
  qed
  then show "always_paid b (cs @ [c])" unfolding always_paid_def by blast
qed

fun paid_from :: "budget_snapshot \<Rightarrow> run_call list \<Rightarrow> run_call list \<Rightarrow> bool" where
  "paid_from b before [] \<longleftrightarrow> True"
| "paid_from b before (c # cs) \<longleftrightarrow> paid_up b before c \<and> paid_from b (before @ [c]) cs"

lemma always_paid_append [simp]: "always_paid b (cs @ ds) \<longleftrightarrow> always_paid b cs \<and> paid_from b cs ds"
proof (induction ds arbitrary: cs)
  case (Cons d ds)
  have "always_paid b (cs @ d # ds) \<longleftrightarrow> always_paid b ((cs @ [d]) @ ds)" by simp
  then show ?case unfolding Cons.IH always_paid_snoc by simp
qed simp

lemma always_paid_Nil [simp]: "always_paid b []"
  by (simp add: always_paid_def)

lemma counted_spend:
  assumes "dim_ok True u l" "amount_ok True d" "\<not> num_less l (num_add u d)" "u = num_of_int m" "d = num_of_int n"
  shows "num_add u d = num_of_int (m + n)"
proof -
  obtain k where k: "l = num_of_int k" using assms(1) by (auto simp: dim_ok_def elim!: is_safe_integerE)
  show ?thesis using dim_spend_exact [of m k n] assms unfolding k by (metis linorder_not_less)
qed

lemma spend_exact:
  assumes "budget_inv s" "spendBudget s d = Inr t"
  shows "promotionLooks (usage s) = num_of_int m \<Longrightarrow> delta_value d ''promotionLooks'' = num_of_int n \<Longrightarrow> promotionLooks (usage t) = num_of_int (m + n)"
    and "attempts (usage s) = num_of_int m \<Longrightarrow> delta_value d ''attempts'' = num_of_int n \<Longrightarrow> attempts (usage t) = num_of_int (m + n)"
proof -
  have d: "check_all checkDelta d = Inr ()" and t: "usage t = projectUsage (usage s) d"
    and fits: "\<forall>(_, u, l) \<in> set (usage_limit_pairs (limits s) (projectUsage (usage s) d)). \<not> num_less l u"
    using assms(2) by (auto simp: spendBudget_ok)
  note dims = assms(1) [unfolded budget_inv_dims] and amounts = amounts_ok [OF d]
  show "promotionLooks (usage t) = num_of_int (m + n)" if "promotionLooks (usage s) = num_of_int m" "delta_value d ''promotionLooks'' = num_of_int n"
    unfolding t by (simp add: projectUsage_def)
      (rule counted_spend [OF _ amounts(6) _ that, where l = "maximumPromotionLooks (limits s)", simplified]; use dims fits in \<open>simp add: projectUsage_def usage_limit_pairs_def\<close>)
  show "attempts (usage t) = num_of_int (m + n)" if "attempts (usage s) = num_of_int m" "delta_value d ''attempts'' = num_of_int n"
    unfolding t by (simp add: projectUsage_def)
      (rule counted_spend [OF _ amounts(4) _ that, where l = "maximumAttempts (limits s)", simplified]; use dims fits in \<open>simp add: projectUsage_def usage_limit_pairs_def\<close>)
qed

text \<open>The counts of a bill that was paid.\<close>

definition counts :: "budget_delta \<Rightarrow> int \<times> int \<Rightarrow> bool" where
  "counts d n \<longleftrightarrow> delta_value d ''promotionLooks'' = num_of_int (fst n) \<and> delta_value d ''attempts'' = num_of_int (snd n)"

lemma call_counts: "\<exists>ns. list_all2 counts (charges c) ns \<and> sum_list (map fst ns) = looks c \<and> sum_list (map snd ns) = tries c"
proof (cases "charges c = []")
  case True
  then have "looks c = 0 \<and> tries c = 0" by (cases c rule: charges.cases) simp_all
  then show ?thesis using True by simp
next
  case False
  have one: "list_all2 counts [d] [n] \<longleftrightarrow> counts d n" "list_all2 counts [d, e] [n, m] \<longleftrightarrow> counts d n \<and> counts e m" for d e n m by simp_all
  show ?thesis
  proof (cases c rule: charges.cases)
    case (1 p g)
    then show ?thesis by (intro exI [of _ "[(0, 0)]"]) (simp add: counts_def aggregate_delta_def delta_value_def)
  next
    case (2 x y z r)
    then show ?thesis by (intro exI [of _ "[(0, ra_attempts r)]"]) (simp add: counts_def aggregate_delta_def delta_value_def)
  next
    case (3 x y z n auth answer)
    then show ?thesis by (intro exI [of _ "[(1, 0)]"]) (simp add: counts_def delta_value_def)
  next
    case (4 x y z v)
    then show ?thesis by (intro exI [of _ "[(0, validArms v + replacementAttempts v), (0, 0)]"])
      (simp add: counts_def aggregate_delta_def delta_value_def)
  next
    case (5 x b)
    then show ?thesis by (intro exI [of _ "[(0, 0)]"]) (simp add: counts_def delta_value_def)
  qed (use False in simp_all)
qed

lemma bill_counts:
  "\<exists>ns. list_all2 counts (bill cs) ns \<and> sum_list (map fst ns) = sum_list (map looks cs) \<and> sum_list (map snd ns) = sum_list (map tries cs)"
proof (induction cs)
  case (Cons c cs)
  obtain ns ms where "list_all2 counts (charges c) ns" "sum_list (map fst ns) = looks c" "sum_list (map snd ns) = tries c"
    "list_all2 counts (bill cs) ms" "sum_list (map fst ms) = sum_list (map looks cs)" "sum_list (map snd ms) = sum_list (map tries cs)"
    using call_counts Cons.IH by meson
  then show ?case by (intro exI [of _ "ns @ ms"]) (simp add: list_all2_appendI)
qed simp

lemma fold_counts:
  assumes "fold_result spendBudget b ds = Inr t" "list_all2 counts ds ns" "budget_inv b"
    "promotionLooks (usage b) = num_of_int L" "attempts (usage b) = num_of_int A"
  shows "promotionLooks (usage t) = num_of_int (L + sum_list (map fst ns)) \<and> attempts (usage t) = num_of_int (A + sum_list (map snd ns))"
  using assms
proof (induction ds arbitrary: b L A ns)
  case (Cons d ds)
  obtain n ms where ns: "ns = n # ms" "counts d n" "list_all2 counts ds ms" using Cons.prems(2) by (auto simp: list_all2_Cons1)
  obtain u where u: "spendBudget b d = Inr u" "fold_result spendBudget u ds = Inr t" using Cons.prems(1) by auto
  have "promotionLooks (usage u) = num_of_int (L + fst n)" "attempts (usage u) = num_of_int (A + snd n)"
    using spend_exact [OF Cons.prems(3) u(1)] Cons.prems(4,5) ns(2) by (simp_all only: counts_def)
  from Cons.IH [OF u(2) ns(3) budget.step_inv [OF Cons.prems(3) u(1)] this] show ?case by (simp add: ns(1) add.assoc)
qed simp

lemma paid_counts:
  assumes "fold_result spendBudget b (bill cs) = Inr t" "budget_inv b"
    and "promotionLooks (usage b) = num_of_int L" "attempts (usage b) = num_of_int A"
  shows "promotionLooks (usage t) = num_of_int (L + sum_list (map looks cs))" "attempts (usage t) = num_of_int (A + sum_list (map tries cs))"
  using bill_counts [of cs] fold_counts [OF assms(1) _ assms(2-4)] by auto

text \<open>
  All calls so far are paid, the budget is what is left after their bill, the journal has it, and they make
  \<open>L\<close> looks and \<open>T\<close> evaluation attempts.
\<close>

definition banked :: "budget_snapshot \<Rightarrow> int \<Rightarrow> int \<Rightarrow> 'w runner_state \<Rightarrow> bool" where
  "banked b L T st \<longleftrightarrow> always_paid b (rn_calls st) \<and> fold_result spendBudget b (bill (rn_calls st)) = Inr (rn_budget st) \<and>
     last (b # saved_budgets (rn_calls st)) = rn_budget st \<and>
     sum_list (map looks (rn_calls st)) = L \<and> sum_list (map tries (rn_calls st)) = T"

abbreviation paid :: "budget_snapshot \<Rightarrow> 'w runner_state \<Rightarrow> bool" where
  "paid b st \<equiv> always_paid b (rn_calls st)"

lemma saved_append [simp]: "saved_budgets (cs @ ds) = saved_budgets cs @ saved_budgets ds"
  by (simp add: List.map_filter_def)

lemma saved_single [simp]: "saved_budgets [] = []" "saved_budgets (c # cs) = (case saved_budget c of None \<Rightarrow> [] | Some b \<Rightarrow> [b]) @ saved_budgets cs"
  by (simp_all add: List.map_filter_def split: option.split)

lemmas paying = banked_def paid_up_def fold_result_append

lemma open_paid: "banked b L T st \<Longrightarrow> wp (open_experiment env i) (\<lambda>_. banked b L T) (paid b) st"
  unfolding open_experiment_def by (intro wp_rules; simp add: paying)

lemma proposal_paid: "banked b L T st \<Longrightarrow> wp (obtain_proposal env i) (\<lambda>_. banked b L T) (paid b) st"
  unfolding obtain_proposal_def by (intro wp_rules; simp add: paying)

lemma gates_paid: "banked b L T st \<Longrightarrow> wp (run_gates env i p) (\<lambda>_. banked b L T) (paid b) st"
  unfolding run_gates_def by (intro wp_rules; simp add: paying)

lemma accepted_repair:
  assumes "assertRepairAggregate r m = Inr u"
  shows "1 \<le> ra_attempts r \<and> ra_attempts r \<le> m \<and> (ra_disposition r = Repair_passed \<longrightarrow> ra_integrityPassed r)"
  using assms by (auto simp: assertRepairAggregate_def guard_simps)

lemma repair_paid:
  "banked b L T st \<Longrightarrow> wp (repair_candidate env i p)
     (\<lambda>r st. banked b L (T + ra_attempts r) st \<and> (\<exists>m u. m \<le> 14 \<and> assertRepairAggregate r m = Inr u)) (paid b) st"
  unfolding repair_candidate_def by (intro wp_rules; (simp add: paying; fail)?; auto simp: paying)

lemma close_paid:
  "banked b L T st \<Longrightarrow>
     wp (closeWithoutValidation env i d p repair) (\<lambda>r st. banked b L T st \<and> rr_budget r = rn_budget st \<and> rr_disposition r = d) (paid b) st"
  unfolding closeWithoutValidation_def by (intro wp_rules; simp add: paying)

lemma validate_paid:
  "banked b L T st \<Longrightarrow> wp (validate_candidate env i p repair)
     (\<lambda>(lease, v, _) st. banked b (L + 1) (T + (validArms v + replacementAttempts v)) st \<and>
        repair_attempts repair + validArms v + replacementAttempts v \<le> 38 \<and>
        (\<exists>u. assertValidationAggregate v (expectedValidArms lease) (pl_maximumAttempts lease) = Inr u)) (paid b) st"
  unfolding validate_candidate_def Let_def
  by (intro wp_rules; (unfold prod.case)?; (simp add: paying; fail)?; auto simp: paying)

lemma accepted_validation:
  assumes "assertValidationAggregate v arms maximum = Inr u"
  shows "arms = 24" "validArms v = 24" "validPairs v = 12" "0 \<le> replacementAttempts v" "replacementAttempts v \<le> 4"
    "reproduceFreshValidationDisposition (va_inputs v) = Inr d \<Longrightarrow> va_disposition v = run_disposition_of d"
    "\<exists>d. reproduceFreshValidationDisposition (va_inputs v) = Inr d"
  using assms by (auto simp: assertValidationAggregate_def guard_simps split: if_splits)

lemma consume_paid:
  "banked b L T st \<Longrightarrow> wp (consume_validation env i lease v) (\<lambda>_. banked b L T) (paid b) st"
  unfolding consume_validation_def by (intro wp_rules; simp add: paying)

lemma release_paid:
  "banked b L T st \<Longrightarrow> wp (release_brief env i v authorized) (\<lambda>_. banked b L T) (paid b) st"
  unfolding release_brief_def by (intro wp_rules; simp add: paying)

lemma seal_paid:
  "banked b L T st \<Longrightarrow>
     wp (seal_validated env i p d brief) (\<lambda>r st. banked b L T st \<and> rr_budget r = rn_budget st \<and> rr_disposition r = d) (paid b) st"
  unfolding seal_validated_def by (intro wp_rules; simp add: paying)

lemma conclude_paid:
  assumes "banked b L T st"
  shows "wp (conclude env i p repair (lease, v, authorized)) (\<lambda>r st. banked b L T st \<and> rr_budget r = rn_budget st) (paid b) st"
  unfolding conclude_def prod.case
  by (intro wp_rules wp_weaken [OF consume_paid [OF assms]] wp_weaken [OF release_paid] wp_weaken [OF seal_paid];
      (assumption | (simp add: paying; fail) | blast))

definition paid_outcome :: "budget_snapshot \<Rightarrow> run_result \<Rightarrow> 'w runner_state \<Rightarrow> bool" where
  "paid_outcome b r st \<longleftrightarrow> (\<exists>L T. banked b L T st \<and> rr_budget r = rn_budget st \<and>
     L \<in> {0, 1} \<and> 0 \<le> T \<and> T \<le> 38 \<and> (rr_disposition r = Run_promoted \<longrightarrow> L = 1))"

lemma paid_validated: "banked b 1 T st \<Longrightarrow> rr_budget r = rn_budget st \<Longrightarrow> 0 \<le> T \<Longrightarrow> T \<le> 38 \<Longrightarrow> paid_outcome b r st"
  unfolding paid_outcome_def by blast

lemma validated_close_paid:
  assumes st: "banked b 0 (repair_attempts repair) st" and used: "0 \<le> repair_attempts repair"
  shows "wp (validated_close env i p repair) (paid_outcome b) (paid b) st"
proof -
  have "wp (conclude env i p repair x) (paid_outcome b) (paid b) t"
    if "(\<lambda>(lease, v, _) st. banked b (0 + 1) (repair_attempts repair + (validArms v + replacementAttempts v)) st \<and>
        repair_attempts repair + validArms v + replacementAttempts v \<le> 38 \<and>
        (\<exists>u. assertValidationAggregate v (expectedValidArms lease) (pl_maximumAttempts lease) = Inr u)) x t" for x t
  proof -
    obtain lease v authorized where x: "x = (lease, v, authorized)" by (cases x)
    have "0 \<le> validArms v + replacementAttempts v" using that accepted_validation(2,4) unfolding x by auto
    then show ?thesis using that used unfolding x
      by (intro wp_weaken [OF conclude_paid] paid_validated [where T = "repair_attempts repair + (validArms v + replacementAttempts v)"])
        (auto simp: add.assoc)
  qed
  then show ?thesis unfolding validated_close_def
    by (intro wp_rules wp_weaken [OF validate_paid [OF st]]) (use st in \<open>auto simp: banked_def\<close>)
qed

lemma after_open_paid:
  fixes env :: "'w runner_env"
  assumes "banked b 0 0 st"
  shows "wp (after_open env i) (paid_outcome b) (paid b) st"
proof -
  have closed: "wp (closeWithoutValidation env i d p repair) (paid_outcome b) (paid b) st"
    if "banked b 0 T st" "0 \<le> T" "T \<le> 38" "d \<noteq> Run_promoted" for st :: "'w runner_state" and d p repair T
    by (rule wp_weaken [OF close_paid [OF that(1)]]) (use that(2-4) in \<open>auto simp: paid_outcome_def\<close>)
  have verdict: "repair_verdict d \<noteq> Run_promoted" for d by (cases d) auto
  have after_repair: "wp (if ra_disposition r \<noteq> Repair_passed then closeWithoutValidation env i (repair_verdict (ra_disposition r)) p (Some r)
      else validated_close env i p (Some r)) (paid_outcome b) (paid b) st"
    if "banked b 0 (0 + ra_attempts r) st \<and> (\<exists>m u. m \<le> 14 \<and> assertRepairAggregate r m = Inr u)" for st :: "'w runner_state" and p r
  proof -
    have "1 \<le> ra_attempts r" "ra_attempts r \<le> 14" using that accepted_repair by force+
    then show ?thesis using that
      by (intro wp_rules closed [of "ra_attempts r"] validated_close_paid) (auto simp: verdict repair_attempts_def)
  qed
  have after_gates: "wp (if \<not> gr_passed g \<or> \<not> gr_integrityPassed g then closeWithoutValidation env i Run_rejected p None
      else run_then (checkStop env i) (\<lambda>_. if bootstrap i then validated_close env i p None
        else run_then (repair_candidate env i p) (\<lambda>r.
          if ra_disposition r \<noteq> Repair_passed then closeWithoutValidation env i (repair_verdict (ra_disposition r)) p (Some r)
          else validated_close env i p (Some r)))) (paid_outcome b) (paid b) st"
    if "banked b 0 0 st" for st :: "'w runner_state" and g p
    by (intro wp_if wp_then wp_checkStop closed [of 0] validated_close_paid wp_weaken [OF repair_paid] after_repair)
      (use that in \<open>auto simp: repair_attempts_def banked_def\<close>)
  show ?thesis unfolding after_open_def
    by (intro wp_then wp_weaken [OF proposal_paid [OF assms]] wp_weaken [OF gates_paid] after_gates)
qed

lemma run_body_paid: "wp (run_body env i) (paid_outcome (ri_budget i)) (paid (ri_budget i)) (runner_start i w)"
proof -
  have "banked (ri_budget i) 0 0 (runner_start i w)" by (simp add: banked_def runner_start_def)
  then show ?thesis unfolding run_body_open
    by (intro wp_then wp_weaken [OF open_paid] wp_weaken [OF after_open_paid])
qed

text \<open>Properties that every statement keeps, whatever the ports answer and whether it throws.\<close>

definition keeps :: "('s \<Rightarrow> bool) \<Rightarrow> ('s \<Rightarrow> 'a result \<times> 's) \<Rightarrow> bool" where
  "keeps P m \<longleftrightarrow> (\<forall>st. P st \<longrightarrow> P (snd (m st)))"

named_theorems keeps_rules

lemma keeps_then [keeps_rules]: "keeps P m \<Longrightarrow> (\<And>a. keeps P (f a)) \<Longrightarrow> keeps P (run_then m f)"
  unfolding keeps_def run_then_def then_do_def by (auto split: prod.splits sum.splits)

lemma keeps_if [keeps_rules]: "keeps P m \<Longrightarrow> keeps P n \<Longrightarrow> keeps P (if b then m else n)"
  by simp

lemma keeps_option [keeps_rules]: "keeps P m \<Longrightarrow> (\<And>y. keeps P (n y)) \<Longrightarrow> keeps P (case x of None \<Rightarrow> m | Some y \<Rightarrow> n y)"
  by (cases x) auto

lemma keeps_triple [keeps_rules]: "(\<And>x y z. keeps P (f x y z)) \<Longrightarrow> keeps P (case t of (x, y, z) \<Rightarrow> f x y z)"
  by (cases t) auto

lemma keeps_pure [keeps_rules]:
  "keeps P (returns a)" "keeps P (check r)" "keeps P (demand c m)" "keeps P look_ahead" "keeps P (demand_continuation e)"
  "keeps P (checkStop env i)" "keeps P (sealed_result d seal brief)"
  by (simp_all add: keeps_def returns_def check_def demand_def look_ahead_def demand_continuation_def checkStop_def sealed_result_def)

text \<open>The budget is valid and grew from \<open>b\<close> through every budget that was saved.\<close>

definition chained :: "budget_snapshot \<Rightarrow> 'w runner_state \<Rightarrow> bool" where
  "chained b st \<longleftrightarrow> budget_inv (rn_budget st) \<and> sorted_wrt budget_order (b # saved_budgets (rn_calls st) @ [rn_budget st])"

lemma chained_charge [keeps_rules]: "keeps (chained b) (charge d)"
  unfolding keeps_def
proof (intro allI impI)
  fix st :: "'w runner_state"
  assume s: "chained b st"
  show "chained b (snd (charge d st))"
  proof (cases "spendBudget (rn_budget st) d")
    case (Inr t)
    then have "budget_inv t" "budget_order (rn_budget st) t"
      using s budget.step_inv budget.step_le by (auto simp: chained_def)
    then show ?thesis using s Inr budget.le_trans by (auto simp: chained_def charge_def sorted_wrt_append)
  qed (use s in \<open>simp add: charge_def\<close>)
qed

lemma chained_save [keeps_rules]: "keeps (chained b) (save_budget env)"
  unfolding keeps_def using budget.le_refl
  by (auto simp: chained_def save_budget_def call_def sorted_wrt_append split: prod.splits)

lemma chained_call [keeps_rules]: "(\<And>r. saved_budget (c r) = None) \<Longrightarrow> keeps (chained b) (call c p)"
  by (auto simp: keeps_def chained_def call_def split: prod.splits)

lemma chained_assign [keeps_rules]:
  "keeps (chained b) (phase p)" "keeps (chained b) (assign (journalCreated_update j))" "keeps (chained b) (assign (validationLease_update v))"
  "keeps (chained b) (hold_lease lease started)"
  by (simp_all add: keeps_def chained_def assign_def hold_lease_def)

lemma run_body_chained: "keeps (chained b) (run_body env i)"
  unfolding run_body_def open_experiment_def obtain_proposal_def run_gates_def closeWithoutValidation_def repair_candidate_def
    validated_close_def validate_candidate_def conclude_def consume_validation_def release_brief_def seal_validated_def Let_def
  by (intro keeps_rules) simp_all

lemma chain_grows:
  assumes "sorted_wrt budget_order (b # bs)" "budget_inv b"
  shows "sorted_wrt (\<lambda>x y. limits x = limits y \<and> budget_inv y \<and> usage_le (usage x) (usage y)) (b # bs)"
proof -
  have "\<forall>y \<in> set bs. budget_inv y" using assms by (auto simp: budget_order_def)
  moreover have "sorted_wrt (\<lambda>x y. budget_order x y) (b # bs)" using assms(1) .
  ultimately show ?thesis using assms(2) by (elim sorted_wrt_mono_rel [rotated]) (auto simp: budget_order_def)
qed


lemma run_one_cases:
  assumes "run_one env i w = (r, st)"
  obtains (returned) result where "r = Inr result" "run_body env i (runner_start i w) = (Inr result, st)"
    | (failed) x cause t where "r = Inl x" "run_body env i (runner_start i w) = (Inl cause, t)"
      "run_then (settle_lease env) (\<lambda>_. run_then (interrupt_journal env i cause) (\<lambda>_. check (Inl cause))) t = (r, st)"
proof (cases "run_body env i (runner_start i w)")
  case (Pair out t)
  show ?thesis
  proof (cases out)
    case (Inl cause)
    then have end': "run_then (settle_lease env) (\<lambda>_. run_then (interrupt_journal env i cause) (\<lambda>_. check (Inl cause))) t = (r, st)"
      using assms Pair by (simp add: run_one_def)
    then obtain x where "r = Inl x"
      unfolding run_then_def then_do_def check_def by (auto split: prod.splits sum.splits)
    then show ?thesis using that(2) Pair Inl end' by simp
  next
    case (Inr result)
    then show ?thesis using that(1) assms Pair by (simp add: run_one_def)
  qed
qed

lemma failed_saves_nothing:
  assumes "run_then (settle_lease env) (\<lambda>_. run_then (interrupt_journal env i cause) (\<lambda>_. check (Inl cause))) t = (r, st)" "paid b t"
  shows "saved_budgets (rn_calls st) = saved_budgets (rn_calls t) \<and> paid b st"
  using assms unfolding run_then_def then_do_def settle_lease_def interrupt_journal_def call_def returns_def check_def
  by (auto simp: paid_up_def split: option.splits prod.splits sum.splits if_splits)

text \<open>
  C4. The budget of a run is accounted on every path, errors included. Each budget the journal was given is valid, keeps the
  limits and the usage of all before it. Every call finds the journal with a budget that accounts for exactly
  what the calls before it cost, and for the look of the panel it asks for; only those calls that record an answer and save its cost,
  and those that close a failed run, come earlier. A run that returns returns the last budget it saved,
  which is the budget it was given after its whole bill: one look for each panel it asked for, whatever the outcome of the validation,
  the attempts of its repair and its validation, thirty-eight at most, their costs, the online error spent and the released brief.
\<close>

theorem run_budget_accounted:
  assumes "budget_inv (ri_budget i)" "run_one env i w = (r, st)"
  shows "sorted_wrt (\<lambda>x y. limits x = limits y \<and> budget_inv y \<and> usage_le (usage x) (usage y)) (ri_budget i # saved_budgets (rn_calls st)) \<and>
    (\<forall>before c after. rn_calls st = before @ c # after \<and> \<not> bookkeeping c \<longrightarrow>
       fold_result spendBudget (ri_budget i) (bill before @ advance c) = Inr (last (ri_budget i # saved_budgets before))) \<and>
    (case r of Inl x \<Rightarrow> True | Inr result \<Rightarrow>
       fold_result spendBudget (ri_budget i) (bill (rn_calls st)) = Inr (rr_budget result) \<and>
       rr_budget result = last (ri_budget i # saved_budgets (rn_calls st)) \<and>
       int_part (promotionLooks (usage (rr_budget result))) = int_part (promotionLooks (usage (ri_budget i))) + sum_list (map looks (rn_calls st)) \<and>
       int_part (attempts (usage (rr_budget result))) = int_part (attempts (usage (ri_budget i))) + sum_list (map tries (rn_calls st)) \<and>
       sum_list (map looks (rn_calls st)) \<in> {0, 1} \<and> (rr_disposition result = Run_promoted \<longrightarrow> sum_list (map looks (rn_calls st)) = 1) \<and>
       0 \<le> sum_list (map tries (rn_calls st)) \<and> sum_list (map tries (rn_calls st)) \<le> 38)"
proof -
  let ?b = "ri_budget i"
  obtain out t where t: "run_body env i (runner_start i w) = (out, t)" by fastforce
  have "chained ?b (runner_start i w)" using assms(1) budget.le_refl by (simp add: chained_def runner_start_def)
  then have "chained ?b t" using run_body_chained [of ?b env i] t unfolding keeps_def by (metis snd_conv)
  moreover have "paid ?b t"
    using wpD [OF run_body_paid, of env i w] t by (cases out) (auto simp: paid_outcome_def banked_def)
  moreover have "saved_budgets (rn_calls st) = saved_budgets (rn_calls t) \<and> paid ?b st"
    using assms(2)
  proof (cases rule: run_one_cases)
    case (failed x cause t')
    then show ?thesis using t failed_saves_nothing \<open>paid ?b t\<close> by fastforce
  qed (use t \<open>paid ?b t\<close> in simp)
  ultimately have chain: "sorted_wrt budget_order (?b # saved_budgets (rn_calls st))" and paid: "paid ?b st"
    by (auto simp: chained_def sorted_wrt_append)
  have "\<forall>before c after. rn_calls st = before @ c # after \<and> \<not> bookkeeping c \<longrightarrow>
       fold_result spendBudget ?b (bill before @ advance c) = Inr (last (?b # saved_budgets before))"
    using paid unfolding always_paid_def paid_up_def by blast
  moreover have "fold_result spendBudget ?b (bill (rn_calls st)) = Inr (rr_budget result) \<and>
       rr_budget result = last (?b # saved_budgets (rn_calls st)) \<and>
       int_part (promotionLooks (usage (rr_budget result))) = int_part (promotionLooks (usage ?b)) + sum_list (map looks (rn_calls st)) \<and>
       int_part (attempts (usage (rr_budget result))) = int_part (attempts (usage ?b)) + sum_list (map tries (rn_calls st)) \<and>
       sum_list (map looks (rn_calls st)) \<in> {0, 1} \<and> (rr_disposition result = Run_promoted \<longrightarrow> sum_list (map looks (rn_calls st)) = 1) \<and>
       0 \<le> sum_list (map tries (rn_calls st)) \<and> sum_list (map tries (rn_calls st)) \<le> 38"
    if "r = Inr result" for result
  proof -
    have "run_body env i (runner_start i w) = (Inr result, st)" using assms(2) that by (auto elim: run_one_cases)
    then have "paid_outcome ?b result st" by (rule wpD(1) [OF run_body_paid])
    then obtain L T where o: "banked ?b L T st" "rr_budget result = rn_budget st" "L \<in> {0, 1}" "0 \<le> T" "T \<le> 38"
      "rr_disposition result = Run_promoted \<longrightarrow> L = 1" unfolding paid_outcome_def by blast
    obtain M A where initial: "promotionLooks (usage ?b) = num_of_int M" "attempts (usage ?b) = num_of_int A"
      using assms(1) unfolding budget_inv_dims by (auto simp: dim_ok_def elim!: is_safe_integerE)
    note spent = o(1) [unfolded banked_def] and counted = paid_counts [OF _ assms(1) initial, of "rn_calls st" "rn_budget st"]
    show ?thesis using spent counted o(2-6) initial by simp
  qed
  ultimately show ?thesis using chain_grows [OF chain assms(1)] by (cases r) auto
qed

subsection \<open>What a promotion has behind it\<close>

definition trail :: "run_call list \<Rightarrow> 'w runner_state \<Rightarrow> bool" where
  "trail xs st \<longleftrightarrow> subseq xs (rn_calls st)"

lemma trail_steps:
  "trail xs st \<Longrightarrow> trail xs (st\<lparr>rn_calls := rn_calls st @ [c], rn_world := w\<rparr>)"
  "trail xs st \<Longrightarrow> trail (xs @ [c]) (st\<lparr>rn_calls := rn_calls st @ [c], rn_world := w\<rparr>)"
  "trail xs st \<Longrightarrow> trail xs (st\<lparr>rn_phase := p\<rparr>)" "trail xs st \<Longrightarrow> trail xs (st\<lparr>rn_budget := b\<rparr>)"
  "trail xs st \<Longrightarrow> trail xs (st\<lparr>journalCreated := j\<rparr>)" "trail xs st \<Longrightarrow> trail xs (st\<lparr>validationLease := v\<rparr>)"
  by (auto simp: trail_def intro: subseq_rev_drop_many list_emb_append_mono)

lemma trail_units:
  "trail xs st \<Longrightarrow> trail (xs @ [Call_freeze p (Inr ())]) (st\<lparr>rn_calls := rn_calls st @ [Call_freeze p (Inr u)], rn_world := w\<rparr>)"
  "trail xs st \<Longrightarrow> trail (xs @ [Call_recordGates g (Inr ())]) (st\<lparr>rn_calls := rn_calls st @ [Call_recordGates g (Inr u)], rn_world := w\<rparr>)"
  "trail xs st \<Longrightarrow> trail (xs @ [Call_recordRepair r (Inr ())]) (st\<lparr>rn_calls := rn_calls st @ [Call_recordRepair r (Inr u)], rn_world := w\<rparr>)"
  "trail xs st \<Longrightarrow> trail (xs @ [Call_recordValidation v a (Inr ())]) (st\<lparr>rn_calls := rn_calls st @ [Call_recordValidation v a (Inr u)], rn_world := w\<rparr>)"
  using trail_steps(2) by simp_all

lemma open_trail: "wp (open_experiment env i) (\<lambda>_. trail []) (\<lambda>_. True) st"
  unfolding open_experiment_def by (intro wp_rules TrueI) (simp_all add: trail_def)

text \<open>The calls of the stages that went well.\<close>

definition proposal_calls :: "optimizer_proposal \<Rightarrow> run_call list" where
  "proposal_calls p = [Call_freeze p (Inr ())]"

definition gate_calls :: "optimizer_proposal \<Rightarrow> gate_report \<Rightarrow> run_call list" where
  "gate_calls p g = [Call_gates p (Inr g), Call_recordGates g (Inr ())]"

definition repair_calls :: "run_input \<Rightarrow> optimizer_proposal \<Rightarrow> string \<Rightarrow> repair_aggregate \<Rightarrow> run_call list" where
  "repair_calls i p token r =
     [Call_runRepair token (fc_commit (op_candidate p)) (activeCommit (ri_champion i)) (Inr r), Call_recordRepair r (Inr ())]"

definition panel_calls :: "run_input \<Rightarrow> optimizer_proposal \<Rightarrow> repair_aggregate option \<Rightarrow> bool \<Rightarrow> panel_lease \<Rightarrow> validation_aggregate \<Rightarrow> run_call list" where
  "panel_calls i p repair auth lease v =
     [Call_prepareValidation (fh_hash (op_hypothesis p)) (fc_commit (op_candidate p))
        ((case ri_brief i of None \<Rightarrow> [] | Some b \<Rightarrow> [br_hash b]) @ (case repair of None \<Rightarrow> [] | Some r \<Rightarrow> [ra_attestationHash r]))
        (38 - repair_attempts repair) auth (Inr lease),
      Call_runValidation (leaseToken lease) (fc_commit (op_candidate p)) (activeCommit (ri_champion i)) (Inr v)]"

definition decision_calls :: "panel_lease \<Rightarrow> validation_aggregate \<Rightarrow> string \<Rightarrow> run_call list" where
  "decision_calls lease v attestation =
     [Call_settle (leaseToken lease) (pl_attestationHash lease) Panel_decided (Inr attestation), Call_recordValidation v attestation (Inr ())]"

lemma proposal_trail: "trail xs st \<Longrightarrow> wp (obtain_proposal env i) (\<lambda>p. trail (xs @ proposal_calls p)) (\<lambda>_. True) st"
  unfolding obtain_proposal_def proposal_calls_def
  by (intro wp_rules TrueI) (fast intro: trail_units trail_steps)

lemma trail_two: "trail ((xs @ [c]) @ [d]) st \<Longrightarrow> trail (xs @ [c, d]) st"
  by simp

lemma gates_trail:
  "trail xs st \<Longrightarrow> wp (run_gates env i p) (\<lambda>g st. trail (xs @ gate_calls p g) st \<and>
     (\<exists>u. assertGateProtocol (ei_protocolHash (ri_experiment i)) (gr_protocolHash g) = Inr u)) (\<lambda>_. True) st"
  unfolding run_gates_def gate_calls_def by (intro wp_rules TrueI conjI trail_two) (fast intro: trail_units trail_steps)+

lemma repair_trail:
  "trail xs st \<Longrightarrow> wp (repair_candidate env i p) (\<lambda>r st. (\<exists>token. trail (xs @ repair_calls i p token r) st) \<and>
     (\<exists>m u. assertRepairAggregate r m = Inr u)) (\<lambda>_. True) st"
  unfolding repair_candidate_def repair_calls_def by (intro wp_rules TrueI conjI exI trail_two) (fast intro: trail_units trail_steps)+

lemma validate_trail:
  "trail xs st \<Longrightarrow> wp (validate_candidate env i p repair) (\<lambda>(lease, v, auth) st.
     trail (xs @ panel_calls i p repair auth lease v) st \<and>
     (\<exists>u. assertValidationAggregate v (expectedValidArms lease) (pl_maximumAttempts lease) = Inr u)) (\<lambda>_. True) st"
  unfolding validate_candidate_def Let_def panel_calls_def
  by (intro wp_rules TrueI) (unfold prod.case, intro conjI trail_two, (fast intro: trail_units trail_steps)+)

lemma consume_trail:
  "trail xs st \<Longrightarrow> wp (consume_validation env i lease v) (\<lambda>_ st. \<exists>attestation. trail (xs @ decision_calls lease v attestation) st) (\<lambda>_. True) st"
  unfolding consume_validation_def decision_calls_def by (intro wp_rules TrueI exI trail_two) (fast intro: trail_units trail_steps)+

lemma release_trail: "trail xs st \<Longrightarrow> wp (release_brief env i v authorized) (\<lambda>_. trail xs) (\<lambda>_. True) st"
  unfolding release_brief_def by (intro wp_rules TrueI; fast intro: trail_units trail_steps)

text \<open>The candidate that a promotion names.\<close>

definition names_candidate :: "run_input \<Rightarrow> optimizer_proposal \<Rightarrow> promoted_candidate option \<Rightarrow> bool" where
  "names_candidate i p c \<longleftrightarrow> (\<exists>t. c = Some \<lparr>pc_experimentNumber = ei_number (ri_experiment i), pc_commit = fc_commit (op_candidate p), decidedAt = t\<rparr>)"

lemma seal_trail:
  "trail xs st \<Longrightarrow> wp (seal_validated env i p d brief) (\<lambda>r st. rr_disposition r = d \<and>
     (\<exists>c seal. trail (xs @ [Call_seal d c brief (Inr seal)]) st \<and> (d = Run_promoted \<longrightarrow> names_candidate i p c))) (\<lambda>_. True) st"
  unfolding seal_validated_def by (intro wp_rules TrueI conjI; (fastforce intro: trail_units trail_steps simp: names_candidate_def)?)

definition validation_trail :: "run_call list \<Rightarrow> run_input \<Rightarrow> optimizer_proposal \<Rightarrow> repair_aggregate option \<Rightarrow> validation_aggregate \<Rightarrow>
    'w runner_state \<Rightarrow> bool" where
  "validation_trail xs i p repair v st \<longleftrightarrow> (\<exists>auth lease attestation c brief seal. names_candidate i p c \<and>
     trail (xs @ panel_calls i p repair auth lease v @ decision_calls lease v attestation @ [Call_seal Run_promoted c brief (Inr seal)]) st)"

lemma conclude_trail:
  assumes "trail xs st"
  shows "wp (conclude env i p repair (lease, v, authorized)) (\<lambda>r st. rr_disposition r = va_disposition v \<and>
    (\<exists>attestation c brief seal. trail ((xs @ decision_calls lease v attestation) @ [Call_seal (va_disposition v) c brief (Inr seal)]) st \<and>
       (va_disposition v = Run_promoted \<longrightarrow> names_candidate i p c))) (\<lambda>_. True) st"
  unfolding conclude_def prod.case
  by (intro wp_rules TrueI wp_weaken [OF consume_trail [OF assms]], elim exE, intro wp_rules TrueI wp_weaken [OF release_trail] wp_weaken [OF seal_trail])
    (fast intro: trail_units trail_steps)+

lemma validated_close_trail:
  assumes "trail xs st"
  shows "wp (validated_close env i p repair) (\<lambda>r st. rr_disposition r = Run_promoted \<longrightarrow> (\<exists>v arms maximum u. validation_trail xs i p repair v st \<and>
    va_disposition v = Run_promoted \<and> assertValidationAggregate v arms maximum = Inr u)) (\<lambda>_. True) st"
proof -
  have "wp (conclude env i p repair x) (\<lambda>r st. rr_disposition r = Run_promoted \<longrightarrow> (\<exists>v arms maximum u. validation_trail xs i p repair v st \<and>
      va_disposition v = Run_promoted \<and> assertValidationAggregate v arms maximum = Inr u)) (\<lambda>_. True) t"
    if x: "(\<lambda>(lease, v, auth) st. trail (xs @ panel_calls i p repair auth lease v) st \<and>
        (\<exists>u. assertValidationAggregate v (expectedValidArms lease) (pl_maximumAttempts lease) = Inr u)) x t" for x t
  proof -
    obtain lease v auth where eq: "x = (lease, v, auth)" by (cases x)
    obtain u where v: "assertValidationAggregate v (expectedValidArms lease) (pl_maximumAttempts lease) = Inr u" and
      start: "trail (xs @ panel_calls i p repair auth lease v) t"
      using x unfolding eq by blast
    show ?thesis unfolding eq
    proof (rule wp_weaken [OF conclude_trail [OF start]]; (intro impI)?)
      fix r :: run_result and s
      assume sealed: "rr_disposition r = va_disposition v \<and> (\<exists>attestation c brief seal. trail (((xs @ panel_calls i p repair auth lease v) @
          decision_calls lease v attestation) @ [Call_seal (va_disposition v) c brief (Inr seal)]) s \<and>
          (va_disposition v = Run_promoted \<longrightarrow> names_candidate i p c))"
        and promoted: "rr_disposition r = Run_promoted"
      then obtain attestation c brief seal where "names_candidate i p c" "trail (xs @ panel_calls i p repair auth lease v @
          decision_calls lease v attestation @ [Call_seal Run_promoted c brief (Inr seal)]) s" by auto
      then have "validation_trail xs i p repair v s" unfolding validation_trail_def by blast
      then show "\<exists>v arms maximum u. validation_trail xs i p repair v s \<and> va_disposition v = Run_promoted \<and> assertValidationAggregate v arms maximum = Inr u"
        using v conjunct1 [OF sealed] promoted by (intro exI [of _ v] exI conjI) auto
    qed simp
  qed
  then show ?thesis unfolding validated_close_def
    by (intro wp_rules TrueI wp_weaken [OF validate_trail [OF assms]])
qed

text \<open>The repair of a promotion, and what its calls are; the first experiment has none.\<close>

definition repair_trail_of :: "run_input \<Rightarrow> optimizer_proposal \<Rightarrow> (string \<times> repair_aggregate) option \<Rightarrow> run_call list" where
  "repair_trail_of i p repair = (case repair of None \<Rightarrow> [] | Some (token, r) \<Rightarrow> repair_calls i p token r)"

definition promotion_backed :: "run_input \<Rightarrow> 'w runner_state \<Rightarrow> bool" where
  "promotion_backed i st \<longleftrightarrow> (\<exists>p g repair v.
     validation_trail (proposal_calls p @ gate_calls p g @ repair_trail_of i p repair) i p (map_option snd repair) v st \<and>
     gr_passed g \<and> gr_integrityPassed g \<and> gr_protocolHash g = ei_protocolHash (ri_experiment i) \<and>
     (case repair of None \<Rightarrow> bootstrap i | Some (_, r) \<Rightarrow> ra_disposition r = Repair_passed \<and> ra_integrityPassed r) \<and>
     validPairs v = 12 \<and> validArms v = 24 \<and> replacementAttempts v \<le> 4 \<and>
     reproduceFreshValidationDisposition (va_inputs v) = Inr Promote)"

lemma accepted_promotion:
  assumes "assertValidationAggregate v arms maximum = Inr u" "va_disposition v = Run_promoted"
  shows "validPairs v = 12 \<and> validArms v = 24 \<and> replacementAttempts v \<le> 4 \<and> reproduceFreshValidationDisposition (va_inputs v) = Inr Promote"
proof -
  obtain d where d: "reproduceFreshValidationDisposition (va_inputs v) = Inr d" using accepted_validation(7) [OF assms(1)] by blast
  then have "d = Promote" using accepted_validation(6) [OF assms(1) d] assms(2) by (cases d) auto
  then show ?thesis using accepted_validation(2,3,5) [OF assms(1)] d by simp
qed

lemma assertGateProtocol_ok: "assertGateProtocol x y = Inr u \<longleftrightarrow> x = y"
  by (simp add: assertGateProtocol_def)

lemma run_body_backed:
  fixes env :: "'w runner_env"
  shows "wp (run_body env i) (\<lambda>r st. rr_disposition r = Run_promoted \<longrightarrow> promotion_backed i st) (\<lambda>_. True) st"
proof -
  let ?Q = "\<lambda>r st. rr_disposition r = Run_promoted \<longrightarrow> promotion_backed i st"
  have unpromoted: "wp (closeWithoutValidation env i d p repair) ?Q (\<lambda>_. True) t" if "d \<noteq> Run_promoted" for d p repair t
    unfolding closeWithoutValidation_def by (intro wp_rules TrueI) (use that in simp)
  have verdict: "repair_verdict d \<noteq> Run_promoted" for d by (cases d) auto
  have validated: "wp (validated_close env i p (map_option snd repair)) ?Q (\<lambda>_. True) t"
    if "trail (proposal_calls p @ gate_calls p g @ repair_trail_of i p repair) t"
      "gr_passed g" "gr_integrityPassed g" "gr_protocolHash g = ei_protocolHash (ri_experiment i)"
      "case repair of None \<Rightarrow> bootstrap i | Some (_, r) \<Rightarrow> ra_disposition r = Repair_passed \<and> ra_integrityPassed r" for p g repair t
    by (rule wp_weaken [OF validated_close_trail [OF that(1)]])
      (use that(2-5) accepted_promotion in \<open>auto simp: promotion_backed_def intro!: exI [of _ p] exI [of _ g] exI [of _ repair]\<close>)
  have after_repair: "wp (if ra_disposition r \<noteq> Repair_passed then closeWithoutValidation env i (repair_verdict (ra_disposition r)) p (Some r)
      else validated_close env i p (Some r)) ?Q (\<lambda>_. True) t"
    if run: "(\<exists>token. trail ((([] @ proposal_calls p) @ gate_calls p g) @ repair_calls i p token r) t) \<and> (\<exists>m u. assertRepairAggregate r m = Inr u)"
      "gr_passed g \<and> gr_integrityPassed g" "gr_protocolHash g = ei_protocolHash (ri_experiment i)" for p g r t
  proof -
    obtain token where "trail (proposal_calls p @ gate_calls p g @ repair_trail_of i p (Some (token, r))) t"
      using conjunct1 [OF run(1)] unfolding repair_trail_of_def append_Nil append_assoc option.case prod.case by blast
    from validated [OF this] show ?thesis
      by (intro wp_if unpromoted verdict) (use run that accepted_repair in auto)
  qed
  have after_gates: "wp (if \<not> gr_passed g \<or> \<not> gr_integrityPassed g then closeWithoutValidation env i Run_rejected p None
      else run_then (checkStop env i) (\<lambda>_. if bootstrap i then validated_close env i p None
        else run_then (repair_candidate env i p) (\<lambda>r.
          if ra_disposition r \<noteq> Repair_passed then closeWithoutValidation env i (repair_verdict (ra_disposition r)) p (Some r)
          else validated_close env i p (Some r)))) ?Q (\<lambda>_. True) t"
    if t: "trail (([] @ proposal_calls p) @ gate_calls p g) t \<and>
      (\<exists>u. assertGateProtocol (ei_protocolHash (ri_experiment i)) (gr_protocolHash g) = Inr u)" for p g t
  proof (intro wp_if wp_then wp_checkStop TrueI unpromoted)
    assume "\<not> (\<not> gr_passed g \<or> \<not> gr_integrityPassed g)"
    then have g: "gr_passed g \<and> gr_integrityPassed g" "gr_protocolHash g = ei_protocolHash (ri_experiment i)"
      using t by (auto simp: assertGateProtocol_ok)
    show "wp (validated_close env i p None) ?Q (\<lambda>_. True) t" if "bootstrap i"
      using validated [of p g None t] t g that by (simp add: repair_trail_of_def)
    show "wp (repair_candidate env i p) (\<lambda>r. wp (if ra_disposition r \<noteq> Repair_passed
        then closeWithoutValidation env i (repair_verdict (ra_disposition r)) p (Some r) else validated_close env i p (Some r)) ?Q (\<lambda>_. True)) (\<lambda>_. True) t"
      by (rule wp_weaken [OF repair_trail [OF conjunct1 [OF t]]], rule after_repair [OF _ g]) auto
  qed simp
  show ?thesis unfolding run_body_open after_open_def
    by (intro wp_then wp_weaken [OF open_trail] wp_weaken [OF proposal_trail] wp_weaken [OF gates_trail] after_gates TrueI)
qed

text \<open>
  C2. Whatever the ports answer, a run that promotes has made, in this order, the calls of a full
  evaluation, all answered: the proposal was frozen; the gates ran on this proposal, passed with integrity under the right protocol and were recorded;
  but for the first experiment a repair of the frozen candidate against the active champion passed with integrity and was recorded; a panel was
  granted for this hypothesis and candidate, excluding the evidence of the brief and the repair, within the attempts the repair left; the
  validation of the candidate against the champion ran under its lease, and the panel was consumed before the result was recorded, which has twelve
  pairs and twenty-four arms and from whose inputs the decision of the core reproduces a promotion; then the journal sealed the frozen candidate's commit.
\<close>

theorem promotion_fully_evaluated:
  assumes "run_one env i w = (Inr result, st)" "rr_disposition result = Run_promoted"
  shows "\<exists>p g repair v auth lease attestation c brief seal.
    (let candidate = fc_commit (op_candidate p); champion = activeCommit (ri_champion i) in
    subseq ([Call_freeze p (Inr ()), Call_gates p (Inr g), Call_recordGates g (Inr ())] @
      (case repair of None \<Rightarrow> [] | Some (token, r) \<Rightarrow> [Call_runRepair token candidate champion (Inr r), Call_recordRepair r (Inr ())]) @
      [Call_prepareValidation (fh_hash (op_hypothesis p)) candidate
         ((case ri_brief i of None \<Rightarrow> [] | Some b \<Rightarrow> [br_hash b]) @ (case repair of None \<Rightarrow> [] | Some (_, r) \<Rightarrow> [ra_attestationHash r]))
         (38 - (case repair of None \<Rightarrow> 0 | Some (_, r) \<Rightarrow> ra_attempts r)) auth (Inr lease),
       Call_runValidation (leaseToken lease) candidate champion (Inr v),
       Call_settle (leaseToken lease) (pl_attestationHash lease) Panel_decided (Inr attestation), Call_recordValidation v attestation (Inr ()),
       Call_seal Run_promoted (Some c) brief (Inr seal)]) (rn_calls st) \<and>
    pc_commit c = candidate \<and> pc_experimentNumber c = ei_number (ri_experiment i) \<and>
    gr_passed g \<and> gr_integrityPassed g \<and> gr_protocolHash g = ei_protocolHash (ri_experiment i) \<and>
    (case repair of None \<Rightarrow> ei_number (ri_experiment i) = 1 | Some (_, r) \<Rightarrow> ra_disposition r = Repair_passed \<and> ra_integrityPassed r) \<and>
    validPairs v = 12 \<and> validArms v = 24 \<and> replacementAttempts v \<le> 4 \<and>
    reproduceFreshValidationDisposition (va_inputs v) = Inr Promote)"
proof -
  have "run_body env i (runner_start i w) = (Inr result, st)" using assms(1) by (auto elim: run_one_cases)
  then have "promotion_backed i st" using wpD(1) [OF run_body_backed] assms(2) by blast
  then obtain p :: optimizer_proposal and g repair v auth lease attestation c brief seal where
    calls: "subseq ((proposal_calls p @ gate_calls p g @ repair_trail_of i p repair) @ panel_calls i p (map_option snd repair) auth lease v @
      decision_calls lease v attestation @ [Call_seal Run_promoted c brief (Inr seal)]) (rn_calls st)" and c: "names_candidate i p c"
    and facts: "gr_passed g" "gr_integrityPassed g" "gr_protocolHash g = ei_protocolHash (ri_experiment i)"
      "case repair of None \<Rightarrow> bootstrap i | Some (_, r) \<Rightarrow> ra_disposition r = Repair_passed \<and> ra_integrityPassed r"
      "validPairs v = 12" "validArms v = 24" "replacementAttempts v \<le> 4" "reproduceFreshValidationDisposition (va_inputs v) = Inr Promote"
    unfolding promotion_backed_def validation_trail_def trail_def by blast
  obtain d where c': "c = Some \<lparr>pc_experimentNumber = ei_number (ri_experiment i), pc_commit = fc_commit (op_candidate p), decidedAt = d\<rparr>"
    using c by (auto simp: names_candidate_def)
  show ?thesis using calls facts unfolding c'
    by (intro exI [of _ p] exI [of _ g] exI [of _ repair] exI [of _ v] exI [of _ auth] exI [of _ lease] exI [of _ attestation] exI [of _ "the c"] exI [of _ brief] exI [of _ seal])
      (cases repair; simp add: c' Let_def proposal_calls_def gate_calls_def repair_trail_of_def repair_calls_def panel_calls_def decision_calls_def
        repair_attempts_def split: prod.splits)
qed

subsection \<open>The autonomous loop accepts what the runner returns\<close>

lemma wp_call_answer:
  assumes "\<And>a w. p (rn_world st) = (Inr a, w) \<Longrightarrow> Q a (st\<lparr>rn_calls := rn_calls st @ [c (Inr a)], rn_world := w\<rparr>)"
    "\<And>x w. E (st\<lparr>rn_calls := rn_calls st @ [c (Inl x)], rn_world := w\<rparr>)"
  shows "wp (call c p) Q E st"
  using assms by (auto simp: wp_def call_def split: prod.splits sum.splits)

text \<open>
  What the run takes from its ports is how the journal answers a seal, \<open>seal\<close> of \<open>orchestrator/experiment-journal.ts\<close>: its hash is a
  SHA-256; without a promotion the pointers are those of before; a promotion it seals only for a Git commit other than the
  active one, and answers the pointers \<open>updateChampionPointers\<close> makes of it, with an instant \<open>t\<close> of its own clock, when the
  operation began (or, on a replay, began first), and not the \<open>decidedAt\<close> of the call.
\<close>

definition journal_law :: "host \<Rightarrow> 'w runner_env \<Rightarrow> bool" where
  "journal_law h env \<longleftrightarrow> (\<forall>x d champion promotion brief w s w'.
     journal_seal env x d champion promotion brief w = (Inr s, w') \<longrightarrow> is_sha256 (sr_sealHash s) \<and>
     (case promotion of None \<Rightarrow> activeChampionAfter s = champion
      | Some c \<Rightarrow> is_git_oid (pc_commit c) \<and> pc_commit c \<noteq> activeCommit champion \<and>
          (\<exists>t. date_parse h t \<noteq> None \<and> updateChampionPointers champion \<lparr>experimentNumber = pc_experimentNumber c, pt_commit = pc_commit c,
             pt_state = Promoted, sealedAt = t, sealHash = sr_sealHash s\<rparr> = Inr (activeChampionAfter s))))"

definition result_fits :: "host \<Rightarrow> run_input \<Rightarrow> run_result \<Rightarrow> bool" where
  "result_fits h i r \<longleftrightarrow> is_sha256 (rr_sealHash r) \<and> assertDiagnosticBrief (rr_brief r) = Inr () \<and>
     (if rr_disposition r = Run_promoted
      then \<exists>commit t. is_git_oid commit \<and> commit \<noteq> activeCommit (ri_champion i) \<and> date_parse h t \<noteq> None \<and>
        updateChampionPointers (ri_champion i) \<lparr>experimentNumber = ei_number (ri_experiment i), pt_commit = commit,
          pt_state = Promoted, sealedAt = t, sealHash = rr_sealHash r\<rparr> = Inr (rr_champion r)
      else rr_champion r = ri_champion i)"

lemma brief_fits: "assertDiagnosticBriefReference b = Inr u \<Longrightarrow> assertDiagnosticBrief (Some b) = Inr ()"
  by (auto simp: assertDiagnosticBriefReference_def assertDiagnosticBrief_def split: if_splits)

lemma release_fits: "wp (release_brief env i v authorized) (\<lambda>brief _. assertDiagnosticBrief brief = Inr ()) (\<lambda>_. True) st"
  unfolding release_brief_def
  by (intro wp_rules TrueI) (auto simp: assertDiagnosticBrief_def [of None] dest: brief_fits split: option.splits)

lemma seal_fits:
  assumes "journal_law h env" "assertDiagnosticBrief brief = Inr ()"
  shows "wp (seal_validated env i p d brief) (\<lambda>r _. result_fits h i r) (\<lambda>_. True) st"
  supply wp_call [wp_rules del] wp_call_answer [wp_rules]
  unfolding seal_validated_def
proof (intro wp_rules TrueI, goal_cases)
  case (1 t w s w')
  then show ?case using assms unfolding journal_law_def result_fits_def by fastforce
next
  case (2 s w)
  then show ?case using assms unfolding journal_law_def result_fits_def by fastforce
qed

lemma close_fits:
  assumes "journal_law h env" "assertDiagnosticBrief (ri_brief i) = Inr ()" "d \<noteq> Run_promoted"
  shows "wp (closeWithoutValidation env i d p repair) (\<lambda>r _. result_fits h i r) (\<lambda>_. True) st"
  supply wp_call [wp_rules del] wp_call_answer [wp_rules]
  unfolding closeWithoutValidation_def
  by (intro wp_rules TrueI) (use assms in \<open>fastforce simp: journal_law_def result_fits_def\<close>)

lemma wp_any: "(\<And>a t. Q a t) \<Longrightarrow> (\<And>t. E t) \<Longrightarrow> wp m Q E st"
  by (auto simp: wp_def split: prod.splits sum.splits)

lemma validated_fits:
  assumes "journal_law h env"
  shows "wp (validated_close env i p repair) (\<lambda>r _. result_fits h i r) (\<lambda>_. True) st"
proof -
  have "wp (conclude env i p repair x) (\<lambda>r _. result_fits h i r) (\<lambda>_. True) t" for x t
  proof -
    obtain lease v authorized where "x = (lease, v, authorized)" by (cases x)
    then show ?thesis unfolding conclude_def
      by (simp only: prod.case, intro wp_then)
        (rule wp_any, intro wp_rules TrueI wp_weaken [OF release_fits] seal_fits [OF assms], simp_all)
  qed
  then show ?thesis unfolding validated_close_def
    by (intro wp_then wp_checkStop TrueI) (rule wp_any, simp_all)
qed

lemma run_body_fits:
  assumes "journal_law h env" "assertDiagnosticBrief (ri_brief i) = Inr ()"
  shows "wp (run_body env i) (\<lambda>r _. result_fits h i r) (\<lambda>_. True) st"
proof -
  have verdict: "repair_verdict d \<noteq> Run_promoted" for d by (cases d) auto
  note closed = close_fits [OF assms] and validated = validated_fits [OF assms(1)]
  have after_repair: "wp (repair_candidate env i p) (\<lambda>r. wp (if ra_disposition r \<noteq> Repair_passed
      then closeWithoutValidation env i (repair_verdict (ra_disposition r)) p (Some r) else validated_close env i p (Some r))
      (\<lambda>r _. result_fits h i r) (\<lambda>_. True)) (\<lambda>_. True) t" for p t
    by (rule wp_any) (auto intro!: closed validated simp: verdict)
  show ?thesis unfolding run_body_def
    by (intro wp_then, rule wp_any, intro wp_then, rule wp_any, intro wp_then, rule wp_any,
        intro wp_if wp_then wp_checkStop closed validated after_repair TrueI) auto
qed

lemma budget_inv_assert: "budget_inv b \<Longrightarrow> assertBudget b = Inr ()"
  unfolding budget_inv_def assertBudget_def validateBudgetSnapshot_def
  by (auto simp: guard_simps Let_def)

lemma finite_limits_json: "validateBudgetSnapshot b = Inr () \<Longrightarrow> \<not> isl (limits_json (limits b))"
proof -
  assume "validateBudgetSnapshot b = Inr ()"
  then have "\<forall>e \<in> set (limit_entries (limits b)). is_finite (snd e)"
    by (auto simp: validateBudgetSnapshot_def guard_simps)
  then have "map (\<lambda>(key, j). (key, Inr j)) (map (\<lambda>(key, v). (key, projr (number_json v))) (limit_entries (limits b))) =
      map (\<lambda>(key, v). (key, number_json v)) (limit_entries (limits b))"
    by (auto elim!: is_finite.elims)
  then have "limits_json (limits b) = Inr (json_object (map (\<lambda>(key, v). (key, projr (number_json v))) (limit_entries (limits b))))"
    unfolding limits_json_def members_json_ok by blast
  then show ?thesis by simp
qed

lemma budget_inv_looks: "budget_inv b \<Longrightarrow> promotionLooks (usage b) = num_of_int n \<Longrightarrow> safe_int n \<and> 0 \<le> n"
proof -
  assume "budget_inv b" and n: "promotionLooks (usage b) = num_of_int n"
  then have "dim_ok True (num_of_int n) (maximumPromotionLooks (limits b))" unfolding budget_inv_dims by simp
  then show ?thesis by (auto simp: dim_ok_def num_le_def num_eq_def safe_int_def)
qed

lemma usage_le_kept: "usage_le u v \<Longrightarrow> list_all2 (\<lambda>old now. \<not> num_less now old) (map snd (usage_entries u)) (map snd (usage_entries v))"
proof -
  have "\<not> num_less b a" if "num_le a b" for a b using that by (cases a; cases b) (auto simp: num_le_def num_eq_def)
  then show "usage_le u v \<Longrightarrow> ?thesis" unfolding usage_le_def list_all2_map1 list_all2_map2
    by (elim list.rel_mono_strong) auto
qed

lemma champion_encodes: "\<not> isl (champion_json c)"
  by (auto simp: champion_json_def members_json_def int_json_def string_json_def null_or_def split: option.splits)

lemma look_difference:
  assumes "safe_int L" "0 \<le> L" "l \<in> {0, 1}" "safe_int (L + l)"
  shows "num_sub (num_of_int (L + l)) (num_of_int L) = num_of_int l"
  using num_add_of_int [of "L + l" "- L"] assms by (auto simp: num_sub_def)

lemma promoted_pointers:
  assumes "updateChampionPointers c \<lparr>experimentNumber = n, pt_commit = commit, pt_state = Promoted, sealedAt = t, sealHash = s\<rparr> = Inr d"
    "assertChampion h c = Inr ()" "safe_int n" "is_git_oid commit" "is_sha256 s" "date_parse h t \<noteq> None"
  shows "assertChampion h d = Inr () \<and> activeExperiment d = n \<and> activeCommit d = commit \<and> baselineCommit d = baselineCommit c \<and>
    certifiedExperiment d = certifiedExperiment c \<and> certifiedCommit d = certifiedCommit c"
proof -
  have "d = c\<lparr>activeExperiment := n, activeCommit := commit, updatedAt := t, sourceSealHash := s\<rparr>" "activeExperiment c < n"
    using assms(1) by (auto simp: updateChampionPointers_def split: if_splits)
  then show ?thesis using assms(2-6) by (auto simp: assertChampion_def split: if_splits option.splits)
qed

text \<open>
  C5. The runner keeps the contract the autonomous loop checks: with a journal that answers seals as the code's journal does,
  every result a run returns from a valid claim passes \<open>assertExperimentResult\<close>, whatever the optimizer, the gates, the broker and the
  clock answer. The loop therefore never interrupts an experiment for its result unless the journal broke its promise.
\<close>

theorem runner_meets_loop:
  assumes law: "journal_law h env"
    and input: "cl_input claim = i" "safe_int (ei_number (ri_experiment i))" "budget_inv (ri_budget i)" "assertChampion h (ri_champion i) = Inr ()" "assertDiagnosticBrief (ri_brief i) = Inr ()"
    and run: "run_one env i w = (Inr result, st)"
  shows "assertExperimentResult h claim result = Inr ()"
proof -
  have out: "run_body env i (runner_start i w) = (Inr result, st)" using run by (auto elim: run_one_cases)
  have fits: "result_fits h i result" by (rule wpD(1) [OF run_body_fits [OF law input(5)] out])
  obtain L A where initial: "promotionLooks (usage (ri_budget i)) = num_of_int L" "attempts (usage (ri_budget i)) = num_of_int A"
    using input(3) unfolding budget_inv_dims by (auto simp: dim_ok_def elim!: is_safe_integerE)
  obtain l T where l: "banked (ri_budget i) l T st" "rr_budget result = rn_budget st" "l \<in> {0, 1}"
    "rr_disposition result = Run_promoted \<longrightarrow> l = 1"
    using wpD(1) [OF run_body_paid out] unfolding paid_outcome_def by blast
  have "chained (ri_budget i) (runner_start i w)" using input(3) budget.le_refl by (simp add: chained_def runner_start_def)
  then have "chained (ri_budget i) st" using run_body_chained [of "ri_budget i" env i] out unfolding keeps_def by (metis snd_conv)
  then have after: "budget_inv (rr_budget result)" "limits (ri_budget i) = limits (rr_budget result)" "usage_le (usage (ri_budget i)) (usage (rr_budget result))"
    using l(2) input(3) by (auto simp: chained_def budget_order_def)
  have looks: "promotionLooks (usage (rn_budget st)) = num_of_int (L + l)"
    using paid_counts(1) [OF _ input(3) initial, of "rn_calls st" "rn_budget st"] l(1) by (simp add: banked_def)
  have "safe_int L \<and> 0 \<le> L \<and> safe_int (L + l)"
    using budget_inv_looks [OF input(3) initial(1)] budget_inv_looks [OF after(1)] looks l(2) by simp
  then have delta: "look_delta claim result = num_of_int l"
    using look_difference l looks unfolding look_delta_def input(1) initial by simp
  have budget: "assertMonotonicBudget h (ri_budget i) (rr_budget result) = Inr ()"
    using after(1,3) by (intro assertMonotonicBudget_intro usage_le_kept budget_inv_assert after finite_limits_json)
      (auto simp: budget_inv_def)
  have seal: "is_sha256 (rr_sealHash result)" "assertDiagnosticBrief (rr_brief result) = Inr ()" using fits by (auto simp: result_fits_def)
  have brief: "case rr_brief result of None \<Rightarrow> True | Some b \<Rightarrow> is_sha256 (br_hash b) \<and> SAFE_RELEASE_ID (releaseId b)"
    using seal(2) by (auto simp: assertDiagnosticBrief_def split: option.splits if_splits)
  have champion: "assertChampion h (rr_champion result) = Inr () \<and> (if rr_disposition result = Run_promoted
      then activeExperiment (rr_champion result) = ei_number (ri_experiment i) \<and> activeCommit (rr_champion result) \<noteq> activeCommit (ri_champion i) \<and>
        baselineCommit (rr_champion result) = baselineCommit (ri_champion i) \<and> certifiedExperiment (rr_champion result) = certifiedExperiment (ri_champion i) \<and>
        certifiedCommit (rr_champion result) = certifiedCommit (ri_champion i)
      else rr_champion result = ri_champion i)"
  proof (cases "rr_disposition result = Run_promoted")
    case True
    then obtain commit u where p: "is_git_oid commit" "commit \<noteq> activeCommit (ri_champion i)" "date_parse h u \<noteq> None"
      and moved: "updateChampionPointers (ri_champion i) \<lparr>experimentNumber = ei_number (ri_experiment i), pt_commit = commit,
        pt_state = Promoted, sealedAt = u, sealHash = rr_sealHash result\<rparr> = Inr (rr_champion result)"
      using fits True unfolding result_fits_def if_P [OF True] by blast
    show ?thesis using promoted_pointers [OF moved input(4,2) p(1) seal(1) p(3)] p(2) True by simp
  next
    case False
    then show ?thesis using fits input(4) by (simp add: result_fits_def)
  qed
  have same: "same_text h (champion_json (ri_champion i)) (champion_json (ri_champion i)) = Inr True"
    by (rule same_text_self [OF champion_encodes])
  show ?thesis unfolding assertExperimentResult_def Let_def input(1) budget delta
    using seal brief champion same l(3,4) by (auto simp: loop_simps split: option.splits)
qed

subsection \<open>A run on concrete ports\<close>

definition example_proposal :: "champion_pointers \<Rightarrow> optimizer_proposal" where
  "example_proposal c = \<lparr>op_hypothesis = \<lparr>fh_hash = sixty_four CHR ''c'', fh_sourceBriefHash = None, causalClaim = ''claim'',
       intervention = ''change'', predictedRepairBehavior = ''repair'', predictedFreshEffect = ''effect'', falsificationCriteria = [],
       rollbackCondition = ''rollback''\<rparr>,
     op_candidate = \<lparr>fc_commit = sixty_four (if activeCommit c = sixty_four CHR ''b'' then CHR ''c'' else CHR ''b''),
       patchHash = sixty_four CHR ''c'', changedFiles = [''agent.py''], mutationCategory = ''prompt''\<rparr>\<rparr>"

definition example_gates :: gate_report where
  "example_gates = \<lparr>gr_passed = True, gr_integrityPassed = True, gr_protocolHash = sixty_four CHR ''d'', checksHash = sixty_four CHR ''c'',
     gr_aggregateCostUsd = Fin 1, gr_tokens = Fin 10, gr_wallTimeMs = Fin 10, failureCode = None\<rparr>"

definition example_lease :: panel_lease where
  "example_lease = \<lparr>leaseToken = ''lease'', pl_attestationHash = sixty_four CHR ''c'', expectedValidArms = 24, pl_maximumAttempts = 28\<rparr>"

definition example_validation :: validation_aggregate where
  "example_validation = \<lparr>va_disposition = Run_promoted, validPairs = 12, validArms = 24, replacementAttempts = 1,
     va_inputs = \<lparr>probabilityPositive = Fin 1, medianAccuracyDelta = Fin (1 / 2), requiredPosteriorProbability = lit_095,
       onlineGateAuthorized = True, stratumRegressionVeto = False, integrityVeto = False, correctnessVeto = False,
       capabilityVeto = False, costWithinGuardrail = True, latencyWithinGuardrail = True, accuracyTradeoffPredeclared = False\<rparr>,
     va_onlineErrorBudget = \<lparr>oe_policyVersion = ''online-alpha-spending-v1'', oe_maximumOnlineError = Fin 1, oe_gateOrdinal = 1,
       oe_alphaSpent = Fin (1 / 4), cumulativeSpentBefore = Fin 0, cumulativeSpentAfter = Fin (1 / 4), remainingAfter = Fin (3 / 4),
       reservationHash = sixty_four CHR ''a'', oe_priorStateHash = sixty_four CHR ''b'', oe_resultingStateHash = sixty_four CHR ''c''\<rparr>,
     va_aggregateCostUsd = Fin 2, va_tokens = Fin 20, va_wallTimeMs = Fin 20, va_attestationHash = sixty_four CHR ''d'',
     releasedEvidenceHash = None, behavioralSourceCommitmentHash = None,
     attemptAccounting = \<lparr>ta_policyVersion = POLICY_VERSION, ta_terminalStatus = Complete, ta_presealedPairCount = 12,
       ta_presealedArmCount = 24, ta_validArmCount = 24, ta_attemptedArmCount = 24, ta_unresolvedArmCount = 0, ta_totalAttemptCount = 25,
       ta_replacementAttemptCount = 1, ta_infrastructureFailureCount = 1, ta_nonInfrastructureFailureCount = 0,
       ta_containsPanelHandle = False, ta_containsTaskIdentifiers = False, ta_containsCellIdentifiers = False,
       ta_containsAttemptIdentifiers = False, ta_containsEvidenceIdentifiers = False\<rparr>\<rparr>"

definition example_ports :: "validation_aggregate result \<Rightarrow> unit runner_env" where
  "example_ports answer = \<lparr>propose = (\<lambda>_ c _ _ w. (Inr (example_proposal c), w)), analyze = (\<lambda>_ _ _ _ w. (Inr (sixty_four CHR ''a''), w)),
     gates_run = (\<lambda>_ _ w. (Inr example_gates, w)), prepareRepair = (\<lambda>_ _ _ _ _ w. (Inr example_lease, w)),
     runRepair = (\<lambda>_ _ _ _ w. (Inl (Error ''unused''), w)), prepareValidation = (\<lambda>_ _ _ _ _ _ w. (Inr example_lease, w)),
     runValidation = (\<lambda>_ _ _ _ w. (answer, w)), consumeOrQuarantine = (\<lambda>_ _ _ w. (Inr (sixty_four CHR ''b''), w)),
     releaseDiagnosticBrief = (\<lambda>_ _ w. (Inr None, w)), journal_create = (\<lambda>_ _ _ w. (Inr (), w)),
     freezeProposal = (\<lambda>_ _ w. (Inr (), w)), recordGates = (\<lambda>_ _ w. (Inr (), w)), journal_repair = (\<lambda>_ _ w. (Inr (), w)),
     recordValidation = (\<lambda>_ _ _ w. (Inr (), w)), recordAnalysis = (\<lambda>_ _ w. (Inr (), w)), updateBudget = (\<lambda>_ w. (Inr (), w)),
     journal_seal = (\<lambda>_ _ champion promotion _ w. (case promotion of
         None \<Rightarrow> Inr \<lparr>sr_sealHash = sixty_four CHR ''e'', activeChampionAfter = champion\<rparr>
       | Some c \<Rightarrow> if \<not> is_git_oid (pc_commit c) \<or> pc_commit c = activeCommit champion then Inl (Error ''malformed'') else
           and_then (updateChampionPointers champion \<lparr>experimentNumber = pc_experimentNumber c, pt_commit = pc_commit c,
           pt_state = Promoted, sealedAt = ''2026-01-01T00:00:01.000Z'', sealHash = sixty_four CHR ''e''\<rparr>)
           (\<lambda>after. Inr \<lparr>sr_sealHash = sixty_four CHR ''e'', activeChampionAfter = after\<rparr>), w)),
     journal_interrupt = (\<lambda>_ _ _ w. (Inr (), w)), now_iso = (\<lambda>w. (Inr ''2026-01-01T00:00:00.000Z'', w)), stop_requested = (\<lambda>_ _. False)\<rparr>"

definition ran_budget :: "rat \<Rightarrow> rat \<Rightarrow> rat \<Rightarrow> rat \<Rightarrow> rat \<Rightarrow> rat \<Rightarrow> budget_snapshot" where
  "ran_budget cost used ms n m e = \<lparr>limits = limits (loop_budget 0 0), usage = \<lparr>spentUsd = Fin cost, tokens = Fin used,
     wallTimeMs = Fin ms, attempts = Fin n, privacyReleases = Fin 0, promotionLooks = Fin m, onlineErrorSpent = Fin e\<rparr>\<rparr>"

lemma example_spending:
  "spendBudget (loop_budget 0 0) (aggregate_delta (Fin 1) (Fin 10) (Fin 10) (Fin 0)) = Inr (ran_budget 1 10 10 0 0 0)"
  "spendBudget (ran_budget 1 10 10 0 0 0) [(''promotionLooks'', Fin 1)] = Inr (ran_budget 1 10 10 0 1 0)"
  "spendBudget (ran_budget 1 10 10 0 1 0) (aggregate_delta (Fin 2) (Fin 20) (Fin 20) (Fin 25)) = Inr (ran_budget 3 30 30 25 1 0)"
  "spendBudget (ran_budget 3 30 30 25 1 0) [(''onlineErrorSpent'', Fin (1 / 4))] = Inr (ran_budget 3 30 30 25 1 (1 / 4))"
  by code_simp+

lemma example_allowance:
  "\<exists>c. checkBudget (ran_budget 1 10 10 0 1 0) [(''privacyReleases'', Fin 1)] = Inr c \<and> allowed c"
proof -
  have "case checkBudget (ran_budget 1 10 10 0 1 0) [(''privacyReleases'', Fin 1)] of Inr c \<Rightarrow> allowed c | Inl _ \<Rightarrow> False" by code_simp
  then show ?thesis by (auto split: sum.splits)
qed

lemma example_validation_accepted: "assertValidationAggregate example_validation 24 28 = Inr ()"
proof -
  have "reproduceFreshValidationDisposition (va_inputs example_validation) = Inr Promote"
    "complete_accounting (attemptAccounting example_validation) example_validation" "valid_accounting (Fin 2) (Fin 20) (Fin 20)"
    "num_eq lit_095 (num_max lit_095 (num_sub (Fin 1) (Fin (1 / 4))))" "num_sub (num_add (Fin (1 / 4)) (Fin (3 / 4))) (Fin 1) = Fin 0"
    "num_eq (num_add (Fin 0) (Fin (1 / 4))) (Fin (1 / 4))"
    by code_simp+
  moreover obtain v where "num_of (1 / 10 ^ 12) = Fin v" "0 < v" using literal_bounds(1) by blast
  ultimately show ?thesis
    unfolding assertValidationAggregate_def valid_online_accounting_def
    by (simp add: guard_simps safe_int_def max_safe_def example_validation_def lower_hex_def num_le_def)
qed

lemma example_fields_runner:
  "ri_budget (cl_input loop_claimed) = loop_budget 0 0" "ri_champion (cl_input loop_claimed) = loop_champion 0 CHR ''a''"
  "ri_brief (cl_input loop_claimed) = None" "ei_number (ri_experiment (cl_input loop_claimed)) = 1"
  "ei_protocolHash (ri_experiment (cl_input loop_claimed)) = sixty_four CHR ''d''"
  by (simp_all add: loop_claimed_def)

lemmas run_evaluation = run_one_def run_body_def open_experiment_def obtain_proposal_def run_gates_def validated_close_def validate_candidate_def
  run_then_def then_do_def call_def check_def assign_def demand_def charge_def save_budget_def checkStop_def returns_def look_ahead_def
  hold_lease_def demand_continuation_def assertGateProtocol_def runner_start_def example_fields_runner

lemma example_abandoned:
  "\<exists>st. run_one (example_ports (Inl (Error ''disk''))) (cl_input loop_claimed) () = (Inl (Error ''disk''), st) \<and>
     (\<exists>candidate champion. Call_runValidation ''lease'' candidate champion (Inl (Error ''disk'')) \<in> set (rn_calls st))"
proof -
  obtain c where "checkBudget (ran_budget 1 10 10 0 1 0) [(''privacyReleases'', Fin 1)] = Inr c" using example_allowance by blast
  then show ?thesis
    by (simp add: run_evaluation example_spending example_ports_def example_gates_def lease_bounds_def example_lease_def repair_attempts_def
      safe_int_def max_safe_def lower_hex_def settle_lease_def interrupt_journal_def)
qed

lemma example_pointers:
  "updateChampionPointers (loop_champion 0 CHR ''a'') \<lparr>experimentNumber = 1, pt_commit = sixty_four CHR ''b'', pt_state = Promoted,
     sealedAt = t, sealHash = s\<rparr> = Inr (loop_champion 1 CHR ''b''\<lparr>updatedAt := t, sourceSealHash := s\<rparr>)"
proof -
  have "assertSha (sixty_four CHR ''b'') = Inr ()" by code_simp
  then show ?thesis by (simp add: updateChampionPointers_def loop_champion_def)
qed

lemmas conclusion = conclude_def consume_validation_def release_brief_def seal_validated_def sealed_result_def

lemma example_counts: "num_of_int 25 = Fin 25" "is_git_oid (sixty_four CHR ''b'')" "sixty_four CHR ''a'' \<noteq> sixty_four CHR ''b''"
  by code_simp+

lemma example_promotion:
  "\<exists>r st. run_one (example_ports (Inr example_validation)) (cl_input loop_claimed) () = (Inr r, st) \<and> rr_disposition r = Run_promoted"
proof -
  obtain c where "checkBudget (ran_budget 1 10 10 0 1 0) [(''privacyReleases'', Fin 1)] = Inr c" "allowed c" using example_allowance by blast
  moreover have "num_eq (Fin 1) (maximumOnlineError (limits (ran_budget 1 10 10 0 1 0)))"
    "num_eq (Fin 0) (onlineErrorSpent (usage (ran_budget 1 10 10 0 1 0)))" by code_simp+
  moreover have "maximumOnlineError (limits (ran_budget 3 30 30 25 1 0)) = Fin 1" by code_simp
  moreover note v = example_validation_accepted [unfolded example_validation_def]
  ultimately show ?thesis
    by (simp add: run_evaluation conclusion example_spending example_ports_def example_gates_def lease_bounds_def example_lease_def repair_attempts_def
      safe_int_def max_safe_def lower_hex_def example_validation_def example_counts example_pointers v example_proposal_def)
qed

lemma abandoned_course:
  assumes "leases_closed cs" "Call_runValidation token candidate champion (Inl x) \<in> set cs"
  shows "\<exists>attestation a. filter lease_call cs = [hd (filter lease_call cs), Call_runValidation token candidate champion (Inl x),
    Call_settle token attestation Panel_started_abandoned a]"
proof -
  obtain ls where ls: "filter lease_call cs = ls" by blast
  have "Call_runValidation token candidate champion (Inl x) \<in> set ls" using assms(2) unfolding ls [symmetric] by simp
  then show ?thesis using assms(1) unfolding leases_closed_def lease_course_def Let_def ls
    by (auto split: list.splits run_call.splits sum.splits if_splits)
qed

theorem runs_are_closed_witness:
  "\<exists>x st grant candidate champion attestation a. run_one (example_ports (Inl (Error ''disk''))) (cl_input loop_claimed) () = (Inl x, st) \<and>
     filter lease_call (rn_calls st) = [grant, Call_runValidation ''lease'' candidate champion (Inl x),
       Call_settle ''lease'' attestation Panel_started_abandoned a]"
proof -
  obtain st candidate champion where run: "run_one (example_ports (Inl (Error ''disk''))) (cl_input loop_claimed) () = (Inl (Error ''disk''), st)"
    and ran: "Call_runValidation ''lease'' candidate champion (Inl (Error ''disk'')) \<in> set (rn_calls st)" using example_abandoned by blast
  have "leases_closed (rn_calls st)" using runs_are_closed [OF run] by blast
  from abandoned_course [OF this ran] run show ?thesis by blast
qed

theorem promotion_fully_evaluated_witness:
  "\<exists>r st v attestation. run_one (example_ports (Inr example_validation)) (cl_input loop_claimed) () = (Inr r, st) \<and>
     validPairs v = 12 \<and> Call_recordValidation v attestation (Inr ()) \<in> set (rn_calls st)"
proof -
  obtain r st where run: "run_one (example_ports (Inr example_validation)) (cl_input loop_claimed) () = (Inr r, st)"
    and promoted: "rr_disposition r = Run_promoted" using example_promotion by blast
  have last_calls: "\<exists>v attestation. validPairs v = 12 \<and> Call_recordValidation v attestation (Inr ()) \<in> set cs"
    if "subseq (xs @ ys @ [c, d, e, Call_recordValidation v attestation (Inr ()), f]) cs" "validPairs v = 12" for xs ys cs c d e f v attestation
    using list_emb_set [OF that(1), of "Call_recordValidation v attestation (Inr ())"] that(2) by auto
  show ?thesis using promotion_fully_evaluated [OF run promoted] last_calls run unfolding Let_def by blast
qed

lemma loop_budget_inv: "budget_inv (loop_budget 0 0)"
  by code_simp

theorem run_budget_accounted_witness:
  "\<exists>r st. run_one (example_ports (Inr example_validation)) (cl_input loop_claimed) () = (Inr r, st) \<and>
     fold_result spendBudget (loop_budget 0 0) (bill (rn_calls st)) = Inr (rr_budget r) \<and> sum_list (map looks (rn_calls st)) = 1"
proof -
  obtain r st where run: "run_one (example_ports (Inr example_validation)) (cl_input loop_claimed) () = (Inr r, st)"
    and promoted: "rr_disposition r = Run_promoted" using example_promotion by blast
  have "budget_inv (ri_budget (cl_input loop_claimed))" using loop_budget_inv by (simp add: example_fields_runner)
  from run_budget_accounted [OF this run] promoted run show ?thesis by (auto simp: example_fields_runner)
qed

theorem runner_meets_loop_witness:
  "\<exists>r st. run_one (example_ports (Inr example_validation)) (cl_input loop_claimed) () = (Inr r, st) \<and>
     rr_disposition r = Run_promoted \<and> assertExperimentResult example_host loop_claimed r = Inr ()"
proof -
  obtain r st where run: "run_one (example_ports (Inr example_validation)) (cl_input loop_claimed) () = (Inr r, st)"
    and promoted: "rr_disposition r = Run_promoted" using example_promotion by blast
  have hex: "is_sha256 (sixty_four CHR ''e'')" by code_simp
  have "journal_law example_host (example_ports (Inr example_validation))"
    unfolding journal_law_def
    by (auto simp: example_ports_def hex and_then_Inr example_host_def split: option.splits if_splits)
  moreover have "assertChampion example_host (loop_champion 0 CHR ''a'') = Inr ()" "assertDiagnosticBrief None = Inr ()" by code_simp+
  ultimately show ?thesis
    using runner_meets_loop [OF _ refl _ _ _ _ run, of example_host] loop_budget_inv run promoted
    by (simp add: example_fields_runner safe_int_def max_safe_def)
qed

end
