(* ===== verification/Spec2Isabelle.thy ===== *)
theory Spec2Isabelle
  imports Lifecycle Budget Compliance Validation_Decision Panel_Ledger Attempt_Ledger One_Use_Ledger
    Selection_Panels Gate_Properties Local_Properties Cache_Properties Campaign_Properties Autonomous_Properties
    Runner_Properties
begin

text \<open>
  A verification library for the decision core of df-demo, an optimizer of agent harnesses:
  a campaign runs numbered experiments; each freezes a candidate, passes it through a repair
  panel and a fresh paired validation on hidden tasks, and promotes it to champion only on
  statistical evidence. What decides is TypeScript under \<open>src/src\<close>; this library translates
  that code, component by component, and proves what the components promise.

  \<^bold>\<open>How the parts interact.\<close> The lifecycle (\<open>core/lifecycle.ts\<close>) says which states an experiment may
  pass; the budget (\<open>core/budget.ts\<close>) what it may spend. Hidden tasks are drawn into panels
  (\<open>evaluation/selection.ts\<close>), a panel is sealed in the panel ledger (\<open>evaluation/ledger.ts\<close>) and its
  arms run as attempts of the attempt ledger (\<open>evaluation/validation-attempt-ledger.ts\<close>). The
  results reach the gates (\<open>evaluation/gates.ts\<close>), which summarize them by posterior statistics and
  spend the online error budget (\<open>evaluation/statistics.ts\<close>), and leave the verdict to the
  disposition of the core (\<open>core/validation-decision.ts\<close>). Requests of optimizers to the trusted
  side pass the one-use ledger (\<open>broker/ledger.ts\<close>), and every document is bound by the hash of
  its canonical JSON (\<open>schemas/canonical.ts\<close>). The local deployment has its own panel policy and
  decision (\<open>local/real/panel.ts\<close>, \<open>local/real/decision.ts\<close>).

  Above these, the experiment runner (\<open>orchestrator/experiment-runner.ts\<close>) takes one experiment from
  its proposal to its seal through ports: optimizer, gates, broker, journal. The autonomous loop
  (\<open>orchestrator/autonomous-loop.ts\<close>) claims experiments, has the runner run them, checks every answer
  and commits or interrupts each claim. The campaign store (\<open>campaign/store.ts\<close>) keeps the history of
  campaign states and appends to it under the transition rules of \<open>campaign/invariants.ts\<close> and
  \<open>schemas/registry.ts\<close>. The champion cache (\<open>evaluation/cache.ts\<close>) lets a repair reuse signed champion
  observations after a drift test.

  \<^bold>\<open>Foundations.\<close>
  \<^item> \<open>Js_Number\<close>: the numbers of the language. A number is NaN, an infinity or a rational that
    round-to-nearest-even at 53 bits produced; every arithmetic operation of a definition
    rounds where the code rounds. Monotonicity, exactness on safe integers, error bounds.
  \<^item> \<open>Prelude\<close>: results (\<open>error + 'a\<close>), chains of checks, maps as association lists in insertion
    order, digests and tokens, decimal text, and the \<open>host\<close>: what the code takes from its platform
    (\<open>Date.parse\<close>, SHA-256, \<open>localeCompare\<close>), a parameter of the definitions that use it.
  \<^item> \<open>Machines\<close>: histories of operations on a state, and the sorting the code relies on. Its locales
    \<open>comparator\<close> and \<open>strict_comparator\<close> state what a comparison function promises, the locale of
    guarded machines what an invariant promises; each is interpreted on the comparison functions
    and ledgers of the code.

  \<^bold>\<open>Components.\<close>
  \<^item> \<open>Lifecycle\<close> (\<open>core/lifecycle.ts\<close>): transition tables as functions, \<open>transitionExperiment\<close>, champion
    pointers, experiment names and the repair ledger. Runs are reachable sequences of states.
  \<^item> \<open>Budget\<close> (\<open>core/budget.ts\<close>): limits, usage, checks and spending over rounded numbers.
  \<^item> \<open>Compliance\<close> (\<open>core/compliance.ts\<close>): the channels a manifest may use.
  \<^item> \<open>Validation_Decision\<close> (\<open>core/validation-decision.ts\<close>): the disposition of a fresh validation.
  \<^item> \<open>Canonical_Json\<close> (\<open>schemas/canonical.ts\<close>): serialization of values on a heap with sharing and
    cycles, and content hashes. The reference definition is the tree a value unfolds to.
  \<^item> \<open>Hidden_Types\<close>, \<open>Panel_Ledger\<close> (\<open>evaluation/types.ts\<close>, \<open>evaluation/ledger.ts\<close>): panels with status,
    disposition, repair attempts and cooldown; shadow slices; exposure of tasks.
  \<^item> \<open>Attempt_Ledger\<close> (\<open>evaluation/validation-attempt-ledger.ts\<close>): claims and receipts of the twenty-four
    sealed arms, and the validation of a ledger by replaying its log of operations.
  \<^item> \<open>One_Use_Ledger\<close> (\<open>broker/ledger.ts\<close>): claims by many controllers, attestations, completion,
    failure and authorized recovery, as one machine whose steps are the ledger's transactions.
  \<^item> \<open>Selection\<close>, \<open>Selection_Panels\<close> (\<open>evaluation/selection.ts\<close>): quotas, scores, panels, shadow
    reservations and the count of panels that are left.
  \<^item> \<open>Statistics\<close>, \<open>Posterior_Properties\<close> (\<open>evaluation/statistics.ts\<close>): beta posteriors, the continued
    fraction, the inverse by bisection, quasi-random quadrature and its summaries.
  \<^item> \<open>Online_Budget\<close> (\<open>evaluation/statistics.ts\<close>): the online error budget and its gates.
  \<^item> \<open>Gates\<close>, \<open>Gate_Properties\<close> (\<open>evaluation/gates.ts\<close>): the repair, validation and shadow gates and the
    budget of attempts; the validation gate refines the disposition of the core.
  \<^item> \<open>Local_Panel\<close>, \<open>Local_Decision\<close>, \<open>Local_Properties\<close> (\<open>local/real\<close>): the local panel policy, the
    assessment of a champion and the paired decision.
  \<^item> \<open>Cache\<close>, \<open>Cache_Properties\<close> (\<open>evaluation/cache.ts\<close>): reuse of signed observations, drift cohorts and
    their tail probability; the verifier of signatures is a parameter.
  \<^item> \<open>Campaign_State\<close> (\<open>campaign/invariants.ts\<close>, \<open>schemas/control.ts\<close>, \<open>schemas/registry.ts\<close>): the state
    document and which state may follow which. \<open>Campaign_Store\<close> (\<open>campaign/store.ts\<close>): every operation on
    the list of persisted states. \<open>Campaign_History\<close> shows what an accepted history looks like,
    \<open>Campaign_Commits\<close> that what is committed can be read again, and exactly when not, \<open>Campaign_Properties\<close> what follows.
  \<^item> \<open>Autonomous_Loop\<close> (\<open>orchestrator/autonomous-loop.ts\<close>): a pass, its error path and the loop, over ports
    that act on a state of the world. \<open>Autonomous_Properties\<close>: what is committed, interrupted and
    reported. Its locale \<open>faithful_json\<close> says that equal canonical texts mean equal values; it is
    interpreted on the documents the loop compares by their text.
  \<^item> \<open>Experiment_Runner\<close> (\<open>orchestrator/experiment-runner.ts\<close>, \<open>orchestrator/contracts.ts\<close>): the stages of a
    run with its \<open>catch\<close>; the state also records each call of a port with its answer, which is what the
    theorems speak of. \<open>Runner_Properties\<close> has a calculus of weakest preconditions (\<open>wp\<close>) whose two
    postconditions are for a value and for an error; its rules (\<open>wp_rules\<close>) carry the invariants
    of a run through the stages: the calls about a lease, the bill of the calls and the budgets saved,
    the trail of calls behind a promotion. The last section shows that the
    runner meets what the loop demands of it.

  \<^bold>\<open>Conventions.\<close> A field the code uses only as an integer is an \<open>int\<close>, with the code's
  \<open>Number.isSafeInteger\<close> as a check; a real quantity is a \<open>number\<close>. A \<open>Map\<close> or an object whose order
  shows is an association list; an object read with a computed key also finds the members it
  inherits from \<open>Object.prototype\<close> where that shows. A string union is a datatype. Errors carry the
  message of the code without its interpolated parts.

  \<^bold>\<open>Termination and bounds.\<close> The bisection has the code's 72 steps, the continued fraction its two
  hundred, the redraws of a local panel their limit of at most 4096: these are structural. The
  search for the next prime and the digits of the radical inverse terminate by measures, proved
  where they are defined. No definition needs fuel beyond the limits the code has; serialization
  recurs on the objects of the heap that are not yet on its path, as the code's check for cycles does.
  The autonomous loop is a \<open>while_option\<close>, proved to return after at most the permitted number of
  passes. A run of an experiment is straight-line code between calls of ports; a port is a function,
  so a port that never answers is outside the model.

  \<^bold>\<open>What is assumed of the platform.\<close> \<open>pow_accurate\<close> and \<open>pow_half\<close> bound the error of \<open>**\<close>;
  \<open>collation_law\<close> and \<open>identity_collation\<close> say that \<open>localeCompare\<close> orders the identifiers in use totally;
  \<open>number_law\<close> that distinct numbers print differently. Each is a hypothesis of the theorems that
  need it and is met by the concrete platform of their witnesses. That the runner meets the loop rests
  on one law of its journal (\<open>journal_law\<close>), which states what \<open>seal\<close> of
  \<open>orchestrator/experiment-journal.ts\<close> checks and answers: the pointers of before, or those
  \<open>updateChampionPointers\<close> makes of a new Git commit at an instant of the journal's own clock. No theorem
  assumes anything of SHA-256 but where it says so.

  \<^bold>\<open>Not modelled.\<close> Parsing of untyped documents by schemas, files, processes, network, containers,
  model providers and the user interface; the stores under \<open>cloud/\<close>, which wrap the ledgers modelled
  here in mounted volumes; the journal and the broker service, which orchestrate them.
\<close>

end
